(* ===== verification/Errand_Prelude.thy ===== *)
theory Errand_Prelude
  imports Complex_Main "HOL-Library.Sublist" "HOL-Library.Char_ord" "HOL-Library.List_Lexorder"
    "HOL-Library.Product_Lexorder" "HOL-Library.Multiset"
begin

text \<open>
  Shared vocabulary of the development: Python's string operations on \<open>string\<close> (a list of
  characters with code below 256), Python's truthiness of optional strings, the errors the
  modelled code raises, association lists with dictionary behaviour, and the generic lemmas the
  component theories use.  The collection \<open>row_simps\<close> holds the rewrite rules about table
  rows, \<open>str_simps\<close> those about strings.
\<close>

named_theorems row_simps "rewrite rules about table rows"
named_theorems str_simps "rewrite rules about Python string operations"

subsection \<open>Errors\<close>

text \<open>The exceptions that leave a modelled operation, one constructor per class raised.\<close>

datatype py_error =
    Http nat string        \<comment> \<open>fastapi.HTTPException(status, detail)\<close>
  | ValueErr string
  | TypeErr string
  | KeyErr string
  | AttributeErr string
  | OverflowErr
  | IntegrityErr           \<comment> \<open>a unique or primary key was violated\<close>
  | NoResultFound          \<comment> \<open>\<open>scalar_one()\<close> on no row\<close>
  | OsErr string

definition bind_res :: "'e + 'a \<Rightarrow> ('a \<Rightarrow> 'e + 'b) \<Rightarrow> 'e + 'b" where
  "bind_res r f = (case r of Inl e \<Rightarrow> Inl e | Inr x \<Rightarrow> f x)"

lemma bind_res_simps [simp]:
  "bind_res (Inl e) f = Inl e"
  "bind_res (Inr x) f = f x"
  by (simp_all add: bind_res_def)

lemma bind_res_eq_Inr:
  "bind_res r f = Inr y \<longleftrightarrow> (\<exists>x. r = Inr x \<and> f x = Inr y)"
  by (cases r) auto

subsection \<open>Time\<close>

text \<open>Instants and durations are integers in microseconds, the resolution of
  \<open>datetime\<close> and \<open>timedelta\<close>.\<close>

type_synonym time = int

definition seconds :: "int \<Rightarrow> time" where "seconds n = n * 1000000"
definition minutes :: "int \<Rightarrow> time" where "minutes n = seconds (60 * n)"
definition hours :: "int \<Rightarrow> time" where "hours n = minutes (60 * n)"
definition days :: "int \<Rightarrow> time" where "days n = hours (24 * n)"

lemma seconds_mono [simp]: "seconds a \<le> seconds b \<longleftrightarrow> a \<le> b"
  and seconds_less [simp]: "seconds a < seconds b \<longleftrightarrow> a < b"
  and minutes_mono [simp]: "minutes a \<le> minutes b \<longleftrightarrow> a \<le> b"
  and minutes_less [simp]: "minutes a < minutes b \<longleftrightarrow> a < b"
  by (auto simp: seconds_def minutes_def)

subsection \<open>Strings\<close>

definition char_code :: "char \<Rightarrow> nat" where "char_code c = of_char c"
definition newline :: char where "newline = char_of (10 :: nat)"

text \<open>\<open>str.isspace\<close> and \<open>\s\<close> on characters below 256.\<close>

definition is_space :: "char \<Rightarrow> bool" where
  "is_space c = (let n = char_code c in
     (9 \<le> n \<and> n \<le> 13) \<or> (28 \<le> n \<and> n \<le> 32) \<or> n = 133 \<or> n = 160)"

definition is_digit :: "char \<Rightarrow> bool" where
  "is_digit c = (let n = char_code c in 48 \<le> n \<and> n \<le> 57)"

definition is_lower_az :: "char \<Rightarrow> bool" where
  "is_lower_az c = (let n = char_code c in 97 \<le> n \<and> n \<le> 122)"

definition is_upper_az :: "char \<Rightarrow> bool" where
  "is_upper_az c = (let n = char_code c in 65 \<le> n \<and> n \<le> 90)"

definition digit_val :: "char \<Rightarrow> int" where
  "digit_val c = of_char c - 48"

definition lower_char :: "char \<Rightarrow> char" where
  "lower_char c = (let n = char_code c in
     if (65 \<le> n \<and> n \<le> 90) \<or> (192 \<le> n \<and> n \<le> 222 \<and> n \<noteq> 215) then char_of (n + 32) else c)"

definition py_lower :: "string \<Rightarrow> string" where
  "py_lower s = map lower_char s"

definition lstrip :: "string \<Rightarrow> string" where
  "lstrip s = dropWhile is_space s"

definition rstrip :: "string \<Rightarrow> string" where
  "rstrip s = rev (dropWhile is_space (rev s))"

definition strip :: "string \<Rightarrow> string" where
  "strip s = rstrip (lstrip s)"

definition rstrip_char :: "char \<Rightarrow> string \<Rightarrow> string" where
  "rstrip_char c s = rev (dropWhile ((=) c) (rev s))"

definition lstrip_char :: "char \<Rightarrow> string \<Rightarrow> string" where
  "lstrip_char c s = dropWhile ((=) c) s"

definition starts_with :: "string \<Rightarrow> string \<Rightarrow> bool" where
  "starts_with s p = (take (length p) s = p)"

definition ends_with :: "string \<Rightarrow> string \<Rightarrow> bool" where
  "ends_with s p = (length p \<le> length s \<and> drop (length s - length p) s = p)"

text \<open>\<open>sub in s\<close>, and the index of the first occurrence (\<open>str.find\<close>, \<open>None\<close> for -1).\<close>

fun find_str :: "string \<Rightarrow> string \<Rightarrow> nat option" where
  "find_str p [] = (if p = [] then Some 0 else None)"
| "find_str p (c # s) =
     (if starts_with (c # s) p then Some 0 else map_option Suc (find_str p s))"

definition contains_str :: "string \<Rightarrow> string \<Rightarrow> bool" where
  "contains_str s p = (find_str p s \<noteq> None)"

fun find_char :: "char \<Rightarrow> string \<Rightarrow> nat option" where
  "find_char c [] = None"
| "find_char c (d # s) = (if d = c then Some 0 else map_option Suc (find_char c s))"

fun rfind_char :: "char \<Rightarrow> string \<Rightarrow> nat option" where
  "rfind_char c [] = None"
| "rfind_char c (d # s) =
     (case rfind_char c s of Some i \<Rightarrow> Some (Suc i) | None \<Rightarrow> if d = c then Some 0 else None)"

text \<open>\<open>s.replace(p, q)\<close> for a non-empty \<open>p\<close>: occurrences from the left, not overlapping.\<close>

function replace_str :: "string \<Rightarrow> string \<Rightarrow> string \<Rightarrow> string" where
  "replace_str p q [] = []"
| "replace_str p q (c # s) =
     (if p \<noteq> [] \<and> starts_with (c # s) p then q @ replace_str p q (drop (length p - 1) s)
      else c # replace_str p q s)"
  by pat_completeness auto
termination by (relation "measure (\<lambda>(_, _, s). length s)") auto

text \<open>\<open>s.split(c)\<close> on one character, and \<open>sep.join(parts)\<close>.\<close>

fun split_char :: "char \<Rightarrow> string \<Rightarrow> string list" where
  "split_char c [] = [[]]"
| "split_char c (d # s) =
     (case split_char c s of
        [] \<Rightarrow> [[d]]
      | w # ws \<Rightarrow> if d = c then [] # w # ws else (d # w) # ws)"

fun join :: "string \<Rightarrow> string list \<Rightarrow> string" where
  "join sep [] = []"
| "join sep [w] = w"
| "join sep (w # v # ws) = w @ sep @ join sep (v # ws)"

text \<open>\<open>s.split()\<close>: maximal runs of non-space characters.\<close>

fun words_aux :: "string \<Rightarrow> string \<Rightarrow> string list" where
  "words_aux acc [] = (if acc = [] then [] else [rev acc])"
| "words_aux acc (c # s) =
     (if is_space c then (if acc = [] then words_aux [] s else rev acc # words_aux [] s)
      else words_aux (c # acc) s)"

definition words :: "string \<Rightarrow> string list" where "words s = words_aux [] s"

text \<open>Decimal printing (\<open>str(n)\<close> of an int) and the value of a digit string.\<close>

definition digit_char :: "int \<Rightarrow> char" where "digit_char n = char_of (48 + n)"

fun show_nat :: "int \<Rightarrow> string" where
  "show_nat n = (if n < 10 then [digit_char n] else show_nat (n div 10) @ [digit_char (n mod 10)])"

declare show_nat.simps [simp del]

definition show_int :: "int \<Rightarrow> string" where
  "show_int i = (if i < 0 then CHR ''-'' # show_nat (- i) else show_nat i)"

fun digits_val_aux :: "int \<Rightarrow> string \<Rightarrow> int" where
  "digits_val_aux acc [] = acc"
| "digits_val_aux acc (c # s) = digits_val_aux (acc * 10 + digit_val c) s"

definition digits_val :: "string \<Rightarrow> int" where "digits_val s = digits_val_aux 0 s"

text \<open>Python truthiness of an optional string.\<close>

definition truthy :: "string option \<Rightarrow> bool" where
  "truthy x = (case x of None \<Rightarrow> False | Some s \<Rightarrow> s \<noteq> [])"

lemma starts_with_prefix [str_simps]: "starts_with s p \<longleftrightarrow> prefix p s"
  by (metis append_eq_conv_conj append_take_drop_id prefix_def starts_with_def)

lemma find_char_bound: "find_char c s = Some i \<Longrightarrow> i < length s \<and> s ! i = c"
  by (induction s arbitrary: i) (auto split: if_splits)

lemma rfind_char_bound: "rfind_char c s = Some i \<Longrightarrow> i < length s \<and> s ! i = c"
  by (induction s arbitrary: i) (auto split: if_splits option.splits)

lemma length_strip_le: "length (strip s) \<le> length s"
proof -
  have "length (rstrip t) \<le> length t" for t
    by (metis length_dropWhile_le length_rev rstrip_def)
  then show ?thesis
    by (metis length_dropWhile_le le_trans lstrip_def strip_def)
qed

lemma strip_digits [simp]: "digits_val_aux a (s @ t) = digits_val_aux (digits_val_aux a s) t"
  by (induction s arbitrary: a) auto

lemma digit_val_char: "0 \<le> n \<Longrightarrow> n < 10 \<Longrightarrow> digit_val (digit_char n) = n"
  by (simp add: digit_val_def digit_char_def of_char_of)

lemma is_digit_char: "0 \<le> n \<Longrightarrow> n < 10 \<Longrightarrow> is_digit (digit_char n)"
proof -
  assume n: "0 \<le> n" "n < 10"
  then have "n = 0 \<or> n = 1 \<or> n = 2 \<or> n = 3 \<or> n = 4 \<or> n = 5 \<or> n = 6 \<or> n = 7 \<or> n = 8 \<or> n = 9"
    by presburger
  then show ?thesis
    by (elim disjE; simp only:; code_simp)
qed

lemma digits_val_show_nat [str_simps]: "0 \<le> n \<Longrightarrow> digits_val (show_nat n) = n"
proof (induction n rule: show_nat.induct)
  case (1 n)
  show ?case
  proof (cases "n < 10")
    case True
    then show ?thesis using 1
      by (subst show_nat.simps) (simp add: digits_val_def digit_val_char)
  next
    case False
    then have ih: "digits_val (show_nat (n div 10)) = n div 10" using 1 by simp
    have "digits_val (show_nat n) = digits_val_aux (digits_val (show_nat (n div 10))) [digit_char (n mod 10)]"
      using False by (subst show_nat.simps) (simp add: digits_val_def)
    then show ?thesis using ih by (simp add: digit_val_char)
  qed
qed

lemma show_nat_digits [str_simps]: "0 \<le> n \<Longrightarrow> list_all is_digit (show_nat n)"
proof (induction n rule: show_nat.induct)
  case (1 n)
  then show ?case
    by (cases "n < 10"; subst show_nat.simps) (simp_all add: is_digit_char)
qed

lemma show_nat_nonempty [simp]: "show_nat n \<noteq> []"
  by (subst show_nat.simps) simp

subsection \<open>Association lists as Python dictionaries\<close>

text \<open>Insertion keeps the position of an existing key and appends a new one, as
  \<open>dict\<close> does.\<close>

fun dict_set :: "'k \<Rightarrow> 'v \<Rightarrow> ('k \<times> 'v) list \<Rightarrow> ('k \<times> 'v) list" where
  "dict_set k v [] = [(k, v)]"
| "dict_set k v ((k', v') # d) = (if k' = k then (k, v) # d else (k', v') # dict_set k v d)"

definition dict_del :: "'k \<Rightarrow> ('k \<times> 'v) list \<Rightarrow> ('k \<times> 'v) list" where
  "dict_del k d = filter (\<lambda>(k', _). k' \<noteq> k) d"

abbreviation dict_get :: "('k \<times> 'v) list \<Rightarrow> 'k \<Rightarrow> 'v option" where
  "dict_get d k \<equiv> map_of d k"

definition dict_keys :: "('k \<times> 'v) list \<Rightarrow> 'k list" where
  "dict_keys d = map fst d"

lemma map_of_dict_set [simp]: "map_of (dict_set k v d) = (map_of d)(k \<mapsto> v)"
  by (induction d) auto

lemma map_of_dict_del [simp]: "map_of (dict_del k d) = (map_of d)(k := None)"
  by (induction d) (auto simp: dict_del_def fun_eq_iff)

lemma set_keys_dict_set: "fst ` set (dict_set k v d) = insert k (fst ` set d)"
proof (induction d)
  case (Cons p d)
  then show ?case by (cases p) (auto simp: insert_commute)
qed simp

lemma distinct_dict_set: "distinct (map fst d) \<Longrightarrow> distinct (map fst (dict_set k v d))"
proof (induction d)
  case (Cons p d)
  obtain a b where p: "p = (a, b)" by (cases p)
  from Cons show ?case
    by (auto simp: p set_keys_dict_set)
qed simp

lemma distinct_dict_del: "distinct (map fst d) \<Longrightarrow> distinct (map fst (dict_del k d))"
  by (auto simp: dict_del_def distinct_map_filter)

subsection \<open>Lists\<close>

lemma find_Some_in: "find P xs = Some x \<Longrightarrow> x \<in> set xs \<and> P x"
  by (induction xs) (auto split: if_splits)

lemma map_filter_id: "(\<And>x. x \<in> set xs \<Longrightarrow> P x \<Longrightarrow> f x = x) \<Longrightarrow>
    map (\<lambda>x. if P x then f x else x) xs = xs"
  by (induction xs) auto

lemma distinct_map_inj_upd:
  assumes "distinct (map f xs)" "\<And>x. f (g x) = f x"
  shows "distinct (map f (map g xs))"
  using assms by (simp add: o_def)

text \<open>Consecutive indices counted as \<open>enumerate\<close> does.\<close>

lemma enumerate_nth: "(i, x) \<in> set (enumerate 0 xs) \<Longrightarrow> i < length xs \<and> xs ! i = x"
  by (auto simp: in_set_enumerate_eq)

end
