(* ===== verification/Task_Model.thy ===== *)
theory Task_Model
  imports Errand_Prelude
begin

text \<open>
  The rows of the task board (\<open>errand/models.py\<close>), the queries and statements the handlers
  share, and the tag helpers of \<open>errand/tags.py\<close> and \<open>errand/task_creation.py\<close>.  A handler
  is a function from the database to an error or the new database; on an error the session is
  closed without a commit, so the caller keeps the old database.

  Ids are natural numbers standing for UUIDs, drawn fresh.  A handler reads the clock once,
  \<open>now\<close>.  SQLAlchemy's \<open>onupdate\<close> is explicit: an UPDATE that does not set \<open>updated_at\<close>
  stamps it (\<open>touch\<close>), an ORM flush does so only when a column changed (\<open>flush_row\<close>).
\<close>

subsection \<open>Rows\<close>

datatype task_status =
  New | Review | Scheduled | Pending | Running | Completed | Deleted | Archived

record task =
  t_id :: nat
  t_title :: string
  t_description :: "string option"
  t_status :: task_status
  t_created_at :: time
  t_updated_at :: time
  t_category :: "string option"
  t_execute_at :: "time option"
  t_repeat_interval :: "string option"
  t_repeat_until :: "time option"
  t_position :: int
  t_output :: "string option"
  t_runner_logs :: "string option"
  t_questions :: "string list option"
  t_retry_count :: int
  t_heartbeat_at :: "time option"
  t_profile_id :: "nat option"
  t_created_by :: "string option"
  t_updated_by :: "string option"
  t_encrypted_env :: "string option"
  t_is_eval :: bool

text \<open>What an API response and an event carry: the \<open>TaskResponse\<close> of
  \<open>errand/task_creation.py\<close>, and the dictionary \<open>_task_to_dict\<close> builds in the scheduler,
  the zombie cleanup and the task manager.\<close>

record task_response =
  r_id :: nat
  r_title :: string
  r_description :: "string option"
  r_status :: task_status
  r_position :: int
  r_category :: "string option"
  r_execute_at :: "time option"
  r_repeat_interval :: "string option"
  r_repeat_until :: "time option"
  r_output :: "string option"
  r_runner_logs :: "string option"
  r_questions :: "string list option"
  r_retry_count :: int
  r_heartbeat_at :: "time option"
  r_profile_id :: "nat option"
  r_profile_name :: "string option"
  r_tags :: "string list"
  r_created_at :: time
  r_updated_at :: time
  r_created_by :: "string option"
  r_updated_by :: "string option"
  r_is_eval :: bool
  r_classification :: "string option"

record task_dict =
  d_id :: nat
  d_title :: string
  d_description :: "string option"
  d_status :: task_status
  d_position :: int
  d_category :: "string option"
  d_execute_at :: "time option"
  d_repeat_interval :: "string option"
  d_repeat_until :: "time option"
  d_output :: "string option"
  d_retry_count :: int
  d_heartbeat_at :: "time option"
  d_profile_id :: "nat option"
  d_profile_name :: "string option"
  d_tags :: "string list"
  d_created_at :: time
  d_updated_at :: time

text \<open>The dictionary the MCP tools publish for a new task.\<close>

record new_task_data =
  n_id :: nat
  n_title :: string
  n_description :: "string option"
  n_status :: task_status
  n_position :: int
  n_category :: "string option"
  n_execute_at :: "time option"
  n_repeat_interval :: "string option"
  n_repeat_until :: "time option"
  n_output :: "string option"
  n_runner_logs :: "string option"
  n_retry_count :: int
  n_profile_id :: "nat option"
  n_profile_name :: "string option"
  n_tags :: "string list"
  n_created_at :: time
  n_updated_at :: time
  n_is_eval :: bool

datatype board_event =
    Response_event string task_response
  | Dict_event string task_dict
  | New_task_event new_task_data
  | Deleted_event nat

record db =
  tasks :: "task list"
  tags :: "(nat \<times> string) list"         \<comment> \<open>id and unique name\<close>
  task_tags :: "(nat \<times> nat) list"       \<comment> \<open>task id, tag id: the composite primary key\<close>
  profiles :: "(nat \<times> string) list"     \<comment> \<open>id and unique name of a task profile\<close>
  outbox :: "board_event list"           \<comment> \<open>events published, oldest first\<close>

definition empty_db :: db where
  "empty_db = \<lparr>tasks = [], tags = [], task_tags = [], profiles = [], outbox = []\<rparr>"

fun status_of_string :: "string \<Rightarrow> task_status option" where
  "status_of_string s =
     (if s = ''scheduled'' then Some Scheduled else if s = ''pending'' then Some Pending
      else if s = ''running'' then Some Running else if s = ''review'' then Some Review
      else if s = ''completed'' then Some Completed else if s = ''deleted'' then Some Deleted
      else if s = ''archived'' then Some Archived else None)"

subsection \<open>Queries and statements\<close>

definition find_task :: "db \<Rightarrow> nat \<Rightarrow> task option" where
  "find_task db i = find (\<lambda>t. t_id t = i) (tasks db)"

definition fresh_id :: "nat list \<Rightarrow> nat" where
  "fresh_id ids = Suc (foldr max ids 0)"

definition touch :: "time \<Rightarrow> task \<Rightarrow> task" where
  "touch now t = t\<lparr>t_updated_at := now\<rparr>"

definition flush_row :: "time \<Rightarrow> task \<Rightarrow> task \<Rightarrow> task" where
  "flush_row now old new = (if new = old then old else touch now new)"

definition update_where :: "(task \<Rightarrow> bool) \<Rightarrow> (task \<Rightarrow> task) \<Rightarrow> db \<Rightarrow> db" where
  "update_where P f db = db\<lparr>tasks := map (\<lambda>t. if P t then f t else t) (tasks db)\<rparr>"

definition update_row :: "nat \<Rightarrow> (task \<Rightarrow> task) \<Rightarrow> db \<Rightarrow> db" where
  "update_row i f = update_where (\<lambda>t. t_id t = i) f"

definition insert_task :: "task \<Rightarrow> db \<Rightarrow> db" where
  "insert_task t db = db\<lparr>tasks := tasks db @ [t]\<rparr>"

definition column :: "db \<Rightarrow> task_status \<Rightarrow> task list" where
  "column db s = filter (\<lambda>t. t_status t = s) (tasks db)"

text \<open>\<open>func.max\<close> over no row is NULL; \<open>max_pos or 0\<close> sends NULL (and 0) to 0.\<close>

fun max_position :: "int list \<Rightarrow> int option" where
  "max_position [] = None"
| "max_position (p # ps) =
     (case max_position ps of None \<Rightarrow> Some p | Some m \<Rightarrow> Some (max p m))"

definition next_position :: "db \<Rightarrow> task_status \<Rightarrow> nat option \<Rightarrow> int" where
  "next_position db s exclude_id =
     (let rows = filter (\<lambda>t. exclude_id \<noteq> Some (t_id t)) (column db s)
      in (case max_position (map t_position rows) of None \<Rightarrow> 0 | Some m \<Rightarrow> m) + 1)"

subsection \<open>Tags\<close>

definition tag_names_of :: "db \<Rightarrow> nat \<Rightarrow> string list" where
  "tag_names_of db i =
     [n. (g, n) \<leftarrow> tags db, (i, g) \<in> set (task_tags db)]"

definition find_tag :: "db \<Rightarrow> string \<Rightarrow> nat option" where
  "find_tag db name = map_option fst (find (\<lambda>(g, n). n = name) (tags db))"

definition find_or_create_tag :: "db \<Rightarrow> string \<Rightarrow> db \<times> nat" where
  "find_or_create_tag db name =
     (case find_tag db name of
        Some g \<Rightarrow> (db, g)
      | None \<Rightarrow> (let g = fresh_id (map fst (tags db)) in (db\<lparr>tags := tags db @ [(g, name)]\<rparr>, g)))"

text \<open>An INSERT into \<open>task_tags\<close> of a pair that is there violates the primary key.\<close>

definition insert_task_tag :: "nat \<Rightarrow> nat \<Rightarrow> db \<Rightarrow> py_error + db" where
  "insert_task_tag i g db =
     (if (i, g) \<in> set (task_tags db) then Inl IntegrityErr
      else Inr (db\<lparr>task_tags := task_tags db @ [(i, g)]\<rparr>))"

definition add_tag :: "db \<Rightarrow> nat \<Rightarrow> string \<Rightarrow> db" where
  "add_tag db i name =
     (let (db1, g) = find_or_create_tag db name
      in if (i, g) \<in> set (task_tags db1) then db1
         else db1\<lparr>task_tags := task_tags db1 @ [(i, g)]\<rparr>)"

definition remove_tag :: "db \<Rightarrow> nat \<Rightarrow> string \<Rightarrow> db" where
  "remove_tag db i name =
     (case find_tag db name of
        None \<Rightarrow> db
      | Some g \<Rightarrow> db\<lparr>task_tags := filter (\<lambda>p. p \<noteq> (i, g)) (task_tags db)\<rparr>)"

fun sync_tags_loop :: "db \<Rightarrow> nat \<Rightarrow> string list \<Rightarrow> py_error + db" where
  "sync_tags_loop db i [] = Inr db"
| "sync_tags_loop db i (name # names) =
     (let (db1, g) = find_or_create_tag db name
      in bind_res (insert_task_tag i g db1) (\<lambda>db2. sync_tags_loop db2 i names))"

definition sync_tags :: "db \<Rightarrow> nat \<Rightarrow> string list \<Rightarrow> py_error + db" where
  "sync_tags db i names =
     sync_tags_loop (db\<lparr>task_tags := filter (\<lambda>p. fst p \<noteq> i) (task_tags db)\<rparr>) i names"

subsection \<open>Responses and events\<close>

definition from_task :: "task \<Rightarrow> string list \<Rightarrow> string option \<Rightarrow> string option \<Rightarrow> task_response" where
  "from_task t names profile_name classification =
     \<lparr>r_id = t_id t, r_title = t_title t, r_description = t_description t, r_status = t_status t,
      r_position = t_position t, r_category = t_category t, r_execute_at = t_execute_at t,
      r_repeat_interval = t_repeat_interval t, r_repeat_until = t_repeat_until t,
      r_output = t_output t, r_runner_logs = t_runner_logs t, r_questions = t_questions t,
      r_retry_count = t_retry_count t, r_heartbeat_at = t_heartbeat_at t,
      r_profile_id = t_profile_id t, r_profile_name = profile_name, r_tags = sort names,
      r_created_at = t_created_at t, r_updated_at = t_updated_at t,
      r_created_by = t_created_by t, r_updated_by = t_updated_by t, r_is_eval = t_is_eval t,
      r_classification = classification\<rparr>"

definition task_to_dict :: "task \<Rightarrow> string list \<Rightarrow> task_dict" where
  "task_to_dict t names =
     \<lparr>d_id = t_id t, d_title = t_title t, d_description = t_description t, d_status = t_status t,
      d_position = t_position t, d_category = t_category t, d_execute_at = t_execute_at t,
      d_repeat_interval = t_repeat_interval t, d_repeat_until = t_repeat_until t,
      d_output = t_output t, d_retry_count = t_retry_count t, d_heartbeat_at = t_heartbeat_at t,
      d_profile_id = t_profile_id t, d_profile_name = None, d_tags = sort names,
      d_created_at = t_created_at t, d_updated_at = t_updated_at t\<rparr>"

text \<open>The response for a row: its tags and profile are loaded with it.\<close>

definition response_of :: "db \<Rightarrow> string option \<Rightarrow> task \<Rightarrow> task_response" where
  "response_of db classification t =
     from_task t (tag_names_of db (t_id t)) (Option.bind (t_profile_id t) (map_of (profiles db)))
       classification"

definition emit :: "board_event \<Rightarrow> db \<Rightarrow> db" where
  "emit e db = db\<lparr>outbox := outbox db @ [e]\<rparr>"

definition publish :: "string \<Rightarrow> nat \<Rightarrow> db \<Rightarrow> db" where
  "publish kind i db =
     (case find_task db i of
        None \<Rightarrow> db
      | Some t \<Rightarrow> emit (Dict_event kind (task_to_dict t (tag_names_of db i))) db)"

definition publish_response :: "string \<Rightarrow> nat \<Rightarrow> string option \<Rightarrow> db \<Rightarrow> db" where
  "publish_response kind i classification db =
     (case find_task db i of
        None \<Rightarrow> db
      | Some t \<Rightarrow> emit (Response_event kind (response_of db classification t)) db)"

subsection \<open>Eval marking\<close>

definition EVAL_PROFILE_PREFIX :: string where "EVAL_PROFILE_PREFIX = ''eval--''"

definition is_eval_profile_name :: "string option \<Rightarrow> bool" where
  "is_eval_profile_name name =
     (case name of None \<Rightarrow> False | Some n \<Rightarrow> n \<noteq> [] \<and> starts_with n EVAL_PROFILE_PREFIX)"

definition resolve_is_eval :: "db \<Rightarrow> nat option \<Rightarrow> bool" where
  "resolve_is_eval db pid =
     (case pid of None \<Rightarrow> False | Some p \<Rightarrow> is_eval_profile_name (map_of (profiles db) p))"

subsection \<open>Row lemmas\<close>

definition ids :: "db \<Rightarrow> nat list" where "ids db = map t_id (tasks db)"

definition keeps_id :: "(task \<Rightarrow> task) \<Rightarrow> bool" where
  "keeps_id f \<longleftrightarrow> (\<forall>t. t_id (f t) = t_id t)"

definition keeps_at :: "nat \<Rightarrow> (task \<Rightarrow> task) \<Rightarrow> bool" where
  "keeps_at i f \<longleftrightarrow> (\<forall>t. t_id t = i \<longrightarrow> t_id (f t) = i)"

lemma keeps_at_const [simp]: "keeps_at i (\<lambda>_. u) \<longleftrightarrow> t_id u = i"
proof
  assume "keeps_at i (\<lambda>_. u)"
  moreover have "t_id (u\<lparr>t_id := i\<rparr>) = i" by simp
  ultimately show "t_id u = i" unfolding keeps_at_def by blast
qed (simp add: keeps_at_def)

lemma keeps_id_at: "keeps_id f \<Longrightarrow> keeps_at i f"
  by (simp add: keeps_id_def keeps_at_def)

lemma fresh_id_notin: "fresh_id xs \<notin> set xs"
proof -
  have "x \<in> set xs \<Longrightarrow> x \<le> foldr max xs 0" for x
    by (induction xs) (auto intro: max.coboundedI2)
  then have "x \<in> set xs \<Longrightarrow> x < fresh_id xs" for x
    by (simp add: fresh_id_def less_Suc_eq_le)
  then show ?thesis by (metis less_irrefl)
qed

lemma find_task_SomeD: "find_task db i = Some t \<Longrightarrow> t \<in> set (tasks db) \<and> t_id t = i"
  by (auto simp: find_task_def find_Some_iff)

lemma find_task_None: "find_task db i = None \<longleftrightarrow> i \<notin> set (ids db)"
  by (auto simp: find_task_def find_None_iff ids_def)

lemma find_task_unique:
  assumes "distinct (ids db)" "t \<in> set (tasks db)"
  shows "find_task db (t_id t) = Some t"
proof -
  obtain u where u: "find_task db (t_id t) = Some u"
    using assms(2) find_task_None[of db "t_id t"] by (cases "find_task db (t_id t)") (auto simp: ids_def)
  with find_task_SomeD[OF u] assms have "u = t"
    by (metis distinct_map ids_def inj_onD)
  with u show ?thesis by simp
qed

lemma tasks_update_where [row_simps]:
  "tasks (update_where P f db) = map (\<lambda>t. if P t then f t else t) (tasks db)"
  by (simp add: update_where_def)

lemma update_where_frame [simp]:
  "tags (update_where P f db) = tags db"
  "task_tags (update_where P f db) = task_tags db"
  "profiles (update_where P f db) = profiles db"
  "outbox (update_where P f db) = outbox db"
  by (simp_all add: update_where_def)

lemma tasks_update_row [row_simps]:
  "tasks (update_row i f db) = map (\<lambda>t. if t_id t = i then f t else t) (tasks db)"
  by (simp add: update_row_def tasks_update_where)

lemma update_row_frame [simp]:
  "tags (update_row i f db) = tags db"
  "task_tags (update_row i f db) = task_tags db"
  "profiles (update_row i f db) = profiles db"
  "outbox (update_row i f db) = outbox db"
  by (simp_all add: update_row_def)

lemma ids_update_where: "keeps_id f \<Longrightarrow> ids (update_where P f db) = ids db"
  by (auto simp: ids_def tasks_update_where keeps_id_def)

lemma ids_update_row: "keeps_at i f \<Longrightarrow> ids (update_row i f db) = ids db"
  by (auto simp: ids_def tasks_update_row keeps_at_def)

lemma find_task_update_row:
  assumes "keeps_at i f"
  shows "find_task (update_row i f db) j =
    (if j = i then map_option f (find_task db i) else find_task db j)"
proof -
  have "find (\<lambda>t. t_id t = j) (map (\<lambda>t. if t_id t = i then f t else t) ts) =
    (if j = i then map_option f (find (\<lambda>t. t_id t = i) ts) else find (\<lambda>t. t_id t = j) ts)" for ts
    using assms by (induction ts) (auto simp: keeps_at_def)
  then show ?thesis by (simp add: find_task_def tasks_update_row)
qed

lemma emit_frame [simp]:
  "tasks (emit e db) = tasks db" "tags (emit e db) = tags db"
  "task_tags (emit e db) = task_tags db" "profiles (emit e db) = profiles db"
  "outbox (emit e db) = outbox db @ [e]"
  by (simp_all add: emit_def)

lemma publish_frame [simp]:
  "tasks (publish k i db) = tasks db" "tags (publish k i db) = tags db"
  "task_tags (publish k i db) = task_tags db" "profiles (publish k i db) = profiles db"
  by (simp_all add: publish_def split: option.splits)

lemma publish_response_frame [simp]:
  "tasks (publish_response k i c db) = tasks db" "tags (publish_response k i c db) = tags db"
  "task_tags (publish_response k i c db) = task_tags db"
  "profiles (publish_response k i c db) = profiles db"
  by (simp_all add: publish_response_def split: option.splits)

lemma find_task_cong: "tasks a = tasks b \<Longrightarrow> find_task a i = find_task b i"
  by (simp add: find_task_def)

lemma find_task_publish [simp]: "find_task (publish k i db) j = find_task db j"
  by (rule find_task_cong) simp

lemma find_task_publish_response [simp]: "find_task (publish_response k i c db) j = find_task db j"
  by (rule find_task_cong) simp

lemma ids_publish [simp]: "ids (publish k i db) = ids db"
  "ids (publish_response k i c db) = ids db"
  by (simp_all add: ids_def)

text \<open>The tag statements leave the task rows alone.\<close>

lemma tasks_find_or_create_tag [simp]: "tasks (fst (find_or_create_tag db n)) = tasks db"
  by (simp add: find_or_create_tag_def Let_def split: option.splits)

lemma profiles_find_or_create_tag [simp]: "profiles (fst (find_or_create_tag db n)) = profiles db"
  by (simp add: find_or_create_tag_def Let_def split: option.splits)

lemma outbox_find_or_create_tag [simp]: "outbox (fst (find_or_create_tag db n)) = outbox db"
  by (simp add: find_or_create_tag_def Let_def split: option.splits)

lemma add_tag_frame [simp]:
  "tasks (add_tag db i n) = tasks db" "profiles (add_tag db i n) = profiles db"
  "outbox (add_tag db i n) = outbox db"
  by (simp_all add: add_tag_def Let_def case_prod_beta)

lemma remove_tag_frame [simp]:
  "tasks (remove_tag db i n) = tasks db" "profiles (remove_tag db i n) = profiles db"
  "outbox (remove_tag db i n) = outbox db"
  by (simp_all add: remove_tag_def split: option.splits)

lemma sync_tags_loop_frame:
  "sync_tags_loop db i ns = Inr db' \<Longrightarrow>
    tasks db' = tasks db \<and> profiles db' = profiles db \<and> outbox db' = outbox db"
proof (induction ns arbitrary: db)
  case (Cons n ns)
  obtain db1 g where c: "find_or_create_tag db n = (db1, g)" by (cases "find_or_create_tag db n")
  with Cons.prems obtain db2 where
    i: "insert_task_tag i g db1 = Inr db2" and r: "sync_tags_loop db2 i ns = Inr db'"
    by (auto simp: bind_res_eq_Inr)
  from Cons.IH[OF r] i c show ?case
    using tasks_find_or_create_tag[of db n] profiles_find_or_create_tag[of db n]
      outbox_find_or_create_tag[of db n]
    by (auto simp: insert_task_tag_def split: if_splits)
qed simp

lemma sync_tags_frame:
  "sync_tags db i ns = Inr db' \<Longrightarrow>
    tasks db' = tasks db \<and> profiles db' = profiles db \<and> outbox db' = outbox db"
  unfolding sync_tags_def by (drule sync_tags_loop_frame) simp

end
