(* ===== verification/Board_Invariant.thy ===== *)
theory Board_Invariant
  imports Task_Model
begin

text \<open>
  What every handler of the board promises its callers: row ids are unique, no two tasks of a
  visible column share a position, and the tag tables respect their keys.  The locale
  \<open>position_source\<close> is the contract of \<open>_next_position\<close> (\<open>errand/utils.py\<close>) towards the
  handlers that append to a column; it is interpreted on \<open>next_position\<close> below.
\<close>

subsection \<open>Positions\<close>

definition board_columns :: "task_status set" where
  "board_columns = {Review, Scheduled, Pending, Completed}"

definition distinct_positions :: "task_status \<Rightarrow> task list \<Rightarrow> bool" where
  "distinct_positions c ts \<longleftrightarrow>
     (\<forall>t\<in>set ts. \<forall>u\<in>set ts. t_status t = c \<longrightarrow> t_status u = c \<longrightarrow>
        t_position t = t_position u \<longrightarrow> t_id t = t_id u)"

locale position_source =
  fixes in_col :: "'db \<Rightarrow> 's \<Rightarrow> 'r \<Rightarrow> bool"
    and pos :: "'r \<Rightarrow> int"
    and excluded :: "'x \<Rightarrow> 'r \<Rightarrow> bool"
    and next_pos :: "'db \<Rightarrow> 's \<Rightarrow> 'x \<Rightarrow> int"
  assumes next_above: "in_col d s r \<Longrightarrow> \<not> excluded x r \<Longrightarrow> pos r < next_pos d s x"
begin

lemma next_fresh: "in_col d s r \<Longrightarrow> \<not> excluded x r \<Longrightarrow> pos r \<noteq> next_pos d s x"
  using next_above by fastforce

lemma next_not_used: "\<not> excluded x r \<Longrightarrow> pos r = next_pos d s x \<Longrightarrow> \<not> in_col d s r"
  using next_fresh by blast

lemma append_inj:
  assumes "inj_on pos {r. in_col d s r \<and> \<not> excluded x r}" "pos r' = next_pos d s x"
  shows "inj_on pos (insert r' {r. in_col d s r \<and> \<not> excluded x r})"
  unfolding inj_on_def
proof (intro ballI impI)
  fix a b
  assume "a \<in> insert r' {r. in_col d s r \<and> \<not> excluded x r}"
    "b \<in> insert r' {r. in_col d s r \<and> \<not> excluded x r}" "pos a = pos b"
  with assms next_fresh[of d s _ x] show "a = b"
    unfolding inj_on_def by (metis (no_types, lifting) insert_iff mem_Collect_eq)
qed

end

lemma max_position_ge: "p \<in> set ps \<Longrightarrow> \<exists>m. max_position ps = Some m \<and> p \<le> m"
  by (induction ps) (fastforce split: option.splits)+

lemma max_position_in: "max_position ps = Some m \<Longrightarrow> m \<in> set ps"
  by (induction ps arbitrary: m) (auto split: option.splits simp: max_def)

lemma max_position_None: "max_position ps = None \<longleftrightarrow> ps = []"
  by (cases ps) (auto split: option.splits)

lemma next_position_above:
  assumes "t \<in> set (tasks db)" "t_status t = s" "x \<noteq> Some (t_id t)"
  shows "t_position t < next_position db s x"
proof -
  have "t_position t \<in> set (map t_position (filter (\<lambda>t. x \<noteq> Some (t_id t)) (column db s)))"
    using assms by (auto simp: column_def)
  from max_position_ge[OF this] show ?thesis
    by (auto simp: next_position_def Let_def)
qed

interpretation board: position_source
  "\<lambda>db s t. t \<in> set (tasks db) \<and> t_status t = s" t_position
  "\<lambda>x t. x = Some (t_id t)" next_position
  by unfold_locales (auto intro: next_position_above)

lemma next_position_empty: "column db s = [] \<Longrightarrow> next_position db s x = 1"
  by (simp add: next_position_def)

lemma next_position_cong: "tasks a = tasks b \<Longrightarrow> next_position a s x = next_position b s x"
  by (simp add: next_position_def column_def)

text \<open>An update of one row keeps the positions of a column distinct when the row lands on a
  position no other row of the column has.\<close>

lemma distinct_positions_update_row:
  assumes "keeps_at i f" "distinct_positions c (tasks db)"
    and "\<And>t u. t \<in> set (tasks db) \<Longrightarrow> u \<in> set (tasks db) \<Longrightarrow> t_id t = i \<Longrightarrow> t_id u \<noteq> i \<Longrightarrow>
        t_status (f t) = c \<Longrightarrow> t_status u = c \<Longrightarrow> t_position (f t) \<noteq> t_position u"
  shows "distinct_positions c (tasks (update_row i f db))"
  unfolding distinct_positions_def
proof (intro ballI impI)
  fix t' u'
  assume "t' \<in> set (tasks (update_row i f db))" "u' \<in> set (tasks (update_row i f db))"
    and c: "t_status t' = c" "t_status u' = c" and eq: "t_position t' = t_position u'"
  then obtain t u where tu: "t \<in> set (tasks db)" "u \<in> set (tasks db)"
    "t' = (if t_id t = i then f t else t)" "u' = (if t_id u = i then f u else u)"
    by (auto simp: tasks_update_row)
  have ids: "t_id t' = t_id t" "t_id u' = t_id u" using assms(1) tu by (auto simp: keeps_at_def)
  consider "t_id t = i" "t_id u = i" | "t_id t = i" "t_id u \<noteq> i"
    | "t_id t \<noteq> i" "t_id u = i" | "t_id t \<noteq> i" "t_id u \<noteq> i" by blast
  then have "t_id t = t_id u"
  proof cases
    case 2
    then show ?thesis using assms(3)[of t u] tu c eq by auto
  next
    case 3
    then show ?thesis using assms(3)[of u t] tu c eq by auto
  next
    case 4
    then have "t' = t" "u' = u" using tu by simp_all
    with assms(2) tu(1,2) c eq show ?thesis unfolding distinct_positions_def by blast
  qed simp
  with ids show "t_id t' = t_id u'" by simp
qed

lemma distinct_positions_append_row:
  assumes "keeps_at i f" "distinct_positions c (tasks db)"
    and "\<And>t. t_status (f t) = s" "\<And>t. t_position (f t) = p"
    and "\<And>u. u \<in> set (tasks db) \<Longrightarrow> t_id u \<noteq> i \<Longrightarrow> t_status u = s \<Longrightarrow> t_position u \<noteq> p"
  shows "distinct_positions c (tasks (update_row i f db))"
  using assms by (intro distinct_positions_update_row) auto

lemma distinct_positions_leave:
  assumes "keeps_at i f" "distinct_positions c (tasks db)" "\<And>t. t_status (f t) \<noteq> c"
  shows "distinct_positions c (tasks (update_row i f db))"
  using assms by (intro distinct_positions_update_row) auto

definition keeps_place :: "(task \<Rightarrow> task) \<Rightarrow> bool" where
  "keeps_place f \<longleftrightarrow> (\<forall>t. t_status (f t) = t_status t \<and> t_position (f t) = t_position t)"

lemma distinct_positions_keep:
  assumes "keeps_id f" "keeps_place f" "distinct_positions c (tasks db)"
  shows "distinct_positions c (tasks (update_where P f db))"
  unfolding distinct_positions_def tasks_update_where set_map ball_simps
proof (intro ballI impI)
  fix t u
  assume tu: "t \<in> set (tasks db)" "u \<in> set (tasks db)"
    and "t_status (if P t then f t else t) = c" "t_status (if P u then f u else u) = c"
    "t_position (if P t then f t else t) = t_position (if P u then f u else u)"
  then have "t_status t = c" "t_status u = c" "t_position t = t_position u"
    using assms(2) by (auto simp: keeps_place_def split: if_splits)
  with assms(3) tu have "t_id t = t_id u" unfolding distinct_positions_def by blast
  then show "t_id (if P t then f t else t) = t_id (if P u then f u else u)"
    using assms(1) by (simp add: keeps_id_def)
qed

lemma distinct_positions_insert:
  assumes "distinct_positions c ts" "\<And>u. u \<in> set ts \<Longrightarrow> t_status u = t_status t \<Longrightarrow> t_position u \<noteq> t_position t"
  shows "distinct_positions c (ts @ [t])"
  unfolding distinct_positions_def
proof (intro ballI impI)
  fix a b
  assume ab: "a \<in> set (ts @ [t])" "b \<in> set (ts @ [t])" "t_status a = c" "t_status b = c"
    "t_position a = t_position b"
  then consider "a \<in> set ts" "b \<in> set ts" | "a = t" "b = t" | "a = t" "b \<in> set ts"
    | "a \<in> set ts" "b = t" by auto
  then show "t_id a = t_id b"
  proof cases
    case 1
    then show ?thesis using ab assms(1) unfolding distinct_positions_def by blast
  next
    case 3
    then show ?thesis using ab assms(2)[of b] by simp
  next
    case 4
    then show ?thesis using ab assms(2)[of a] by simp
  qed simp
qed

lemma distinct_positions_insert_other:
  assumes "distinct_positions c ts" "t_status t \<noteq> c"
  shows "distinct_positions c (ts @ [t])"
proof -
  have m: "a \<in> set ts" if "a \<in> set (ts @ [t])" "t_status a = c" for a
    using that assms(2) by auto
  show ?thesis
    unfolding distinct_positions_def
    using m assms(1)[unfolded distinct_positions_def] by blast
qed

subsection \<open>Tags\<close>

definition tag_inv :: "db \<Rightarrow> bool" where
  "tag_inv db \<longleftrightarrow> distinct (map fst (tags db)) \<and> distinct (map snd (tags db)) \<and>
     distinct (task_tags db) \<and> snd ` set (task_tags db) \<subseteq> fst ` set (tags db)"

lemma find_tag_Some:
  "tag_inv db \<Longrightarrow> find_tag db n = Some g \<longleftrightarrow> (g, n) \<in> set (tags db)"
proof
  assume "find_tag db n = Some g"
  then show "(g, n) \<in> set (tags db)"
    by (auto simp: find_tag_def dest: find_Some_in)
next
  assume inv: "tag_inv db" and g: "(g, n) \<in> set (tags db)"
  then obtain p where p: "find (\<lambda>(g, m). m = n) (tags db) = Some p"
    by (cases "find (\<lambda>(g, m). m = n) (tags db)") (auto simp: find_None_iff)
  then have "p \<in> set (tags db)" "snd p = n" by (auto dest: find_Some_in)
  with g inv have "p = (g, n)"
    unfolding tag_inv_def distinct_map inj_on_def by fastforce
  with p show "find_tag db n = Some g" by (simp add: find_tag_def)
qed

lemma find_tag_None: "find_tag db n = None \<longleftrightarrow> n \<notin> snd ` set (tags db)"
  by (force simp: find_tag_def find_None_iff)

lemma find_or_create_tag_spec:
  assumes "tag_inv db" "find_or_create_tag db n = (db1, g)"
  shows "tag_inv db1 \<and> (g, n) \<in> set (tags db1) \<and> task_tags db1 = task_tags db \<and>
    set (tags db) \<subseteq> set (tags db1)"
proof (cases "find_tag db n")
  case None
  then have "n \<notin> snd ` set (tags db)" by (simp add: find_tag_None)
  moreover have "fresh_id (map fst (tags db)) \<notin> fst ` set (tags db)"
    using fresh_id_notin[of "map fst (tags db)"] by simp
  ultimately show ?thesis
    using assms None
    by (auto simp: find_or_create_tag_def tag_inv_def Let_def image_iff subset_iff) fastforce
next
  case (Some g')
  with assms show ?thesis by (auto simp: find_or_create_tag_def find_tag_Some)
qed

lemma tag_id_unique: "tag_inv db \<Longrightarrow> (g, n) \<in> set (tags db) \<Longrightarrow> (g, m) \<in> set (tags db) \<Longrightarrow> n = m"
  unfolding tag_inv_def using eq_key_imp_eq_value by fastforce

lemma tag_name_unique: "tag_inv db \<Longrightarrow> (g, n) \<in> set (tags db) \<Longrightarrow> (h, n) \<in> set (tags db) \<Longrightarrow> g = h"
  unfolding tag_inv_def distinct_map inj_on_def by fastforce

lemma add_tag_inv: "tag_inv db \<Longrightarrow> tag_inv (add_tag db i n)"
proof -
  assume inv: "tag_inv db"
  obtain db1 g where c: "find_or_create_tag db n = (db1, g)" by (cases "find_or_create_tag db n")
  from find_or_create_tag_spec[OF inv c] have "tag_inv db1" "g \<in> fst ` set (tags db1)"
    by (auto intro: rev_image_eqI)
  with c show ?thesis by (auto simp: add_tag_def tag_inv_def)
qed

lemma remove_tag_inv: "tag_inv db \<Longrightarrow> tag_inv (remove_tag db i n)"
  by (auto simp: remove_tag_def tag_inv_def split: option.splits)

text \<open>The tag names a task carries, as a set.\<close>

definition tag_set :: "db \<Rightarrow> nat \<Rightarrow> string set" where
  "tag_set db i = {n. \<exists>g. (g, n) \<in> set (tags db) \<and> (i, g) \<in> set (task_tags db)}"

lemma set_tag_names_of: "set (tag_names_of db i) = tag_set db i"
  by (force simp: tag_names_of_def tag_set_def)

lemma tag_set_add_tag:
  assumes "tag_inv db"
  shows "tag_set (add_tag db i n) j = (if j = i then insert n (tag_set db j) else tag_set db j)"
proof -
  obtain db1 g where c: "find_or_create_tag db n = (db1, g)" by (cases "find_or_create_tag db n")
  note s = find_or_create_tag_spec[OF assms c]
  have old: "(h, m) \<in> set (tags db1) \<Longrightarrow> (k, h) \<in> set (task_tags db) \<Longrightarrow> (h, m) \<in> set (tags db)" for h m k
  proof -
    assume hm: "(h, m) \<in> set (tags db1)" and kh: "(k, h) \<in> set (task_tags db)"
    with assms obtain m' where m': "(h, m') \<in> set (tags db)" by (force simp: tag_inv_def)
    with s hm have "m' = m" using tag_id_unique by blast
    with m' show ?thesis by simp
  qed
  show ?thesis
  proof (cases "j = i")
    case True
    then show ?thesis
      using s c old by (auto simp: tag_set_def add_tag_def dest: tag_id_unique)
  next
    case False
    then show ?thesis
      using s c old by (auto simp: tag_set_def add_tag_def)
  qed
qed

lemma tag_set_remove_tag:
  assumes "tag_inv db"
  shows "tag_set (remove_tag db i n) j = (if j = i then tag_set db j - {n} else tag_set db j)"
proof (cases "find_tag db n")
  case None
  then have "n \<notin> tag_set db j" by (force simp: find_tag_None tag_set_def)
  then have "tag_set db j - {n} = tag_set db j" by blast
  with None show ?thesis by (auto simp: remove_tag_def)
next
  case (Some g)
  then have g: "(g, n) \<in> set (tags db)" using assms by (simp add: find_tag_Some)
  show ?thesis
  proof (cases "j = i")
    case True
    have "tag_set (remove_tag db i n) i = {m. \<exists>h. h \<noteq> g \<and> (h, m) \<in> set (tags db) \<and> (i, h) \<in> set (task_tags db)}"
      using Some by (auto simp: remove_tag_def tag_set_def)
    also have "\<dots> = tag_set db i - {n}"
      using g assms by (auto simp: tag_set_def dest: tag_id_unique tag_name_unique)
    finally show ?thesis using True by simp
  next
    case False
    then show ?thesis using Some by (auto simp: remove_tag_def tag_set_def)
  qed
qed

text \<open>Replacing a task's tags: one step of the loop is \<open>add_tag\<close>, or the key violation.\<close>

lemma sync_tags_loop_step:
  assumes "tag_inv db"
  shows "sync_tags_loop db i (n # ns) =
    (if n \<in> tag_set db i then Inl IntegrityErr else sync_tags_loop (add_tag db i n) i ns)"
proof -
  obtain db1 g where c: "find_or_create_tag db n = (db1, g)" by (cases "find_or_create_tag db n")
  note s = find_or_create_tag_spec[OF assms c]
  have "(i, g) \<in> set (task_tags db1) \<longleftrightarrow> n \<in> tag_set db i"
  proof
    assume a: "(i, g) \<in> set (task_tags db1)"
    then obtain m where m: "(g, m) \<in> set (tags db)" using assms s by (force simp: tag_inv_def)
    then have "m = n" using s tag_id_unique by blast
    with a m s show "n \<in> tag_set db i" by (auto simp: tag_set_def)
  next
    assume "n \<in> tag_set db i"
    then obtain h where h: "(h, n) \<in> set (tags db)" "(i, h) \<in> set (task_tags db)"
      by (auto simp: tag_set_def)
    then have "h = g" using s tag_name_unique by blast
    with h s show "(i, g) \<in> set (task_tags db1)" by simp
  qed
  then show ?thesis using c by (simp add: insert_task_tag_def add_tag_def)
qed

lemma sync_tags_loop_spec:
  assumes "tag_inv db"
  shows "case sync_tags_loop db i ns of
      Inl e \<Rightarrow> e = IntegrityErr \<and> \<not> (distinct ns \<and> set ns \<inter> tag_set db i = {})
    | Inr db' \<Rightarrow> (distinct ns \<and> set ns \<inter> tag_set db i = {}) \<and> tag_inv db' \<and>
        (\<forall>j. tag_set db' j = (if j = i then set ns \<union> tag_set db i else tag_set db j))"
  using assms
proof (induction ns arbitrary: db)
  case (Cons n ns)
  show ?case
  proof (cases "n \<in> tag_set db i")
    case True
    then show ?thesis by (simp only: sync_tags_loop_step[OF Cons.prems]) simp
  next
    case False
    have "tag_inv (add_tag db i n)" using Cons.prems by (rule add_tag_inv)
    from Cons.IH[OF this] False show ?thesis
      by (simp only: sync_tags_loop_step[OF Cons.prems])
        (auto simp: tag_set_add_tag[OF Cons.prems] split: sum.splits)
  qed
qed simp

lemma tag_inv_clear:
  "tag_inv db \<Longrightarrow> tag_inv (db\<lparr>task_tags := filter P (task_tags db)\<rparr>)"
  by (auto simp: tag_inv_def)

lemma tag_set_clear:
  "tag_set (db\<lparr>task_tags := filter (\<lambda>p. fst p \<noteq> i) (task_tags db)\<rparr>) j =
    (if j = i then {} else tag_set db j)"
  by (auto simp: tag_set_def)

subsection \<open>The invariant of the board\<close>

definition links_inv :: "db \<Rightarrow> bool" where
  "links_inv db \<longleftrightarrow> fst ` set (task_tags db) \<subseteq> set (ids db)"

definition board_inv :: "db \<Rightarrow> bool" where
  "board_inv db \<longleftrightarrow> distinct (ids db) \<and> tag_inv db \<and> links_inv db \<and>
     (\<forall>c \<in> board_columns. distinct_positions c (tasks db))"

lemma board_invI:
  "distinct (ids db) \<Longrightarrow> tag_inv db \<Longrightarrow> links_inv db \<Longrightarrow>
     (\<And>c. c \<in> board_columns \<Longrightarrow> distinct_positions c (tasks db)) \<Longrightarrow> board_inv db"
  by (simp add: board_inv_def)

lemma board_invD:
  assumes "board_inv db"
  shows "distinct (ids db)" "tag_inv db" "c \<in> board_columns \<Longrightarrow> distinct_positions c (tasks db)"
    "links_inv db"
  using assms by (simp_all add: board_inv_def)

lemma links_inv_update_row: "keeps_at i f \<Longrightarrow> links_inv (update_row i f db) = links_inv db"
  by (simp add: links_inv_def ids_update_row)

lemma links_inv_update_where: "keeps_id f \<Longrightarrow> links_inv (update_where P f db) = links_inv db"
  by (simp add: links_inv_def ids_update_where)

lemma sync_tags_loop_links:
  "sync_tags_loop db i ns = Inr db' \<Longrightarrow> links_inv db \<Longrightarrow> i \<in> set (ids db) \<Longrightarrow> links_inv db'"
proof (induction ns arbitrary: db)
  case (Cons n ns)
  obtain db1 g where c: "find_or_create_tag db n = (db1, g)" by (cases "find_or_create_tag db n")
  with Cons.prems obtain db2 where
    i: "insert_task_tag i g db1 = Inr db2" and r: "sync_tags_loop db2 i ns = Inr db'"
    by (auto simp: bind_res_eq_Inr)
  have "tasks db1 = tasks db" "task_tags db1 = task_tags db"
    using c by (auto simp: find_or_create_tag_def Let_def split: option.splits)
  then have "tasks db2 = tasks db" "set (task_tags db2) = insert (i, g) (set (task_tags db))"
    using i by (auto simp: insert_task_tag_def split: if_splits)
  then have "links_inv db2" "i \<in> set (ids db2)"
    using Cons.prems(2,3) by (simp_all add: links_inv_def ids_def)
  with Cons.IH[OF r] show ?case by simp
qed simp

lemma sync_tags_links:
  "sync_tags db i ns = Inr db' \<Longrightarrow> links_inv db \<Longrightarrow> i \<in> set (ids db) \<Longrightarrow> links_inv db'"
  unfolding sync_tags_def by (erule sync_tags_loop_links) (auto simp: links_inv_def ids_def)

lemma find_or_create_tag_links [simp]:
  "task_tags (fst (find_or_create_tag db n)) = task_tags db"
  by (simp add: find_or_create_tag_def Let_def split: option.splits)

lemma board_inv_add_tag:
  assumes "board_inv db" "i \<in> set (ids db)"
  shows "board_inv (add_tag db i n)"
proof -
  have "links_inv (add_tag db i n)"
    using assms by (auto simp: board_inv_def links_inv_def ids_def add_tag_def Let_def case_prod_beta)
  then show ?thesis
    using assms(1) add_tag_inv by (simp add: board_inv_def ids_def)
qed

lemma board_inv_remove_tag:
  assumes "board_inv db"
  shows "board_inv (remove_tag db i n)"
proof -
  have "links_inv (remove_tag db i n)"
    using assms by (auto simp: board_inv_def links_inv_def ids_def remove_tag_def split: option.splits)
  then show ?thesis
    using assms remove_tag_inv by (simp add: board_inv_def ids_def)
qed

lemma board_inv_cong:
  "tasks a = tasks b \<Longrightarrow> tags a = tags b \<Longrightarrow> task_tags a = task_tags b \<Longrightarrow> board_inv a = board_inv b"
  by (simp add: board_inv_def ids_def tag_inv_def links_inv_def)

lemma board_inv_publish [simp]:
  "board_inv (publish k i db) = board_inv db"
  "board_inv (publish_response k i c db) = board_inv db"
  "board_inv (emit e db) = board_inv db"
  by (rule board_inv_cong; simp)+

lemma tag_inv_update_where [simp]:
  "tag_inv (update_where P f db) = tag_inv db" "tag_inv (update_row i f db) = tag_inv db"
  by (simp_all add: tag_inv_def)

text \<open>The three ways a handler changes one row: it keeps the row's place, moves it out of the
  visible columns, or appends it to a column at a position above the others.\<close>

lemma board_inv_keep:
  assumes "board_inv db" "keeps_id f" "keeps_place f"
  shows "board_inv (update_where P f db)"
  using assms by (auto intro!: board_invI distinct_positions_keep dest: board_invD simp: ids_update_where links_inv_update_where)

lemma board_inv_keep_row:
  "board_inv db \<Longrightarrow> keeps_id f \<Longrightarrow> keeps_place f \<Longrightarrow> board_inv (update_row i f db)"
  unfolding update_row_def by (rule board_inv_keep)

lemma board_inv_leave:
  assumes "board_inv db" "keeps_at i f" "\<And>t. t_status (f t) \<notin> board_columns"
  shows "board_inv (update_row i f db)"
proof (rule board_invI)
  fix c assume c: "c \<in> board_columns"
  show "distinct_positions c (tasks (update_row i f db))"
    using assms(2) board_invD(3)[OF assms(1) c]
    by (rule distinct_positions_leave) (use c assms(3) in blast)
qed (use assms in \<open>auto dest: board_invD simp: ids_update_row links_inv_update_row\<close>)

lemma board_inv_append:
  assumes "board_inv db" "keeps_at i f" "\<And>t. t_status (f t) = s" "\<And>t. t_position (f t) = p"
    and "\<And>u. u \<in> set (tasks db) \<Longrightarrow> t_id u \<noteq> i \<Longrightarrow> t_status u = s \<Longrightarrow> t_position u < p"
  shows "board_inv (update_row i f db)"
proof (rule board_invI)
  fix c assume c: "c \<in> board_columns"
  show "distinct_positions c (tasks (update_row i f db))"
    using assms(2) board_invD(3)[OF assms(1) c] assms(3,4)
    by (rule distinct_positions_append_row) (use assms(5) in fastforce)
qed (use assms in \<open>auto dest: board_invD simp: ids_update_row links_inv_update_row\<close>)

lemma board_inv_sync_tags:
  assumes "board_inv db" "sync_tags db i ns = Inr db'" "i \<in> set (ids db)"
  shows "board_inv db'"
proof -
  have "tag_inv (db\<lparr>task_tags := filter (\<lambda>p. fst p \<noteq> i) (task_tags db)\<rparr>)"
    by (rule tag_inv_clear[OF board_invD(2)[OF assms(1)]])
  from sync_tags_loop_spec[OF this, where i = i and ns = ns] have "tag_inv db'"
    using assms(2) by (simp add: sync_tags_def)
  then show ?thesis
    using sync_tags_frame[OF assms(2)] sync_tags_links[OF assms(2)] assms(1,3) by (simp add: board_inv_def ids_def)
qed

end
