(* ===== verification/Py_Datetime.thy ===== *)
theory Py_Datetime
  imports Errand_Prelude
begin

text \<open>
  The part of Python's \<open>datetime.fromisoformat\<close> the program relies on: the calendar form
  \<open>YYYY-MM-DD\<close>, optionally a separator character and a time \<open>HH[:MM[:SS[.f...]]]\<close>,
  optionally \<open>Z\<close> or an offset \<open>+HH[:MM[:SS]]\<close>.  (The basic form without separators
  and ISO week dates are not covered.)  A value without an offset is read as UTC, the zone the
  program writes.  \<open>None\<close> is the ValueError.
\<close>

definition take_digits :: "nat \<Rightarrow> string \<Rightarrow> (int \<times> string) option" where
  "take_digits k s =
     (if length (take k s) = k \<and> list_all is_digit (take k s)
      then Some (digits_val (take k s), drop k s) else None)"

definition expect :: "char \<Rightarrow> string \<Rightarrow> string option" where
  "expect c s = (case s of [] \<Rightarrow> None | d # r \<Rightarrow> if d = c then Some r else None)"

definition is_leap :: "int \<Rightarrow> bool" where
  "is_leap y = (y mod 4 = 0 \<and> (y mod 100 \<noteq> 0 \<or> y mod 400 = 0))"

definition days_in_month :: "int \<Rightarrow> int \<Rightarrow> int" where
  "days_in_month y m =
     (if m = 2 then (if is_leap y then 29 else 28)
      else if m = 4 \<or> m = 6 \<or> m = 9 \<or> m = 11 then 30 else 31)"

text \<open>Days since 1970-01-01 in the proleptic Gregorian calendar.\<close>

definition days_from_civil :: "int \<Rightarrow> int \<Rightarrow> int \<Rightarrow> int" where
  "days_from_civil y m d =
     (let y' = (if m \<le> 2 then y - 1 else y); era = y' div 400; yoe = y' - era * 400;
          mp = (if m > 2 then m - 3 else m + 9); doy = (153 * mp + 2) div 5 + d - 1;
          doe = yoe * 365 + yoe div 4 - yoe div 100 + doy
      in era * 146097 + doe - 719468)"

definition parse_date :: "string \<Rightarrow> (int \<times> string) option" where
  "parse_date s =
     Option.bind (take_digits 4 s) (\<lambda>(y, s1). Option.bind (expect CHR ''-'' s1) (\<lambda>s2.
     Option.bind (take_digits 2 s2) (\<lambda>(m, s3). Option.bind (expect CHR ''-'' s3) (\<lambda>s4.
     Option.bind (take_digits 2 s4) (\<lambda>(d, s5).
       if 1 \<le> y \<and> 1 \<le> m \<and> m \<le> 12 \<and> 1 \<le> d \<and> d \<le> days_in_month y m
       then Some (days_from_civil y m d, s5) else None)))))"

text \<open>A fraction: any number of digits, the first six of which count.\<close>

definition fraction_micros :: "string \<Rightarrow> int" where
  "fraction_micros ds = digits_val (take 6 (ds @ replicate 6 CHR ''0''))"

text \<open>\<open>[:SS[.f...]]\<close> after the minutes, in microseconds.\<close>

definition parse_seconds :: "string \<Rightarrow> (int \<times> string) option" where
  "parse_seconds s =
     (case expect CHR '':'' s of
        None \<Rightarrow> Some (0, s)
      | Some s1 \<Rightarrow> (case take_digits 2 s1 of
            None \<Rightarrow> None
          | Some (sec, s2) \<Rightarrow>
              if sec > 59 then None
              else if s2 \<noteq> [] \<and> (hd s2 = CHR ''.'' \<or> hd s2 = CHR '','') then
                let ds = takeWhile is_digit (tl s2) in
                if ds = [] then None
                else Some (seconds sec + fraction_micros ds, drop (length ds) (tl s2))
              else Some (seconds sec, s2)))"

definition parse_clock :: "string \<Rightarrow> (int \<times> string) option" where
  "parse_clock s =
     (case take_digits 2 s of
        None \<Rightarrow> None
      | Some (h, s1) \<Rightarrow>
          if h > 23 then None
          else (case expect CHR '':'' s1 of
              None \<Rightarrow> Some (hours h, s1)
            | Some s2 \<Rightarrow> (case take_digits 2 s2 of
                None \<Rightarrow> None
              | Some (mi, s3) \<Rightarrow>
                  if mi > 59 then None
                  else map_option (\<lambda>(us, r). (hours h + minutes mi + us, r)) (parse_seconds s3))))"

definition parse_offset :: "string \<Rightarrow> int option" where
  "parse_offset s =
     (case s of
        [] \<Rightarrow> Some 0
      | c # r \<Rightarrow>
          if c = CHR ''Z'' then (if r = [] then Some 0 else None)
          else if c = CHR ''+'' \<or> c = CHR ''-'' then
            (case parse_clock r of
               Some (us, []) \<Rightarrow> Some (if c = CHR ''+'' then us else - us)
             | _ \<Rightarrow> None)
          else None)"

definition fromisoformat :: "string \<Rightarrow> time option" where
  "fromisoformat s =
     (case parse_date s of
        None \<Rightarrow> None
      | Some (d, r) \<Rightarrow>
          (case r of
             [] \<Rightarrow> Some (days d)
           | _ # r1 \<Rightarrow> (case parse_clock r1 of
                None \<Rightarrow> None
              | Some (us, r2) \<Rightarrow> map_option (\<lambda>off. days d + us - off) (parse_offset r2))))"

lemma fromisoformat_epoch: "fromisoformat ''1970-01-01T00:00:00+00:00'' = Some 0"
  by code_simp

lemma fromisoformat_offset:
  "fromisoformat ''2026-07-26T19:28:15.5+01:00'' = fromisoformat ''2026-07-26 18:28:15.500Z''"
  by code_simp

lemma fromisoformat_rejects: "fromisoformat ''2026-02-29'' = None"
  by code_simp

end
