(* ===== verification/Py_Uuid.thy ===== *)
theory Py_Uuid
  imports Errand_Prelude
begin

text \<open>
  Python's \<open>int(s, 16)\<close> and \<open>uuid.UUID(s)\<close>, the standard-library parsers the API applies to
  the ids it receives.  A UUID is its 128-bit integer; \<open>None\<close> is the ValueError.
\<close>

definition hex_val :: "char \<Rightarrow> int option" where
  "hex_val c =
     (if is_digit c then Some (digit_val c)
      else if CHR ''a'' \<le> c \<and> c \<le> CHR ''f'' then Some (of_char c - 87)
      else if CHR ''A'' \<le> c \<and> c \<le> CHR ''F'' then Some (of_char c - 55) else None)"

fun hex_digits :: "int \<Rightarrow> string \<Rightarrow> int option" where
  "hex_digits acc [] = Some acc"
| "hex_digits acc (c # s) =
     (case hex_val c of None \<Rightarrow> None | Some d \<Rightarrow> hex_digits (acc * 16 + d) s)"

text \<open>Digits may be grouped by single underscores.\<close>

definition hex_literal :: "string \<Rightarrow> int option" where
  "hex_literal s =
     (if list_all (\<lambda>g. g \<noteq> []) (split_char CHR ''_'' s) then hex_digits 0 (filter (\<lambda>c. c \<noteq> CHR ''_'') s)
      else None)"

definition int_base16 :: "string \<Rightarrow> int option" where
  "int_base16 s0 =
     (let s = strip s0;
          neg = (s \<noteq> [] \<and> hd s = CHR ''-'');
          s1 = (if s \<noteq> [] \<and> (hd s = CHR ''-'' \<or> hd s = CHR ''+'') then tl s else s);
          s2 = (if starts_with s1 ''0x'' \<or> starts_with s1 ''0X''
                then (let r = drop 2 s1 in if r \<noteq> [] \<and> hd r = CHR ''_'' then tl r else r) else s1)
      in map_option (\<lambda>n. if neg then - n else n) (hex_literal s2))"

definition strip_braces :: "string \<Rightarrow> string" where
  "strip_braces s =
     (let brace = (\<lambda>c. c = CHR ''{'' \<or> c = CHR ''}'')
      in rev (dropWhile brace (rev (dropWhile brace s))))"

definition parse_uuid :: "string \<Rightarrow> nat option" where
  "parse_uuid s =
     (let h = filter (\<lambda>c. c \<noteq> CHR ''-'')
                (strip_braces (replace_str ''uuid:'' [] (replace_str ''urn:'' [] s)))
      in if length h \<noteq> 32 then None
         else (case int_base16 h of
             None \<Rightarrow> None
           | Some n \<Rightarrow> if 0 \<le> n \<and> n < 2 ^ 128 then Some (nat n) else None))"

lemma parse_uuid_example:
  "parse_uuid ''{00000000-0000-0000-0000-00000000001F}'' = Some 31"
  "parse_uuid ''not-a-uuid'' = None"
  by code_simp+

end
