(* ===== verification/Py_Json.thy ===== *)
theory Py_Json
  imports Py_Uuid
begin

text \<open>
  Python's \<open>json.loads\<close> (the strict decoder): values, strings with their escapes, numbers,
  arrays and objects, \<open>None\<close> for the JSONDecodeError.  A float keeps its literal; a character
  above 255 written as an escape is carried as a question mark, the model's strings having
  characters below 256 only.  The recursion is bounded by fuel; \<open>json_fuel_enough\<close> shows
  that the fuel \<open>json_loads\<close> starts with never decides the result.
\<close>

datatype json =
    JNull
  | JBool bool
  | JInt int
  | JFloat string
  | JStr string
  | JArr "json list"
  | JObj "(string \<times> json) list"

definition json_get :: "json \<Rightarrow> string \<Rightarrow> json option" where
  "json_get j k = (case j of JObj d \<Rightarrow> map_of d k | _ \<Rightarrow> None)"

text \<open>\<open>d.get(k)\<close>: absent and null are the same.\<close>

definition json_get_or_null :: "json \<Rightarrow> string \<Rightarrow> json" where
  "json_get_or_null j k = (case json_get j k of None \<Rightarrow> JNull | Some v \<Rightarrow> v)"

definition json_truthy :: "json \<Rightarrow> bool" where
  "json_truthy j = (case j of
      JNull \<Rightarrow> False | JBool b \<Rightarrow> b | JInt i \<Rightarrow> i \<noteq> 0
    | JFloat s \<Rightarrow> list_ex (\<lambda>c. is_digit c \<and> c \<noteq> CHR ''0'') (takeWhile (\<lambda>c. c \<noteq> CHR ''e'' \<and> c \<noteq> CHR ''E'') s)
        \<or> s = ''NaN'' \<or> s = ''Infinity'' \<or> s = ''-Infinity''
    | JStr s \<Rightarrow> s \<noteq> [] | JArr xs \<Rightarrow> xs \<noteq> [] | JObj d \<Rightarrow> d \<noteq> [])"

subsection \<open>Strings\<close>

definition quote_char :: char where "quote_char = char_of (34 :: nat)"
definition backslash :: char where "backslash = char_of (92 :: nat)"

definition json_ws :: "char \<Rightarrow> bool" where
  "json_ws c = (let n = char_code c in n = 32 \<or> n = 9 \<or> n = 10 \<or> n = 13)"

definition skip_ws :: "string \<Rightarrow> string" where "skip_ws s = dropWhile json_ws s"

definition hex4 :: "string \<Rightarrow> char option" where
  "hex4 s =
     (if length (take 4 s) < 4 then None
      else case hex_digits 0 (take 4 s) of
          None \<Rightarrow> None
        | Some v \<Rightarrow> Some (if v < 256 then char_of v else CHR ''?''))"

definition escape_char :: "char \<Rightarrow> char option" where
  "escape_char e =
     (if e = quote_char \<or> e = backslash \<or> e = CHR ''/'' then Some e
      else if e = CHR ''b'' then Some (char_of (8 :: nat))
      else if e = CHR ''f'' then Some (char_of (12 :: nat))
      else if e = CHR ''n'' then Some (char_of (10 :: nat))
      else if e = CHR ''r'' then Some (char_of (13 :: nat))
      else if e = CHR ''t'' then Some (char_of (9 :: nat)) else None)"

text \<open>The text after an opening quote: the decoded string and what follows its closing quote.\<close>

function json_str :: "string \<Rightarrow> (string \<times> string) option" where
  "json_str [] = None"
| "json_str (c # s) =
     (if c = quote_char then Some ([], s)
      else if c = backslash then
        (case s of
           [] \<Rightarrow> None
         | e # r \<Rightarrow>
             if e = CHR ''u'' then
               (case hex4 r of
                  None \<Rightarrow> None
                | Some v \<Rightarrow> map_option (apfst ((#) v)) (json_str (drop 4 r)))
             else
               (case escape_char e of
                  None \<Rightarrow> None
                | Some v \<Rightarrow> map_option (apfst ((#) v)) (json_str r)))
      else if char_code c < 32 then None
      else map_option (apfst ((#) c)) (json_str s))"
  by pat_completeness auto
termination by (relation "measure length") auto

subsection \<open>Numbers\<close>

definition json_frac :: "string \<Rightarrow> string" where
  "json_frac s =
     (case s of
        [] \<Rightarrow> []
      | c # r \<Rightarrow> if c = CHR ''.'' \<and> takeWhile is_digit r \<noteq> [] then c # takeWhile is_digit r else [])"

definition json_exp :: "string \<Rightarrow> string" where
  "json_exp s =
     (case s of
        [] \<Rightarrow> []
      | c # r \<Rightarrow>
          if c = CHR ''e'' \<or> c = CHR ''E'' then
            (let sg = (if r \<noteq> [] \<and> (hd r = CHR ''+'' \<or> hd r = CHR ''-'') then [hd r] else []);
                 ds = takeWhile is_digit (drop (length sg) r)
             in if ds = [] then [] else c # sg @ ds)
          else [])"

definition json_int_part :: "string \<Rightarrow> string" where
  "json_int_part s =
     (case s of [] \<Rightarrow> [] | c # _ \<Rightarrow> if c = CHR ''0'' then [c] else takeWhile is_digit s)"

definition json_number :: "string \<Rightarrow> (json \<times> string) option" where
  "json_number s =
     (let neg = (s \<noteq> [] \<and> hd s = CHR ''-'');
          s1 = (if neg then tl s else s);
          ds = json_int_part s1
      in if ds = [] then None
         else
           (let s2 = drop (length ds) s1; fr = json_frac s2;
                s3 = drop (length fr) s2; ex = json_exp s3;
                v = digits_val ds
            in if fr = [] \<and> ex = [] then Some (JInt (if neg then - v else v), s2)
               else Some (JFloat ((if neg then ''-'' else []) @ ds @ fr @ ex), drop (length ex) s3)))"

definition json_const :: "string \<Rightarrow> (json \<times> string) option" where
  "json_const s =
     (if starts_with s ''null'' then Some (JNull, drop 4 s)
      else if starts_with s ''true'' then Some (JBool True, drop 4 s)
      else if starts_with s ''false'' then Some (JBool False, drop 5 s)
      else if starts_with s ''NaN'' then Some (JFloat ''NaN'', drop 3 s)
      else if starts_with s ''Infinity'' then Some (JFloat ''Infinity'', drop 8 s)
      else if starts_with s ''-Infinity'' then Some (JFloat ''-Infinity'', drop 9 s)
      else json_number s)"

subsection \<open>Values\<close>

fun parse_value :: "nat \<Rightarrow> string \<Rightarrow> (json \<times> string) option"
and parse_members :: "nat \<Rightarrow> string \<Rightarrow> (string \<times> json) list \<Rightarrow> (json \<times> string) option"
and parse_elements :: "nat \<Rightarrow> string \<Rightarrow> json list \<Rightarrow> (json \<times> string) option" where
  "parse_value 0 s = None"
| "parse_value (Suc n) s =
     (case s of
        [] \<Rightarrow> None
      | c # r \<Rightarrow>
          if c = quote_char then map_option (apfst JStr) (json_str r)
          else if c = CHR ''{'' then
            (if starts_with (skip_ws r) ''}'' then Some (JObj [], tl (skip_ws r))
             else parse_members n (skip_ws r) [])
          else if c = CHR ''['' then
            (if starts_with (skip_ws r) '']'' then Some (JArr [], tl (skip_ws r))
             else parse_elements n (skip_ws r) [])
          else json_const s)"
| "parse_members 0 s d = None"
| "parse_members (Suc n) s d =
     (case s of
        [] \<Rightarrow> None
      | q # r \<Rightarrow>
          if q \<noteq> quote_char then None
          else (case json_str r of
              None \<Rightarrow> None
            | Some (k, r1) \<Rightarrow>
                (case skip_ws r1 of
                   [] \<Rightarrow> None
                 | co # r2 \<Rightarrow>
                     if co \<noteq> CHR '':'' then None
                     else (case parse_value n (skip_ws r2) of
                         None \<Rightarrow> None
                       | Some (v, r3) \<Rightarrow>
                           (case skip_ws r3 of
                              [] \<Rightarrow> None
                            | e # r4 \<Rightarrow>
                                if e = CHR ''}'' then Some (JObj (dict_set k v d), r4)
                                else if e = CHR '','' then parse_members n (skip_ws r4) (dict_set k v d)
                                else None)))))"
| "parse_elements 0 s xs = None"
| "parse_elements (Suc n) s xs =
     (case parse_value n s of
        None \<Rightarrow> None
      | Some (v, r) \<Rightarrow>
          (case skip_ws r of
             [] \<Rightarrow> None
           | e # r1 \<Rightarrow>
               if e = CHR '']'' then Some (JArr (xs @ [v]), r1)
               else if e = CHR '','' then parse_elements n (skip_ws r1) (xs @ [v])
               else None))"

definition json_loads :: "string \<Rightarrow> json option" where
  "json_loads s =
     (case parse_value (2 * length s + 1) (skip_ws s) of
        None \<Rightarrow> None
      | Some (v, r) \<Rightarrow> if skip_ws r = [] then Some v else None)"

definition json_valid :: "string \<Rightarrow> bool" where "json_valid s = (json_loads s \<noteq> None)"

subsection \<open>\<open>int()\<close> of a decoded value\<close>

definition int_str :: "string \<Rightarrow> int option" where
  "int_str s0 =
     (let s = strip s0;
          neg = (s \<noteq> [] \<and> hd s = CHR ''-'');
          s1 = (if s \<noteq> [] \<and> (hd s = CHR ''-'' \<or> hd s = CHR ''+'') then tl s else s);
          groups = split_char CHR ''_'' s1
      in if list_all (\<lambda>g. g \<noteq> [] \<and> list_all is_digit g) groups \<and> length (concat groups) \<le> 4300
         then Some ((if neg then - 1 else 1) * digits_val (concat groups)) else None)"

text \<open>A float literal truncated towards zero, exactly (the rounding of \<open>float\<close> to 53 bits is left
  out).\<close>

definition float_trunc :: "string \<Rightarrow> int" where
  "float_trunc s =
     (let neg = (s \<noteq> [] \<and> hd s = CHR ''-''); s1 = (if neg then tl s else s);
          ip = takeWhile is_digit s1; r = drop (length ip) s1;
          fp = (if r \<noteq> [] \<and> hd r = CHR ''.'' then takeWhile is_digit (tl r) else []);
          r2 = (if fp = [] then r else drop (Suc (length fp)) r);
          ex = (if r2 = [] then 0 else (case int_str (tl r2) of None \<Rightarrow> 0 | Some e \<Rightarrow> e));
          n = digits_val (ip @ fp); k = ex - int (length fp);
          v = (if 0 \<le> k then n * 10 ^ nat k else n div 10 ^ nat (- k))
      in if neg then - v else v)"

definition json_int :: "json \<Rightarrow> py_error + int" where
  "json_int j =
     (case j of
        JInt n \<Rightarrow> Inr n
      | JBool b \<Rightarrow> Inr (if b then 1 else 0)
      | JStr s \<Rightarrow> (case int_str s of None \<Rightarrow> Inl (ValueErr ''invalid literal for int()'') | Some n \<Rightarrow> Inr n)
      | JFloat s \<Rightarrow>
          if s = ''NaN'' then Inl (ValueErr ''cannot convert float NaN to integer'')
          else if s = ''Infinity'' \<or> s = ''-Infinity'' then Inl OverflowErr
          else Inr (float_trunc s)
      | _ \<Rightarrow> Inl (TypeErr ''int() argument''))"

lemma json_int_examples:
  "json_int (JStr '' -1_000 '') = Inr (- 1000)" "json_int (JFloat ''-25.9e-1'') = Inr (- 2)"
  "json_int (JFloat ''1.5e3'') = Inr 1500" "json_int (JStr ''5.0'') = Inl (ValueErr ''invalid literal for int()'')"
  by code_simp+

lemma json_loads_example:
  "json_loads ('' {'' @ [quote_char] @ ''a'' @ [quote_char] @ '' : [1, -2.5e3, true], '' @
      [quote_char] @ ''b'' @ [quote_char] @ '':{}} '')
   = Some (JObj [(''a'', JArr [JInt 1, JFloat ''-2.5e3'', JBool True]), (''b'', JObj [])])"
  by code_simp

subsection \<open>The fuel never decides\<close>

lemma length_skip_ws: "length (skip_ws s) \<le> length s"
  by (simp add: skip_ws_def length_dropWhile_le)

lemma skip_ws_Cons: "skip_ws s = c # r \<Longrightarrow> length r < length s"
  using length_skip_ws[of s] by simp

lemma json_str_shorter: "json_str s = Some (v, r) \<Longrightarrow> length r < length s"
proof (induction s arbitrary: v r rule: json_str.induct)
  case (2 c s)
  have esc: "s = e # q \<Longrightarrow> length (drop 4 q) < length (c # s)" for e q by simp
  show ?case
  proof (cases "c = quote_char")
    case True
    then show ?thesis using 2(4) by simp
  next
    case q: False
    show ?thesis
    proof (cases "c = backslash")
      case True
      show ?thesis
      proof (cases s)
        case (Cons e q')
        show ?thesis
        proof (cases "e = CHR ''u''")
          case u: True
          then obtain h v' where "hex4 q' = Some h" "json_str (drop 4 q') = Some (v', r)"
            using 2(4) q True Cons by (auto split: option.splits)
          with 2(1)[OF q True Cons u] have "length r < length (drop 4 q')" by blast
          then show ?thesis using Cons by simp
        next
          case u: False
          then obtain h v' where "escape_char e = Some h" "json_str q' = Some (v', r)"
            using 2(4) q True Cons by (auto split: option.splits)
          with 2(2)[OF q True Cons u] have "length r < length q'" by blast
          then show ?thesis using Cons by simp
        qed
      qed (use 2(4) q True in simp)
    next
      case False
      then have "\<not> char_code c < 32" "\<exists>v'. json_str s = Some (v', r)"
        using 2(4) q by (auto split: if_splits)
      with 2(3)[OF q False] show ?thesis by fastforce
    qed
  qed
qed simp

lemma json_number_shorter: "json_number s = Some (v, r) \<Longrightarrow> length r < length s"
  by (cases s) (auto simp: json_number_def json_int_part_def Let_def split: if_splits list.splits)

lemma json_const_shorter: "json_const s = Some (v, r) \<Longrightarrow> length r < length s"
proof -
  assume a: "json_const s = Some (v, r)"
  have p: "starts_with s p \<Longrightarrow> p \<noteq> [] \<Longrightarrow> s \<noteq> []" for p by (auto simp: starts_with_def)
  show ?thesis
    using a p[of "''null''"] p[of "''true''"] p[of "''false''"] p[of "''NaN''"] p[of "''Infinity''"]
      p[of "''-Infinity''"] json_number_shorter
    by (auto simp: json_const_def split: if_splits)
qed

lemma parse_shorter:
  shows "parse_value n s = Some (v, r) \<Longrightarrow> length r < length s"
    and "parse_members n s d = Some (v, r) \<Longrightarrow> length r < length s"
    and "parse_elements n s xs = Some (v, r) \<Longrightarrow> length r < length s"
proof (induction n s and n s d and n s xs arbitrary: v r and v r and v r
    rule: parse_value_parse_members_parse_elements.induct)
  case (2 n s)
  show ?case
  proof (cases s)
    case Nil
    then show ?thesis using 2(3) by simp
  next
    case (Cons c q)
    note l = length_skip_ws[of q]
    show ?thesis
    proof -
      consider "c = quote_char" | "c \<noteq> quote_char" "c = CHR ''{''" "starts_with (skip_ws q) ''}''"
        | "c \<noteq> quote_char" "c = CHR ''{''" "\<not> starts_with (skip_ws q) ''}''"
        | "c \<noteq> quote_char" "c = CHR ''[''" "starts_with (skip_ws q) '']''"
        | "c \<noteq> quote_char" "c = CHR ''[''" "\<not> starts_with (skip_ws q) '']''"
        | "c \<noteq> quote_char" "c \<noteq> CHR ''{''" "c \<noteq> CHR ''[''" by blast
      then show ?thesis
      proof cases
        case 1
        then show ?thesis using 2(3) Cons json_str_shorter by fastforce
      next
        case 3
        then have "parse_members n (skip_ws q) [] = Some (v, r)" using 2(3) Cons by simp
        from 2(1)[OF Cons _ _ _ this] 3 l Cons show ?thesis by simp
      next
        case 5
        then have "parse_elements n (skip_ws q) [] = Some (v, r)" using 2(3) Cons by simp
        from 2(2)[OF Cons _ _ _ _ this] 5 l Cons show ?thesis by simp
      next
        case 6
        then have "json_const s = Some (v, r)" using 2(3) Cons by simp
        then show ?thesis by (rule json_const_shorter)
      qed (use 2(3) Cons l in auto)
    qed
  qed
next
  case (4 n s d)
  then obtain q0 k r1 r2 w r3 e r4 where
    st: "s = quote_char # q0" "json_str q0 = Some (k, r1)" "skip_ws r1 = CHR '':'' # r2"
      "parse_value n (skip_ws r2) = Some (w, r3)" "skip_ws r3 = e # r4"
    and out: "(if e = CHR ''}'' then Some (JObj (dict_set k w d), r4)
       else if e = CHR '','' then parse_members n (skip_ws r4) (dict_set k w d) else None) = Some (v, r)"
    by (auto split: list.splits if_splits option.splits prod.splits)
  have "length r3 < length (skip_ws r2)"
    using 4(1)[OF st(1) _ st(2) _ st(3) _ st(4)] by simp
  then have m: "length r4 < length s"
    using json_str_shorter[OF st(2)] skip_ws_Cons[OF st(3)] skip_ws_Cons[OF st(5)]
      length_skip_ws[of r2] st(1) by simp
  show ?case
  proof (cases "e = CHR ''}''")
    case True
    then show ?thesis using out m by simp
  next
    case False
    then have e: "e = CHR '',''" and p: "parse_members n (skip_ws r4) (dict_set k w d) = Some (v, r)"
      using out by (auto split: if_splits)
    from 4(2)[OF st(1) _ st(2) _ st(3) _ st(4) _ st(5) False e p]
    show ?thesis using m length_skip_ws[of r4] by simp
  qed
next
  case (6 n s xs)
  then obtain w r0 e r1 where
    st: "parse_value n s = Some (w, r0)" "skip_ws r0 = e # r1"
    and out: "(if e = CHR '']'' then Some (JArr (xs @ [w]), r1)
       else if e = CHR '','' then parse_elements n (skip_ws r1) (xs @ [w]) else None) = Some (v, r)"
    by (auto split: list.splits option.splits prod.splits)
  have m: "length r1 < length s"
    using 6(1)[OF st(1)] skip_ws_Cons[OF st(2)] by simp
  show ?case
  proof (cases "e = CHR '']''")
    case True
    then show ?thesis using out m by simp
  next
    case False
    then have e: "e = CHR '',''" and p: "parse_elements n (skip_ws r1) (xs @ [w]) = Some (v, r)"
      using out by (auto split: if_splits)
    from 6(2)[OF st(1) _ st(2) False e p] show ?thesis using m length_skip_ws[of r1] by simp
  qed
qed simp_all

lemma fuel_step:
  assumes v: "\<And>s m. 2 * length s + 1 \<le> n \<Longrightarrow> 2 * length s + 1 \<le> m \<Longrightarrow> parse_value n s = parse_value m s"
    and mem: "\<And>s m d. 2 * length s + 2 \<le> n \<Longrightarrow> 2 * length s + 2 \<le> m \<Longrightarrow>
        parse_members n s d = parse_members m s d"
    and el: "\<And>s m xs. 2 * length s + 2 \<le> n \<Longrightarrow> 2 * length s + 2 \<le> m \<Longrightarrow>
        parse_elements n s xs = parse_elements m s xs"
  shows "2 * length s + 1 \<le> Suc n \<Longrightarrow> 2 * length s + 1 \<le> Suc m \<Longrightarrow>
      parse_value (Suc n) s = parse_value (Suc m) s"
    and "2 * length s + 2 \<le> Suc n \<Longrightarrow> 2 * length s + 2 \<le> Suc m \<Longrightarrow>
      parse_members (Suc n) s d = parse_members (Suc m) s d"
    and "2 * length s + 2 \<le> Suc n \<Longrightarrow> 2 * length s + 2 \<le> Suc m \<Longrightarrow>
      parse_elements (Suc n) s xs = parse_elements (Suc m) s xs"
proof -
  assume b: "2 * length s + 1 \<le> Suc n" "2 * length s + 1 \<le> Suc m"
  show "parse_value (Suc n) s = parse_value (Suc m) s"
  proof (cases s)
    case (Cons c r)
    then have "2 * length (skip_ws r) + 2 \<le> n" "2 * length (skip_ws r) + 2 \<le> m"
      using b length_skip_ws[of r] by simp_all
    from mem[OF this] el[OF this] show ?thesis by (simp add: Cons)
  qed simp
next
  assume b: "2 * length s + 2 \<le> Suc n" "2 * length s + 2 \<le> Suc m"
  show "parse_members (Suc n) s d = parse_members (Suc m) s d"
    unfolding parse_members.simps
  proof (intro list.case_cong if_cong option.case_cong prod.case_cong refl)
    fix q r k r1 co r2 and p :: "string \<times> string"
    assume a: "s = q # r" "json_str r = Some p" "p = (k, r1)" "skip_ws r1 = co # r2"
    have l: "length r1 < length r" using a json_str_shorter by blast
    show "parse_value n (skip_ws r2) = parse_value m (skip_ws r2)"
      using b a l skip_ws_Cons[OF a(4)] length_skip_ws[of r2] by (intro v) auto
  next
    fix q r k r1 co r2 w r3 e r4 and p :: "string \<times> string" and p' :: "json \<times> string"
    assume a: "s = q # r" "json_str r = Some p" "p = (k, r1)" "skip_ws r1 = co # r2"
      "parse_value m (skip_ws r2) = Some p'" "p' = (w, r3)" "skip_ws r3 = e # r4"
    have l: "length r1 < length r" "length r3 < length (skip_ws r2)"
      using a json_str_shorter parse_shorter(1) by blast+
    show "parse_members n (skip_ws r4) (dict_set k w d) = parse_members m (skip_ws r4) (dict_set k w d)"
      using b a l skip_ws_Cons[OF a(4)] skip_ws_Cons[OF a(7)] length_skip_ws[of r2] length_skip_ws[of r4]
      by (intro mem) auto
  qed
next
  assume b: "2 * length s + 2 \<le> Suc n" "2 * length s + 2 \<le> Suc m"
  show "parse_elements (Suc n) s xs = parse_elements (Suc m) s xs"
    unfolding parse_elements.simps
  proof (intro list.case_cong if_cong option.case_cong prod.case_cong refl)
    show "parse_value n s = parse_value m s" using b by (intro v) auto
  next
    fix w r0 e r1 and p' :: "json \<times> string"
    assume a: "parse_value m s = Some p'" "p' = (w, r0)" "skip_ws r0 = e # r1"
    have l: "length r0 < length s" using a parse_shorter(1) by blast
    show "parse_elements n (skip_ws r1) (xs @ [w]) = parse_elements m (skip_ws r1) (xs @ [w])"
      using b a l skip_ws_Cons[OF a(3)] length_skip_ws[of r1] by (intro el) auto
  qed
qed

lemma json_fuel:
  shows "2 * length s + 1 \<le> n \<Longrightarrow> 2 * length s + 1 \<le> m \<Longrightarrow> parse_value n s = parse_value m s"
    and "2 * length s + 2 \<le> n \<Longrightarrow> 2 * length s + 2 \<le> m \<Longrightarrow> parse_members n s d = parse_members m s d"
    and "2 * length s + 2 \<le> n \<Longrightarrow> 2 * length s + 2 \<le> m \<Longrightarrow> parse_elements n s xs = parse_elements m s xs"
proof (induction n arbitrary: s m d xs)
  case (Suc n)
  {
    case 1
    then obtain m' where "m = Suc m'" by (cases m) auto
    with 1 show ?case using fuel_step(1)[of n, OF Suc.IH] by blast
  next
    case 2
    then obtain m' where "m = Suc m'" by (cases m) auto
    with 2 show ?case using fuel_step(2)[of n, OF Suc.IH] by blast
  next
    case 3
    then obtain m' where "m = Suc m'" by (cases m) auto
    with 3 show ?case using fuel_step(3)[of n, OF Suc.IH] by blast
  }
qed simp_all

lemma json_fuel_enough:
  "2 * length s + 1 \<le> n \<Longrightarrow> json_loads s =
     (case parse_value n (skip_ws s) of
        None \<Rightarrow> None | Some (v, r) \<Rightarrow> if skip_ws r = [] then Some v else None)"
  using json_fuel(1)[of "skip_ws s" n "2 * length s + 1"] length_skip_ws[of s]
  by (simp add: json_loads_def)

end
