(* ===== verification/Llm_Classifier.thy ===== *)
theory Llm_Classifier
  imports Py_Json
begin

text \<open>
  The classifier of \<open>errand/llm.py\<close>: how an answer of the language model becomes a title, a
  category, timing fields and clarifying questions.  The service itself is a parameter, an
  \<open>llm_answer\<close>: either the request raised, or it returned a content (absent or a text).
\<close>

definition VALID_CATEGORIES :: "string list" where
  "VALID_CATEGORIES = [''immediate'', ''scheduled'', ''repeating'']"

definition CAUSE_NO_MODEL :: string where "CAUSE_NO_MODEL = ''no_model_configured''"
definition CAUSE_REQUEST_FAILED :: string where "CAUSE_REQUEST_FAILED = ''request_failed''"
definition CAUSE_UNUSABLE_RESPONSE :: string where "CAUSE_UNUSABLE_RESPONSE = ''unusable_response''"

record question =
  q_id :: string
  q_text :: string
  q_kind :: string
  q_choices :: "string list option"

record llm_result =
  l_title :: string
  l_success :: bool
  l_category :: string
  l_execute_at :: json
  l_repeat_interval :: json
  l_repeat_until :: json
  l_description :: "string option"
  l_profile :: json
  l_cause :: "string option"
  l_questions :: "question list option"

definition failed_result :: "string \<Rightarrow> string \<Rightarrow> llm_result" where
  "failed_result title cause =
     \<lparr>l_title = title, l_success = False, l_category = ''immediate'', l_execute_at = JNull,
      l_repeat_interval = JNull, l_repeat_until = JNull, l_description = None, l_profile = JNull,
      l_cause = Some cause, l_questions = None\<rparr>"

definition attempted :: "llm_result \<Rightarrow> bool" where
  "attempted r = (l_cause r \<notin> {Some CAUSE_NO_MODEL, Some CAUSE_REQUEST_FAILED})"

definition fallback_title :: "string \<Rightarrow> string" where
  "fallback_title d = join '' '' (take 5 (words d)) @ ''...''"

definition fence :: string where "fence = replicate 3 (char_of (96 :: nat))"
definition strip_markdown_fences :: "string \<Rightarrow> string" where
  "strip_markdown_fences text =
     (let s = strip text
      in if starts_with s fence then
           (let s1 = (case find_char newline s of None \<Rightarrow> s | Some i \<Rightarrow> drop (Suc i) s)
            in if ends_with (rstrip s1) fence
               then rstrip (take (length (rstrip s1) - 3) (rstrip s1)) else s1)
         else s)"

subsection \<open>Clarifying questions\<close>

definition MAX_CLARIFYING_QUESTIONS :: nat where "MAX_CLARIFYING_QUESTIONS = 3"

definition numbered_id :: "nat \<Rightarrow> string" where "numbered_id n = CHR ''q'' # show_nat (int n)"

text \<open>\<open>while f"q{n}" in seen: n += 1\<close>; as many rounds as there are ids seen are enough.\<close>

fun free_id :: "string list \<Rightarrow> nat \<Rightarrow> nat \<Rightarrow> string" where
  "free_id seen n 0 = numbered_id n"
| "free_id seen n (Suc k) =
     (if numbered_id n \<in> set seen then free_id seen (Suc n) k else numbered_id n)"

definition choice_list :: "json option \<Rightarrow> string list" where
  "choice_list c =
     (case c of
        Some (JArr xs) \<Rightarrow> [strip s. JStr s \<leftarrow> xs, strip s \<noteq> []]
      | _ \<Rightarrow> [])"

definition entry_object :: "json \<Rightarrow> (string \<times> json) list option" where
  "entry_object e =
     (case e of JStr s \<Rightarrow> Some [(''text'', JStr s)] | JObj d \<Rightarrow> Some d | _ \<Rightarrow> None)"

text \<open>The question's text, when it is a string that is not blank.\<close>

definition entry_text :: "(string \<times> json) list \<Rightarrow> string option" where
  "entry_text d =
     (case map_of d ''text'' of Some (JStr s) \<Rightarrow> if strip s = [] then None else Some s | _ \<Rightarrow> None)"

definition make_question :: "(string \<times> json) list \<Rightarrow> string \<Rightarrow> string \<Rightarrow> question" where
  "make_question d qid text =
     (let cs = choice_list (map_of d ''choices'')
      in if map_of d ''kind'' = Some (JStr ''choice'') \<and> cs \<noteq> []
         then \<lparr>q_id = qid, q_text = strip text, q_kind = ''choice'', q_choices = Some cs\<rparr>
         else \<lparr>q_id = qid, q_text = strip text, q_kind = ''free_text'', q_choices = None\<rparr>)"

definition question_id :: "(string \<times> json) list \<Rightarrow> string list \<Rightarrow> nat \<Rightarrow> string" where
  "question_id d seen k =
     (let given = (case map_of d ''id'' of Some (JStr s) \<Rightarrow> strip s | _ \<Rightarrow> [])
      in if given = [] \<or> given \<in> set seen then free_id seen (k + 1) (length seen) else given)"

fun questions_loop :: "question list \<Rightarrow> string list \<Rightarrow> json list \<Rightarrow> question list" where
  "questions_loop qs seen [] = qs"
| "questions_loop qs seen (e # es) =
     (if length qs \<ge> MAX_CLARIFYING_QUESTIONS then qs
      else (case entry_object e of
          None \<Rightarrow> questions_loop qs seen es
        | Some d \<Rightarrow>
            (case entry_text d of
               None \<Rightarrow> questions_loop qs seen es
             | Some tx \<Rightarrow>
                 (let qid = question_id d seen (length qs)
                  in questions_loop (qs @ [make_question d qid tx]) (qid # seen) es))))"

definition normalise_questions :: "json \<Rightarrow> question list option" where
  "normalise_questions raw =
     (case raw of
        JArr es \<Rightarrow> (let qs = questions_loop [] [] es in if qs = [] then None else Some qs)
      | _ \<Rightarrow> None)"

subsection \<open>The answer\<close>

text \<open>\<open>category not in VALID_CATEGORIES\<close> hashes the value: a list or an object raises TypeError.\<close>

definition category_of :: "json \<Rightarrow> py_error + string" where
  "category_of j =
     (case j of
        JStr s \<Rightarrow> Inr (if s \<in> set VALID_CATEGORIES then s else ''immediate'')
      | JArr _ \<Rightarrow> Inl (TypeErr ''unhashable type'')
      | JObj _ \<Rightarrow> Inl (TypeErr ''unhashable type'')
      | _ \<Rightarrow> Inr ''immediate'')"

definition description_of :: "json \<Rightarrow> string option" where
  "description_of j =
     (case j of JStr s \<Rightarrow> (if strip s = [] then None else Some (strip s)) | _ \<Rightarrow> None)"

definition parse_llm_response :: "string \<Rightarrow> py_error + llm_result option" where
  "parse_llm_response raw =
     (case json_loads (strip_markdown_fences raw) of
        Some (JObj d) \<Rightarrow>
          (case map_of d ''title'' of
             Some (JStr title) \<Rightarrow>
               if title = [] then Inr None
               else bind_res (category_of (case map_of d ''category'' of None \<Rightarrow> JStr ''immediate'' | Some c \<Rightarrow> c))
                 (\<lambda>category.
                   let profile = json_get_or_null (JObj d) ''profile''
                   in Inr (Some
                     \<lparr>l_title = strip title, l_success = True, l_category = category,
                      l_execute_at = json_get_or_null (JObj d) ''execute_at'',
                      l_repeat_interval = json_get_or_null (JObj d) ''repeat_interval'',
                      l_repeat_until = json_get_or_null (JObj d) ''repeat_until'',
                      l_description = description_of (json_get_or_null (JObj d) ''description''),
                      l_profile = (case profile of JStr _ \<Rightarrow> profile | _ \<Rightarrow>
                          if json_truthy profile then JNull else profile),
                      l_cause = None,
                      l_questions = normalise_questions (json_get_or_null (JObj d) ''questions'')\<rparr>))
           | _ \<Rightarrow> Inr None)
      | _ \<Rightarrow> Inr None)"

datatype llm_answer = Raised | Answered "string option"

text \<open>\<open>generate_title\<close> after the model was resolved: everything inside its \<open>try\<close>.\<close>

definition judge_answer :: "string \<Rightarrow> llm_answer \<Rightarrow> llm_result" where
  "judge_answer description ans =
     (case ans of
        Raised \<Rightarrow> failed_result (fallback_title description) CAUSE_REQUEST_FAILED
      | Answered content \<Rightarrow>
          (let raw = (case content of None \<Rightarrow> [] | Some c \<Rightarrow> strip c)
           in if raw = [] then failed_result (fallback_title description) CAUSE_UNUSABLE_RESPONSE
              else (case parse_llm_response raw of
                  Inl _ \<Rightarrow> failed_result (fallback_title description) CAUSE_REQUEST_FAILED
                | Inr (Some r) \<Rightarrow> r
                | Inr None \<Rightarrow> failed_result raw CAUSE_UNUSABLE_RESPONSE)))"

definition generate_title :: "bool \<Rightarrow> (string \<Rightarrow> llm_answer) \<Rightarrow> string \<Rightarrow> llm_result" where
  "generate_title model_configured service description =
     (if \<not> model_configured then failed_result (fallback_title description) CAUSE_NO_MODEL
      else judge_answer description (service description))"

subsection \<open>Lemmas\<close>

lemma inj_numbered_id: "numbered_id m = numbered_id n \<Longrightarrow> m = n"
  unfolding numbered_id_def
  by (metis digits_val_show_nat list.inject of_nat_0_le_iff of_nat_eq_iff)

lemma free_id_exhaust:
  "free_id seen n k \<in> set seen \<Longrightarrow> numbered_id ` {n..n + k} \<subseteq> set seen"
proof (induction k arbitrary: n)
  case (Suc k)
  show ?case
  proof (cases "numbered_id n \<in> set seen")
    case True
    then have "numbered_id ` {Suc n..Suc n + k} \<subseteq> set seen" using Suc.IH[of "Suc n"] Suc.prems by simp
    moreover have "{n..n + Suc k} = insert n {Suc n..Suc n + k}" by auto
    ultimately show ?thesis using True by simp
  next
    case False
    with Suc.prems show ?thesis by simp
  qed
qed simp

lemma free_id_fresh: "free_id seen n (length seen) \<notin> set seen"
proof
  assume "free_id seen n (length seen) \<in> set seen"
  from card_mono[OF _ free_id_exhaust[OF this]]
  have "card (numbered_id ` {n..n + length seen}) \<le> length seen"
    using card_length[of seen] by simp
  moreover have "card (numbered_id ` {n..n + length seen}) = Suc (length seen)"
    by (subst card_image) (auto intro: inj_onI dest: inj_numbered_id)
  ultimately show False by simp
qed

lemma question_id_fresh: "question_id d seen c \<notin> set seen"
  using free_id_fresh by (auto simp: question_id_def Let_def)

lemma free_id_nonempty: "free_id seen n k \<noteq> []"
  by (induction k arbitrary: n) (auto simp: numbered_id_def)

lemma question_id_nonempty: "question_id d seen c \<noteq> []"
  using free_id_nonempty by (auto simp: question_id_def Let_def)

definition question_ok :: "question \<Rightarrow> bool" where
  "question_ok q \<longleftrightarrow> q_id q \<noteq> [] \<and> q_text q \<noteq> [] \<and>
     (q_kind q = ''choice'' \<and> (\<exists>c cs. q_choices q = Some (c # cs)) \<or>
      q_kind q = ''free_text'' \<and> q_choices q = None)"

lemma make_question_ok: "qid \<noteq> [] \<Longrightarrow> strip text \<noteq> [] \<Longrightarrow> question_ok (make_question d qid text)"
  by (auto simp: make_question_def question_ok_def Let_def neq_Nil_conv)

lemma entry_text_nonblank: "entry_text d = Some s \<Longrightarrow> strip s \<noteq> []"
  by (auto simp: entry_text_def split: option.splits json.splits if_splits)

lemma q_id_make_question [simp]: "q_id (make_question d qid text) = qid"
  by (simp add: make_question_def Let_def)

lemma questions_loop_inv:
  assumes "list_all question_ok qs" "distinct (map q_id qs)" "set seen = q_id ` set qs"
    "length qs \<le> MAX_CLARIFYING_QUESTIONS"
  shows "list_all question_ok (questions_loop qs seen es) \<and>
    distinct (map q_id (questions_loop qs seen es)) \<and>
    length (questions_loop qs seen es) \<le> MAX_CLARIFYING_QUESTIONS"
  using assms
proof (induction es arbitrary: qs seen)
  case (Cons e es)
  consider "length qs \<ge> MAX_CLARIFYING_QUESTIONS"
    | "\<not> length qs \<ge> MAX_CLARIFYING_QUESTIONS" "Option.bind (entry_object e) entry_text = None"
    | d where "\<not> length qs \<ge> MAX_CLARIFYING_QUESTIONS" "entry_object e = Some d" "entry_text d \<noteq> None"
    by (cases "entry_object e") auto
  then show ?case
  proof cases
    case 2
    then have "questions_loop qs seen (e # es) = questions_loop qs seen es"
      by (auto split: option.splits)
    with Cons show ?thesis by simp
  next
    case 3
    then obtain tx where t: "entry_text d = Some tx" by blast
    let ?q = "question_id d seen (length qs)"
    have "list_all question_ok (qs @ [make_question d ?q tx])"
      using Cons.prems(1) t question_id_nonempty by (simp add: make_question_ok entry_text_nonblank)
    moreover have "distinct (map q_id (qs @ [make_question d ?q tx]))"
      using Cons.prems(2,3) question_id_fresh[of d seen "length qs"] by simp
    moreover have "set (?q # seen) = q_id ` set (qs @ [make_question d ?q tx])"
      by (simp add: Cons.prems(3))
    ultimately show ?thesis
      using Cons.IH[of "qs @ [make_question d ?q tx]" "?q # seen"] 3 t
      by (simp only: questions_loop.simps Let_def option.case) simp
  qed (use Cons.prems in simp)
qed simp

lemma normalise_questions_ok:
  "normalise_questions raw = Some qs \<Longrightarrow> qs \<noteq> [] \<and> length qs \<le> MAX_CLARIFYING_QUESTIONS \<and>
     list_all question_ok qs \<and> distinct (map q_id qs)"
  using questions_loop_inv[of "[]" "[]"]
  by (auto simp: normalise_questions_def Let_def split: json.splits if_splits)

end
