(* ===== verification/Task_Board.thy ===== *)
theory Task_Board
  imports Board_Invariant Py_Datetime Llm_Classifier
begin

text \<open>
  The task handlers of the HTTP API (\<open>errand/main.py\<close>) and the shared creation path
  (\<open>errand/task_creation.py\<close>).  A request body is a record; FastAPI's validation of it is the
  first branch of the handler (status 422).  Authentication is left to the callers.
\<close>

subsection \<open>Request bodies\<close>

record task_patch =
  u_title :: "string option"
  u_description :: "string option"
  u_status :: "string option"
  u_position :: "int option"
  u_tags :: "string list option"
  u_category :: "string option"
  u_execute_at :: "string option"
  u_repeat_interval :: "string option"
  u_repeat_until :: "string option"
  u_output :: "string option"
  u_profile_id :: "string option"

definition empty_patch :: task_patch where
  "empty_patch = \<lparr>u_title = None, u_description = None, u_status = None, u_position = None,
     u_tags = None, u_category = None, u_execute_at = None, u_repeat_interval = None,
     u_repeat_until = None, u_output = None, u_profile_id = None\<rparr>"

definition valid_patch :: "task_patch \<Rightarrow> bool" where
  "valid_patch p =
     (u_title p \<noteq> Some [] \<and>
      (case u_status p of None \<Rightarrow> True | Some s \<Rightarrow> status_of_string s \<noteq> None) \<and>
      (case u_category p of None \<Rightarrow> True | Some c \<Rightarrow> c \<in> set VALID_CATEGORIES))"

definition set_if :: "'a option \<Rightarrow> ('a \<Rightarrow> task \<Rightarrow> task) \<Rightarrow> task \<Rightarrow> task" where
  "set_if x f t = (case x of None \<Rightarrow> t | Some v \<Rightarrow> f v t)"

subsection \<open>Listing\<close>

text \<open>SQL's \<open>LIKE\<close>: a percent sign matches any text, an underscore one character, a backslash
  takes the next character literally.\<close>

fun like :: "string \<Rightarrow> string \<Rightarrow> bool" where
  "like [] s = (s = [])"
| "like (c # p) [] = (c = CHR ''%'' \<and> like p [])"
| "like (c # p) (d # s) =
     (if c = CHR ''%'' then like p (d # s) \<or> like (c # p) s
      else if c = CHR ''_'' then like p s
      else if c = backslash \<and> p \<noteq> [] then d = hd p \<and> like (tl p) s
      else d = c \<and> like p s)"

definition list_tags :: "string option \<Rightarrow> db \<Rightarrow> (nat \<times> string) list" where
  "list_tags q db =
     take 10 (sort_key snd
       (if truthy q then filter (\<lambda>(g, n). like (py_lower (the q) @ ''%'') (py_lower n)) (tags db)
        else tags db))"

definition visible :: "bool \<Rightarrow> task \<Rightarrow> bool" where
  "visible include_evals t = (include_evals \<or> \<not> t_is_eval t)"

definition list_tasks :: "bool \<Rightarrow> db \<Rightarrow> task_response list" where
  "list_tasks include_evals db =
     (let active = sort_key (\<lambda>t. (t_position t, t_created_at t))
            (filter (\<lambda>t. t_status t \<notin> {New, Deleted, Archived, Completed} \<and> visible include_evals t)
              (tasks db));
          completed = sort_key (\<lambda>t. - t_updated_at t)
            (filter (\<lambda>t. t_status t = Completed \<and> visible include_evals t) (tasks db))
      in map (response_of db None) (active @ completed))"

definition list_archived_tasks :: "bool \<Rightarrow> bool \<Rightarrow> db \<Rightarrow> task_response list" where
  "list_archived_tasks is_admin include_evals db =
     map (response_of db None) (sort_key (\<lambda>t. - t_updated_at t)
       (filter (\<lambda>t. (if is_admin then t_status t \<in> {Deleted, Archived} else t_status t = Archived) \<and>
             visible include_evals t) (tasks db)))"

definition get_task :: "nat \<Rightarrow> db \<Rightarrow> py_error + task_response" where
  "get_task i db =
     (case find_task db i of
        None \<Rightarrow> Inl (Http 404 ''Task not found'')
      | Some t \<Rightarrow> Inr (response_of db None t))"

subsection \<open>Creating\<close>

record create_args =
  c_title :: string
  c_description :: "string option"
  c_category :: string
  c_execute_at :: "time option"
  c_repeat_interval :: "string option"
  c_repeat_until :: "time option"
  c_profile_id :: "nat option"
  c_created_by :: "string option"
  c_tag_names :: "string list"
  c_classification :: "string option"

definition new_row :: "time \<Rightarrow> create_args \<Rightarrow> db \<Rightarrow> task" where
  "new_row now a db =
     \<lparr>t_id = fresh_id (ids db), t_title = c_title a, t_description = c_description a,
      t_status = Review, t_created_at = now, t_updated_at = now, t_category = Some (c_category a),
      t_execute_at = (if c_category a = ''immediate'' then Some now else c_execute_at a),
      t_repeat_interval = c_repeat_interval a, t_repeat_until = c_repeat_until a,
      t_position = 0, t_output = None, t_runner_logs = None, t_questions = None,
      t_retry_count = 0, t_heartbeat_at = None, t_profile_id = c_profile_id a,
      t_created_by = c_created_by a, t_updated_by = None, t_encrypted_env = None,
      t_is_eval = resolve_is_eval db (c_profile_id a)\<rparr>"

definition route :: "create_args \<Rightarrow> task_status" where
  "route a =
     (if ''Needs Info'' \<in> set (c_tag_names a) then Review
      else if c_category a = ''immediate'' then Pending
      else if c_category a \<in> {''scheduled'', ''repeating''} then Scheduled
      else Review)"

text \<open>The INSERT at the flush checks the profile's foreign key.\<close>

definition profile_exists :: "db \<Rightarrow> nat option \<Rightarrow> bool" where
  "profile_exists db pid = (case pid of None \<Rightarrow> True | Some p \<Rightarrow> p \<in> fst ` set (profiles db))"

definition set_new_tags :: "nat \<Rightarrow> string list \<Rightarrow> db \<Rightarrow> py_error + db" where
  "set_new_tags i names db = (if names = [] then Inr db else sync_tags db i names)"

text \<open>The status is flushed before the query of \<open>_next_position\<close>, so the new row, still at
  position 0, is one of the rows whose maximum it takes.\<close>

definition create_task_from_fields :: "time \<Rightarrow> create_args \<Rightarrow> db \<Rightarrow> py_error + (nat \<times> db)" where
  "create_task_from_fields now a db =
     (let row = new_row now a db; i = t_id row
      in if \<not> profile_exists db (c_profile_id a) then Inl IntegrityErr
         else bind_res
           (set_new_tags i (c_tag_names a) (insert_task row db))
           (\<lambda>db1.
             let db2 = update_row i (\<lambda>t. flush_row now t (t\<lparr>t_status := route a\<rparr>)) db1;
                 pos = next_position db2 (route a) None;
                 db3 = update_row i (\<lambda>t. flush_row now t (t\<lparr>t_position := pos\<rparr>)) db2
             in Inr (i, publish_response ''task_created'' i (c_classification a) db3)))"

text \<open>\<open>datetime.fromisoformat\<close> on a model-supplied value, errors ignored.\<close>

definition json_datetime :: "json \<Rightarrow> time option" where
  "json_datetime j = (case j of JStr s \<Rightarrow> if s = [] then None else fromisoformat s | _ \<Rightarrow> None)"

text \<open>A text column takes a string or null; the driver refuses anything else.\<close>

definition json_text :: "json \<Rightarrow> py_error + string option" where
  "json_text j = (case j of JNull \<Rightarrow> Inr None | JStr s \<Rightarrow> Inr (Some s) | _ \<Rightarrow> Inl (TypeErr ''expected str''))"

definition profile_id_of_name :: "db \<Rightarrow> json \<Rightarrow> nat option" where
  "profile_id_of_name db j =
     (case j of
        JStr n \<Rightarrow> if n = [] then None else map_option fst (find (\<lambda>(_, m). m = n) (profiles db))
      | _ \<Rightarrow> None)"

text \<open>How the classifier's result becomes description, tags and classification.\<close>

definition triage :: "string \<Rightarrow> llm_result \<Rightarrow> string option \<times> string list \<times> string option" where
  "triage input r =
     (if \<not> attempted r then (Some input, [], l_cause r)
      else if \<not> l_success r then (Some input, [''Needs Info''], Some ''unclassified'')
      else if l_description r = None then (None, [''Needs Info''], Some ''unclassified'')
      else (l_description r, [], Some ''classified''))"

definition create_task ::
  "time \<Rightarrow> (string \<Rightarrow> llm_result) \<Rightarrow> string option \<Rightarrow> string \<Rightarrow> db \<Rightarrow> py_error + (nat \<times> db)" where
  "create_task now classify email body_input db =
     (if body_input = [] then Inl (Http 422 ''String should have at least 1 character'')
      else
        (let input_text = strip body_input
         in if 5 < length (words input_text) then
              (let r = classify input_text; (description, tag_names, classification) = triage input_text r
               in bind_res (json_text (l_repeat_interval r)) (\<lambda>interval.
                    create_task_from_fields now
                      \<lparr>c_title = l_title r, c_description = description, c_category = l_category r,
                       c_execute_at = json_datetime (l_execute_at r), c_repeat_interval = interval,
                       c_repeat_until = json_datetime (l_repeat_until r),
                       c_profile_id = profile_id_of_name db (l_profile r), c_created_by = email,
                       c_tag_names = tag_names, c_classification = classification\<rparr> db))
            else
              create_task_from_fields now
                \<lparr>c_title = input_text, c_description = None, c_category = ''immediate'',
                 c_execute_at = None, c_repeat_interval = None, c_repeat_until = None,
                 c_profile_id = None, c_created_by = email, c_tag_names = [''Needs Info''],
                 c_classification = Some ''skipped''\<rparr> db))"

subsection \<open>Editing\<close>

definition patch_head :: "string option \<Rightarrow> task_patch \<Rightarrow> task \<Rightarrow> task" where
  "patch_head email p t =
     set_if (Option.bind (u_status p) status_of_string) (\<lambda>s. t_status_update (\<lambda>_. s))
       (set_if (u_description p) (\<lambda>d. t_description_update (\<lambda>_. Some d))
         (set_if (u_title p) (\<lambda>x. t_title_update (\<lambda>_. x)) (t\<lparr>t_updated_by := email\<rparr>)))"

text \<open>The bulk UPDATE that makes room for the row \<open>i\<close> moving from \<open>old\<close> to \<open>new\<close> in column \<open>s\<close>.\<close>

definition shift_rows :: "time \<Rightarrow> task_status \<Rightarrow> nat \<Rightarrow> int \<Rightarrow> int \<Rightarrow> db \<Rightarrow> db" where
  "shift_rows now s i old new db =
     (if new < old then
        update_where (\<lambda>t. t_status t = s \<and> new \<le> t_position t \<and> t_position t < old \<and> t_id t \<noteq> i)
          (\<lambda>t. touch now (t\<lparr>t_position := t_position t + 1\<rparr>)) db
      else
        update_where (\<lambda>t. t_status t = s \<and> old < t_position t \<and> t_position t \<le> new \<and> t_id t \<noteq> i)
          (\<lambda>t. touch now (t\<lparr>t_position := t_position t - 1\<rparr>)) db)"

text \<open>Position handling; the queries it makes leave the edited row out, so the order in which
  that row is flushed does not matter and its single UPDATE is written at the end.\<close>

definition patch_place :: "time \<Rightarrow> task_patch \<Rightarrow> task \<Rightarrow> task \<Rightarrow> db \<Rightarrow> db \<times> task" where
  "patch_place now p t t1 db =
     (let status_changed =
            (case u_status p of None \<Rightarrow> False | Some s \<Rightarrow> status_of_string s \<noteq> Some (t_status t))
      in if status_changed then
           (db, t1\<lparr>t_position := next_position db (t_status t1) (Some (t_id t))\<rparr>)
         else (case u_position p of
             None \<Rightarrow> (db, t1)
           | Some new \<Rightarrow>
               if new = t_position t then (db, t1)
               else (shift_rows now (t_status t1) (t_id t) (t_position t) new db,
                     t1\<lparr>t_position := new\<rparr>)))"

definition patch_fields :: "task_patch \<Rightarrow> task \<Rightarrow> task" where
  "patch_fields p t =
     set_if (u_repeat_until p) (\<lambda>s. t_repeat_until_update (\<lambda>_. fromisoformat s))
       (set_if (u_repeat_interval p) (\<lambda>x. t_repeat_interval_update (\<lambda>_. Some x))
         (set_if (u_execute_at p) (\<lambda>s. t_execute_at_update (\<lambda>_. fromisoformat s))
           (set_if (u_category p) (\<lambda>x. t_category_update (\<lambda>_. Some x))
             (set_if (u_output p) (\<lambda>x. t_output_update (\<lambda>_. Some x)) t))))"

definition patch_profile :: "task_patch \<Rightarrow> db \<Rightarrow> task \<Rightarrow> py_error + task" where
  "patch_profile p db t =
     (case u_profile_id p of
        None \<Rightarrow> Inr t
      | Some s \<Rightarrow>
          if s = ''null'' \<or> s = [] then Inr (t\<lparr>t_profile_id := None\<rparr>)
          else (case parse_uuid s of
              None \<Rightarrow> Inl (Http 422 ''Invalid profile_id format'')
            | Some pid \<Rightarrow>
                if pid \<notin> fst ` set (profiles db) then Inl (Http 422 ''Task profile not found'')
                else Inr (t\<lparr>t_profile_id := Some pid\<rparr>)))"

definition update_task ::
  "time \<Rightarrow> string option \<Rightarrow> task_patch \<Rightarrow> nat \<Rightarrow> db \<Rightarrow> py_error + db" where
  "update_task now email p i db =
     (if \<not> valid_patch p then Inl (Http 422 ''validation'')
      else (case find_task db i of
          None \<Rightarrow> Inl (Http 404 ''Task not found'')
        | Some t \<Rightarrow>
            if t_status t = Running then Inl (Http 409 ''Cannot edit a running task'')
            else
              (let (db1, t2) = patch_place now p t (patch_head email p t) db; t3 = patch_fields p t2
               in bind_res (case u_tags p of None \<Rightarrow> Inr db1 | Some names \<Rightarrow> sync_tags db1 i names)
                    (\<lambda>db2. bind_res (patch_profile p db2 t3) (\<lambda>t4.
                       Inr (publish_response ''task_updated'' i None
                         (update_row i (\<lambda>_. flush_row now t t4) db2)))))))"

definition delete_task :: "time \<Rightarrow> nat \<Rightarrow> db \<Rightarrow> py_error + db" where
  "delete_task now i db =
     (case find_task db i of
        None \<Rightarrow> Inl (Http 404 ''Task not found'')
      | Some t \<Rightarrow>
          Inr (emit (Deleted_event i)
            (update_row i (\<lambda>t. flush_row now t (t\<lparr>t_status := Deleted\<rparr>)) db)))"

subsection \<open>Moving within a column\<close>

text \<open>Where the other rows of a column go when one row moves from \<open>old\<close> to \<open>new\<close>.\<close>

definition moved_pos :: "int \<Rightarrow> int \<Rightarrow> int \<Rightarrow> int" where
  "moved_pos old new p =
     (if new < old then (if new \<le> p \<and> p < old then p + 1 else p)
      else (if old < p \<and> p \<le> new then p - 1 else p))"

lemma moved_pos_mono: "p \<noteq> old \<Longrightarrow> q \<noteq> old \<Longrightarrow> moved_pos old new p < moved_pos old new q \<longleftrightarrow> p < q"
  by (auto simp: moved_pos_def)

lemma moved_pos_inj: "p \<noteq> old \<Longrightarrow> q \<noteq> old \<Longrightarrow> moved_pos old new p = moved_pos old new q \<longleftrightarrow> p = q"
  by (auto simp: moved_pos_def)

lemma moved_pos_new: "p \<noteq> old \<Longrightarrow> moved_pos old new p \<noteq> new"
  by (auto simp: moved_pos_def)

lemma moved_pos_dense:
  assumes "old \<in> {1..n}" "new \<in> {1..n}"
  shows "insert new (moved_pos old new ` ({1..n} - {old})) = {1..n}"
proof
  show "insert new (moved_pos old new ` ({1..n} - {old})) \<subseteq> {1..n}"
    using assms by (auto simp: moved_pos_def)
  show "{1..n} \<subseteq> insert new (moved_pos old new ` ({1..n} - {old}))"
  proof
    fix q assume q: "q \<in> {1..n}"
    have "\<exists>p \<in> {1..n} - {old}. q = moved_pos old new p" if "q \<noteq> new"
    proof (cases "new < old")
      case True
      then show ?thesis
        using q assms that
        by (intro bexI[of _ "if new < q \<and> q \<le> old then q - 1 else q"]) (auto simp: moved_pos_def)
    next
      case False
      then show ?thesis
        using q assms that
        by (intro bexI[of _ "if old \<le> q \<and> q < new then q + 1 else q"]) (auto simp: moved_pos_def)
    qed
    then show "q \<in> insert new (moved_pos old new ` ({1..n} - {old}))" by blast
  qed
qed

definition shifted :: "time \<Rightarrow> task_status \<Rightarrow> nat \<Rightarrow> int \<Rightarrow> int \<Rightarrow> task \<Rightarrow> task" where
  "shifted now s i old new u =
     (if t_status u = s \<and> t_id u \<noteq> i \<and> moved_pos old new (t_position u) \<noteq> t_position u
      then touch now (u\<lparr>t_position := moved_pos old new (t_position u)\<rparr>) else u)"

lemma shift_rows_eq: "tasks (shift_rows now s i old new db) = map (shifted now s i old new) (tasks db)"
  by (auto simp: shift_rows_def tasks_update_where shifted_def moved_pos_def)

lemma shift_rows_frame [simp]:
  "tags (shift_rows now s i old new db) = tags db"
  "task_tags (shift_rows now s i old new db) = task_tags db"
  "profiles (shift_rows now s i old new db) = profiles db"
  "outbox (shift_rows now s i old new db) = outbox db"
  by (simp_all add: shift_rows_def)

lemma shifted_fields [simp]:
  "t_id (shifted now s i old new u) = t_id u"
  "t_status (shifted now s i old new u) = t_status u"
  by (simp_all add: shifted_def touch_def)

lemma shifted_position:
  "t_position (shifted now s i old new u) =
    (if t_status u = s \<and> t_id u \<noteq> i then moved_pos old new (t_position u) else t_position u)"
  by (auto simp: shifted_def touch_def)

lemma ids_shift_rows [simp]: "ids (shift_rows now s i old new db) = ids db"
  by (simp add: ids_def shift_rows_eq)

lemma find_map: "(\<And>u. t_id (g u) = t_id u) \<Longrightarrow>
    find (\<lambda>t. t_id t = i) (map g ts) = map_option g (find (\<lambda>t. t_id t = i) ts)"
  by (induction ts) auto

lemma find_task_shift_rows:
  "find_task (shift_rows now s i old new db) j = map_option (shifted now s i old new) (find_task db j)"
  by (simp add: find_task_def shift_rows_eq find_map)

lemma distinct_positions_shift:
  assumes "distinct_positions c (tasks db)" "t \<in> set (tasks db)" "t_id t = i"
    "t_id t4 = i" "t_status t4 = t_status t" "t_position t4 = new" "new \<noteq> t_position t"
  shows "distinct_positions c
    (tasks (update_row i (\<lambda>_. t4) (shift_rows now (t_status t) i (t_position t) new db)))"
  unfolding distinct_positions_def
proof (intro ballI impI)
  let ?g = "shifted now (t_status t) i (t_position t) new"
  fix a' b'
  assume "a' \<in> set (tasks (update_row i (\<lambda>_. t4) (shift_rows now (t_status t) i (t_position t) new db)))"
    "b' \<in> set (tasks (update_row i (\<lambda>_. t4) (shift_rows now (t_status t) i (t_position t) new db)))"
    and c: "t_status a' = c" "t_status b' = c" and eq: "t_position a' = t_position b'"
  then obtain a b where ab: "a \<in> set (tasks db)" "b \<in> set (tasks db)"
    "a' = (if t_id a = i then t4 else ?g a)" "b' = (if t_id b = i then t4 else ?g b)"
    by (auto simp: tasks_update_row shift_rows_eq)
  have old: "u \<in> set (tasks db) \<Longrightarrow> t_status u = c \<Longrightarrow> t_id u \<noteq> i \<Longrightarrow> t_status t = c \<Longrightarrow>
      t_position u \<noteq> t_position t" for u
    using assms(1-3) unfolding distinct_positions_def by blast
  have other: "t_id u \<noteq> i \<Longrightarrow> t_status u = c \<Longrightarrow>
      t_position (?g u) = (if t_status t = c then moved_pos (t_position t) new (t_position u) else t_position u)" for u
    by (auto simp: shifted_position)
  consider "t_id a = i" "t_id b = i" | "t_id a = i" "t_id b \<noteq> i"
    | "t_id a \<noteq> i" "t_id b = i" | "t_id a \<noteq> i" "t_id b \<noteq> i" by blast
  then show "t_id a' = t_id b'"
  proof cases
    case 2
    then have "t_status t = c" "t_status b = c" using ab c assms by auto
    then show ?thesis using 2 ab eq assms(6) other[of b] old[of b] moved_pos_new by metis
  next
    case 3
    then have "t_status t = c" "t_status a = c" using ab c assms by auto
    then show ?thesis using 3 ab eq assms(6) other[of a] old[of a] moved_pos_new by metis
  next
    case 4
    then have s: "t_status a = c" "t_status b = c" using ab c by auto
    have "t_position a = t_position b"
      using 4 s eq ab other[of a] other[of b] old[of a] old[of b] moved_pos_inj by (metis (full_types))
    then have "t_id a = t_id b"
      using s ab(1,2) assms(1) unfolding distinct_positions_def by blast
    then show ?thesis using 4 ab(3,4) by simp
  qed (use ab in simp)
qed

end
