(* ===== verification/Task_Board_Facts.thy ===== *)
theory Task_Board_Facts
  imports Task_Board
begin

text \<open>
  What the task handlers guarantee: they keep the board's invariant, a move inside a column keeps
  the order of the other rows, a new task lands where its category sends it, and the listings
  show exactly the rows they should.
\<close>

subsection \<open>Editing a task\<close>

lemma set_if_fields:
  "(\<And>x u. g (f x u) = g u) \<Longrightarrow> g (set_if v f t) = g t"
  by (cases v) (simp_all add: set_if_def)

lemma patch_fields_frame [simp]:
  "t_id (patch_fields p t) = t_id t" "t_status (patch_fields p t) = t_status t"
  "t_position (patch_fields p t) = t_position t"
  by (simp_all add: patch_fields_def set_if_fields)

lemma patch_head_frame [simp]:
  "t_id (patch_head e p t) = t_id t" "t_position (patch_head e p t) = t_position t"
  "t_status (patch_head e p t) = (case Option.bind (u_status p) status_of_string of
      None \<Rightarrow> t_status t | Some s \<Rightarrow> s)"
  by (auto simp: patch_head_def set_if_fields set_if_def split: option.splits)

lemma patch_profile_frame:
  "patch_profile p db t = Inr t' \<Longrightarrow>
     t_id t' = t_id t \<and> t_status t' = t_status t \<and> t_position t' = t_position t"
  unfolding patch_profile_def
  by (cases "u_profile_id p"; cases "parse_uuid (the (u_profile_id p))") (auto split: if_splits)

lemma flush_row_frame [simp]:
  "t_id (flush_row now old new) = t_id new"
  "t_status (flush_row now old new) = t_status new"
  "t_position (flush_row now old new) = t_position new"
  by (auto simp: flush_row_def touch_def)

lemma patch_place_id: "patch_place now p t t1 db = (db1, t2) \<Longrightarrow>
    t_id t2 = t_id t1 \<and> t_status t2 = t_status t1"
  by (auto simp: patch_place_def Let_def split: option.splits if_splits)

lemma patch_place_frame: "patch_place now p t t1 db = (db1, t2) \<Longrightarrow>
    tags db1 = tags db \<and> task_tags db1 = task_tags db \<and> profiles db1 = profiles db \<and> ids db1 = ids db"
  by (auto simp: patch_place_def Let_def split: option.splits if_splits)

lemma update_task_cases:
  assumes "update_task now e p i db = Inr db'"
  obtains t db1 t2 db2 t4 where
    "valid_patch p" "find_task db i = Some t" "t_status t \<noteq> Running"
    "patch_place now p t (patch_head e p t) db = (db1, t2)"
    "(case u_tags p of None \<Rightarrow> Inr db1 | Some names \<Rightarrow> sync_tags db1 i names) = Inr db2"
    "patch_profile p db2 (patch_fields p t2) = Inr t4"
    "db' = publish_response ''task_updated'' i None (update_row i (\<lambda>_. flush_row now t t4) db2)"
proof -
  from assms have v: "valid_patch p" by (simp add: update_task_def split: if_splits)
  obtain t where t: "find_task db i = Some t" "t_status t \<noteq> Running"
    using assms by (auto simp: update_task_def split: if_splits option.splits)
  obtain db1 t2 where place: "patch_place now p t (patch_head e p t) db = (db1, t2)"
    by (cases "patch_place now p t (patch_head e p t) db")
  from assms v t place obtain db2 t4 where
    "(case u_tags p of None \<Rightarrow> Inr db1 | Some names \<Rightarrow> sync_tags db1 i names) = Inr db2"
    "patch_profile p db2 (patch_fields p t2) = Inr t4"
    "db' = publish_response ''task_updated'' i None (update_row i (\<lambda>_. flush_row now t t4) db2)"
    by (simp add: update_task_def bind_res_eq_Inr) blast
  then show thesis using that v t place by blast
qed

text \<open>A row that is placed keeps the positions of every column distinct.\<close>

lemma patch_place_distinct:
  assumes place: "patch_place now p t (patch_head e p t) db = (db1, t2)"
    and t: "t \<in> set (tasks db)" "t_id t = i" and d: "distinct_positions c (tasks db)"
    and valid: "valid_patch p"
    and t4: "t_id t4 = i" "t_status t4 = t_status t2" "t_position t4 = t_position t2"
  shows "distinct_positions c (tasks (update_row i (\<lambda>_. t4) db1))"
proof -
  define t1 where "t1 = patch_head e p t"
  consider s where "u_status p = Some s" "status_of_string s \<noteq> Some (t_status t)"
    | "t_status t1 = t_status t" "db1 = db" "t_position t2 = t_position t"
    | new where "t_status t1 = t_status t" "new \<noteq> t_position t" "t_position t2 = new"
        "db1 = shift_rows now (t_status t1) i (t_position t) new db"
  proof (cases "\<exists>s. u_status p = Some s \<and> status_of_string s \<noteq> Some (t_status t)")
    case True
    then show ?thesis using that(1) by blast
  next
    case False
    then have s: "t_status t1 = t_status t"
      using valid by (auto simp: t1_def valid_patch_def split: option.splits)
    have pl: "(db1, t2) = (case u_position p of None \<Rightarrow> (db, t1) | Some new \<Rightarrow>
        if new = t_position t then (db, t1)
        else (shift_rows now (t_status t1) (t_id t) (t_position t) new db, t1\<lparr>t_position := new\<rparr>))"
      using place False by (auto simp: patch_place_def t1_def[symmetric] Let_def split: option.splits)
    have "t_position t1 = t_position t" by (simp add: t1_def)
    with pl s show ?thesis using that(2,3) t(2)
      by (cases "u_position p"; cases "the (u_position p) = t_position t") auto
  qed
  then show ?thesis
  proof cases
    case 1
    then have "db1 = db" "t_position t2 = next_position db (t_status t1) (Some i)"
      using place t(2) by (auto simp: patch_place_def t1_def[symmetric] Let_def)
    moreover have "t_status t2 = t_status t1" using patch_place_id[OF place] by (simp add: t1_def)
    moreover have "t_position t4 \<noteq> t_position u"
      if "u \<in> set (tasks db)" "t_status u = t_status t4" "t_id u \<noteq> i" for u
      using that board.next_fresh[of u db "t_status t1" "Some i"] t4 calculation by simp
    ultimately show ?thesis
      using t4(1) d by (intro distinct_positions_update_row) simp_all
  next
    case 2
    have "t_status t2 = t_status t" using patch_place_id[OF place] 2 by (simp add: t1_def)
    then have "u \<in> set (tasks db) \<Longrightarrow> t_id u \<noteq> i \<Longrightarrow> t_status t4 = c \<Longrightarrow> t_status u = c \<Longrightarrow>
        t_position t4 \<noteq> t_position u" for u
      using d t t4 2 unfolding distinct_positions_def by metis
    then show ?thesis using 2 t4 d by (intro distinct_positions_update_row) auto
  next
    case 3
    have "t_status t2 = t_status t" using patch_place_id[OF place] 3 by (simp add: t1_def)
    then show ?thesis
      using 3 t4 distinct_positions_shift[OF d t t4(1), of new now] by simp
  qed
qed

lemma update_task_keeps_inv:
  assumes inv: "board_inv db" and u: "update_task now e p i db = Inr db'"
  shows "board_inv db'"
proof -
  from u obtain t db1 t2 db2 t4 where
    v: "valid_patch p" and t: "find_task db i = Some t"
    and place: "patch_place now p t (patch_head e p t) db = (db1, t2)"
    and sync: "(case u_tags p of None \<Rightarrow> Inr db1 | Some names \<Rightarrow> sync_tags db1 i names) = Inr db2"
    and prof: "patch_profile p db2 (patch_fields p t2) = Inr t4"
    and db': "db' = publish_response ''task_updated'' i None (update_row i (\<lambda>_. flush_row now t t4) db2)"
    by (rule update_task_cases)
  note tm = find_task_SomeD[OF t]
  note f = patch_place_frame[OF place]
  have ti: "tag_inv db1" using f board_invD(2)[OF inv] by (simp add: tag_inv_def)
  have li: "links_inv db1" using f board_invD(4)[OF inv] by (simp add: links_inv_def)
  have ii: "i \<in> set (ids db1)" using f tm by (auto simp: ids_def)
  have s2: "tag_inv db2 \<and> links_inv db2 \<and> tasks db2 = tasks db1"
  proof (cases "u_tags p")
    case None
    then show ?thesis using sync ti li by simp
  next
    case (Some names)
    then have sy: "sync_tags db1 i names = Inr db2" using sync by simp
    have c: "tag_inv (db1\<lparr>task_tags := filter (\<lambda>p. fst p \<noteq> i) (task_tags db1)\<rparr>)"
      using ti by (rule tag_inv_clear)
    show ?thesis
      using sync_tags_loop_spec[OF c, where i = i and ns = names] sy sync_tags_frame[OF sy]
        sync_tags_links[OF sy li ii]
      by (simp add: sync_tags_def)
  qed
  have id4: "t_id t4 = i" and st4: "t_status t4 = t_status t2" "t_position t4 = t_position t2"
    using patch_profile_frame[OF prof] patch_place_id[OF place] tm by auto
  have fl: "t_id (flush_row now t t4) = i" using id4 tm by simp
  have "distinct_positions c (tasks (update_row i (\<lambda>_. flush_row now t t4) db1))"
    if "c \<in> board_columns" for c
    using patch_place_distinct[OF place _ _ board_invD(3)[OF inv that] v fl] tm st4 by simp
  moreover have "tasks (update_row i g db2) = tasks (update_row i g db1)" for g
    using s2 by (simp add: tasks_update_row)
  moreover have "ids (update_row i (\<lambda>_. flush_row now t t4) db2) = ids db"
    using fl s2 f by (subst ids_update_row) (simp_all add: ids_def)
  ultimately have "board_inv (update_row i (\<lambda>_. flush_row now t t4) db2)"
    using fl by (simp add: board_inv_def s2 board_invD[OF inv] links_inv_update_row)
  then show ?thesis by (simp add: db')
qed

text \<open>A request that only asks for a position.\<close>

abbreviation move_to :: "int \<Rightarrow> task_patch" where
  "move_to new \<equiv> empty_patch\<lparr>u_position := Some new\<rparr>"

lemma update_task_move:
  assumes "find_task db i = Some t" "t_status t \<noteq> Running" "new \<noteq> t_position t"
  shows "update_task now e (move_to new) i db = Inr (publish_response ''task_updated'' i None
    (update_row i (\<lambda>_. flush_row now t (t\<lparr>t_updated_by := e, t_position := new\<rparr>))
      (shift_rows now (t_status t) i (t_position t) new db)))"
  using assms find_task_SomeD[OF assms(1)]
  by (simp add: update_task_def empty_patch_def valid_patch_def patch_place_def patch_head_def
      set_if_def patch_fields_def patch_profile_def)

lemma update_task_stay:
  assumes "find_task db i = Some t" "t_status t \<noteq> Running" "new = t_position t"
  shows "update_task now e (move_to new) i db = Inr (publish_response ''task_updated'' i None
    (update_row i (\<lambda>_. flush_row now t (t\<lparr>t_updated_by := e\<rparr>)) db))"
  using assms
  by (simp add: update_task_def empty_patch_def valid_patch_def patch_place_def patch_head_def
      set_if_def patch_fields_def patch_profile_def)

lemma find_task_map:
  assumes "tasks db' = map h (tasks db)" "\<And>u. u \<in> set (tasks db) \<Longrightarrow> t_id (h u) = t_id u"
  shows "find_task db' j = map_option h (find_task db j)"
proof -
  have "(\<And>u. u \<in> set ts \<Longrightarrow> t_id (h u) = t_id u) \<Longrightarrow>
      find (\<lambda>t. t_id t = j) (map h ts) = map_option h (find (\<lambda>t. t_id t = j) ts)" for ts
    by (induction ts) auto
  with assms show ?thesis by (simp add: find_task_def)
qed

lemma update_task_move_map:
  assumes "distinct (ids db)" "find_task db i = Some t" "t_status t \<noteq> Running"
  shows "\<exists>db' h. update_task now e (move_to new) i db = Inr db' \<and> tasks db' = map h (tasks db) \<and>
    (\<forall>u \<in> set (tasks db). t_id (h u) = t_id u \<and> t_status (h u) = t_status u \<and>
       t_position (h u) = (if t_id u = i then new
         else if t_status u = t_status t then moved_pos (t_position t) new (t_position u)
         else t_position u))"
proof (cases "new = t_position t")
  case True
  have m: "moved_pos p p q = q" for p q by (simp add: moved_pos_def)
  have uniq: "u \<in> set (tasks db) \<Longrightarrow> t_id u = i \<Longrightarrow> u = t" for u
    using find_task_unique[OF assms(1)] assms(2) by fastforce
  let ?t4 = "flush_row now t (t\<lparr>t_updated_by := e\<rparr>)"
  let ?h = "\<lambda>u. if t_id u = i then ?t4 else u"
  have "\<forall>u \<in> set (tasks db). t_id (?h u) = t_id u \<and> t_status (?h u) = t_status u \<and>
      t_position (?h u) = (if t_id u = i then new
         else if t_status u = t_status t then moved_pos (t_position t) new (t_position u)
         else t_position u)"
    using find_task_SomeD[OF assms(2)] uniq True by (simp add: m)
  moreover have "tasks (publish_response ''task_updated'' i None (update_row i (\<lambda>_. ?t4) db)) = map ?h (tasks db)"
    by (simp add: tasks_update_row)
  ultimately show ?thesis using update_task_stay[OF assms(2,3) True, of now e] by blast
next
  case False
  have uniq: "u \<in> set (tasks db) \<Longrightarrow> t_id u = i \<Longrightarrow> u = t" for u
    using find_task_unique[OF assms(1)] assms(2) by fastforce
  let ?t4 = "flush_row now t (t\<lparr>t_updated_by := e, t_position := new\<rparr>)"
  let ?h = "\<lambda>u. if t_id u = i then ?t4 else shifted now (t_status t) i (t_position t) new u"
  have "\<forall>u \<in> set (tasks db). t_id (?h u) = t_id u \<and> t_status (?h u) = t_status u \<and>
      t_position (?h u) = (if t_id u = i then new
         else if t_status u = t_status t then moved_pos (t_position t) new (t_position u)
         else t_position u)"
    using find_task_SomeD[OF assms(2)] uniq by (simp add: shifted_position)
  moreover have "tasks (publish_response ''task_updated'' i None
      (update_row i (\<lambda>_. ?t4) (shift_rows now (t_status t) i (t_position t) new db))) = map ?h (tasks db)"
    by (simp add: tasks_update_row shift_rows_eq)
  ultimately show ?thesis using update_task_move[OF assms(2,3) False, of now e] by blast
qed

subsection \<open>Creating a task\<close>

lemma board_inv_insert:
  assumes "board_inv db" "t_id t \<notin> set (ids db)"
    and "\<And>c u. c \<in> board_columns \<Longrightarrow> t_status t = c \<Longrightarrow> u \<in> set (tasks db) \<Longrightarrow> t_status u = c \<Longrightarrow>
      t_position u \<noteq> t_position t"
  shows "board_inv (insert_task t db)"
proof (rule board_invI)
  fix c assume c: "c \<in> board_columns"
  show "distinct_positions c (tasks (insert_task t db))"
  proof (cases "t_status t = c")
    case True
    then show ?thesis
      using distinct_positions_insert[OF board_invD(3)[OF assms(1) c], of t] assms(3)[OF c]
      by (simp add: insert_task_def)
  next
    case False
    then show ?thesis
      using distinct_positions_insert_other[OF board_invD(3)[OF assms(1) c]]
      by (simp add: insert_task_def)
  qed
next
  show "distinct (ids (insert_task t db))"
    using board_invD(1)[OF assms(1)] assms(2) by (simp add: insert_task_def ids_def)
  show "tag_inv (insert_task t db)"
    using board_invD(2)[OF assms(1)] by (simp add: insert_task_def tag_inv_def)
  show "links_inv (insert_task t db)"
    using board_invD(4)[OF assms(1)] by (auto simp: insert_task_def links_inv_def ids_def)
qed

lemma tag_inv_cong: "tags a = tags b \<Longrightarrow> task_tags a = task_tags b \<Longrightarrow> tag_inv a = tag_inv b"
  by (simp add: tag_inv_def)

lemma tag_set_cong: "tags a = tags b \<Longrightarrow> task_tags a = task_tags b \<Longrightarrow> tag_set a i = tag_set b i"
  by (simp add: tag_set_def)

lemma insert_task_frame [simp]:
  "tags (insert_task t db) = tags db" "task_tags (insert_task t db) = task_tags db"
  "profiles (insert_task t db) = profiles db" "tasks (insert_task t db) = tasks db @ [t]"
  by (simp_all add: insert_task_def)

lemma set_new_tags_spec:
  assumes "tag_inv db" "\<And>g. (i, g) \<notin> set (task_tags db)"
  shows "case set_new_tags i names db of
      Inl e \<Rightarrow> e = IntegrityErr \<and> \<not> distinct names
    | Inr db1 \<Rightarrow> distinct names \<and> tag_inv db1 \<and> tasks db1 = tasks db \<and> profiles db1 = profiles db \<and>
        (\<forall>j. tag_set db1 j = (if j = i then set names else tag_set db j))"
proof (cases names)
  case Nil
  then show ?thesis using assms by (auto simp: set_new_tags_def tag_set_def)
next
  case (Cons n ns)
  have "tag_inv (db\<lparr>task_tags := filter (\<lambda>p. fst p \<noteq> i) (task_tags db)\<rparr>)"
    using assms(1) by (rule tag_inv_clear)
  note spec = sync_tags_loop_spec[OF this, where i = i and ns = names]
  have e: "set_new_tags i names db = sync_tags_loop
      (db\<lparr>task_tags := filter (\<lambda>p. fst p \<noteq> i) (task_tags db)\<rparr>) i names"
    using Cons by (simp add: set_new_tags_def sync_tags_def)
  show ?thesis
  proof (cases "set_new_tags i names db")
    case (Inl x)
    then show ?thesis using spec unfolding e by (simp add: tag_set_clear)
  next
    case (Inr db1)
    then have "sync_tags db i names = Inr db1" using Cons by (simp add: set_new_tags_def)
    from sync_tags_frame[OF this] Inr spec show ?thesis unfolding e by (simp add: tag_set_clear)
  qed
qed

lemma set_new_tags_links:
  "set_new_tags i names db = Inr db' \<Longrightarrow> links_inv db \<Longrightarrow> i \<in> set (ids db) \<Longrightarrow> links_inv db'"
  by (auto simp: set_new_tags_def dest: sync_tags_links split: if_splits)

lemma create_task_from_fields_cases:
  assumes inv: "board_inv db"
  shows "case create_task_from_fields now a db of
      Inl e \<Rightarrow> e = IntegrityErr \<and> \<not> (profile_exists db (c_profile_id a) \<and> distinct (c_tag_names a))
    | Inr (i, db') \<Rightarrow> profile_exists db (c_profile_id a) \<and> distinct (c_tag_names a) \<and>
        i = fresh_id (ids db) \<and> board_inv db' \<and>
        (\<exists>t. tasks db' = tasks db @ [t] \<and> t_id t = i \<and> t_status t = route a \<and> 1 \<le> t_position t \<and>
           (\<forall>u \<in> set (tasks db). t_status u = route a \<longrightarrow> t_position u < t_position t) \<and>
           t = touch now ((new_row now a db)\<lparr>t_status := route a, t_position := t_position t\<rparr>)) \<and>
        (\<forall>j. tag_set db' j = (if j = i then set (c_tag_names a) else tag_set db j))"
proof (cases "profile_exists db (c_profile_id a)")
  case False
  then show ?thesis by (simp add: create_task_from_fields_def Let_def)
next
  case True
  let ?row = "new_row now a db" let ?i = "fresh_id (ids db)"
  have idr: "t_id ?row = ?i" by (simp add: new_row_def)
  have orphan: "(fresh_id (ids db), g) \<notin> set (task_tags db)" for g
    using board_invD(4)[OF inv] fresh_id_notin[of "ids db"] by (force simp: links_inv_def)
  have li: "links_inv (insert_task ?row db)" "?i \<in> set (ids (insert_task ?row db))"
    using board_invD(4)[OF inv] idr by (auto simp: links_inv_def insert_task_def ids_def)
  have ti: "tag_inv (insert_task ?row db)" using board_invD(2)[OF inv] by (simp add: tag_inv_def)
  have sp: "case set_new_tags ?i (c_tag_names a) (insert_task ?row db) of
      Inl e \<Rightarrow> e = IntegrityErr \<and> \<not> distinct (c_tag_names a)
    | Inr db1 \<Rightarrow> distinct (c_tag_names a) \<and> tag_inv db1 \<and> links_inv db1 \<and> tasks db1 = tasks db @ [?row] \<and>
        profiles db1 = profiles db \<and>
        (\<forall>j. tag_set db1 j = (if j = ?i then set (c_tag_names a) else tag_set db j))"
    using set_new_tags_spec[OF ti, of ?i "c_tag_names a"] orphan set_new_tags_links[OF _ li]
      tag_set_cong[of "insert_task ?row db" db] by (auto split: sum.splits)
  show ?thesis
  proof (cases "set_new_tags ?i (c_tag_names a) (insert_task ?row db)")
    case (Inl e)
    then have "create_task_from_fields now a db = Inl e"
      using True idr by (simp add: create_task_from_fields_def Let_def)
    with sp Inl show ?thesis by simp
  next
    case (Inr db1)
    define db2 where "db2 = update_row ?i (\<lambda>t. flush_row now t (t\<lparr>t_status := route a\<rparr>)) db1"
    define pos where "pos = next_position db2 (route a) None"
    define db3 where "db3 = update_row ?i (\<lambda>t. flush_row now t (t\<lparr>t_position := pos\<rparr>)) db2"
    have c: "create_task_from_fields now a db =
        Inr (?i, publish_response ''task_created'' ?i (c_classification a) db3)"
      using True Inr idr
      by (simp add: create_task_from_fields_def Let_def db2_def pos_def db3_def)
    have l1: "links_inv db1" using set_new_tags_links[OF Inr li] .
    from sp Inr have d1: "distinct (c_tag_names a)" "tag_inv db1" "tasks db1 = tasks db @ [?row]"
      "\<forall>j. tag_set db1 j = (if j = ?i then set (c_tag_names a) else tag_set db j)" by auto
    have ne: "u \<in> set (tasks db) \<Longrightarrow> t_id u \<noteq> ?i" for u
      using fresh_id_notin[of "ids db"] by (metis ids_def imageI set_map)
    have t2: "tasks db2 = tasks db @ [flush_row now ?row (?row\<lparr>t_status := route a\<rparr>)]"
      using d1(3) ne idr by (simp add: db2_def tasks_update_row map_idI)
    have pb: "u \<in> set (tasks db) \<Longrightarrow> t_status u = route a \<Longrightarrow> t_position u < pos" for u
      unfolding pos_def by (rule next_position_above) (simp_all add: t2)
    have "flush_row now ?row (?row\<lparr>t_status := route a\<rparr>) \<in> set (tasks db2)" by (simp add: t2)
    then have "t_position (flush_row now ?row (?row\<lparr>t_status := route a\<rparr>)) < pos"
      unfolding pos_def by (rule next_position_above) simp_all
    then have p1: "1 \<le> pos" by (simp add: new_row_def)
    define t3 where "t3 = touch now (?row\<lparr>t_status := route a, t_position := pos\<rparr>)"
    have fl: "flush_row now (flush_row now ?row (?row\<lparr>t_status := route a\<rparr>))
        ((flush_row now ?row (?row\<lparr>t_status := route a\<rparr>))\<lparr>t_position := pos\<rparr>) = t3"
      by (auto simp: flush_row_def touch_def t3_def new_row_def)
    have t3: "tasks db3 = tasks db @ [t3]"
      using t2 ne idr fl by (simp add: db3_def tasks_update_row map_idI)
    have id3: "t_id t3 = ?i" by (simp add: t3_def touch_def idr)
    then have "t_id t3 = ?i" "t_status t3 = route a" "t_position t3 = pos"
      by (simp_all add: t3_def touch_def idr)
    moreover have "board_inv db3"
    proof -
      have "board_inv (insert_task t3 db)"
        using inv fresh_id_notin[of "ids db"] pb
        by (intro board_inv_insert) (fastforce simp: t3_def touch_def idr)+
      then show ?thesis
        using t3 d1(2,3) l1 id3 idr by (simp add: board_inv_def ids_def db3_def db2_def links_inv_def)
    qed
    moreover have "tag_set db3 = tag_set db1"
      by (rule ext, rule tag_set_cong) (simp_all add: db3_def db2_def)
    moreover have "tag_set (publish_response ''task_created'' ?i (c_classification a) db3) = tag_set db3"
      by (rule ext, rule tag_set_cong) simp_all
    moreover have "t3 = touch now (?row\<lparr>t_status := route a, t_position := t_position t3\<rparr>)"
      by (simp add: t3_def touch_def)
    ultimately show ?thesis
      unfolding c using True d1(1,4) t3 pb p1 by (simp add: exI[of _ t3])
  qed
qed

lemma patch_profile_error:
  "patch_profile p db t = Inl x \<Longrightarrow> \<exists>s. u_profile_id p = Some s \<and> s \<noteq> ''null'' \<and> s \<noteq> [] \<and>
     (parse_uuid s = None \<and> x = Http 422 ''Invalid profile_id format'' \<or>
      (\<exists>pid. parse_uuid s = Some pid \<and> pid \<notin> fst ` set (profiles db) \<and>
         x = Http 422 ''Task profile not found''))"
  unfolding patch_profile_def
  by (cases "u_profile_id p"; cases "parse_uuid (the (u_profile_id p))") (simp_all split: if_splits)

lemma sync_tags_outcome:
  assumes "tag_inv db"
  shows "case sync_tags db i names of
      Inl x \<Rightarrow> x = IntegrityErr \<and> \<not> distinct names
    | Inr db' \<Rightarrow> distinct names \<and> tag_inv db' \<and> tasks db' = tasks db \<and> profiles db' = profiles db \<and>
        (\<forall>j. tag_set db' j = (if j = i then set names else tag_set db j))"
proof -
  have "tag_inv (db\<lparr>task_tags := filter (\<lambda>p. fst p \<noteq> i) (task_tags db)\<rparr>)"
    using assms by (rule tag_inv_clear)
  note spec = sync_tags_loop_spec[OF this, where i = i and ns = names]
  show ?thesis
  proof (cases "sync_tags db i names")
    case (Inl e)
    with spec show ?thesis by (simp add: sync_tags_def tag_set_clear)
  next
    case (Inr db')
    with spec sync_tags_frame[OF Inr] show ?thesis by (simp add: sync_tags_def tag_set_clear)
  qed
qed

subsection \<open>Deleting a task\<close>

lemma delete_task_keeps_inv:
  assumes "board_inv db" "delete_task now i db = Inr db'"
  shows "board_inv db'"
proof -
  have "board_inv (update_row i (\<lambda>t. flush_row now t (t\<lparr>t_status := Deleted\<rparr>)) db)"
    using assms(1) by (rule board_inv_leave) (simp_all add: keeps_at_def board_columns_def)
  with assms(2) show ?thesis by (auto simp: delete_task_def split: option.splits)
qed

lemma create_task_via_fields:
  assumes "create_task now classify email inp db = Inr r"
  shows "\<exists>a. create_task_from_fields now a db = Inr r"
  using assms by (auto simp: create_task_def Let_def bind_res_eq_Inr split: if_splits prod.splits)

lemma create_task_keeps_inv:
  assumes "board_inv db" "create_task now classify email inp db = Inr (i, db')"
  shows "board_inv db'"
proof -
  obtain a where "create_task_from_fields now a db = Inr (i, db')"
    using create_task_via_fields[OF assms(2)] by blast
  with create_task_from_fields_cases[OF assms(1), where now = now and a = a] show ?thesis by simp
qed

subsection \<open>Properties\<close>

definition sample_task :: "nat \<Rightarrow> task_status \<Rightarrow> int \<Rightarrow> task" where
  "sample_task i s p =
     \<lparr>t_id = i, t_title = ''task'', t_description = None, t_status = s, t_created_at = 0,
      t_updated_at = 0, t_category = Some ''immediate'', t_execute_at = None,
      t_repeat_interval = None, t_repeat_until = None, t_position = p, t_output = None,
      t_runner_logs = None, t_questions = None, t_retry_count = 0, t_heartbeat_at = None,
      t_profile_id = None, t_created_by = None, t_updated_by = None, t_encrypted_env = None,
      t_is_eval = False\<rparr>"

definition sample_db :: db where
  "sample_db =
     \<lparr>tasks = [sample_task 1 Pending 1, sample_task 2 Pending 2, sample_task 3 Pending 3,
        sample_task 4 Review 1, sample_task 5 Running 2],
      tags = [(1, ''Retry''), (2, ''urgent'')], task_tags = [(1, 2), (4, 1)],
      profiles = [(1, ''default''), (2, ''eval--a'')], outbox = []\<rparr>"

lemma sample_db_inv: "board_inv sample_db"
  by code_simp

definition positions_of :: "db \<Rightarrow> task_status \<Rightarrow> int set" where
  "positions_of db s = set (map t_position (column db s))"

text \<open>C12. Moving a task inside its column to a position of the column (a board whose column is
  numbered 1 to n without gaps): the request succeeds, the task gets that position, the other
  tasks of the column keep their relative order, no other column moves, and the column is again
  numbered 1 to n.\<close>

theorem update_task_reorder:
  assumes "board_inv db" "find_task db i = Some t" "t_status t \<in> board_columns"
    "positions_of db (t_status t) = {1..n}" "1 \<le> new" "new \<le> n"
  shows "\<exists>db'. update_task now e (move_to new) i db = Inr db' \<and> board_inv db' \<and>
    (\<exists>t'. find_task db' i = Some t' \<and> t_position t' = new \<and> t_status t' = t_status t) \<and>
    (\<forall>j u. j \<noteq> i \<longrightarrow> find_task db j = Some u \<longrightarrow> t_status u \<noteq> t_status t \<longrightarrow>
       (\<exists>u'. find_task db' j = Some u' \<and> t_status u' = t_status u \<and> t_position u' = t_position u)) \<and>
    (\<forall>j k u v. j \<noteq> i \<longrightarrow> k \<noteq> i \<longrightarrow> find_task db j = Some u \<longrightarrow> find_task db k = Some v \<longrightarrow>
       t_status u = t_status t \<longrightarrow> t_status v = t_status t \<longrightarrow>
       (\<exists>u' v'. find_task db' j = Some u' \<and> find_task db' k = Some v' \<and>
          (t_position u' < t_position v' \<longleftrightarrow> t_position u < t_position v))) \<and>
    positions_of db' (t_status t) = {1..n}"
proof -
  let ?s = "t_status t" and ?m = "moved_pos (t_position t) new"
  have nr: "?s \<noteq> Running" using assms(3) by (auto simp: board_columns_def)
  obtain db' h where u: "update_task now e (move_to new) i db = Inr db'"
    and m: "tasks db' = map h (tasks db)"
    and h: "\<And>u. u \<in> set (tasks db) \<Longrightarrow> t_id (h u) = t_id u \<and> t_status (h u) = t_status u \<and>
       t_position (h u) = (if t_id u = i then new else if t_status u = ?s then ?m (t_position u)
         else t_position u)"
    using update_task_move_map[OF board_invD(1)[OF assms(1)] assms(2) nr] by blast
  have inv: "board_inv db'" using update_task_keeps_inv[OF assms(1) u] .
  have f: "find_task db' j = map_option h (find_task db j)" for j
    using find_task_map[OF m] h by blast
  have idt: "t \<in> set (tasks db)" "t_id t = i" using find_task_SomeD[OF assms(2)] by auto
  have old: "t_position u \<noteq> t_position t" if "u \<in> set (tasks db)" "t_id u \<noteq> i" "t_status u = ?s" for u
    using board_invD(3)[OF assms(1,3)] idt that unfolding distinct_positions_def by blast
  have others: "t_position ` {u \<in> set (tasks db). t_status u = ?s \<and> t_id u \<noteq> i} =
      positions_of db ?s - {t_position t}"
  proof -
    have "t_position u = t_position t" if "u \<in> set (tasks db)" "t_id u = i" for u
      using that find_task_unique[OF board_invD(1)[OF assms(1)] that(1)] assms(2) by simp
    then show ?thesis using old by (auto simp: positions_of_def column_def)
  qed
  have "positions_of db' ?s = insert new (?m ` (positions_of db ?s - {t_position t}))"
  proof -
    have "{v \<in> h ` set (tasks db). t_status v = ?s} = h ` {u \<in> set (tasks db). t_status u = ?s}"
      using h by auto
    then have "positions_of db' ?s = (\<lambda>u. t_position (h u)) ` {u \<in> set (tasks db). t_status u = ?s}"
      by (simp add: positions_of_def column_def m image_image)
    also have "{u \<in> set (tasks db). t_status u = ?s} =
        {u \<in> set (tasks db). t_status u = ?s \<and> t_id u = i} \<union> {u \<in> set (tasks db). t_status u = ?s \<and> t_id u \<noteq> i}"
      by blast
    finally have split: "positions_of db' ?s =
        (\<lambda>u. t_position (h u)) ` {u \<in> set (tasks db). t_status u = ?s \<and> t_id u = i} \<union>
        (\<lambda>u. t_position (h u)) ` {u \<in> set (tasks db). t_status u = ?s \<and> t_id u \<noteq> i}"
      by (simp add: image_Un)
    have "(\<lambda>u. t_position (h u)) ` {u \<in> set (tasks db). t_status u = ?s \<and> t_id u = i} = {new}"
      using h idt by (auto simp: image_iff)
    moreover have "(\<lambda>u. t_position (h u)) ` {u \<in> set (tasks db). t_status u = ?s \<and> t_id u \<noteq> i} =
        ?m ` t_position ` {u \<in> set (tasks db). t_status u = ?s \<and> t_id u \<noteq> i}"
      unfolding image_image by (rule image_cong) (use h in auto)
    ultimately show ?thesis using split unfolding others by simp
  qed
  moreover have "t_position t \<in> {1..n}" using idt assms(4) by (auto simp: positions_of_def column_def)
  ultimately have "positions_of db' ?s = {1..n}"
    using moved_pos_dense[of "t_position t" n new] assms(4-6) by simp
  moreover have "\<exists>t'. find_task db' i = Some t' \<and> t_position t' = new \<and> t_status t' = ?s"
    using f[of i] h[OF idt(1)] idt assms(2) by simp
  moreover have "t_position (h u) < t_position (h v) \<longleftrightarrow> t_position u < t_position v"
    if "find_task db j = Some u" "find_task db k = Some v" "j \<noteq> i" "k \<noteq> i" "t_status u = ?s" "t_status v = ?s"
    for j k u v
    using find_task_SomeD[OF that(1)] find_task_SomeD[OF that(2)] that(3-6) h[of u] h[of v]
      old[of u] old[of v] moved_pos_mono by simp
  moreover have "t_status (h u) = t_status u \<and> t_position (h u) = t_position u"
    if "find_task db j = Some u" "j \<noteq> i" "t_status u \<noteq> ?s" for j u
    using find_task_SomeD[OF that(1)] that(2,3) h[of u] by simp
  ultimately show ?thesis
    using u inv by (intro exI[of _ db'] conjI) (simp_all add: f)
qed

theorem update_task_reorder_witness:
  "\<exists>db'. update_task 9 None (move_to 1) 3 sample_db = Inr db' \<and>
     positions_of db' Pending = {1..3} \<and> (\<exists>t'. find_task db' 3 = Some t' \<and> t_position t' = 1)"
proof -
  have f: "find_task sample_db 3 = Some (sample_task 3 Pending 3)" by code_simp
  have p: "positions_of sample_db Pending = {1..3}"
    by (auto simp: positions_of_def column_def sample_db_def sample_task_def)
  show ?thesis
    using update_task_reorder[OF sample_db_inv f, of 3 1 9 None] p
    by (auto simp: sample_task_def board_columns_def)
qed

text \<open>C13. Creating a task on a consistent board: it fails, with an integrity error and nothing else,
  exactly when the profile is unknown or a tag name is repeated; otherwise it appends one row with
  a fresh id and the requested fields, in the column its tags and category send it to, below every
  task of that column, with exactly the requested tags, leaves every other row and its tags alone
  and keeps the board consistent.\<close>

theorem create_task_places:
  assumes "board_inv db"
  shows "case create_task_from_fields now a db of
      Inl e \<Rightarrow> e = IntegrityErr \<and> \<not> (profile_exists db (c_profile_id a) \<and> distinct (c_tag_names a))
    | Inr (i, db') \<Rightarrow> profile_exists db (c_profile_id a) \<and> distinct (c_tag_names a) \<and>
        i \<notin> set (ids db) \<and> board_inv db' \<and>
        (\<exists>t. tasks db' = tasks db @ [t] \<and> t_id t = i \<and>
           t_status t = (if ''Needs Info'' \<in> set (c_tag_names a) then Review
             else if c_category a = ''immediate'' then Pending
             else if c_category a \<in> {''scheduled'', ''repeating''} then Scheduled else Review) \<and>
           t_execute_at t = (if c_category a = ''immediate'' then Some now else c_execute_at a) \<and>
           t_title t = c_title a \<and> t_profile_id t = c_profile_id a \<and>
           (\<forall>u \<in> set (tasks db). t_status u = t_status t \<longrightarrow> t_position u < t_position t)) \<and>
        (\<forall>j. tag_set db' j = (if j = i then set (c_tag_names a) else tag_set db j))"
proof -
  note spec = create_task_from_fields_cases[OF assms, where now = now and a = a]
  show ?thesis
  proof (cases "create_task_from_fields now a db")
    case (Inl e)
    with spec show ?thesis by simp
  next
    case (Inr r)
    obtain i db' where r: "r = (i, db')" by (cases r)
    from spec Inr r obtain t where t: "tasks db' = tasks db @ [t]" "t_id t = i" "t_status t = route a"
      "\<forall>u \<in> set (tasks db). t_status u = route a \<longrightarrow> t_position u < t_position t"
      and eq: "t = touch now ((new_row now a db)\<lparr>t_status := route a, t_position := t_position t\<rparr>)"
      by auto
    have f: "t_execute_at t = (if c_category a = ''immediate'' then Some now else c_execute_at a)"
      "t_title t = c_title a" "t_profile_id t = c_profile_id a"
      by (subst eq, simp add: touch_def new_row_def)+
    from spec Inr r fresh_id_notin[of "ids db"] t f show ?thesis
      by (simp add: route_def[symmetric])
  qed
qed

definition sample_args :: create_args where
  "sample_args = \<lparr>c_title = ''t'', c_description = None, c_category = ''scheduled'',
     c_execute_at = Some 5, c_repeat_interval = None, c_repeat_until = None, c_profile_id = Some 1,
     c_created_by = None, c_tag_names = [''urgent'', ''new''], c_classification = None\<rparr>"

theorem create_task_places_witness:
  "\<exists>i db'. create_task_from_fields 9 sample_args sample_db = Inr (i, db') \<and> i \<notin> set (ids sample_db) \<and>
     tag_set db' i = {''urgent'', ''new''}"
proof -
  have p: "profile_exists sample_db (c_profile_id sample_args)" "distinct (c_tag_names sample_args)"
    by code_simp+
  show ?thesis
    using create_task_places[OF sample_db_inv, where now = 9 and a = sample_args] p
    by (auto simp: sample_args_def split: sum.splits)
qed

text \<open>Replacing a task's tags succeeds exactly when the requested names are pairwise different;
  then the task carries exactly those names, every other task keeps its tags, each name still has
  one tag row, and no task row changes.  On a repeated name the statement fails on the primary key.\<close>

theorem sync_tags_replaces:
  assumes "tag_inv db"
  shows "case sync_tags db i names of
      Inl e \<Rightarrow> e = IntegrityErr \<and> \<not> distinct names
    | Inr db' \<Rightarrow> distinct names \<and> tag_inv db' \<and> tasks db' = tasks db \<and>
        (\<forall>j. tag_set db' j = (if j = i then set names else tag_set db j))"
  using sync_tags_outcome[OF assms, where i = i and names = names] by (simp split: sum.splits)

theorem sync_tags_replaces_witness:
  "(case sync_tags sample_db 1 [''a'', ''a''] of Inl e \<Rightarrow> e = IntegrityErr | Inr _ \<Rightarrow> False) \<and>
   (case sync_tags sample_db 1 [''a'', ''urgent''] of Inl _ \<Rightarrow> False
    | Inr db' \<Rightarrow> tag_set db' 1 = {''a'', ''urgent''} \<and> tag_set db' 4 = tag_set sample_db 4)"
  using sync_tags_replaces[OF board_invD(2)[OF sample_db_inv], where i = 1 and names = "[''a'', ''a'']"]
    sync_tags_replaces[OF board_invD(2)[OF sample_db_inv], where i = 1 and names = "[''a'', ''urgent'']"]
  by (auto split: sum.splits)

text \<open>The board listing shows every task that is neither new, deleted nor archived, each once,
  and leaves eval tasks out unless asked for; the active ones come first, ordered by position and
  then creation time, the completed ones after them, the most recently changed first.\<close>

theorem list_tasks_exact:
  "\<exists>active completed. list_tasks ev db = map (response_of db None) (active @ completed) \<and>
     mset active = filter_mset (\<lambda>t. t_status t \<in> {Review, Scheduled, Pending, Running} \<and>
        visible ev t) (mset (tasks db)) \<and>
     mset completed = filter_mset (\<lambda>t. t_status t = Completed \<and> visible ev t) (mset (tasks db)) \<and>
     sorted_wrt (\<lambda>t u. t_position t < t_position u \<or>
        t_position t = t_position u \<and> t_created_at t \<le> t_created_at u) active \<and>
     sorted_wrt (\<lambda>t u. t_updated_at u \<le> t_updated_at t) completed"
proof -
  have st: "s \<notin> {New, Deleted, Archived, Completed} \<longleftrightarrow> s \<in> {Review, Scheduled, Pending, Running}" for s
    by (cases s) auto
  have srt: "sorted_wrt (\<lambda>x y. f x \<le> f y) (sort_key f xs)" for f :: "task \<Rightarrow> 'b::linorder" and xs
    using sorted_sort_key[of f xs] by (simp add: sorted_wrt_map)
  let ?a = "filter (\<lambda>t. t_status t \<notin> {New, Deleted, Archived, Completed} \<and> visible ev t) (tasks db)"
  let ?c = "filter (\<lambda>t. t_status t = Completed \<and> visible ev t) (tasks db)"
  have "sorted_wrt (\<lambda>t u. t_position t < t_position u \<or>
      t_position t = t_position u \<and> t_created_at t \<le> t_created_at u)
      (sort_key (\<lambda>t. (t_position t, t_created_at t)) ?a)"
    by (rule sorted_wrt_mono_rel[OF _ srt]) auto
  moreover have "sorted_wrt (\<lambda>t u. t_updated_at u \<le> t_updated_at t) (sort_key (\<lambda>t. - t_updated_at t) ?c)"
    by (rule sorted_wrt_mono_rel[OF _ srt]) auto
  moreover have "list_tasks ev db = map (response_of db None)
      (sort_key (\<lambda>t. (t_position t, t_created_at t)) ?a @ sort_key (\<lambda>t. - t_updated_at t) ?c)"
    by (simp add: list_tasks_def)
  moreover have "mset (sort_key (\<lambda>t. (t_position t, t_created_at t)) ?a) =
      filter_mset (\<lambda>t. t_status t \<in> {Review, Scheduled, Pending, Running} \<and> visible ev t) (mset (tasks db))"
    by (simp only: mset_sort mset_filter st)
  moreover have "mset (sort_key (\<lambda>t. - t_updated_at t) ?c) =
      filter_mset (\<lambda>t. t_status t = Completed \<and> visible ev t) (mset (tasks db))"
    by (simp only: mset_sort mset_filter)
  ultimately show ?thesis by blast
qed

text \<open>An edit request is refused with 422 when a field is invalid, 404 when the task is unknown
  and 409 while the task runs, in that order; otherwise it can only fail on a repeated tag name or
  on a profile that is malformed or unknown.\<close>

theorem update_task_refusals:
  assumes "board_inv db"
  shows "case update_task now e p i db of
      Inl x \<Rightarrow>
        (if \<not> valid_patch p then x = Http 422 ''validation''
         else if find_task db i = None then x = Http 404 ''Task not found''
         else if t_status (the (find_task db i)) = Running then x = Http 409 ''Cannot edit a running task''
         else if \<exists>names. u_tags p = Some names \<and> \<not> distinct names then x = IntegrityErr
         else \<exists>s. u_profile_id p = Some s \<and> s \<noteq> ''null'' \<and> s \<noteq> [] \<and>
           (parse_uuid s = None \<and> x = Http 422 ''Invalid profile_id format'' \<or>
            (\<exists>pid. parse_uuid s = Some pid \<and> pid \<notin> fst ` set (profiles db) \<and>
               x = Http 422 ''Task profile not found'')))
    | Inr db' \<Rightarrow> valid_patch p \<and> (\<exists>t. find_task db i = Some t \<and> t_status t \<noteq> Running) \<and>
        (\<forall>names. u_tags p = Some names \<longrightarrow> distinct names) \<and> ids db' = ids db"
proof (cases "valid_patch p \<and> (\<exists>t. find_task db i = Some t \<and> t_status t \<noteq> Running)")
  case False
  then show ?thesis by (cases "find_task db i") (auto simp: update_task_def)
next
  case True
  then obtain t where v: "valid_patch p" and t: "find_task db i = Some t" "t_status t \<noteq> Running" by blast
  obtain db1 t2 where place: "patch_place now p t (patch_head e p t) db = (db1, t2)"
    by (cases "patch_place now p t (patch_head e p t) db")
  note f = patch_place_frame[OF place]
  define sy where "sy = (case u_tags p of None \<Rightarrow> Inr db1 | Some names \<Rightarrow> sync_tags db1 i names)"
  have u: "update_task now e p i db = bind_res sy (\<lambda>db2. bind_res (patch_profile p db2 (patch_fields p t2))
      (\<lambda>t4. Inr (publish_response ''task_updated'' i None (update_row i (\<lambda>_. flush_row now t t4) db2))))"
    using v t place by (simp add: update_task_def sy_def)
  have ti: "tag_inv db1" using f board_invD(2)[OF assms] by (simp add: tag_inv_def)
  have sp: "case sy of Inl x \<Rightarrow> x = IntegrityErr \<and> (\<exists>names. u_tags p = Some names \<and> \<not> distinct names)
      | Inr db2 \<Rightarrow> (\<forall>names. u_tags p = Some names \<longrightarrow> distinct names) \<and> ids db2 = ids db \<and> profiles db2 = profiles db"
  proof (cases "u_tags p")
    case None
    then show ?thesis using f by (simp add: sy_def)
  next
    case (Some names)
    then have "sy = sync_tags db1 i names" by (simp add: sy_def)
    with Some f sync_tags_outcome[OF ti, where i = i and names = names] show ?thesis
      by (cases "sync_tags db1 i names") (simp_all add: ids_def)
  qed
  show ?thesis
  proof (cases sy)
    case (Inl x)
    then show ?thesis using sp v t by (simp add: u)
  next
    case (Inr db2)
    then have d: "\<forall>names. u_tags p = Some names \<longrightarrow> distinct names" "ids db2 = ids db" "profiles db2 = profiles db"
      using sp by auto
    show ?thesis
    proof (cases "patch_profile p db2 (patch_fields p t2)")
      case (Inl x)
      then show ?thesis using u Inr d v t patch_profile_error[OF Inl] by auto
    next
      case (Inr t4)
      have "t_id t4 = i"
        using patch_profile_frame[OF Inr] patch_place_id[OF place] find_task_SomeD[OF t(1)] by simp
      then show ?thesis using u Inr \<open>sy = Inr db2\<close> d v t by (auto simp: ids_update_row)
    qed
  qed
qed

theorem update_task_refusals_witness:
  "(case update_task 9 None (move_to 1) 5 sample_db of Inl x \<Rightarrow> x = Http 409 ''Cannot edit a running task''
    | Inr _ \<Rightarrow> False)"
proof -
  have "find_task sample_db 5 = Some (sample_task 5 Running 2)" by code_simp
  then show ?thesis
    using update_task_refusals[OF sample_db_inv, where now = 9 and e = None and p = "move_to 1" and i = 5]
    by (auto simp: sample_task_def valid_patch_def empty_patch_def split: sum.splits)
qed

end
