(* ===== verification/Row_Batch.thy ===== *)
theory Row_Batch
  imports Board_Invariant
begin

text \<open>
  The contract between a background job and the statement it repeats for every row it selected:
  the statement works on one row, keeps the board consistent and leaves the other rows alone.
  The locale is interpreted by the scheduler's promotion and archival and by the zombie cleanup.
\<close>

locale row_step =
  fixes step :: "nat \<Rightarrow> db \<Rightarrow> db"
  assumes step_other: "j \<noteq> i \<Longrightarrow> find_task (step i db) j = find_task db j"
    and step_ids: "ids (step i db) = ids db"
    and step_inv: "board_inv db \<Longrightarrow> i \<in> set (ids db) \<Longrightarrow> board_inv (step i db)"
begin

lemma fold_other: "j \<notin> set is \<Longrightarrow> find_task (fold step is db) j = find_task db j"
proof (induction "is" arbitrary: db)
  case (Cons i "is")
  then show ?case using step_other[of j i db] by simp
qed simp

lemma fold_ids: "ids (fold step is db) = ids db"
  by (induction "is" arbitrary: db) (simp_all add: step_ids)

lemma fold_inv: "board_inv db \<Longrightarrow> set is \<subseteq> set (ids db) \<Longrightarrow> board_inv (fold step is db)"
  by (induction "is" arbitrary: db) (simp_all add: step_ids step_inv)

text \<open>The row at index \<open>k\<close> is handled once, on the database its predecessors left.\<close>

lemma fold_at:
  assumes "distinct is" "k < length is"
  shows "find_task (fold step is db) (is ! k) =
    find_task (step (is ! k) (fold step (take k is) db)) (is ! k)"
proof -
  have "is = take k is @ is ! k # drop (Suc k) is" using assms(2) by (rule id_take_nth_drop)
  then have "fold step is db = fold step (drop (Suc k) is) (step (is ! k) (fold step (take k is) db))"
    by (metis (no_types, lifting) fold.simps(2) fold_append comp_apply)
  moreover have "is ! k \<notin> set (drop (Suc k) is)"
    using assms by (simp add: in_set_conv_nth nth_eq_iff_index_eq)
  ultimately show ?thesis by (simp add: fold_other)
qed

lemma fold_before:
  assumes "distinct is" "k < length is"
  shows "find_task (fold step (take k is) db) (is ! k) = find_task db (is ! k)"
  by (rule fold_other) (use assms in \<open>auto simp: in_set_conv_nth nth_eq_iff_index_eq\<close>)

end

text \<open>Publishing after the commit changes no row.\<close>

lemma fold_publish_frame [simp]:
  "tasks (fold (publish k) is db) = tasks db" "tags (fold (publish k) is db) = tags db"
  "task_tags (fold (publish k) is db) = task_tags db" "profiles (fold (publish k) is db) = profiles db"
  by (induction "is" arbitrary: db) simp_all

lemma find_task_fold_publish [simp]: "find_task (fold (publish k) is db) j = find_task db j"
  by (rule find_task_cong) simp

lemma board_inv_fold_publish [simp]: "board_inv (fold (publish k) is db) = board_inv db"
  by (rule board_inv_cong) simp_all

lemma ids_fold_publish [simp]: "ids (fold (publish k) is db) = ids db"
  by (simp add: ids_def)

text \<open>A job's selection: distinct rows of the table.\<close>

lemma distinct_submset:
  assumes "mset xs \<subseteq># mset ys" "distinct ys"
  shows "distinct xs"
  unfolding distinct_count_atmost_1
proof
  fix a
  have "count (mset xs) a \<le> count (mset ys) a" using assms(1) by (rule mset_subset_eq_count)
  moreover have "count (mset ys) a \<le> 1" using assms(2) by (simp add: distinct_count_atmost_1)
  ultimately have le: "count (mset xs) a \<le> 1" by linarith
  show "count (mset xs) a = (if a \<in> set xs then 1 else 0)"
  proof (cases "a \<in> set xs")
    case True
    then have "count (mset xs) a \<noteq> 0" unfolding count_eq_zero_iff by simp
    with le have "count (mset xs) a = 1" by linarith
    with True show ?thesis by (simp only: if_True)
  next
    case False
    then have "count (mset xs) a = 0" unfolding count_eq_zero_iff by simp
    with False show ?thesis by simp
  qed
qed

lemma selection_ids:
  assumes "board_inv db" "mset sel \<subseteq># mset (tasks db)"
  shows "distinct (map t_id sel)" "set (map t_id sel) \<subseteq> set (ids db)"
proof -
  have "mset (map t_id sel) \<subseteq># mset (ids db)"
    using image_mset_subseteq_mono[OF assms(2), of t_id] by (simp add: ids_def)
  moreover have "distinct (ids db)" using board_invD(1)[OF assms(1)] .
  ultimately show "distinct (map t_id sel)" by (rule distinct_submset)
  show "set (map t_id sel) \<subseteq> set (ids db)"
    using set_mset_mono[OF assms(2)] by (auto simp: ids_def)
qed

end
