(* ===== verification/Lease_Locks.thy ===== *)
theory Lease_Locks
  imports Errand_Prelude
begin

text \<open>
  The leases that let one replica at a time run a periodic job: the scheduler's lock
  (\<open>errand/scheduler.py\<close>) and the zombie cleanup's (\<open>errand/zombie_cleanup.py\<close>).  Both are one
  Valkey key holding the owner's name with an expiry.  Each function is one atomic step at one
  instant.  The locale \<open>lease\<close> is what the jobs rely on when they acquire and refresh;
  \<open>owned_lease\<close> adds that releasing never takes another owner's lease away.  The scheduler's lock
  provides both, the zombie cleanup's only the first (see \<open>zombie_release_breaks_lease\<close>).
\<close>

subsection \<open>A Valkey key with an expiry\<close>

type_synonym key_state = "(string \<times> time) option"   \<comment> \<open>value and the instant it expires at\<close>

definition valkey_get :: "time \<Rightarrow> key_state \<Rightarrow> string option" where
  "valkey_get now k = (case k of None \<Rightarrow> None | Some (v, e) \<Rightarrow> if now < e then Some v else None)"

definition valkey_set_nx :: "time \<Rightarrow> string \<Rightarrow> int \<Rightarrow> key_state \<Rightarrow> bool \<times> key_state" where
  "valkey_set_nx now v ttl k =
     (if valkey_get now k = None then (True, Some (v, now + seconds ttl)) else (False, k))"

definition valkey_expire :: "time \<Rightarrow> int \<Rightarrow> key_state \<Rightarrow> bool \<times> key_state" where
  "valkey_expire now ttl k =
     (case valkey_get now k of None \<Rightarrow> (False, k) | Some v \<Rightarrow> (True, Some (v, now + seconds ttl)))"

subsection \<open>The scheduler's lock\<close>

definition LOCK_TTL :: int where "LOCK_TTL = 30"

definition acquire_lock :: "bool \<Rightarrow> string \<Rightarrow> time \<Rightarrow> key_state \<Rightarrow> bool \<times> key_state" where
  "acquire_lock online host now k =
     (if \<not> online then (False, k)
      else
        (let (created, k1) = valkey_set_nx now host LOCK_TTL k
         in if created then (True, k1)
            else if valkey_get now k1 = Some host then (True, snd (valkey_expire now LOCK_TTL k1))
            else (False, k1)))"

definition refresh_lock :: "bool \<Rightarrow> time \<Rightarrow> key_state \<Rightarrow> bool \<times> key_state" where
  "refresh_lock online now k = (if \<not> online then (False, k) else valkey_expire now LOCK_TTL k)"

text \<open>The Lua script: delete the key only when it holds the caller's name.\<close>

definition RELEASE_LOCK_SCRIPT :: "string \<Rightarrow> time \<Rightarrow> key_state \<Rightarrow> key_state" where
  "RELEASE_LOCK_SCRIPT arg now k = (if valkey_get now k = Some arg then None else k)"

definition release_lock :: "bool \<Rightarrow> string \<Rightarrow> time \<Rightarrow> key_state \<Rightarrow> key_state" where
  "release_lock online host now k = (if \<not> online then k else RELEASE_LOCK_SCRIPT host now k)"

subsection \<open>The zombie cleanup's lock\<close>

definition ZOMBIE_LOCK_TTL :: int where "ZOMBIE_LOCK_TTL = 30"

definition zombie_lock_value :: "string \<Rightarrow> string" where "zombie_lock_value host = ''zombie-'' @ host"

definition acquire_zombie_lock :: "bool \<Rightarrow> string \<Rightarrow> time \<Rightarrow> key_state \<Rightarrow> bool \<times> key_state" where
  "acquire_zombie_lock online host now k =
     (if \<not> online then (False, k)
      else
        (let (created, k1) = valkey_set_nx now (zombie_lock_value host) ZOMBIE_LOCK_TTL k
         in if created then (True, k1)
            else if valkey_get now k1 = Some (zombie_lock_value host)
            then (True, snd (valkey_expire now ZOMBIE_LOCK_TTL k1))
            else (False, k1)))"

definition refresh_zombie_lock :: "bool \<Rightarrow> time \<Rightarrow> key_state \<Rightarrow> bool \<times> key_state" where
  "refresh_zombie_lock online now k =
     (if \<not> online then (False, k) else valkey_expire now ZOMBIE_LOCK_TTL k)"

definition release_zombie_lock :: "bool \<Rightarrow> time \<Rightarrow> key_state \<Rightarrow> key_state" where
  "release_zombie_lock online now k = (if \<not> online then k else None)"

subsection \<open>The contract\<close>

datatype lease_op = Acquire string | Refresh string | Release string

locale lease =
  fixes acquire :: "string \<Rightarrow> time \<Rightarrow> 's \<Rightarrow> bool \<times> 's"
    and refresh :: "time \<Rightarrow> 's \<Rightarrow> 's"
    and release :: "string \<Rightarrow> time \<Rightarrow> 's \<Rightarrow> 's"
    and holds :: "string \<Rightarrow> time \<Rightarrow> 's \<Rightarrow> bool"
    and ttl :: time
  assumes holds_unique: "holds h t s \<Longrightarrow> holds h' t s \<Longrightarrow> h = h'"
    and acquire_won: "acquire h t s = (True, s') \<Longrightarrow> t \<le> u \<Longrightarrow> u < t + ttl \<Longrightarrow> holds h u s'"
    and acquire_other: "holds h t s \<Longrightarrow> h' \<noteq> h \<Longrightarrow> acquire h' t s = (False, s)"
    and acquire_own: "holds h u s \<Longrightarrow> holds h t s \<Longrightarrow> t \<le> u \<Longrightarrow> u < t + ttl \<Longrightarrow> holds h u (snd (acquire h t s))"
    and refresh_keeps: "holds h u s \<Longrightarrow> holds h t s \<Longrightarrow> t \<le> u \<Longrightarrow> u < t + ttl \<Longrightarrow> holds h u (refresh t s)"
    and holds_earlier: "holds h u s \<Longrightarrow> t \<le> u \<Longrightarrow> holds h t s"
begin

fun run_op :: "lease_op \<times> time \<Rightarrow> 's \<Rightarrow> 's" where
  "run_op (Acquire h, t) s = snd (acquire h t s)"
| "run_op (Refresh h, t) s = refresh t s"
| "run_op (Release h, t) s = release h t s"

text \<open>No operation but a release takes a lease away before its time.\<close>

lemma step_keeps:
  assumes "holds h u s" "t \<le> u" "u < t + ttl" "\<And>h'. opr \<noteq> Release h'"
  shows "holds h u (run_op (opr, t) s)"
proof (cases opr)
  case (Acquire h')
  then show ?thesis
    using assms acquire_own acquire_other[of h t s h'] holds_earlier[OF assms(1,2)]
    by (cases "h' = h") auto
next
  case (Refresh h')
  then show ?thesis using assms refresh_keeps holds_earlier by simp
qed (use assms in simp)

end

locale owned_lease = lease +
  assumes release_other: "holds h u s \<Longrightarrow> t \<le> u \<Longrightarrow> h' \<noteq> h \<Longrightarrow> holds h u (release h' t s)"
begin

text \<open>A lease won at \<open>t0\<close> is held until its time is up, whatever the other owners do, as long as
  its owner does not release it.\<close>

lemma run_keeps:
  assumes "holds h u s" "\<forall>(opr, t) \<in> set ops. t \<le> u \<and> u < t + ttl \<and> opr \<noteq> Release h"
  shows "holds h u (fold run_op ops s)"
  using assms
proof (induction ops arbitrary: s)
  case (Cons p ops)
  obtain opr t where p: "p = (opr, t)" by (cases p)
  have b: "t \<le> u" "u < t + ttl" "opr \<noteq> Release h" using Cons.prems(2) p by auto
  have "holds h u (run_op p s)"
  proof (cases "\<exists>h'. opr = Release h'")
    case True
    then obtain h' where "opr = Release h'" by blast
    with release_other[OF Cons.prems(1) b(1), of h'] b(3) show ?thesis by (simp add: p)
  next
    case False
    then show ?thesis using p b Cons.prems(1) step_keeps by blast
  qed
  with Cons show ?case by simp
qed simp

lemma exclusive:
  assumes "acquire h t0 s = (True, s')" "t0 \<le> u" "u < t0 + ttl"
    "\<forall>(opr, t) \<in> set ops. t0 \<le> t \<and> t \<le> u \<and> opr \<noteq> Release h" "h' \<noteq> h"
  shows "acquire h' u (fold run_op ops s') = (False, fold run_op ops s')"
proof -
  have "holds h u (fold run_op ops s')"
    using assms by (intro run_keeps acquire_won) fastforce+
  then show ?thesis using assms(5) by (rule acquire_other)
qed

end

lemma zombie_lock_value_inj [simp]: "zombie_lock_value a = zombie_lock_value b \<longleftrightarrow> a = b"
  by (simp add: zombie_lock_value_def)

lemmas valkey_defs = valkey_get_def valkey_set_nx_def valkey_expire_def

interpretation scheduler_lock: owned_lease
  "acquire_lock True" "\<lambda>t k. snd (refresh_lock True t k)" "release_lock True"
  "\<lambda>h t k. valkey_get t k = Some h" "seconds LOCK_TTL"
  by unfold_locales
    (auto simp: acquire_lock_def refresh_lock_def release_lock_def RELEASE_LOCK_SCRIPT_def valkey_defs Let_def
      split: if_splits option.splits prod.splits)

interpretation zombie_lock: lease
  "acquire_zombie_lock True" "\<lambda>t k. snd (refresh_zombie_lock True t k)" "\<lambda>_. release_zombie_lock True"
  "\<lambda>h t k. valkey_get t k = Some (zombie_lock_value h)" "seconds ZOMBIE_LOCK_TTL"
  by unfold_locales
    (auto simp: acquire_zombie_lock_def refresh_zombie_lock_def valkey_defs Let_def
      split: if_splits option.splits prod.splits)

subsection \<open>Properties\<close>

text \<open>What one replica's call does to the key.\<close>

fun scheduler_step :: "lease_op \<times> time \<Rightarrow> key_state \<Rightarrow> key_state" where
  "scheduler_step (Acquire h, t) k = snd (acquire_lock True h t k)"
| "scheduler_step (Refresh h, t) k = snd (refresh_lock True t k)"
| "scheduler_step (Release h, t) k = release_lock True h t k"

lemma scheduler_step_run_op: "scheduler_step = scheduler_lock.run_op"
proof
  fix p show "scheduler_step p = scheduler_lock.run_op p"
    by (cases p; cases "fst p") (auto simp: fun_eq_iff)
qed



text \<open>The zombie cleanup's release does not check who holds the lock: a replica that stops
  after its lease ran out deletes the lease another replica has since won, and a third replica
  can acquire it while the second still works under it.\<close>

theorem zombie_release_breaks_lease:
  "\<exists>k k'. acquire_zombie_lock True ''b'' (seconds 31) (snd (acquire_zombie_lock True ''a'' 0 None)) = (True, k) \<and>
     release_zombie_lock True (seconds 32) k = k' \<and>
     valkey_get (seconds 33) k = Some (zombie_lock_value ''b'') \<and>
     fst (acquire_zombie_lock True ''c'' (seconds 33) k') = True"
  by (simp add: acquire_zombie_lock_def release_zombie_lock_def valkey_defs ZOMBIE_LOCK_TTL_def seconds_def)

end
