(* ===== verification/Intervals.thy ===== *)
theory Intervals
  imports Errand_Prelude
begin

text \<open>
  Repeat intervals (\<open>normalize_interval\<close> and \<open>parse_interval\<close> of \<open>errand/task_manager.py\<close>).
  A duration is in microseconds.  \<open>int\<close> refuses more than 4300 digits and \<open>timedelta\<close> more than
  999999999 days; both errors leave \<open>parse_interval\<close>.
\<close>

definition UNIT_WORD_MAP :: "(string \<times> char) list" where
  "UNIT_WORD_MAP =
     [(''minutes'', CHR ''m''), (''minute'', CHR ''m''), (''mins'', CHR ''m''), (''min'', CHR ''m''),
      (''hours'', CHR ''h''), (''hour'', CHR ''h''), (''hrs'', CHR ''h''), (''hr'', CHR ''h''),
      (''days'', CHR ''d''), (''day'', CHR ''d''), (''weeks'', CHR ''w''), (''week'', CHR ''w'')]"

definition NAMED_INTERVALS :: "(string \<times> string) list" where
  "NAMED_INTERVALS = [(''daily'', ''1d''), (''weekly'', ''1w''), (''hourly'', ''1h'')]"

definition is_unit :: "char \<Rightarrow> bool" where
  "is_unit c = (c = CHR ''m'' \<or> c = CHR ''h'' \<or> c = CHR ''d'' \<or> c = CHR ''w'')"

text \<open>\<open>re.fullmatch(r"(\d+)([mhdw])", s)\<close>.\<close>

definition match_compact :: "string \<Rightarrow> (string \<times> char) option" where
  "match_compact s =
     (let ds = takeWhile is_digit s; r = dropWhile is_digit s
      in if ds \<noteq> [] \<and> length r = 1 \<and> is_unit (hd r) then Some (ds, hd r) else None)"

text \<open>\<open>re.fullmatch(r"(\d+)\s*([a-z]+)", s)\<close>.\<close>

definition match_human :: "string \<Rightarrow> (string \<times> string) option" where
  "match_human s =
     (let ds = takeWhile is_digit s; w = dropWhile is_space (dropWhile is_digit s)
      in if ds \<noteq> [] \<and> w \<noteq> [] \<and> list_all is_lower_az w then Some (ds, w) else None)"

definition normalize_interval :: "string \<Rightarrow> string option" where
  "normalize_interval interval_str =
     (let s = py_lower (strip interval_str)
      in if s = [] then None
         else case map_of NAMED_INTERVALS s of
           Some c \<Rightarrow> Some c
         | None \<Rightarrow>
             if match_compact s \<noteq> None then Some s
             else (case match_human s of
                 None \<Rightarrow> None
               | Some (value, word) \<Rightarrow>
                   map_option (\<lambda>unit. value @ [unit]) (map_of UNIT_WORD_MAP word)))"

definition unit_micros :: "char \<Rightarrow> time" where
  "unit_micros u =
     (if u = CHR ''m'' then minutes 1 else if u = CHR ''h'' then hours 1
      else if u = CHR ''d'' then days 1 else days 7)"

definition MAX_TIMEDELTA_DAYS :: int where "MAX_TIMEDELTA_DAYS = 999999999"

definition timedelta :: "time \<Rightarrow> py_error + time" where
  "timedelta us = (if \<bar>us div days 1\<bar> \<le> MAX_TIMEDELTA_DAYS then Inr us else Inl OverflowErr)"

text \<open>\<open>datetime\<close> arithmetic: the years 1 to 9999 are the only instants.\<close>

definition MIN_DATETIME :: time where "MIN_DATETIME = - days 719162"
definition MAX_DATETIME :: time where "MAX_DATETIME = days 2932897 - 1"

definition datetime_add :: "time \<Rightarrow> time \<Rightarrow> py_error + time" where
  "datetime_add t d =
     (if MIN_DATETIME \<le> t + d \<and> t + d \<le> MAX_DATETIME then Inr (t + d) else Inl OverflowErr)"

definition py_int_digits :: "string \<Rightarrow> py_error + int" where
  "py_int_digits ds =
     (if length ds \<le> 4300 then Inr (digits_val ds) else Inl (ValueErr ''Exceeds the limit''))"

definition parse_interval :: "string \<Rightarrow> py_error + time option" where
  "parse_interval interval_str =
     (case normalize_interval interval_str of
        None \<Rightarrow> Inr None
      | Some cs \<Rightarrow>
          (case match_compact cs of
             None \<Rightarrow> Inr None
           | Some (value, unit) \<Rightarrow>
               bind_res (py_int_digits value) (\<lambda>v.
                 bind_res (timedelta (v * unit_micros unit)) (\<lambda>d. Inr (Some d)))))"

subsection \<open>Lemmas\<close>

lemma char_code_lower:
  "char_code (lower_char c) =
    (let n = char_code c in
     if (65 \<le> n \<and> n \<le> 90) \<or> (192 \<le> n \<and> n \<le> 222 \<and> n \<noteq> 215) then n + 32 else n)"
  by (simp add: lower_char_def char_code_def of_char_of Let_def)

lemma is_space_lower [simp]: "is_space (lower_char c) = is_space c"
  unfolding is_space_def char_code_lower Let_def by (simp split: if_split)

lemma lower_char_lower: "is_lower_az (lower_char c) \<Longrightarrow> \<not> is_space c \<and> \<not> is_digit c"
  unfolding is_space_def is_lower_az_def is_digit_def char_code_lower Let_def
  by (simp split: if_splits)

lemma lower_char_digit: "is_digit c \<Longrightarrow> lower_char c = c \<and> \<not> is_space c \<and> \<not> is_lower_az c"
  by (auto simp: is_digit_def lower_char_def is_space_def is_lower_az_def Let_def)

lemma lower_char_space: "is_space c \<Longrightarrow> lower_char c = c \<and> \<not> is_digit c"
  by (auto simp: is_digit_def lower_char_def is_space_def Let_def)

lemma strip_pad:
  assumes "list_all is_space p" "list_all is_space q" "x \<noteq> []" "\<not> is_space (hd x)" "\<not> is_space (last x)"
  shows "strip (p @ x @ q) = x"
proof -
  have d: "dropWhile is_space (ws @ y) = y" if "list_all is_space ws" "y \<noteq> []" "\<not> is_space (hd y)" for ws y
    using that by (induction ws) (auto simp: neq_Nil_conv)
  have "lstrip (p @ x @ q) = x @ q"
    unfolding lstrip_def by (rule d) (use assms in auto)
  moreover have "dropWhile is_space (rev q @ rev x) = rev x"
    by (rule d) (use assms in \<open>simp_all add: list_all_iff hd_rev\<close>)
  ultimately show ?thesis by (simp add: strip_def rstrip_def)
qed

lemma takeWhile_digits:
  "list_all is_digit ds \<Longrightarrow> r = [] \<or> \<not> is_digit (hd r) \<Longrightarrow>
     takeWhile is_digit (ds @ r) = ds \<and> dropWhile is_digit (ds @ r) = r"
  by (induction ds) (cases r; auto)+

lemma hd_digits: "list_all is_digit ds \<Longrightarrow> ds \<noteq> [] \<Longrightarrow> is_digit (hd ds)"
  by (cases ds) auto

lemma named_digit: "is_digit c \<Longrightarrow> map_of NAMED_INTERVALS (c # s) = None"
  by (auto simp: NAMED_INTERVALS_def is_digit_def char_code_def)

lemma match_compact_digits:
  "list_all is_digit ds \<Longrightarrow> ds \<noteq> [] \<Longrightarrow> is_unit u \<Longrightarrow> match_compact (ds @ [u]) = Some (ds, u)"
  using takeWhile_digits[of ds "[u]"]
  by (auto simp: match_compact_def Let_def is_unit_def is_digit_def char_code_def)

lemma unit_words:
  "map_of UNIT_WORD_MAP w = Some u \<Longrightarrow> is_unit u \<and> 2 \<le> length w \<and> list_all is_lower_az w"
proof -
  have "list_all (\<lambda>(w, u). is_unit u \<and> 2 \<le> length w \<and> list_all is_lower_az w) UNIT_WORD_MAP"
    by code_simp
  then show "map_of UNIT_WORD_MAP w = Some u \<Longrightarrow> is_unit u \<and> 2 \<le> length w \<and> list_all is_lower_az w"
    by (auto simp: list_all_iff dest!: map_of_SomeD)
qed

lemma lower_digits: "list_all is_digit ds \<Longrightarrow> py_lower ds = ds"
  by (induction ds) (simp_all add: py_lower_def lower_char_digit)

lemma lower_spaces: "list_all is_space ws \<Longrightarrow> py_lower ws = ws"
  by (induction ws) (simp_all add: py_lower_def lower_char_space)

lemma normalize_compact:
  assumes "list_all is_digit ds" "ds \<noteq> []" "is_unit u" "list_all is_space p" "list_all is_space q"
  shows "normalize_interval (p @ (ds @ [u]) @ q) = Some (ds @ [u])"
proof -
  obtain d ds' where d: "ds = d # ds'" "is_digit d" using assms(1,2) by (cases ds) auto
  have u: "\<not> is_space u" "lower_char u = u"
    using assms(3) by (auto simp: is_unit_def is_space_def lower_char_def char_code_def)
  have "strip (p @ (ds @ [u]) @ q) = ds @ [u]"
    by (rule strip_pad) (use assms d u lower_char_digit in auto)
  moreover have "py_lower (ds @ [u]) = ds @ [u]"
    using lower_digits[OF assms(1)] u by (simp add: py_lower_def)
  ultimately show ?thesis
    using match_compact_digits[OF assms(1-3)] named_digit[OF d(2), of "ds' @ [u]"] d(1)
    by (simp add: normalize_interval_def)
qed

lemma normalize_words:
  assumes "list_all is_digit ds" "ds \<noteq> []" "map_of UNIT_WORD_MAP (py_lower w) = Some u"
    "list_all is_space p" "list_all is_space m" "list_all is_space q"
  shows "normalize_interval (p @ (ds @ m @ w) @ q) = Some (ds @ [u])"
proof -
  obtain d ds' where d: "ds = d # ds'" "is_digit d" using assms(1,2) by (cases ds) auto
  note uw = unit_words[OF assms(3)]
  have w: "list_all (\<lambda>c. is_lower_az (lower_char c)) w" "2 \<le> length w"
    using uw by (simp_all add: py_lower_def list_all_iff)
  then have ns: "list_all (\<lambda>c. \<not> is_space c \<and> \<not> is_digit c) w"
    using lower_char_lower by (auto simp: list_all_iff)
  have "w \<noteq> []" using w(2) by auto
  then have "\<not> is_space (last (ds @ m @ w))" using ns by (simp add: list_all_iff)
  then have "strip (p @ (ds @ m @ w) @ q) = ds @ m @ w"
    by (intro strip_pad) (use assms d lower_char_digit in auto)
  then have s: "py_lower (strip (p @ (ds @ m @ w) @ q)) = ds @ m @ py_lower w"
    using lower_digits[OF assms(1)] lower_spaces[OF assms(5)] by (simp add: py_lower_def)
  have lw: "list_all (\<lambda>c. \<not> is_space c \<and> \<not> is_digit c) (py_lower w)"
    using uw lower_char_lower[of "_"] by (auto simp: list_all_iff is_space_def is_digit_def is_lower_az_def Let_def)
  have nd: "m @ py_lower w = [] \<or> \<not> is_digit (hd (m @ py_lower w))"
    using lw assms(5) lower_char_space \<open>w \<noteq> []\<close>
    by (cases m; cases "py_lower w") (auto simp: py_lower_def)
  note td = takeWhile_digits[OF assms(1) nd]
  have dm: "dropWhile is_space (m @ py_lower w) = py_lower w"
    using lw assms(5) \<open>w \<noteq> []\<close> by (induction m) (cases "py_lower w"; auto simp: py_lower_def)+
  have "match_compact (ds @ m @ py_lower w) = None"
    using td w(2) by (auto simp: match_compact_def Let_def py_lower_def)
  moreover have "match_human (ds @ m @ py_lower w) = Some (ds, py_lower w)"
    using td dm assms(2) uw w(2) by (auto simp: match_human_def Let_def)
  ultimately show ?thesis
    using named_digit[OF d(2), of "ds' @ m @ py_lower w"] d(1) s assms(3)
    by (simp add: normalize_interval_def)
qed

lemma parse_interval_normalized:
  assumes "normalize_interval s = Some (show_nat n @ [u])" "0 \<le> n" "is_unit u"
    "length (show_nat n) \<le> 4300" "n * unit_micros u div days 1 \<le> MAX_TIMEDELTA_DAYS"
  shows "parse_interval s = Inr (Some (n * unit_micros u))"
proof -
  have "0 \<le> n * unit_micros u"
    using assms(2) by (simp add: unit_micros_def minutes_def hours_def days_def seconds_def)
  then have "0 \<le> n * unit_micros u div days 1"
    by (simp add: pos_imp_zdiv_nonneg_iff days_def hours_def minutes_def seconds_def)
  then show ?thesis
    using assms match_compact_digits[OF show_nat_digits[OF assms(2)] show_nat_nonempty assms(3)]
    by (simp add: parse_interval_def py_int_digits_def timedelta_def digits_val_show_nat)
qed

subsection \<open>Property\<close>

text \<open>Reading a duration: a whole number followed by a unit letter, or by a unit word in any
  case with any white space between them, and padded by any white space, is read as that many
  units; the number's digits and the limit of \<open>timedelta\<close> are the only bounds.\<close>

theorem parse_interval_reads:
  assumes "0 \<le> n" "length (show_nat n) \<le> 4300" "n * unit_micros u div days 1 \<le> MAX_TIMEDELTA_DAYS"
    "list_all is_space p" "list_all is_space m" "list_all is_space q"
    "map_of UNIT_WORD_MAP (py_lower w) = Some u"
  shows "parse_interval (p @ (show_nat n @ m @ w) @ q) = Inr (Some (n * unit_micros u)) \<and>
    parse_interval (p @ (show_nat n @ [u]) @ q) = Inr (Some (n * unit_micros u))"
  using normalize_words[OF show_nat_digits[OF assms(1)] show_nat_nonempty assms(7,4,5,6)]
    normalize_compact[OF show_nat_digits[OF assms(1)] show_nat_nonempty _ assms(4,6)]
    unit_words[OF assms(7)] parse_interval_normalized[OF _ assms(1) _ assms(2,3)]
  by blast

theorem parse_interval_reads_witness:
  "parse_interval '' 90  Minutes'' = Inr (Some (minutes 90)) \<and> parse_interval '' 90m'' = Inr (Some (minutes 90))"
proof -
  have s: "show_nat 90 = ''90''" "unit_micros CHR ''m'' = minutes 1" by code_simp+
  have "length (show_nat 90) \<le> 4300" "90 * unit_micros CHR ''m'' div days 1 \<le> MAX_TIMEDELTA_DAYS"
    "list_all is_space '' ''" "list_all is_space ''  ''" "list_all is_space []"
    "map_of UNIT_WORD_MAP (py_lower ''Minutes'') = Some CHR ''m''" by code_simp+
  from parse_interval_reads[OF _ this] show ?thesis
    by (simp add: s minutes_def seconds_def)
qed

end
