(* ===== verification/Scheduler.thy ===== *)
theory Scheduler
  imports Task_Board_Facts Row_Batch Lease_Locks Intervals
begin

text \<open>
  The scheduler (\<open>errand/scheduler.py\<close>): under the lock, every cycle moves due scheduled tasks to
  the pending column and archives completed tasks that have not changed for a while.  Each of the
  two jobs selects its rows, changes them one after the other (a query flushes the change before
  it) and commits once.
\<close>

definition BATCH_SIZE :: nat where "BATCH_SIZE = 100"

subsection \<open>Promotion\<close>

definition due_tasks :: "time \<Rightarrow> db \<Rightarrow> task list" where
  "due_tasks now db =
     take BATCH_SIZE (sort_key (\<lambda>t. the (t_execute_at t))
       (filter (\<lambda>t. t_status t = Scheduled \<and> (case t_execute_at t of None \<Rightarrow> False | Some e \<Rightarrow> e \<le> now))
         (tasks db)))"

definition promote_task :: "time \<Rightarrow> nat \<Rightarrow> db \<Rightarrow> db" where
  "promote_task now i db =
     (let position = next_position db Pending None
      in update_row i (\<lambda>t. t\<lparr>t_status := Pending, t_position := position, t_updated_at := now\<rparr>) db)"

definition promote_due_tasks :: "time \<Rightarrow> db \<Rightarrow> nat \<times> db" where
  "promote_due_tasks now db =
     (let is = map t_id (due_tasks now db)
      in (length is, fold (publish ''task_updated'') is (fold (promote_task now) is db)))"

subsection \<open>Archival\<close>

definition archive_after_days :: "json option \<Rightarrow> py_error + int" where
  "archive_after_days setting = (case setting of None \<Rightarrow> Inr 3 | Some v \<Rightarrow> json_int v)"

definition archive_cutoff :: "json option \<Rightarrow> time \<Rightarrow> py_error + time" where
  "archive_cutoff setting now =
     bind_res (archive_after_days setting) (\<lambda>d.
       bind_res (timedelta (days d)) (\<lambda>delta. datetime_add now (- delta)))"

definition stale_completed :: "time \<Rightarrow> db \<Rightarrow> task list" where
  "stale_completed cutoff db =
     take BATCH_SIZE (filter (\<lambda>t. t_status t = Completed \<and> t_updated_at t < cutoff) (tasks db))"

definition archive_task :: "time \<Rightarrow> nat \<Rightarrow> db \<Rightarrow> db" where
  "archive_task now i = update_row i (\<lambda>t. t\<lparr>t_status := Archived, t_updated_at := now\<rparr>)"

definition archive_completed_tasks :: "json option \<Rightarrow> time \<Rightarrow> db \<Rightarrow> py_error + (nat \<times> db)" where
  "archive_completed_tasks setting now db =
     bind_res (archive_cutoff setting now) (\<lambda>cutoff.
       let is = map t_id (stale_completed cutoff db)
       in Inr (length is, fold (publish ''task_updated'') is (fold (archive_task now) is db)))"

text \<open>One turn of \<open>run_scheduler\<close>'s loop; an exception ends the turn, the commits before it stay.\<close>

definition scheduler_cycle ::
  "bool \<Rightarrow> string \<Rightarrow> json option \<Rightarrow> time \<Rightarrow> key_state \<times> db \<Rightarrow> key_state \<times> db" where
  "scheduler_cycle online host setting now s =
     (let (locked, k) = acquire_lock online host now (fst s)
      in if \<not> locked then (k, snd s)
         else
           (let (promoted, db1) = promote_due_tasks now (snd s)
            in case archive_completed_tasks setting now db1 of
                 Inl _ \<Rightarrow> (k, db1)
               | Inr (archived, db2) \<Rightarrow> (snd (refresh_lock online now k), db2)))"

subsection \<open>The batches\<close>

lemma promote_keeps_inv:
  assumes "board_inv db"
  shows "board_inv (promote_task now i db)"
  unfolding promote_task_def Let_def
  by (rule board_inv_append[where s = Pending and p = "next_position db Pending None"])
    (use assms in \<open>auto simp: keeps_at_def intro: next_position_above\<close>)

interpretation promote: row_step "promote_task now" for now
  by unfold_locales
    (auto simp: promote_task_def find_task_update_row keeps_at_def ids_update_row Let_def
      promote_keeps_inv[unfolded promote_task_def Let_def])

lemma archive_keeps_inv: "board_inv db \<Longrightarrow> board_inv (archive_task now i db)"
  unfolding archive_task_def
  by (rule board_inv_leave) (auto simp: keeps_at_def board_columns_def)

interpretation archive: row_step "archive_task now" for now
  by unfold_locales
    (auto simp: archive_task_def find_task_update_row keeps_at_def ids_update_row
      archive_keeps_inv[unfolded archive_task_def])

lemma take_sort_filter_subset: "mset (take n (sort_key f (filter P xs))) \<subseteq># mset xs"
proof -
  have "mset (take n (sort_key f (filter P xs))) \<subseteq># mset (sort_key f (filter P xs))"
    by (metis append_take_drop_id mset_append mset_subset_eq_add_left)
  also have "\<dots> \<subseteq># mset xs" by (simp add: mset_filter multiset_filter_subset)
  finally show ?thesis .
qed

lemma take_filter_subset: "mset (take n (filter P xs)) \<subseteq># mset xs"
proof -
  have "mset (take n (filter P xs)) \<subseteq># mset (filter P xs)"
    by (metis append_take_drop_id mset_append mset_subset_eq_add_left)
  also have "\<dots> \<subseteq># mset xs" by (simp add: mset_filter multiset_filter_subset)
  finally show ?thesis .
qed

lemma due_subset: "mset (due_tasks now db) \<subseteq># mset (tasks db)"
  unfolding due_tasks_def by (rule take_sort_filter_subset)

lemma stale_subset: "mset (stale_completed c db) \<subseteq># mset (tasks db)"
  unfolding stale_completed_def by (rule take_filter_subset)

lemmas due_ids = selection_ids[OF _ due_subset]
lemmas stale_ids = selection_ids[OF _ stale_subset]

lemma promote_due_keeps_inv: "board_inv db \<Longrightarrow> board_inv (snd (promote_due_tasks now db))"
  using promote.fold_inv due_ids(2) by (simp add: promote_due_tasks_def Let_def)

lemma archive_completed_keeps_inv:
  "board_inv db \<Longrightarrow> archive_completed_tasks st now db = Inr (n, db') \<Longrightarrow> board_inv db'"
  using archive.fold_inv stale_ids(2)
  by (auto simp: archive_completed_tasks_def bind_res_eq_Inr Let_def)

lemma max_position_le: "(\<And>p. p \<in> set ps \<Longrightarrow> p \<le> m) \<Longrightarrow> m \<in> set ps \<Longrightarrow> max_position ps = Some m"
  by (metis antisym max_position_ge max_position_in)

text \<open>Promoting a row puts it at the next position and moves the next position by one.\<close>

lemma next_position_promote:
  assumes "i \<in> set (ids db)"
  shows "next_position (promote_task now i db) Pending None = next_position db Pending None + 1"
proof -
  let ?p = "next_position db Pending None"
  let ?ps = "map t_position (column (promote_task now i db) Pending)"
  have rows: "tasks (promote_task now i db) =
      map (\<lambda>t. if t_id t = i then t\<lparr>t_status := Pending, t_position := ?p, t_updated_at := now\<rparr> else t) (tasks db)"
    by (simp add: promote_task_def tasks_update_row)
  have "p \<le> ?p" if "p \<in> set ?ps" for p
  proof -
    from that have "p \<in> t_position ` set (column (promote_task now i db) Pending)" by simp
    then obtain u where "u \<in> set (column (promote_task now i db) Pending)" "t_position u = p" by blast
    then obtain t where t: "t \<in> set (tasks db)" "t_id t = i \<or> t_status t = Pending"
      "p = (if t_id t = i then ?p else t_position t)"
      by (auto simp: column_def rows split: if_splits)
    then show ?thesis using next_position_above[of t db Pending None] by (auto split: if_splits)
  qed
  moreover have "?p \<in> set ?ps"
  proof -
    obtain t where "t \<in> set (tasks db)" "t_id t = i" using assms by (auto simp: ids_def)
    then have "t\<lparr>t_status := Pending, t_position := ?p, t_updated_at := now\<rparr>
        \<in> set (column (promote_task now i db) Pending)"
      by (auto simp: column_def rows intro!: image_eqI[of _ _ t])
    then show ?thesis by (auto intro!: image_eqI)
  qed
  ultimately have "max_position ?ps = Some ?p" by (rule max_position_le)
  then show ?thesis by (simp add: next_position_def)
qed

lemma next_position_promote_fold:
  "set is \<subseteq> set (ids db) \<Longrightarrow>
    next_position (fold (promote_task now) is db) Pending None = next_position db Pending None + int (length is)"
  by (induction "is" arbitrary: db) (simp_all add: next_position_promote promote.step_ids)

subsection \<open>Properties\<close>

text \<open>A promotion on a consistent board: it takes at most a hundred due tasks, those with the
  earliest times, and counts them; the k-th one becomes pending at the k-th place below the
  pending column as it was; no other row changes; and the board stays consistent.\<close>

theorem promote_due_tasks_spec:
  assumes "board_inv db" "promote_due_tasks now db = (n, db')"
  shows "n = length (due_tasks now db) \<and> n \<le> 100 \<and> board_inv db' \<and>
    (\<forall>k < n. \<exists>t. find_task db' (t_id (due_tasks now db ! k)) = Some t \<and> t_status t = Pending \<and>
       t_position t = next_position db Pending None + int k \<and> t_execute_at t = t_execute_at (due_tasks now db ! k)) \<and>
    (\<forall>j. j \<notin> t_id ` set (due_tasks now db) \<longrightarrow> find_task db' j = find_task db j) \<and>
    (\<forall>t \<in> set (tasks db). t_status t = Scheduled \<longrightarrow> (\<exists>e. t_execute_at t = Some e \<and> e \<le> now) \<longrightarrow>
       n < 100 \<longrightarrow> t \<in> set (due_tasks now db))"
proof -
  let ?is = "map t_id (due_tasks now db)"
  note d = due_ids[OF assms(1), of now]
  from assms(2) have n: "n = length (due_tasks now db)"
    and db': "db' = fold (publish ''task_updated'') ?is (fold (promote_task now) ?is db)"
    by (auto simp: promote_due_tasks_def Let_def)
  have le: "length (due_tasks now db) \<le> 100" by (simp add: due_tasks_def BATCH_SIZE_def)
  have inv: "board_inv db'" using promote_due_keeps_inv[OF assms(1), of now] assms(2) by simp
  have at: "\<exists>t. find_task db' (?is ! k) = Some t \<and> t_status t = Pending \<and>
      t_position t = next_position db Pending None + int k \<and> t_execute_at t = t_execute_at (due_tasks now db ! k)"
    if k: "k < length (due_tasks now db)" for k
  proof -
    let ?d = "fold (promote_task now) (take k ?is) db"
    have "due_tasks now db ! k \<in> set (tasks db)"
      using set_mset_mono[OF due_subset[of now db]] k by auto
    then have row: "find_task db (?is ! k) = Some (due_tasks now db ! k)"
      using find_task_unique[OF board_invD(1)[OF assms(1)]] k by simp
    have pos: "next_position ?d Pending None = next_position db Pending None + int k"
      using next_position_promote_fold[of "take k ?is" db now] d(2) k set_take_subset[of k ?is] by fastforce
    have "find_task db' (?is ! k) = find_task (promote_task now (?is ! k) ?d) (?is ! k)"
      using promote.fold_at[OF d(1), of k now db] k by (simp add: db')
    also have "\<dots> = Some ((due_tasks now db ! k)\<lparr>t_status := Pending,
        t_position := next_position db Pending None + int k, t_updated_at := now\<rparr>)"
      using promote.fold_before[OF d(1), of k now db] row k pos
      by (simp add: promote_task_def Let_def find_task_update_row keeps_at_def)
    finally show ?thesis by simp
  qed
  have all: "t \<in> set (due_tasks now db)"
    if "t \<in> set (tasks db)" "t_status t = Scheduled" "t_execute_at t = Some e" "e \<le> now"
      "length (due_tasks now db) < 100" for t e
    using that by (auto simp: due_tasks_def BATCH_SIZE_def)
  show ?thesis
    using n le inv at all promote.fold_other[of _ ?is now db]
    by (auto simp: db')
qed

definition scheduled_db :: db where
  "scheduled_db = sample_db\<lparr>tasks := tasks sample_db @
     [(sample_task 6 Scheduled 1)\<lparr>t_execute_at := Some 50\<rparr>,
      (sample_task 7 Scheduled 2)\<lparr>t_execute_at := Some 20\<rparr>,
      (sample_task 8 Scheduled 3)\<lparr>t_execute_at := Some 90\<rparr>]\<rparr>"

lemma scheduled_db_inv: "board_inv scheduled_db"
  by code_simp

lemma due_scheduled_db: "map t_id (due_tasks 60 scheduled_db) = [7, 6]"
  by code_simp

theorem promote_due_tasks_spec_witness:
  "\<exists>t u. find_task (snd (promote_due_tasks 60 scheduled_db)) 7 = Some t \<and> t_position t = 4 \<and>
     find_task (snd (promote_due_tasks 60 scheduled_db)) 6 = Some u \<and> t_position u = 5"
proof -
  have l: "length (due_tasks 60 scheduled_db) = 2" using due_scheduled_db
    by (metis length_map length_Cons list.size(3) numeral_2_eq_2)
  have i: "t_id (due_tasks 60 scheduled_db ! 0) = 7" "t_id (due_tasks 60 scheduled_db ! 1) = 6"
    using due_scheduled_db l
    by (metis One_nat_def lessI less_SucI nth_Cons_0 nth_Cons_Suc nth_map numeral_2_eq_2)+
  have p: "next_position scheduled_db Pending None = 4" by code_simp
  obtain n db' where r: "promote_due_tasks 60 scheduled_db = (n, db')"
    by (cases "promote_due_tasks 60 scheduled_db")
  from promote_due_tasks_spec[OF scheduled_db_inv r] i p l
  have "n = 2" "\<forall>k < n. \<exists>t. find_task db' (t_id (due_tasks 60 scheduled_db ! k)) = Some t \<and>
      t_position t = 4 + int k" by auto
  then show ?thesis using i by (auto simp: r less_2_cases_iff dest: spec[of _ "0::nat"] spec[of _ "1::nat"])
qed

text \<open>An archival that completes archives, of the completed tasks that have not changed since
  the cutoff, the first hundred, leaves every other row as it was and keeps the board consistent;
  it fails only when the setting is not an integer or too large for the calendar.\<close>

theorem archive_completed_tasks_spec:
  assumes "board_inv db"
  shows "case archive_completed_tasks setting now db of
      Inl e \<Rightarrow> archive_cutoff setting now = Inl e
    | Inr (n, db') \<Rightarrow> n \<le> 100 \<and> board_inv db' \<and>
        (\<exists>cutoff. archive_cutoff setting now = Inr cutoff \<and>
          (\<forall>j. find_task db' j =
             (if j \<in> t_id ` set (take 100 (filter (\<lambda>t. t_status t = Completed \<and> t_updated_at t < cutoff) (tasks db)))
              then map_option (\<lambda>t. t\<lparr>t_status := Archived, t_updated_at := now\<rparr>) (find_task db j)
              else find_task db j)))"
proof (cases "archive_cutoff setting now")
  case (Inl e)
  then show ?thesis by (simp add: archive_completed_tasks_def)
next
  case (Inr cutoff)
  let ?is = "map t_id (stale_completed cutoff db)"
  note d = stale_ids[OF assms, of cutoff]
  let ?db' = "fold (publish ''task_updated'') ?is (fold (archive_task now) ?is db)"
  have r: "archive_completed_tasks setting now db = Inr (length ?is, ?db')"
    using Inr by (simp add: archive_completed_tasks_def Let_def)
  have "find_task ?db' j = (if j \<in> set ?is
      then map_option (\<lambda>t. t\<lparr>t_status := Archived, t_updated_at := now\<rparr>) (find_task db j)
      else find_task db j)" for j
  proof (cases "j \<in> set ?is")
    case True
    then obtain k where k: "k < length ?is" "j = ?is ! k" by (auto simp: in_set_conv_nth)
    then show ?thesis
      using archive.fold_at[OF d(1) k(1), of now db] archive.fold_before[OF d(1) k(1), of now db] True
      by (simp add: archive_task_def find_task_update_row keeps_at_def)
  next
    case False
    then show ?thesis using archive.fold_other[OF False, of now db] by simp
  qed
  moreover have "length ?is \<le> 100" by (simp add: stale_completed_def BATCH_SIZE_def)
  ultimately show ?thesis
    using r Inr archive_completed_keeps_inv[OF assms r]
    by (auto simp: stale_completed_def BATCH_SIZE_def)
qed

theorem archive_completed_tasks_spec_witness:
  "case archive_completed_tasks (Some (JStr ''many'')) 0 sample_db of
     Inl e \<Rightarrow> e = ValueErr ''invalid literal for int()'' | Inr _ \<Rightarrow> False"
proof -
  have "archive_cutoff (Some (JStr ''many'')) 0 = Inl (ValueErr ''invalid literal for int()'')"
    by code_simp
  then show ?thesis
    using archive_completed_tasks_spec[OF sample_db_inv, of "Some (JStr ''many'')" 0]
    by (auto split: sum.splits)
qed

end
