(* ===== verification/Json_Extract.thy ===== *)
theory Json_Extract
  imports Llm_Classifier
begin

text \<open>
  Finding the structured result in a model's text: \<open>extract_json\<close> of
  \<open>errand/task_manager.py\<close> and of \<open>task-runner/main.py\<close> try the same three candidates, the
  stripped text, the content of the first code fence and the text from the first opening to the
  last closing brace.  Both stop at the first candidate their pydantic model accepts; the model is
  a parameter.  Also \<open>truncate_output\<close> and \<open>substitute_env_vars\<close>.
\<close>

subsection \<open>The code fence\<close>

text \<open>The lazy group of \<open>```(?:json)?\s*\n(.*?)\n\s*```\<close>: up to the first newline whose
  following white space ends at a fence.\<close>

fun lazy_content :: "string \<Rightarrow> string option" where
  "lazy_content [] = None"
| "lazy_content (c # s) =
     (if c = newline \<and> starts_with (dropWhile is_space s) fence then Some []
      else map_option ((#) c) (lazy_content s))"

fun first_some :: "'a option list \<Rightarrow> 'a option" where
  "first_some [] = None"
| "first_some (x # xs) = (case x of None \<Rightarrow> first_some xs | Some y \<Rightarrow> Some y)"

text \<open>The greedy white space before the newline gives back one newline after the other.\<close>

definition match_after_fence :: "string \<Rightarrow> string option" where
  "match_after_fence s =
     (let r = (if starts_with s ''json'' then drop 4 s else s);
          ws = takeWhile is_space r;
          newlines = rev (filter (\<lambda>j. ws ! j = newline) [0..<length ws])
      in first_some (map (\<lambda>j. lazy_content (drop (Suc j) r)) newlines))"

fun search_fence :: "string \<Rightarrow> string option" where
  "search_fence [] = None"
| "search_fence (c # s) =
     (if starts_with (c # s) fence then
        (case match_after_fence (drop 3 (c # s)) of
           Some m \<Rightarrow> Some m
         | None \<Rightarrow> search_fence s)
      else search_fence s)"

definition brace_content :: "string \<Rightarrow> string option" where
  "brace_content s =
     (case (find_char CHR ''{'' s, rfind_char CHR ''}'' s) of
        (Some a, Some b) \<Rightarrow> if a < b then Some (take (b + 1 - a) (drop a s)) else None
      | _ \<Rightarrow> None)"

definition candidates :: "string \<Rightarrow> string list" where
  "candidates text =
     (let s = strip text
      in s # (case search_fence s of None \<Rightarrow> [] | Some c \<Rightarrow> [strip c]) @
         (case brace_content s of None \<Rightarrow> [] | Some c \<Rightarrow> [c]))"

text \<open>The server keeps the text of the accepted candidate, the runner the parsed object.\<close>

definition extract_json :: "(string \<Rightarrow> 'r option) \<Rightarrow> string \<Rightarrow> string option" where
  "extract_json validate tx = find (\<lambda>c. validate c \<noteq> None) (candidates tx)"

definition runner_extract_json :: "(json \<Rightarrow> bool) \<Rightarrow> string \<Rightarrow> json option" where
  "runner_extract_json accepts tx =
     first_some (map (\<lambda>c. case json_loads c of
         Some (JObj d) \<Rightarrow> if accepts (JObj d) then Some (JObj d) else None
       | _ \<Rightarrow> None) (candidates tx))"

subsection \<open>Truncation\<close>

definition utf8_len :: "char \<Rightarrow> nat" where
  "utf8_len c = (if char_code c < 128 then 1 else 2)"

definition byte_length :: "string \<Rightarrow> nat" where
  "byte_length s = sum_list (map utf8_len s)"

text \<open>The first \<open>k\<close> bytes decoded with errors ignored: a character cut in the middle is dropped.\<close>

fun take_bytes :: "nat \<Rightarrow> string \<Rightarrow> string" where
  "take_bytes k [] = []"
| "take_bytes k (c # s) = (if utf8_len c \<le> k then c # take_bytes (k - utf8_len c) s else [])"

definition truncate_output :: "nat \<Rightarrow> string \<Rightarrow> string" where
  "truncate_output max_bytes output =
     (if byte_length output \<le> max_bytes then output
      else take_bytes max_bytes output @ [newline, newline] @ ''--- OUTPUT TRUNCATED (exceeded '' @
        show_nat (int max_bytes) @ '' bytes) ---'')"

subsection \<open>Environment placeholders\<close>

definition is_ident_start :: "char \<Rightarrow> bool" where
  "is_ident_start c = (is_lower_az c \<or> is_upper_az c \<or> c = CHR ''_'')"

definition is_ident :: "char \<Rightarrow> bool" where
  "is_ident c = (is_ident_start c \<or> is_digit c)"

text \<open>The name and the length of a placeholder that starts right after a dollar sign.\<close>

definition match_var :: "string \<Rightarrow> (string \<times> nat) option" where
  "match_var s =
     (let braced = (s \<noteq> [] \<and> hd s = CHR ''{''); r = (if braced then tl s else s);
          name = takeWhile is_ident r
      in if name = [] \<or> \<not> is_ident_start (hd name) then None
         else if \<not> braced then Some (name, length name)
         else if starts_with (drop (length name) r) ''}'' then Some (name, length name + 2)
         else None)"

function substitute_str :: "(string \<Rightarrow> string option) \<Rightarrow> string \<Rightarrow> string" where
  "substitute_str env [] = []"
| "substitute_str env (c # s) =
     (if c = CHR ''$'' then
        (case match_var s of
           None \<Rightarrow> c # substitute_str env s
         | Some (name, n) \<Rightarrow>
             (case env name of None \<Rightarrow> c # take n s | Some v \<Rightarrow> v) @ substitute_str env (drop n s))
      else c # substitute_str env s)"
  by pat_completeness auto
termination by (relation "measure (\<lambda>(_, s). length s)") auto

fun substitute_env_vars :: "(string \<Rightarrow> string option) \<Rightarrow> json \<Rightarrow> json" where
  "substitute_env_vars env (JStr s) = JStr (substitute_str env s)"
| "substitute_env_vars env (JObj d) = JObj (map (\<lambda>(k, v). (k, substitute_env_vars env v)) d)"
| "substitute_env_vars env (JArr xs) = JArr (map (substitute_env_vars env) xs)"
| "substitute_env_vars env j = j"

subsection \<open>Lemmas\<close>

lemma lazy_content_sublist: "lazy_content s = Some c \<Longrightarrow> prefix c s"
  by (induction s arbitrary: c) (auto split: if_splits)

lemma first_some_in: "first_some xs = Some y \<Longrightarrow> Some y \<in> set xs"
  by (induction xs) (auto split: option.splits)

lemma first_some_None: "first_some xs = None \<longleftrightarrow> set xs \<subseteq> {None}"
  by (induction xs) (auto split: option.splits)

lemma sublist_drop_prefix: "prefix c (drop n s) \<Longrightarrow> sublist c s"
  by (meson prefix_imp_sublist sublist_drop sublist_order.order_trans)

lemma match_after_fence_sublist: "match_after_fence s = Some c \<Longrightarrow> sublist c s"
proof -
  assume "match_after_fence s = Some c"
  then obtain j where "lazy_content (drop (Suc j) (if starts_with s ''json'' then drop 4 s else s)) = Some c"
    by (auto simp: match_after_fence_def Let_def dest!: first_some_in)
  then have "sublist c (if starts_with s ''json'' then drop 4 s else s)"
    by (blast dest: lazy_content_sublist intro: sublist_drop_prefix)
  then show ?thesis
    by (auto split: if_splits intro: sublist_order.order_trans[OF _ sublist_drop])
qed

lemma search_fence_sublist: "search_fence s = Some c \<Longrightarrow> sublist c s"
proof (induction s)
  case (Cons d s)
  show ?case
  proof (cases "search_fence s = Some c")
    case True
    with Cons.IH show ?thesis by (simp add: sublist_Cons_right)
  next
    case False
    then have "match_after_fence (drop 3 (d # s)) = Some c"
      using Cons.prems by (auto split: if_splits option.splits)
    from match_after_fence_sublist[OF this] show ?thesis
      using sublist_drop sublist_order.order_trans by blast
  qed
qed simp

lemma sublist_strip: "sublist (strip s) s"
proof -
  have "sublist (lstrip t) t" for t
    unfolding lstrip_def by (metis sublist_append_leftI sublist_order.order_refl takeWhile_dropWhile_id)
  moreover have "sublist (rstrip t) t" for t
    unfolding rstrip_def by (metis rev_rev_ident sublist_append_leftI sublist_order.order_refl sublist_rev
        takeWhile_dropWhile_id)
  ultimately show ?thesis unfolding strip_def using sublist_order.order_trans by blast
qed

lemma brace_content_sublist: "brace_content s = Some c \<Longrightarrow> sublist c s"
  unfolding brace_content_def
  by (auto split: option.splits if_splits intro: sublist_order.order_trans[OF sublist_take sublist_drop])

lemma candidates_sublist: "c \<in> set (candidates tx) \<Longrightarrow> sublist c tx"
proof -
  assume c: "c \<in> set (candidates tx)"
  have tr: "sublist x (strip tx) \<Longrightarrow> sublist x tx" for x
    using sublist_strip[of tx] sublist_order.order_trans by blast
  from c consider "c = strip tx" | f where "search_fence (strip tx) = Some f" "c = strip f"
    | "brace_content (strip tx) = Some c"
    by (cases "search_fence (strip tx)"; cases "brace_content (strip tx)")
      (auto simp: candidates_def Let_def)
  then show ?thesis
  proof cases
    case 1
    then show ?thesis by (simp add: sublist_strip)
  next
    case 2
    then have "sublist c (strip tx)"
      using search_fence_sublist sublist_strip[of f] sublist_order.order_trans by blast
    then show ?thesis by (rule tr)
  next
    case 3
    then show ?thesis using brace_content_sublist tr by blast
  qed
qed

lemma take_bytes_prefix: "prefix (take_bytes k s) s"
  by (induction k s rule: take_bytes.induct) auto

lemma byte_length_take_bytes: "byte_length (take_bytes k s) \<le> k"
  by (induction k s rule: take_bytes.induct) (auto simp: byte_length_def)

text \<open>At most one byte of the limit is left unused.\<close>

lemma byte_length_take_bytes_tight:
  "k < byte_length s \<Longrightarrow> k \<le> Suc (byte_length (take_bytes k s))"
proof (induction s arbitrary: k)
  case (Cons c s)
  show ?case
  proof (cases "utf8_len c \<le> k")
    case True
    have "k - utf8_len c < byte_length s" using Cons.prems True by (simp add: byte_length_def)
    from Cons.IH[OF this] True show ?thesis by (simp add: byte_length_def)
  next
    case False
    then have "k \<le> 1" by (simp add: utf8_len_def split: if_splits)
    then show ?thesis using False by simp
  qed
qed (simp add: byte_length_def)

subsection \<open>Properties\<close>

text \<open>The server's extraction is sound and complete for its three candidates: what it returns
  is accepted by the model and is a contiguous part of the text; it returns the stripped text
  whenever that is accepted; and it returns nothing exactly when the stripped text, the first
  fence's content and the brace-to-brace part are all rejected.\<close>

theorem extract_json_spec:
  "(case extract_json validate tx of
      Some c \<Rightarrow> validate c \<noteq> None \<and> sublist c tx \<and>
        (if validate (strip tx) = None then True else c = strip tx)
    | None \<Rightarrow> validate (strip tx) = None \<and>
        (case search_fence (strip tx) of None \<Rightarrow> True | Some f \<Rightarrow> validate (strip f) = None) \<and>
        (case brace_content (strip tx) of None \<Rightarrow> True | Some b \<Rightarrow> validate b = None))"
proof (cases "extract_json validate tx")
  case None
  then have "\<forall>c \<in> set (candidates tx). validate c = None"
    by (auto simp: extract_json_def find_None_iff)
  with None show ?thesis
    by (auto simp: candidates_def Let_def split: option.splits)
next
  case (Some c)
  then have "c \<in> set (candidates tx)" "validate c \<noteq> None"
    using find_Some_in[OF Some[unfolded extract_json_def]] by auto
  moreover have "validate (strip tx) \<noteq> None \<longrightarrow> c = strip tx"
    using Some by (auto simp: extract_json_def candidates_def Let_def)
  ultimately show ?thesis using Some candidates_sublist by simp
qed

text \<open>Truncating an output: within the limit it is returned as it is; beyond it, the result is
  the longest prefix of whole characters that fits the limit (at most one byte is wasted) followed
  by the marker naming the limit.\<close>

theorem truncate_output_spec:
  "if byte_length out \<le> m then truncate_output m out = out
   else \<exists>kept. prefix kept out \<and> kept \<noteq> out \<and> byte_length kept \<le> m \<and> m \<le> Suc (byte_length kept) \<and>
     truncate_output m out = kept @ [newline, newline] @ ''--- OUTPUT TRUNCATED (exceeded '' @
       show_nat (int m) @ '' bytes) ---''"
proof (cases "byte_length out \<le> m")
  case False
  then have "m < byte_length out" by simp
  then have "take_bytes m out \<noteq> out" using byte_length_take_bytes[of m out] by auto
  moreover have "m \<le> Suc (byte_length (take_bytes m out))"
    using \<open>m < byte_length out\<close> by (rule byte_length_take_bytes_tight)
  moreover have "truncate_output m out = take_bytes m out @ [newline, newline] @
      ''--- OUTPUT TRUNCATED (exceeded '' @ show_nat (int m) @ '' bytes) ---''"
    using False by (simp only: truncate_output_def if_False)
  ultimately have "\<exists>kept. prefix kept out \<and> kept \<noteq> out \<and> byte_length kept \<le> m \<and> m \<le> Suc (byte_length kept) \<and>
     truncate_output m out = kept @ [newline, newline] @ ''--- OUTPUT TRUNCATED (exceeded '' @
       show_nat (int m) @ '' bytes) ---''"
    using byte_length_take_bytes[of m out] take_bytes_prefix[of m out] by - (intro exI conjI; assumption)
  with False show ?thesis by (simp only: if_False)
qed (simp only: truncate_output_def if_True)

end
