(* ===== verification/Task_Manager.thy ===== *)
theory Task_Manager
  imports Task_Board_Facts Json_Extract Intervals
begin

text \<open>
  The worker side of \<open>errand/task_manager.py\<close>: taking the next pending task, what a finished
  run does to it, retries with backoff, escalation and the next occurrence of a repeating task.
  The container run itself is a parameter, a \<open>process_result\<close>; so are the pydantic validation of
  the runner's output and the resolved retry setting.  An operation that can raise after a commit
  returns the database it leaves behind and the exception, if any.  The dash in the escalation
  message is written as a hyphen, the model's characters being below 256.
\<close>

definition MAX_GIT_RETRIES :: int where "MAX_GIT_RETRIES = 5"
definition MAX_RETRY_BACKOFF_MINUTES :: int where "MAX_RETRY_BACKOFF_MINUTES = 60"
definition DEFAULT_MAX_RETRY_ATTEMPTS :: int where "DEFAULT_MAX_RETRY_ATTEMPTS = 5"
definition INTERNAL_CREATED_BY :: "string list" where
  "INTERNAL_CREATED_BY = [''system'', ''mcp'', ''email_poller'']"

definition is_external_client :: "string option \<Rightarrow> bool" where
  "is_external_client created_by =
     (case created_by of
        None \<Rightarrow> False
      | Some c \<Rightarrow>
          if c = [] then False
          else if c \<in> set INTERNAL_CREATED_BY then False
          else if CHR 0x40 \<in> set c then False
          else if starts_with c ''jira:'' then False
          else if starts_with c ''github:'' then False
          else True)"

record dequeued_task =
  q_task_id :: nat
  q_title :: string
  q_description :: "string option"
  q_category :: "string option"
  q_profile_id :: "nat option"
  q_repeat_interval :: "string option"
  q_repeat_until :: "time option"
  q_tag_ids :: "nat list"
  q_created_by :: "string option"
  q_encrypted_env :: "string option"
  q_is_eval :: bool

definition tag_ids_of :: "db \<Rightarrow> nat \<Rightarrow> nat list" where
  "tag_ids_of db i = map snd (filter (\<lambda>p. fst p = i) (task_tags db))"

definition from_orm :: "db \<Rightarrow> task \<Rightarrow> dequeued_task" where
  "from_orm db t =
     \<lparr>q_task_id = t_id t, q_title = t_title t, q_description = t_description t, q_category = t_category t,
      q_profile_id = t_profile_id t, q_repeat_interval = t_repeat_interval t,
      q_repeat_until = t_repeat_until t, q_tag_ids = tag_ids_of db (t_id t),
      q_created_by = t_created_by t, q_encrypted_env = t_encrypted_env t, q_is_eval = t_is_eval t\<rparr>"

record runner_output =
  o_status :: string      \<comment> \<open>\<open>"completed"\<close> or \<open>"needs_input"\<close>\<close>
  o_result :: string
  o_questions :: "string list"

datatype process_result =
    Exited int string string        \<comment> \<open>exit code, stdout, stderr\<close>
  | GitSkillsError string
  | Cancelled
  | Crashed

subsection \<open>Taking a task\<close>

definition dequeue_task :: "db \<Rightarrow> task option" where
  "dequeue_task db =
     (case sort_key (\<lambda>t. (t_position t, t_created_at t)) (column db Pending) of
        [] \<Rightarrow> None
      | t # _ \<Rightarrow> Some t)"

text \<open>\<open>_poll_and_dispatch\<close>, without the credentials and settings it hands to the run.\<close>

definition poll_and_dispatch :: "time \<Rightarrow> int \<Rightarrow> db \<Rightarrow> dequeued_task option \<times> db" where
  "poll_and_dispatch now permits db =
     (if permits \<le> 0 then (None, db)
      else (case dequeue_task db of
          None \<Rightarrow> (None, db)
        | Some t \<Rightarrow>
            (let t' = touch now (t\<lparr>t_status := Running, t_heartbeat_at := Some now,
                        t_updated_by := Some ''system''\<rparr>);
                 db1 = publish ''task_updated'' (t_id t) (update_row (t_id t) (\<lambda>_. t') db)
             in (Some (from_orm db1 t'), db1))))"

definition heartbeat :: "time \<Rightarrow> nat \<Rightarrow> db \<Rightarrow> db" where
  "heartbeat now i = update_row i (\<lambda>t. touch now (t\<lparr>t_heartbeat_at := Some now\<rparr>))"

subsection \<open>Retries\<close>

text \<open>\<open>_get_max_retry_attempts\<close> on what the settings resolver answered.\<close>

definition get_max_retry_attempts :: "py_error + json \<Rightarrow> py_error + int" where
  "get_max_retry_attempts resolved =
     (case resolved of
        Inl _ \<Rightarrow> Inr DEFAULT_MAX_RETRY_ATTEMPTS
      | Inr v \<Rightarrow>
          (case json_int v of
             Inl OverflowErr \<Rightarrow> Inl OverflowErr
           | Inl _ \<Rightarrow> Inr DEFAULT_MAX_RETRY_ATTEMPTS
           | Inr n \<Rightarrow> Inr (if n \<le> 0 then 1 else n)))"

definition set_some :: "string option \<Rightarrow> (string option \<Rightarrow> task \<Rightarrow> task) \<Rightarrow> task \<Rightarrow> task" where
  "set_some x f t = (case x of None \<Rightarrow> t | Some v \<Rightarrow> f (Some v) t)"

definition escalation_message :: "int \<Rightarrow> string option \<Rightarrow> string" where
  "escalation_message max_attempts out =
     ''Task exceeded max retries ('' @ show_int max_attempts @ '') - last failure: '' @
     truncate_output 4096 (case out of None \<Rightarrow> ''(no output)'' | Some s \<Rightarrow> s)"

definition escalate_to_review_failed ::
  "int \<Rightarrow> time \<Rightarrow> task \<Rightarrow> string option \<Rightarrow> string option \<Rightarrow> db \<Rightarrow> db" where
  "escalate_to_review_failed max_attempts now current out logs db =
     (let i = t_id current; pos = next_position db Review None;
          db1 = update_row i (\<lambda>t. set_some logs (\<lambda>v. t_runner_logs_update (\<lambda>_. v))
                  (t\<lparr>t_status := Review, t_position := pos, t_output := Some (escalation_message max_attempts out),
                     t_retry_count := t_retry_count current + 1, t_updated_by := Some ''system'',
                     t_updated_at := now\<rparr>)) db
      in publish ''task_updated'' i (add_tag (remove_tag db1 i ''Retry'') i ''Failed''))"

definition retry_backoff :: "int \<Rightarrow> int" where
  "retry_backoff retry_count = min (2 ^ nat retry_count) MAX_RETRY_BACKOFF_MINUTES"

definition retry_row :: "time \<Rightarrow> int \<Rightarrow> task \<Rightarrow> string option \<Rightarrow> string option \<Rightarrow> task \<Rightarrow> task" where
  "retry_row now pos current out logs t =
     set_some logs (\<lambda>v. t_runner_logs_update (\<lambda>_. v)) (set_some out (\<lambda>v. t_output_update (\<lambda>_. v))
       (t\<lparr>t_status := Scheduled, t_position := pos, t_retry_count := t_retry_count current + 1,
          t_execute_at := Some (now + minutes (retry_backoff (t_retry_count current))),
          t_updated_by := Some ''system'', t_updated_at := now\<rparr>))"

definition schedule_retry ::
  "py_error + json \<Rightarrow> time \<Rightarrow> nat \<Rightarrow> string option \<Rightarrow> string option \<Rightarrow> db \<Rightarrow> db \<times> py_error option" where
  "schedule_retry setting now i out logs db =
     (case find_task db i of
        None \<Rightarrow> (db, Some NoResultFound)
      | Some current \<Rightarrow>
          (case get_max_retry_attempts setting of
             Inl e \<Rightarrow> (db, Some e)
           | Inr max_attempts \<Rightarrow>
               if t_retry_count current \<ge> max_attempts - 1 then
                 (escalate_to_review_failed max_attempts now current out logs db, None)
               else
                 (let pos = next_position db Scheduled None;
                      db1 = update_row i (retry_row now pos current out logs) db
                  in (publish ''task_updated'' i (add_tag db1 i ''Retry''), None))))"

subsection \<open>The next occurrence\<close>

definition next_occurrence :: "time \<Rightarrow> time \<Rightarrow> dequeued_task \<Rightarrow> db \<Rightarrow> task" where
  "next_occurrence now execute_at q db =
     \<lparr>t_id = fresh_id (ids db), t_title = q_title q, t_description = q_description q, t_status = Scheduled,
      t_created_at = now, t_updated_at = now, t_category = q_category q, t_execute_at = Some execute_at,
      t_repeat_interval = q_repeat_interval q, t_repeat_until = q_repeat_until q,
      t_position = next_position db Scheduled None, t_output = None, t_runner_logs = None,
      t_questions = None, t_retry_count = 0, t_heartbeat_at = None, t_profile_id = q_profile_id q,
      t_created_by = Some ''system'', t_updated_by = None, t_encrypted_env = None, t_is_eval = q_is_eval q\<rparr>"

fun insert_tag_ids :: "nat \<Rightarrow> nat list \<Rightarrow> db \<Rightarrow> py_error + db" where
  "insert_tag_ids i [] db = Inr db"
| "insert_tag_ids i (g # gs) db = bind_res (insert_task_tag i g db) (insert_tag_ids i gs)"

definition reschedule_if_repeating :: "time \<Rightarrow> dequeued_task \<Rightarrow> db \<Rightarrow> db \<times> py_error option" where
  "reschedule_if_repeating now q db =
     (if q_category q \<noteq> Some ''repeating'' then (db, None)
      else if (case q_repeat_until q of None \<Rightarrow> False | Some u \<Rightarrow> u < now) then (db, None)
      else
        (case parse_interval (case q_repeat_interval q of None \<Rightarrow> [] | Some s \<Rightarrow> s) of
           Inl e \<Rightarrow> (db, Some e)
         | Inr None \<Rightarrow> (db, None)
         | Inr (Some interval) \<Rightarrow>
             (case bind_res (datetime_add now interval) (\<lambda>execute_at.
                     let t = next_occurrence now execute_at q db
                     in bind_res (insert_tag_ids (t_id t) (q_tag_ids q) (insert_task t db)) (\<lambda>db1.
                          Inr (publish ''task_created'' (t_id t) db1))) of
                Inl e \<Rightarrow> (db, Some e)
              | Inr db1 \<Rightarrow> (db1, None))))"

subsection \<open>After the run\<close>

definition target_status :: "dequeued_task \<Rightarrow> runner_output \<Rightarrow> task_status" where
  "target_status q parsed =
     (if o_status parsed = ''completed'' then Completed
      else if o_status parsed = ''needs_input'' \<and> is_external_client (q_created_by q) then Completed
      else Review)"

definition finish_row :: "time \<Rightarrow> task_status \<Rightarrow> int \<Rightarrow> runner_output \<Rightarrow> string \<Rightarrow> task \<Rightarrow> task" where
  "finish_row now target pos parsed stderr t =
     t\<lparr>t_status := target, t_position := pos, t_output := Some (o_result parsed),
       t_runner_logs := Some stderr,
       t_questions := (if o_questions parsed = [] then None else Some (o_questions parsed)),
       t_retry_count := 0, t_updated_by := Some ''system'', t_updated_at := now\<rparr>"

text \<open>For a row that is gone the UPDATE matches nothing; the tag's foreign key or the read after
  the commit raises.\<close>

definition finish_task ::
  "time \<Rightarrow> dequeued_task \<Rightarrow> runner_output \<Rightarrow> string \<Rightarrow> db \<Rightarrow> db \<times> py_error option" where
  "finish_task now q parsed stderr db =
     (let i = q_task_id q; target = target_status q parsed; pos = next_position db target None
      in if find_task db i = None then
           (db, Some (if o_status parsed = ''needs_input'' then IntegrityErr else NoResultFound))
         else
           (let db1 = update_row i (finish_row now target pos parsed stderr) db;
                db2 = (if o_status parsed = ''needs_input'' then add_tag db1 i ''Input Needed'' else db1);
                db3 = remove_tag db2 i ''Retry'';
                db4 = publish ''task_updated'' i db3
            in case find_task db4 i of
                 None \<Rightarrow> (db4, Some NoResultFound)
               | Some t \<Rightarrow>
                   if target = Completed then reschedule_if_repeating now (from_orm db4 t) db4
                   else (db4, None)))"

definition is_credential_error :: "string \<Rightarrow> bool" where
  "is_credential_error s =
     list_ex (contains_str s) [''Permission denied'', ''publickey'', ''authentication failed'']"

text \<open>The handler of \<open>GitSkillsError\<close>.  The \<open>Credentials\<close> tag is inserted in the handler's own
  session, which only the review branch commits.\<close>

definition handle_git_error ::
  "py_error + json \<Rightarrow> time \<Rightarrow> nat \<Rightarrow> string \<Rightarrow> db \<Rightarrow> db \<times> py_error option" where
  "handle_git_error setting now i error_str db =
     (case find_task db i of
        None \<Rightarrow> (db, Some NoResultFound)
      | Some current \<Rightarrow>
          (let tagged = (if is_credential_error error_str then add_tag db i ''Credentials'' else db)
           in if t_retry_count current \<ge> MAX_GIT_RETRIES then
                (let pos = next_position tagged Review None
                 in (publish ''task_updated'' i (update_row i (\<lambda>t. t\<lparr>t_status := Review, t_position := pos,
                       t_output := Some error_str, t_updated_by := Some ''system'', t_updated_at := now\<rparr>)
                       tagged), None))
              else schedule_retry setting now i (Some error_str) None db))"

definition run_task ::
  "(string \<Rightarrow> runner_output option) \<Rightarrow> py_error + json \<Rightarrow> time \<Rightarrow> dequeued_task \<Rightarrow> process_result \<Rightarrow>
     db \<Rightarrow> db \<times> py_error option" where
  "run_task validate setting now q outcome db =
     (let i = q_task_id q
      in case outcome of
           Exited exit_code stdout stderr \<Rightarrow>
             (let full_output = (if stderr \<noteq> [] then strip (stderr @ [newline] @ stdout) else stdout);
                  clean_stdout = (if stdout \<noteq> [] then extract_json validate stdout else None);
                  attempt =
                    (case clean_stdout of
                       None \<Rightarrow> schedule_retry setting now i (Some full_output) (Some stderr) db
                     | Some c \<Rightarrow>
                         (case validate c of
                            None \<Rightarrow> schedule_retry setting now i (Some full_output) (Some stderr) db
                          | Some parsed \<Rightarrow> finish_task now q parsed stderr db))
              in case attempt of
                   (db1, None) \<Rightarrow> (db1, None)
                 | (db1, Some _) \<Rightarrow> schedule_retry setting now i None None db1)
         | GitSkillsError e \<Rightarrow> handle_git_error setting now i e db
         | Cancelled \<Rightarrow>
             (fst (schedule_retry setting now i (Some ''Processing cancelled during shutdown'') None db), None)
         | Crashed \<Rightarrow> schedule_retry setting now i None None db)"

end
