(* ===== verification/Task_Manager_Facts.thy ===== *)
theory Task_Manager_Facts
  imports Task_Manager Row_Batch
begin

text \<open>
  What the worker guarantees for the task it ran: the board stays consistent, the task leaves the
  running state whatever happened, failures are retried a bounded number of times with bounded
  delays and then escalated, and a repeating task gets exactly one next occurrence.
\<close>

subsection \<open>Row effects\<close>

lemma find_task_add_tag [simp]: "find_task (add_tag db i n) j = find_task db j"
  by (rule find_task_cong) simp

lemma find_task_remove_tag [simp]: "find_task (remove_tag db i n) j = find_task db j"
  by (rule find_task_cong) simp

lemma ids_tags [simp]: "ids (add_tag db i n) = ids db" "ids (remove_tag db i n) = ids db"
  by (simp_all add: ids_def)

lemma set_some_frame [simp]:
  "t_id (set_some x (\<lambda>v. t_runner_logs_update (\<lambda>_. v)) t) = t_id t"
  "t_status (set_some x (\<lambda>v. t_runner_logs_update (\<lambda>_. v)) t) = t_status t"
  "t_position (set_some x (\<lambda>v. t_runner_logs_update (\<lambda>_. v)) t) = t_position t"
  "t_retry_count (set_some x (\<lambda>v. t_runner_logs_update (\<lambda>_. v)) t) = t_retry_count t"
  "t_execute_at (set_some x (\<lambda>v. t_runner_logs_update (\<lambda>_. v)) t) = t_execute_at t"
  "t_id (set_some x (\<lambda>v. t_output_update (\<lambda>_. v)) t) = t_id t"
  "t_status (set_some x (\<lambda>v. t_output_update (\<lambda>_. v)) t) = t_status t"
  "t_position (set_some x (\<lambda>v. t_output_update (\<lambda>_. v)) t) = t_position t"
  "t_retry_count (set_some x (\<lambda>v. t_output_update (\<lambda>_. v)) t) = t_retry_count t"
  "t_execute_at (set_some x (\<lambda>v. t_output_update (\<lambda>_. v)) t) = t_execute_at t"
  by (simp_all add: set_some_def split: option.splits)

lemma escalate_row:
  assumes "find_task db i = Some t"
  shows "\<exists>t'. find_task (escalate_to_review_failed m now t out logs db) i = Some t' \<and>
    t_status t' = Review \<and> t_retry_count t' = t_retry_count t + 1 \<and>
    t_position t' = next_position db Review None"
  using assms find_task_SomeD[OF assms]
  by (simp add: escalate_to_review_failed_def Let_def find_task_update_row keeps_at_def)

lemma escalate_other:
  assumes "find_task db i = Some t" "j \<noteq> i"
  shows "find_task (escalate_to_review_failed m now t out logs db) j = find_task db j"
  using assms find_task_SomeD[OF assms(1)]
  by (simp add: escalate_to_review_failed_def Let_def find_task_update_row keeps_at_def)

lemma in_ids: "find_task db i = Some t \<Longrightarrow> i \<in> set (ids db)"
  using find_task_None[of db i] by simp

lemma escalate_inv:
  assumes "board_inv db" "find_task db i = Some t"
  shows "board_inv (escalate_to_review_failed m now t out logs db)"
proof -
  have i: "t_id t = i" using find_task_SomeD[OF assms(2)] by simp
  let ?f = "\<lambda>u. set_some logs (\<lambda>v. t_runner_logs_update (\<lambda>_. v))
      (u\<lparr>t_status := Review, t_position := next_position db Review None,
         t_output := Some (escalation_message m out), t_retry_count := t_retry_count t + 1,
         t_updated_by := Some ''system'', t_updated_at := now\<rparr>)"
  have "board_inv (update_row i ?f db)"
    by (rule board_inv_append[OF assms(1), where s = Review and p = "next_position db Review None"])
      (auto simp: keeps_at_def intro: next_position_above)
  moreover have "i \<in> set (ids (update_row i ?f db))"
    using in_ids[OF assms(2)] by (simp add: ids_update_row keeps_at_def)
  ultimately show ?thesis
    by (simp add: escalate_to_review_failed_def Let_def i board_inv_add_tag board_inv_remove_tag)
qed

lemma retry_row_frame [simp]:
  "t_id (retry_row now p c out logs t) = t_id t" "t_status (retry_row now p c out logs t) = Scheduled"
  "t_position (retry_row now p c out logs t) = p"
  "t_retry_count (retry_row now p c out logs t) = t_retry_count c + 1"
  "t_execute_at (retry_row now p c out logs t) = Some (now + minutes (retry_backoff (t_retry_count c)))"
  by (simp_all add: retry_row_def)

lemma schedule_retry_eq:
  assumes "find_task db i = Some t" "get_max_retry_attempts setting = Inr m"
  shows "schedule_retry setting now i out logs db =
    (if t_retry_count t \<ge> m - 1 then (escalate_to_review_failed m now t out logs db, None)
     else (publish ''task_updated'' i (add_tag
       (update_row i (retry_row now (next_position db Scheduled None) t out logs) db) i ''Retry''), None))"
  using assms by (simp add: schedule_retry_def Let_def)

lemma retry_inv:
  assumes "board_inv db" "find_task db i = Some t"
  shows "board_inv (add_tag (update_row i (retry_row now (next_position db Scheduled None) t out logs) db) i n)"
proof -
  have "board_inv (update_row i (retry_row now (next_position db Scheduled None) t out logs) db)"
    by (rule board_inv_append[OF assms(1), where s = Scheduled and p = "next_position db Scheduled None"])
      (auto simp: keeps_at_def intro: next_position_above)
  then show ?thesis
    using in_ids[OF assms(2)] by (intro board_inv_add_tag) (simp_all add: ids_update_row keeps_at_def)
qed

lemma schedule_retry_inv: "board_inv db \<Longrightarrow> board_inv (fst (schedule_retry setting now i out logs db))"
proof (cases "find_task db i")
  case None
  then show "board_inv db \<Longrightarrow> ?thesis" by (simp add: schedule_retry_def)
next
  case (Some t)
  assume inv: "board_inv db"
  show ?thesis
  proof (cases "get_max_retry_attempts setting")
    case (Inl e)
    then show ?thesis using inv Some by (simp add: schedule_retry_def)
  next
    case (Inr m)
    then show ?thesis
      using inv Some escalate_inv[OF inv Some] retry_inv[OF inv Some]
      by (simp add: schedule_retry_eq[OF Some Inr])
  qed
qed

lemma schedule_retry_other:
  "j \<noteq> i \<Longrightarrow> find_task (fst (schedule_retry setting now i out logs db)) j = find_task db j"
proof (cases "find_task db i")
  case (Some t)
  assume j: "j \<noteq> i"
  show ?thesis
  proof (cases "get_max_retry_attempts setting")
    case (Inl e)
    then show ?thesis using Some by (simp add: schedule_retry_def)
  next
    case (Inr m)
    then show ?thesis
      using j escalate_other[OF Some j] by (simp add: schedule_retry_eq[OF Some Inr] find_task_update_row keeps_at_def)
  qed
qed (simp add: schedule_retry_def)

lemma schedule_retry_row:
  assumes "find_task db i = Some t" "get_max_retry_attempts setting = Inr m"
  shows "\<exists>t'. find_task (fst (schedule_retry setting now i out logs db)) i = Some t' \<and>
    t_retry_count t' = t_retry_count t + 1 \<and>
    (if t_retry_count t \<ge> m - 1 then t_status t' = Review
     else t_status t' = Scheduled \<and> t_execute_at t' = Some (now + minutes (retry_backoff (t_retry_count t))))"
proof (cases "t_retry_count t \<ge> m - 1")
  case True
  then show ?thesis
    using escalate_row[OF assms(1), of m now out logs] by (auto simp: schedule_retry_eq[OF assms])
next
  case False
  then show ?thesis
    using assms(1) by (simp add: schedule_retry_eq[OF assms] find_task_update_row keeps_at_def)
qed

lemma retry_backoff_bounds: "1 \<le> retry_backoff r \<and> retry_backoff r \<le> 60"
proof -
  have "(1::int) \<le> 2 ^ nat r" by simp
  then show ?thesis by (simp add: retry_backoff_def MAX_RETRY_BACKOFF_MINUTES_def)
qed

subsection \<open>Tags after a failure\<close>

lemma tag_set_update_row [simp]: "tag_set (update_row i f db) j = tag_set db j"
  by (rule tag_set_cong) simp_all

lemma tag_set_publish [simp]: "tag_set (publish k i db) j = tag_set db j"
  by (rule tag_set_cong) simp_all

lemma escalate_tags:
  assumes "tag_inv db" "t_id t = i"
  shows "tag_set (escalate_to_review_failed m now t out logs db) i =
    insert ''Failed'' (tag_set db i - {''Retry''})"
  using assms by (simp add: escalate_to_review_failed_def Let_def tag_set_add_tag tag_set_remove_tag remove_tag_inv)

lemma retry_tags:
  assumes "tag_inv db"
  shows "tag_set (publish k i (add_tag (update_row i f db) i ''Retry'')) i = insert ''Retry'' (tag_set db i)"
  using assms by (simp add: tag_set_add_tag)

subsection \<open>The next occurrence\<close>

lemma insert_tag_ids_fresh:
  assumes "distinct gs" "\<And>g. g \<in> set gs \<Longrightarrow> (i, g) \<notin> set (task_tags db)"
  shows "insert_tag_ids i gs db = Inr (db\<lparr>task_tags := task_tags db @ map (Pair i) gs\<rparr>)"
  using assms
proof (induction gs arbitrary: db)
  case (Cons g gs)
  let ?db = "db\<lparr>task_tags := task_tags db @ [(i, g)]\<rparr>"
  have "insert_tag_ids i gs ?db = Inr (?db\<lparr>task_tags := task_tags ?db @ map (Pair i) gs\<rparr>)"
    using Cons.prems by (intro Cons.IH) auto
  then show ?case using Cons.prems(2) by (simp add: insert_task_tag_def)
qed simp

lemma tag_ids_of_spec:
  assumes "tag_inv db"
  shows "distinct (tag_ids_of db i)" "set (tag_ids_of db i) \<subseteq> fst ` set (tags db)"
    "set (tag_ids_of db i) = {g. (i, g) \<in> set (task_tags db)}"
proof -
  have "distinct (task_tags db)" using assms by (simp add: tag_inv_def)
  then show "distinct (tag_ids_of db i)"
    by (auto simp: tag_ids_of_def distinct_map inj_on_def)
  show "set (tag_ids_of db i) = {g. (i, g) \<in> set (task_tags db)}"
    by (force simp: tag_ids_of_def)
  then show "set (tag_ids_of db i) \<subseteq> fst ` set (tags db)"
    using assms by (force simp: tag_inv_def)
qed

lemma next_occurrence_frame [simp]:
  "t_id (next_occurrence now ex q db) = fresh_id (ids db)"
  "t_status (next_occurrence now ex q db) = Scheduled"
  "t_position (next_occurrence now ex q db) = next_position db Scheduled None"
  by (simp_all add: next_occurrence_def)

text \<open>What the clone's INSERTs produce for a task read from the database.\<close>

definition cloned :: "time \<Rightarrow> time \<Rightarrow> dequeued_task \<Rightarrow> db \<Rightarrow> db" where
  "cloned now ex q db =
     (insert_task (next_occurrence now ex q db) db)
       \<lparr>task_tags := task_tags db @ map (Pair (fresh_id (ids db))) (q_tag_ids q)\<rparr>"

lemma cloned_spec:
  assumes inv: "board_inv db" and q: "q_tag_ids q = tag_ids_of db i"
  shows "insert_tag_ids (fresh_id (ids db)) (q_tag_ids q) (insert_task (next_occurrence now ex q db) db) =
      Inr (cloned now ex q db)"
    "board_inv (cloned now ex q db)"
    "tag_set (cloned now ex q db) (fresh_id (ids db)) = tag_set db i"
    "j \<noteq> fresh_id (ids db) \<Longrightarrow> tag_set (cloned now ex q db) j = tag_set db j"
proof -
  let ?i = "fresh_id (ids db)" let ?t = "next_occurrence now ex q db"
  note ts = tag_ids_of_spec[OF board_invD(2)[OF inv], of i]
  have orphan: "(?i, g) \<notin> set (task_tags db)" for g
    using board_invD(4)[OF inv] fresh_id_notin[of "ids db"] by (force simp: links_inv_def)
  show "insert_tag_ids ?i (q_tag_ids q) (insert_task ?t db) = Inr (cloned now ex q db)"
    using ts(1) orphan by (subst insert_tag_ids_fresh) (simp_all add: q cloned_def)
  have b: "board_inv (insert_task ?t db)"
    by (rule board_inv_insert[OF inv]) (use fresh_id_notin[of "ids db"] next_position_above in fastforce)+
  have "tag_inv (cloned now ex q db)"
    using board_invD(2)[OF inv] ts orphan
    by (auto simp: tag_inv_def cloned_def q distinct_map inj_on_def)
  moreover have "links_inv (cloned now ex q db)"
    using board_invD(4)[OF inv] by (auto simp: links_inv_def cloned_def ids_def insert_task_def)
  ultimately show "board_inv (cloned now ex q db)"
    using b by (simp add: board_inv_def cloned_def ids_def)
  show "tag_set (cloned now ex q db) ?i = tag_set db i"
    using orphan by (auto simp: tag_set_def cloned_def q ts(3))
  show "j \<noteq> ?i \<Longrightarrow> tag_set (cloned now ex q db) j = tag_set db j"
    by (auto simp: tag_set_def cloned_def)
qed

definition wants_clone :: "time \<Rightarrow> dequeued_task \<Rightarrow> bool" where
  "wants_clone now q \<longleftrightarrow> q_category q = Some ''repeating'' \<and>
     (case q_repeat_until q of None \<Rightarrow> True | Some u \<Rightarrow> now \<le> u)"

definition clone_interval :: "dequeued_task \<Rightarrow> py_error + time option" where
  "clone_interval q = parse_interval (case q_repeat_interval q of None \<Rightarrow> [] | Some s \<Rightarrow> s)"

lemma reschedule_eq:
  assumes "board_inv db" "q_tag_ids q = tag_ids_of db i"
  shows "reschedule_if_repeating now q db =
    (if \<not> wants_clone now q then (db, None)
     else case clone_interval q of
       Inl e \<Rightarrow> (db, Some e)
     | Inr None \<Rightarrow> (db, None)
     | Inr (Some d) \<Rightarrow>
         (case datetime_add now d of
            Inl e \<Rightarrow> (db, Some e)
          | Inr ex \<Rightarrow> (publish ''task_created'' (fresh_id (ids db)) (cloned now ex q db), None)))"
proof -
  have c: "q_category q \<noteq> Some ''repeating'' \<or> (case q_repeat_until q of None \<Rightarrow> False | Some u \<Rightarrow> u < now)
      \<longleftrightarrow> \<not> wants_clone now q"
    by (auto simp: wants_clone_def split: option.splits)
  show ?thesis
  proof (cases "wants_clone now q")
    case False
    with c show ?thesis by (auto simp: reschedule_if_repeating_def)
  next
    case True
    then have n: "\<not> q_category q \<noteq> Some ''repeating''" "\<not> (case q_repeat_until q of None \<Rightarrow> False | Some u \<Rightarrow> u < now)"
      using c by blast+
    show ?thesis
      unfolding reschedule_if_repeating_def clone_interval_def[symmetric]
      using True n cloned_spec(1)[OF assms]
      by (simp add: Let_def bind_res_def split: sum.splits option.splits)
  qed
qed

lemma reschedule_inv:
  assumes "board_inv db" "q_tag_ids q = tag_ids_of db i"
  shows "board_inv (fst (reschedule_if_repeating now q db))"
  using assms(1) cloned_spec(2)[OF assms]
  by (simp add: reschedule_eq[OF assms] split: sum.splits option.splits)

lemma find_append_Some: "find P xs = Some x \<Longrightarrow> find P (xs @ ys) = Some x"
  by (induction xs) (auto split: if_splits)

lemma find_task_cloned:
  assumes "board_inv db" "q_tag_ids q = tag_ids_of db i" "find_task db j = Some t"
  shows "find_task (fst (reschedule_if_repeating now q db)) j = Some t"
proof -
  have "find_task (cloned now ex q db) j = Some t" for ex
    using assms(3) by (simp add: find_task_def cloned_def insert_task_def find_append_Some)
  then show ?thesis
    using assms(3) by (simp add: reschedule_eq[OF assms(1,2)] split: sum.splits option.splits)
qed

subsection \<open>After a run\<close>

lemma finish_row_frame [simp]:
  "t_id (finish_row now s p r e t) = t_id t" "t_status (finish_row now s p r e t) = s"
  "t_position (finish_row now s p r e t) = p" "t_retry_count (finish_row now s p r e t) = 0"
  "t_category (finish_row now s p r e t) = t_category t"
  "t_repeat_interval (finish_row now s p r e t) = t_repeat_interval t"
  "t_repeat_until (finish_row now s p r e t) = t_repeat_until t"
  by (simp_all add: finish_row_def)

text \<open>The database \<open>finish_task\<close> commits before it looks at the repetition.\<close>

definition finished_db :: "time \<Rightarrow> dequeued_task \<Rightarrow> runner_output \<Rightarrow> string \<Rightarrow> db \<Rightarrow> db" where
  "finished_db now q parsed stderr db =
     (let i = q_task_id q; target = target_status q parsed;
          db1 = update_row i (finish_row now target (next_position db target None) parsed stderr) db;
          db2 = (if o_status parsed = ''needs_input'' then add_tag db1 i ''Input Needed'' else db1)
      in publish ''task_updated'' i (remove_tag db2 i ''Retry''))"

lemma find_task_finished:
  assumes "find_task db (q_task_id q) = Some t"
  shows "find_task (finished_db now q r e db) (q_task_id q) =
    Some (finish_row now (target_status q r) (next_position db (target_status q r) None) r e t)"
  using assms by (simp add: finished_db_def Let_def find_task_update_row keeps_at_def)

lemma finish_task_eq:
  assumes "find_task db (q_task_id q) = Some t"
  shows "finish_task now q r e db =
    (if target_status q r = Completed
     then reschedule_if_repeating now
       (from_orm (finished_db now q r e db)
         (finish_row now Completed (next_position db Completed None) r e t)) (finished_db now q r e db)
     else (finished_db now q r e db, None))"
proof -
  let ?d = "finished_db now q r e db"
  have f: "find_task ?d (q_task_id q) =
      Some (finish_row now (target_status q r) (next_position db (target_status q r) None) r e t)"
    by (rule find_task_finished[OF assms])
  have "finish_task now q r e db = (case find_task ?d (q_task_id q) of
      None \<Rightarrow> (?d, Some NoResultFound)
    | Some t \<Rightarrow> if target_status q r = Completed then reschedule_if_repeating now (from_orm ?d t) ?d
        else (?d, None))"
    using assms unfolding finish_task_def finished_db_def Let_def by simp
  with f show ?thesis by simp
qed

lemma finished_inv:
  assumes "board_inv db" "find_task db (q_task_id q) = Some t"
  shows "board_inv (finished_db now q r e db)"
proof -
  let ?db1 = "update_row (q_task_id q) (finish_row now (target_status q r)
      (next_position db (target_status q r) None) r e) db"
  have "board_inv ?db1"
    by (rule board_inv_append[OF assms(1), where s = "target_status q r"
          and p = "next_position db (target_status q r) None"])
      (auto simp: keeps_at_def intro: next_position_above)
  moreover have "q_task_id q \<in> set (ids ?db1)"
    using in_ids[OF assms(2)] by (simp add: ids_update_row keeps_at_def)
  ultimately show ?thesis
    by (simp add: finished_db_def Let_def board_inv_add_tag board_inv_remove_tag)
qed

lemma from_orm_tags [simp]: "q_tag_ids (from_orm db t) = tag_ids_of db (t_id t)"
  by (simp add: from_orm_def)

lemma finish_task_inv: "board_inv db \<Longrightarrow> board_inv (fst (finish_task now q r e db))"
proof (cases "find_task db (q_task_id q)")
  case (Some t)
  assume inv: "board_inv db"
  then show ?thesis
    using finished_inv[OF inv Some] reschedule_inv from_orm_tags
    by (simp add: finish_task_eq[OF Some])
qed (simp add: finish_task_def)

lemma finish_task_row:
  assumes "board_inv db" "find_task db (q_task_id q) = Some t"
  shows "find_task (fst (finish_task now q r e db)) (q_task_id q) =
    Some (finish_row now (target_status q r) (next_position db (target_status q r) None) r e t)"
proof (cases "target_status q r = Completed")
  case True
  then show ?thesis
    using find_task_cloned[OF finished_inv[OF assms] from_orm_tags]
      find_task_finished[OF assms(2)]
    by (simp add: finish_task_eq[OF assms(2)])
next
  case False
  then show ?thesis
    using find_task_finished[OF assms(2)] by (simp add: finish_task_eq[OF assms(2)])
qed

lemma target_status_cases: "target_status q r = Completed \<or> target_status q r = Review"
  by (simp add: target_status_def)

lemma git_error_inv: "board_inv db \<Longrightarrow> board_inv (fst (handle_git_error setting now i s db))"
proof (cases "find_task db i")
  case (Some t)
  assume inv: "board_inv db"
  define tagged where "tagged = (if is_credential_error s then add_tag db i ''Credentials'' else db)"
  have ti: "board_inv tagged" using inv board_inv_add_tag[OF inv in_ids[OF Some]] by (simp add: tagged_def)
  have "board_inv (update_row i (\<lambda>t. t\<lparr>t_status := Review, t_position := next_position tagged Review None,
      t_output := Some s, t_updated_by := Some ''system'', t_updated_at := now\<rparr>) tagged)"
    by (rule board_inv_append[OF ti, where s = Review and p = "next_position tagged Review None"])
      (auto simp: keeps_at_def intro: next_position_above)
  then show ?thesis
    using Some schedule_retry_inv[OF inv]
    by (simp add: handle_git_error_def Let_def tagged_def[symmetric])
qed (simp add: handle_git_error_def)

lemma run_task_inv:
  assumes "board_inv db"
  shows "board_inv (fst (run_task validate setting now q outcome db))"
proof (cases outcome)
  case (Exited code out err)
  have *: "board_inv (fst (case a of (db1, None) \<Rightarrow> (db1, None)
      | (db1, Some x) \<Rightarrow> schedule_retry setting now i None None db1))" if "board_inv (fst a)"
    for a :: "db \<times> py_error option" and i
    using that schedule_retry_inv by (cases a) (auto split: option.splits)
  show ?thesis
    unfolding run_task_def Exited Let_def process_result.case
    by (rule *) (use assms schedule_retry_inv finish_task_inv in \<open>auto split: option.splits\<close>)
qed (use assms schedule_retry_inv git_error_inv in \<open>simp_all add: run_task_def Let_def\<close>)

lemma git_error_row:
  assumes "find_task db i = Some t" "get_max_retry_attempts setting = Inr m"
  shows "\<exists>t'. find_task (fst (handle_git_error setting now i s db)) i = Some t' \<and>
    t_status t' \<in> {Review, Scheduled}"
proof (cases "t_retry_count t \<ge> MAX_GIT_RETRIES")
  case True
  then show ?thesis
    using assms by (auto simp: handle_git_error_def Let_def find_task_update_row keeps_at_def)
next
  case False
  then have "handle_git_error setting now i s db = schedule_retry setting now i (Some s) None db"
    using assms(1) by (simp add: handle_git_error_def Let_def)
  then show ?thesis
    using schedule_retry_row[OF assms, of now "Some s" None] by (auto split: if_splits)
qed

lemma schedule_retry_status:
  assumes "find_task db i = Some t" "get_max_retry_attempts setting = Inr m"
  shows "\<exists>t'. find_task (fst (schedule_retry setting now i out logs db)) i = Some t' \<and>
    t_status t' \<in> {Review, Scheduled}"
  using schedule_retry_row[OF assms, of now out logs] by (auto split: if_splits)

lemma schedule_retry_no_error:
  assumes "find_task db i = Some t" "get_max_retry_attempts setting = Inr m"
  shows "snd (schedule_retry setting now i out logs db) = None"
  by (simp add: schedule_retry_eq[OF assms])

lemma run_task_status:
  assumes "board_inv db" "find_task db (q_task_id q) = Some t" "get_max_retry_attempts setting = Inr m"
  shows "snd (run_task validate setting now q outcome db) = None \<and>
    board_inv (fst (run_task validate setting now q outcome db)) \<and>
    (\<exists>t'. find_task (fst (run_task validate setting now q outcome db)) (q_task_id q) = Some t' \<and>
       t_status t' \<in> {Completed, Review, Scheduled})"
proof -
  let ?i = "q_task_id q"
  note sr = schedule_retry_status[OF assms(2,3)] schedule_retry_no_error[OF assms(2,3)]
  have fin: "\<exists>t'. find_task (fst (finish_task now q r e db)) ?i = Some t' \<and> t_status t' \<in> {Completed, Review}" for r e
    using finish_task_row[OF assms(1,2), of now r e] target_status_cases[of q r] by auto
  have step: "snd (case a of (db1, None) \<Rightarrow> (db1, None)
        | (db1, Some x) \<Rightarrow> schedule_retry setting now ?i None None db1) = None \<and>
      (\<exists>t'. find_task (fst (case a of (db1, None) \<Rightarrow> (db1, None)
        | (db1, Some x) \<Rightarrow> schedule_retry setting now ?i None None db1)) ?i = Some t' \<and>
       t_status t' \<in> {Completed, Review, Scheduled})"
    if row: "\<exists>t'. find_task (fst a) ?i = Some t' \<and> t_status t' \<in> {Completed, Review, Scheduled}"
    for a :: "db \<times> py_error option"
  proof (cases "snd a")
    case None
    then show ?thesis using row by (cases a) simp
  next
    case (Some x)
    obtain t' where "find_task (fst a) ?i = Some t'" using row by blast
    from schedule_retry_status[OF this assms(3), of now None None]
      schedule_retry_no_error[OF this assms(3), of now None None] Some
    show ?thesis by (cases a) auto
  qed
  have "snd (run_task validate setting now q outcome db) = None \<and>
    (\<exists>t'. find_task (fst (run_task validate setting now q outcome db)) ?i = Some t' \<and>
       t_status t' \<in> {Completed, Review, Scheduled})"
  proof (cases outcome)
    case (Exited code out err)
    show ?thesis
      unfolding run_task_def Exited Let_def process_result.case
      by (rule step) (use sr(1) fin in \<open>fastforce split: option.splits\<close>)
  next
    case (GitSkillsError s)
    have "snd (handle_git_error setting now ?i s db) = None"
      using assms(2) sr(2) by (simp add: handle_git_error_def Let_def)
    with git_error_row[OF assms(2,3), of now s] GitSkillsError show ?thesis
      by (auto simp: run_task_def Let_def)
  next
    case Cancelled
    then show ?thesis using sr(1) by (fastforce simp: run_task_def Let_def)
  next
    case Crashed
    then show ?thesis using sr by (fastforce simp: run_task_def Let_def)
  qed
  then show ?thesis using run_task_inv[OF assms(1)] by blast
qed

subsection \<open>Properties\<close>


definition sample_dequeued :: dequeued_task where
  "sample_dequeued = from_orm sample_db (sample_task 5 Running 2)"

definition accept_done :: "string \<Rightarrow> runner_output option" where
  "accept_done s = (if s = ''done'' then Some \<lparr>o_status = ''completed'', o_result = ''ok'', o_questions = []\<rparr> else None)"

lemma sample_running: "find_task sample_db (q_task_id sample_dequeued) = Some (sample_task 5 Running 2)"
  by code_simp


text \<open>One failed run after the other, each with its instant, output and logs.\<close>

definition fail_all ::
  "py_error + json \<Rightarrow> nat \<Rightarrow> (time \<times> string option \<times> string option) list \<Rightarrow> db \<Rightarrow> db" where
  "fail_all setting i fs db =
     fold (\<lambda>(now, out, logs) d. fst (schedule_retry setting now i out logs d)) fs db"

lemma fail_all_snoc:
  "fail_all setting i (fs @ [(now, out, logs)]) db =
    fst (schedule_retry setting now i out logs (fail_all setting i fs db))"
  by (simp add: fail_all_def)

lemma fail_all_inv: "board_inv db \<Longrightarrow> board_inv (fail_all setting i fs db)"
  unfolding fail_all_def by (induction fs arbitrary: db) (auto simp: schedule_retry_inv)

lemma fail_all_count:
  assumes "find_task db i = Some t" "get_max_retry_attempts setting = Inr m"
  shows "\<exists>t'. find_task (fail_all setting i fs db) i = Some t' \<and> t_retry_count t' = t_retry_count t + int (length fs)"
proof (induction fs rule: rev_induct)
  case Nil
  then show ?case using assms(1) by (simp add: fail_all_def)
next
  case (snoc f fs)
  obtain now out logs where f: "f = (now, out, logs)" by (cases f)
  from snoc obtain t' where t': "find_task (fail_all setting i fs db) i = Some t'"
    "t_retry_count t' = t_retry_count t + int (length fs)" by blast
  from schedule_retry_row[OF t'(1) assms(2), of now out logs] t'(2) show ?case
    unfolding f fail_all_snoc by auto
qed

text \<open>C4. Bounded retries: a task with \<open>r\<close> retries behind it, below the limit \<open>m\<close>, that keeps
  failing is put back in the scheduled column, tagged \<open>Retry\<close>, with a delay between one minute and
  an hour, for the first \<open>m - r - 1\<close> failures; the failure after that moves it to review, replaces
  the \<open>Retry\<close> tag by \<open>Failed\<close> and leaves its retry count at \<open>m\<close>.\<close>

theorem retries_are_bounded:
  assumes "board_inv db" "find_task db i = Some t" "get_max_retry_attempts setting = Inr m"
    "t_retry_count t + int (length fs) < m"
  shows "\<exists>t'. find_task (fail_all setting i (fs @ [(now, out, logs)]) db) i = Some t' \<and>
    t_retry_count t' = t_retry_count t + int (length fs) + 1 \<and>
    (if t_retry_count t + int (length fs) + 1 < m
     then t_status t' = Scheduled \<and> ''Retry'' \<in> tag_set (fail_all setting i (fs @ [(now, out, logs)]) db) i \<and>
       (\<exists>e. t_execute_at t' = Some e \<and> now + minutes 1 \<le> e \<and> e \<le> now + minutes 60)
     else t_status t' = Review \<and>
       ''Failed'' \<in> tag_set (fail_all setting i (fs @ [(now, out, logs)]) db) i \<and>
       ''Retry'' \<notin> tag_set (fail_all setting i (fs @ [(now, out, logs)]) db) i)"
proof -
  let ?d = "fail_all setting i fs db"
  obtain u where u: "find_task ?d i = Some u" "t_retry_count u = t_retry_count t + int (length fs)"
    using fail_all_count[OF assms(2,3)] by blast
  note row = schedule_retry_row[OF u(1) assms(3), of now out logs]
  note ti = board_invD(2)[OF fail_all_inv[OF assms(1), of setting i fs]]
  have id: "t_id u = i" using find_task_SomeD[OF u(1)] by simp
  show ?thesis
  proof (cases "t_retry_count u \<ge> m - 1")
    case True
    then show ?thesis
      using row u(2) escalate_tags[OF ti id, of m now out logs]
      by (auto simp: fail_all_snoc schedule_retry_eq[OF u(1) assms(3)])
  next
    case False
    have "minutes 1 \<le> minutes (retry_backoff (t_retry_count u))" "minutes (retry_backoff (t_retry_count u)) \<le> minutes 60"
      using retry_backoff_bounds[of "t_retry_count u"] by (simp_all only: minutes_mono)
    then show ?thesis
      using False row u(2) retry_tags[OF ti, of "''task_updated''" i]
      by (auto simp: fail_all_snoc schedule_retry_eq[OF u(1) assms(3)])
  qed
qed

theorem retries_are_bounded_witness:
  "\<exists>t'. find_task (fail_all (Inr (JInt 2)) 5 [(0, None, None), (7, Some ''bad'', None)] sample_db) 5 = Some t' \<and>
     t_status t' = Review \<and>
     ''Failed'' \<in> tag_set (fail_all (Inr (JInt 2)) 5 [(0, None, None), (7, Some ''bad'', None)] sample_db) 5"
proof -
  have m: "get_max_retry_attempts (Inr (JInt 2)) = Inr 2" by code_simp
  have f: "find_task sample_db 5 = Some (sample_task 5 Running 2)" by code_simp
  have r: "t_retry_count (sample_task 5 Running 2) = 0" by code_simp
  show ?thesis
    using retries_are_bounded[OF sample_db_inv f m, of "[(0, None, None)]" 7 "Some ''bad''" None]
    by (auto simp: r)
qed

lemma run_task_success:
  assumes "find_task db (q_task_id q) = Some t" "stdout \<noteq> []" "extract_json validate stdout = Some c"
    "validate c = Some r" "snd (finish_task now q r stderr db) = None"
  shows "run_task validate setting now q (Exited code stdout stderr) db = finish_task now q r stderr db"
  using assms by (cases "finish_task now q r stderr db") (simp add: run_task_def Let_def)

lemma tag_set_finished:
  assumes "tag_inv db"
  shows "tag_set (finished_db now q r e db) j =
    (if j = q_task_id q then (tag_set db j \<union> (if o_status r = ''needs_input'' then {''Input Needed''} else {})) - {''Retry''}
     else tag_set db j)"
  using assms by (auto simp: finished_db_def Let_def tag_set_remove_tag tag_set_add_tag add_tag_inv)

text \<open>C5. The next occurrence: when a run of a repeating task that has not expired ends with an
  accepted "completed" output, the task is completed with the runner's result and no retries, and
  exactly one task is added, scheduled one interval from now with the same title, description,
  profile, interval, end and eval mark and with the task's tags (less \<open>Retry\<close>); every other task
  is as it was.\<close>

theorem repeating_task_recurs:
  assumes "board_inv db" "find_task db (q_task_id q) = Some t"
    "stdout \<noteq> []" "extract_json validate stdout = Some c" "validate c = Some r" "o_status r = ''completed''"
    "t_category t = Some ''repeating''" "\<forall>u. t_repeat_until t = Some u \<longrightarrow> now \<le> u"
    "t_repeat_interval t = Some iv" "parse_interval iv = Inr (Some d)" "datetime_add now d = Inr ex"
  shows "\<exists>db' n t' u. run_task validate setting now q (Exited code stdout stderr) db = (db', None) \<and>
    board_inv db' \<and> ids db' = ids db @ [n] \<and>
    find_task db' (q_task_id q) = Some t' \<and> t_status t' = Completed \<and> t_output t' = Some (o_result r) \<and>
    t_retry_count t' = 0 \<and> ''Retry'' \<notin> tag_set db' (q_task_id q) \<and>
    find_task db' n = Some u \<and> t_status u = Scheduled \<and> t_execute_at u = Some (now + d) \<and>
    t_title u = t_title t \<and> t_description u = t_description t \<and> t_profile_id u = t_profile_id t \<and>
    t_repeat_interval u = Some iv \<and> t_repeat_until u = t_repeat_until t \<and> t_is_eval u = t_is_eval t \<and>
    tag_set db' n = tag_set db (q_task_id q) - {''Retry''} \<and>
    (\<forall>j v. j \<noteq> q_task_id q \<longrightarrow> find_task db j = Some v \<longrightarrow>
       find_task db' j = Some v \<and> tag_set db' j = tag_set db j)"
proof -
  let ?i = "q_task_id q" let ?d = "finished_db now q r stderr db" let ?n = "fresh_id (ids ?d)"
  define t' where "t' = finish_row now Completed (next_position db Completed None) r stderr t"
  have tg: "target_status q r = Completed" using assms(6) by (simp add: target_status_def)
  have idt: "t_id t' = ?i" using find_task_SomeD[OF assms(2)] by (simp add: t'_def)
  define qq where "qq = from_orm ?d t'"
  have tags: "q_tag_ids qq = tag_ids_of ?d ?i" by (simp add: qq_def idt)
  have inv: "board_inv ?d" using finished_inv[OF assms(1,2)] .
  have ex: "ex = now + d" using assms(11) by (simp add: datetime_add_def split: if_splits)
  have w: "wants_clone now qq"
    using assms(7,8) by (auto simp: wants_clone_def qq_def from_orm_def t'_def split: option.splits)
  have ci: "clone_interval qq = Inr (Some d)"
    using assms(9,10) by (simp add: clone_interval_def qq_def from_orm_def t'_def)
  define c2 where "c2 = cloned now ex qq ?d"
  have res: "finish_task now q r stderr db = (publish ''task_created'' ?n c2, None)"
    using reschedule_eq[OF inv tags, of now] w ci assms(11)
    by (simp add: finish_task_eq[OF assms(2)] tg t'_def[symmetric] qq_def[symmetric] c2_def)
  have idsd: "ids ?d = ids db"
    by (simp add: finished_db_def Let_def ids_update_row keeps_at_def)
  have tasks_c2: "tasks c2 = tasks ?d @ [next_occurrence now ex qq ?d]"
    by (simp add: c2_def cloned_def)
  have fr: "find_task c2 j = Some v" if "find_task ?d j = Some v" for j v
    using that by (simp add: find_task_def tasks_c2 find_append_Some)
  have fn: "find_task c2 ?n = Some (next_occurrence now ex qq ?d)"
  proof -
    have "board_inv c2" using cloned_spec(2)[OF inv tags] by (simp add: c2_def)
    from find_task_unique[OF board_invD(1)[OF this], of "next_occurrence now ex qq ?d"]
    show ?thesis by (simp add: tasks_c2)
  qed
  have ft: "find_task ?d ?i = Some t'" using find_task_finished[OF assms(2), of now r stderr] tg by (simp add: t'_def)
  have ne: "?i \<noteq> ?n" using in_ids[OF ft] fresh_id_notin[of "ids ?d"] by metis
  have other: "find_task ?d j = Some v \<and> j \<noteq> ?n" if "j \<noteq> ?i" "find_task db j = Some v" for j v
  proof -
    have "find_task ?d j = Some v"
      using that by (simp add: finished_db_def Let_def find_task_update_row keeps_at_def)
    moreover have "j \<noteq> ?n" using in_ids[OF calculation] fresh_id_notin[of "ids ?d"] by metis
    ultimately show ?thesis by simp
  qed
  note tg_set = tag_set_finished[OF board_invD(2)[OF assms(1)], of now q r stderr]
  have tn: "tag_set c2 ?n = tag_set db ?i - {''Retry''}"
    using cloned_spec(3)[OF inv tags, of now ex] tg_set[of ?i] assms(6) by (simp add: c2_def)
  have to: "tag_set c2 j = tag_set ?d j" if "j \<noteq> ?n" for j
    using cloned_spec(4)[OF inv tags that, of now ex] by (simp add: c2_def)
  have "run_task validate setting now q (Exited code stdout stderr) db = (publish ''task_created'' ?n c2, None)"
    using run_task_success[OF assms(2-5), of now stderr setting code] res by simp
  moreover have "board_inv (publish ''task_created'' ?n c2)" using cloned_spec(2)[OF inv tags] by (simp add: c2_def)
  moreover have "ids (publish ''task_created'' ?n c2) = ids db @ [?n]"
    using tasks_c2 idsd by (simp add: ids_def)
  moreover have "t_status t' = Completed \<and> t_output t' = Some (o_result r) \<and> t_retry_count t' = 0"
    by (simp add: t'_def finish_row_def)
  moreover have "''Retry'' \<notin> tag_set c2 ?i" using to[OF ne] tg_set[of ?i] by simp
  moreover have "t_execute_at (next_occurrence now ex qq ?d) = Some (now + d) \<and>
      t_title (next_occurrence now ex qq ?d) = t_title t \<and>
      t_description (next_occurrence now ex qq ?d) = t_description t \<and>
      t_profile_id (next_occurrence now ex qq ?d) = t_profile_id t \<and>
      t_repeat_interval (next_occurrence now ex qq ?d) = Some iv \<and>
      t_repeat_until (next_occurrence now ex qq ?d) = t_repeat_until t \<and>
      t_is_eval (next_occurrence now ex qq ?d) = t_is_eval t"
    using assms(9) by (simp add: next_occurrence_def qq_def from_orm_def t'_def finish_row_def ex)
  moreover have "\<forall>j v. j \<noteq> ?i \<longrightarrow> find_task db j = Some v \<longrightarrow>
      find_task (publish ''task_created'' ?n c2) j = Some v \<and>
      tag_set (publish ''task_created'' ?n c2) j = tag_set db j"
    using other fr to tg_set by simp
  ultimately show ?thesis
    using fn fr[OF ft] tn
    by (intro exI[of _ "publish ''task_created'' ?n c2"] exI[of _ ?n] exI[of _ t']
        exI[of _ "next_occurrence now ex qq ?d"]) simp
qed

definition repeating_task :: task where
  "repeating_task = (sample_task 5 Running 2)\<lparr>t_category := Some ''repeating'', t_repeat_interval := Some ''2 days''\<rparr>"

definition repeating_db :: db where
  "repeating_db = sample_db\<lparr>tasks := [repeating_task]\<rparr>\<lparr>task_tags := [(5, 1), (5, 2)]\<rparr>"

lemma repeating_db_inv: "board_inv repeating_db"
  by code_simp

theorem repeating_task_recurs_witness:
  "\<exists>db' n u. run_task accept_done (Inr (JInt 5)) 9 sample_dequeued (Exited 0 ''done'' []) repeating_db = (db', None) \<and>
     ids db' = [5, n] \<and> find_task db' n = Some u \<and> t_execute_at u = Some (9 + days 2) \<and>
     tag_set db' n = tag_set repeating_db 5 - {''Retry''}"
proof -
  have q: "q_task_id sample_dequeued = 5" by code_simp
  have f: "find_task repeating_db (q_task_id sample_dequeued) = Some repeating_task" by code_simp
  have e: "extract_json accept_done ''done'' = Some ''done''" by code_simp
  have v: "accept_done ''done'' = Some \<lparr>o_status = ''completed'', o_result = ''ok'', o_questions = []\<rparr>"
    by (simp add: accept_done_def)
  have c: "t_category repeating_task = Some ''repeating''" "t_repeat_until repeating_task = None"
    "t_repeat_interval repeating_task = Some ''2 days''" by code_simp+
  have p: "parse_interval ''2 days'' = Inr (Some (days 2))" "datetime_add 9 (days 2) = Inr (9 + days 2)"
    by code_simp+
  have i: "ids repeating_db = [5]" by code_simp
  show ?thesis
    using repeating_task_recurs[OF repeating_db_inv f _ e v _ c(1) _ c(3) p, of "Inr (JInt 5)" 0 "[]"]
    by (auto simp: q c(2) i)
qed

end
