(* ===== verification/Py_Json_Dumps.thy ===== *)
theory Py_Json_Dumps
  imports Py_Json
begin

text \<open>
  Python's \<open>json.dumps\<close> with its default separators and ASCII escapes, with and without
  \<open>sort_keys\<close>, and Python's \<open>str()\<close> of a decoded value.  \<open>json_loads_dumps\<close>: what
  \<open>dumps\<close> writes, \<open>loads\<close> reads back, for values whose objects have distinct keys and that
  hold no float (a float is carried as its literal, which \<open>dumps\<close> writes as it is).
\<close>

subsection \<open>\<open>json.dumps\<close>\<close>

definition hex_digit :: "nat \<Rightarrow> char" where
  "hex_digit n = char_of (if n < 10 then 48 + n else 87 + n)"

definition hex2 :: "char \<Rightarrow> string" where
  "hex2 c = [hex_digit (char_code c div 16), hex_digit (char_code c mod 16)]"

definition escape_ascii :: "char \<Rightarrow> string" where
  "escape_ascii c =
     (let n = char_code c in
      if c = quote_char \<or> c = backslash then [backslash, c]
      else if n = 10 then [backslash, CHR ''n'']
      else if n = 13 then [backslash, CHR ''r'']
      else if n = 9 then [backslash, CHR ''t'']
      else if n = 12 then [backslash, CHR ''f'']
      else if n = 8 then [backslash, CHR ''b'']
      else if 32 \<le> n \<and> n \<le> 126 then [c]
      else backslash # ''u00'' @ hex2 c)"

definition dumps_str :: "string \<Rightarrow> string" where
  "dumps_str s = quote_char # concat (map escape_ascii s) @ [quote_char]"

fun json_dumps :: "json \<Rightarrow> string" where
  "json_dumps JNull = ''null''"
| "json_dumps (JBool b) = (if b then ''true'' else ''false'')"
| "json_dumps (JInt n) = show_int n"
| "json_dumps (JFloat s) = s"
| "json_dumps (JStr s) = dumps_str s"
| "json_dumps (JArr xs) = CHR ''['' # join '', '' (map json_dumps xs) @ '']''"
| "json_dumps (JObj d) = CHR ''{'' # join '', '' (map (\<lambda>(k, v). dumps_str k @ '': '' @ json_dumps v) d) @ ''}''"

text \<open>\<open>sort_keys=True\<close>, at every level.\<close>

fun json_sort_keys :: "json \<Rightarrow> json" where
  "json_sort_keys (JArr xs) = JArr (map json_sort_keys xs)"
| "json_sort_keys (JObj d) = JObj (sort_key fst (map (\<lambda>(k, v). (k, json_sort_keys v)) d))"
| "json_sort_keys j = j"

definition json_dumps_sorted :: "json \<Rightarrow> string" where
  "json_dumps_sorted j = json_dumps (json_sort_keys j)"

subsection \<open>\<open>str()\<close> and \<open>repr()\<close>\<close>

definition repr_char :: "char \<Rightarrow> char \<Rightarrow> string" where
  "repr_char q c =
     (let n = char_code c in
      if c = q \<or> c = backslash then [backslash, c]
      else if n = 10 then [backslash, CHR ''n'']
      else if n = 13 then [backslash, CHR ''r'']
      else if n = 9 then [backslash, CHR ''t'']
      else if n < 32 \<or> (127 \<le> n \<and> n \<le> 160) \<or> n = 173 then backslash # CHR ''x'' # hex2 c
      else [c])"

definition apostrophe :: char where "apostrophe = char_of (39 :: nat)"

definition repr_str :: "string \<Rightarrow> string" where
  "repr_str s =
     (let q = (if apostrophe \<in> set s \<and> quote_char \<notin> set s then quote_char else apostrophe)
      in q # concat (map (repr_char q) s) @ [q])"

fun py_repr :: "json \<Rightarrow> string" where
  "py_repr JNull = ''None''"
| "py_repr (JBool b) = (if b then ''True'' else ''False'')"
| "py_repr (JInt n) = show_int n"
| "py_repr (JFloat s) = s"
| "py_repr (JStr s) = repr_str s"
| "py_repr (JArr xs) = CHR ''['' # join '', '' (map py_repr xs) @ '']''"
| "py_repr (JObj d) = CHR ''{'' # join '', '' (map (\<lambda>(k, v). repr_str k @ '': '' @ py_repr v) d) @ ''}''"

definition py_str :: "json \<Rightarrow> string" where
  "py_str j = (case j of JStr s \<Rightarrow> s | _ \<Rightarrow> py_repr j)"

subsection \<open>What \<open>dumps\<close> writes, \<open>loads\<close> reads back\<close>

fun json_wf :: "json \<Rightarrow> bool" where
  "json_wf (JFloat s) = False"
| "json_wf (JArr xs) = list_all json_wf xs"
| "json_wf (JObj d) = (distinct (map fst d) \<and> list_all (\<lambda>(k, v). json_wf v) d)"
| "json_wf _ = True"

lemma of_char_int: "(of_char c :: int) = int (char_code c)"
  by (simp add: char_code_def of_nat_of_char)

lemma hex_val_digit: "n < 16 \<Longrightarrow> hex_val (hex_digit n) = Some (int n)"
proof -
  have c: "char_code (char_of m) = m mod 256" for m :: nat by (simp add: char_code_def)
  have l: "c \<le> d \<longleftrightarrow> char_code c \<le> char_code d" for c d
    by (simp add: char_code_def less_eq_char_def)
  have k: "char_code CHR ''a'' = 97" "char_code CHR ''f'' = 102" by (simp_all add: char_code_def)
  show "n < 16 \<Longrightarrow> hex_val (hex_digit n) = Some (int n)"
    by (cases "n < 10") (simp_all add: hex_digit_def hex_val_def is_digit_def digit_val_def of_char_int l k c)
qed

lemma char_code_less: "char_code c < 256"
  by (simp add: char_code_def)

lemma hex4_hex2: "hex4 (CHR ''0'' # CHR ''0'' # hex2 c @ s) = Some c"
proof -
  have z: "hex_val (CHR ''0'') = Some 0" by code_simp
  have h: "hex_val (hex_digit (char_code c div 16)) = Some (int (char_code c div 16))"
    "hex_val (hex_digit (char_code c mod 16)) = Some (int (char_code c mod 16))"
    using char_code_less[of c] by (simp_all add: hex_val_digit less_mult_imp_div_less)
  have e: "int (char_code c div 16) * 16 + int (char_code c mod 16) = int (char_code c)"
    by (metis of_nat_add of_nat_mult of_nat_numeral div_mult_mod_eq)
  have v: "hex_digits 0 (CHR ''0'' # CHR ''0'' # hex2 c) = Some (int (char_code c))"
    using e by (simp only: hex2_def z h hex_digits.simps option.case mult_zero_left add_0)
  have t: "take 4 (CHR ''0'' # CHR ''0'' # hex2 c @ s) = CHR ''0'' # CHR ''0'' # hex2 c"
    by (simp add: hex2_def)
  have "length (CHR ''0'' # CHR ''0'' # hex2 c) = 4" by (simp add: hex2_def)
  then show ?thesis
    using char_code_less[of c] unfolding hex4_def t v by (simp add: char_code_def)
qed

lemma json_str_escape: "json_str (escape_ascii c @ s) = map_option (apfst ((#) c)) (json_str s)"
proof -
  have codes: "char_code quote_char = 34" "char_code backslash = 92" "backslash \<noteq> quote_char"
    by (simp_all add: quote_char_def backslash_def char_code_def)
  have eq: "c = char_of n" if "char_code c = n" for n :: nat
    using that by (auto simp: char_code_def)
  have named: "escape_char (CHR ''n'') = Some (char_of (10 :: nat))" "escape_char (CHR ''r'') = Some (char_of (13 :: nat))"
    "escape_char (CHR ''t'') = Some (char_of (9 :: nat))" "escape_char (CHR ''f'') = Some (char_of (12 :: nat))"
    "escape_char (CHR ''b'') = Some (char_of (8 :: nat))" by code_simp+
  have esc: "json_str (backslash # e # s) = map_option (apfst ((#) c)) (json_str s)"
    if "escape_char e = Some c" "e \<noteq> CHR ''u''" for e
    using that codes by simp
  consider "c = quote_char \<or> c = backslash" | "char_code c = 10" | "char_code c = 13" | "char_code c = 9"
    | "char_code c = 12" | "char_code c = 8"
    | "c \<noteq> quote_char" "c \<noteq> backslash" "char_code c \<notin> {8, 9, 10, 12, 13}"
    by fastforce
  then show ?thesis
  proof cases
    case 1
    then have e: "escape_char c = Some c" by (auto simp: escape_char_def)
    have "char_code CHR ''u'' = 117" by (simp add: char_code_def)
    then have "c \<noteq> CHR ''u''" using 1 codes by auto
    from esc[OF e this] 1 show ?thesis by (simp add: escape_ascii_def)
  next
    case 7
    show ?thesis
    proof (cases "32 \<le> char_code c \<and> char_code c \<le> 126")
      case True
      then show ?thesis using 7 by (simp add: escape_ascii_def)
    next
      case False
      then have u: "escape_ascii c = backslash # ''u00'' @ hex2 c"
        using 7 by (auto simp: escape_ascii_def Let_def)
      have "json_str (escape_ascii c @ s) =
          (case hex4 (CHR ''0'' # CHR ''0'' # hex2 c @ s) of None \<Rightarrow> None
           | Some v \<Rightarrow> map_option (apfst ((#) v)) (json_str (drop 4 (CHR ''0'' # CHR ''0'' # hex2 c @ s))))"
        using codes by (simp add: u)
      then show ?thesis by (simp only: hex4_hex2 option.case) (simp add: hex2_def)
    qed
  next
    case 2
    then have "escape_ascii c = [backslash, CHR ''n'']" using codes by (auto simp: escape_ascii_def Let_def)
    with esc[of "CHR ''n''"] named eq[OF 2] show ?thesis by simp
  next
    case 3
    then have "escape_ascii c = [backslash, CHR ''r'']" using codes by (auto simp: escape_ascii_def Let_def)
    with esc[of "CHR ''r''"] named eq[OF 3] show ?thesis by simp
  next
    case 4
    then have "escape_ascii c = [backslash, CHR ''t'']" using codes by (auto simp: escape_ascii_def Let_def)
    with esc[of "CHR ''t''"] named eq[OF 4] show ?thesis by simp
  next
    case 5
    then have "escape_ascii c = [backslash, CHR ''f'']" using codes by (auto simp: escape_ascii_def Let_def)
    with esc[of "CHR ''f''"] named eq[OF 5] show ?thesis by simp
  next
    case 6
    then have "escape_ascii c = [backslash, CHR ''b'']" using codes by (auto simp: escape_ascii_def Let_def)
    with esc[of "CHR ''b''"] named eq[OF 6] show ?thesis by simp
  qed
qed

lemma json_str_dumps: "json_str (concat (map escape_ascii k) @ quote_char # s) = Some (k, s)"
  by (induction k) (simp_all add: json_str_escape)

lemma dumps_str_append: "dumps_str k @ s = quote_char # concat (map escape_ascii k) @ quote_char # s"
  by (simp add: dumps_str_def)

subsection \<open>Integers\<close>

definition delimited :: "string \<Rightarrow> bool" where
  "delimited r = (case r of [] \<Rightarrow> True | c # _ \<Rightarrow> c = CHR '','' \<or> c = CHR '']'' \<or> c = CHR ''}'')"

lemma delimited_Cons [simp]: "delimited (CHR '','' # r)" "delimited (CHR '']'' # r)" "delimited (CHR ''}'' # r)"
    "delimited []"
  by (simp_all add: delimited_def)

lemma delimited_end:
  assumes "delimited r"
  shows "json_frac r = []" "json_exp r = []" "takeWhile is_digit r = []"
  using assms by (auto simp: delimited_def json_frac_def json_exp_def is_digit_def char_code_def split: list.splits)

lemma show_nat_hd: "0 \<le> n \<Longrightarrow> hd (show_nat n) = CHR ''0'' \<Longrightarrow> n = 0"
proof (induction n rule: show_nat.induct)
  case (1 n)
  show ?case
  proof (cases "n < 10")
    case True
    then have "digit_char n = CHR ''0''" using 1(3) by (subst (asm) show_nat.simps) simp
    then have "digit_val (digit_char n) = digit_val (CHR ''0'')" by simp
    then show ?thesis using True 1(2) by (simp add: digit_val_char) (simp add: digit_val_def)
  next
    case False
    have h: "hd (show_nat n) = hd (show_nat (n div 10))"
      using False by (subst show_nat.simps) simp
    have "n div 10 = 0" by (rule 1(1)[OF False]) (use 1 h in auto)
    then show ?thesis using False by simp
  qed
qed

lemma json_number_nat:
  assumes "0 \<le> n" "delimited r"
  shows "json_number (show_nat n @ r) = Some (JInt n, r)"
    and "json_number (CHR ''-'' # show_nat n @ r) = Some (JInt (- n), r)"
proof -
  have d: "list_all is_digit (show_nat n)" by (rule show_nat_digits[OF assms(1)])
  obtain c w where s: "show_nat n = c # w" using show_nat_nonempty[of n] by (cases "show_nat n") auto
  have m: "c \<noteq> CHR ''-''" using d s by (auto simp: is_digit_def char_code_def)
  have t: "takeWhile is_digit (show_nat n @ r) = show_nat n"
    using d delimited_end(3)[OF assms(2)]
    by (simp add: takeWhile_append list_all_iff takeWhile_tail)
  have z: "w = []" if "c = CHR ''0''"
    using show_nat_hd[OF assms(1)] s that by (auto simp: show_nat.simps[of 0])
  have ds: "json_int_part (show_nat n @ r) = show_nat n"
    using t z s by (auto simp: json_int_part_def)
  have h: "hd (show_nat n @ r) \<noteq> CHR ''-''" using m s by simp
  note k = ds delimited_end[OF assms(2)] digits_val_show_nat[OF assms(1)]
  show "json_number (show_nat n @ r) = Some (JInt n, r)"
    using h unfolding json_number_def Let_def by (simp add: k)
  show "json_number (CHR ''-'' # show_nat n @ r) = Some (JInt (- n), r)"
    unfolding json_number_def Let_def by (simp add: k)
qed

subsection \<open>Values\<close>

lemma quote_char_ne [simp]:
  "quote_char \<noteq> CHR '']''" "quote_char \<noteq> CHR ''}''" "quote_char \<noteq> CHR '',''" "quote_char \<noteq> CHR ''{''"
  "quote_char \<noteq> CHR ''t''" "quote_char \<noteq> CHR ''f''" "quote_char \<noteq> CHR ''n''"
  "quote_char \<noteq> CHR ''[''" "quote_char \<noteq> CHR ''-''"
  by code_simp+

lemmas ne_quote_char [simp] = quote_char_ne[THEN not_sym]

lemma json_const_int:
  assumes "delimited r"
  shows "json_const (show_int n @ r) = Some (JInt n, r)"
proof -
  have d: "0 \<le> m \<Longrightarrow> \<exists>c w. show_nat m = c # w \<and> is_digit c" for m
    using show_nat_digits[of m] by (cases "show_nat m") auto
  show ?thesis
  proof (cases "0 \<le> n")
    case True
    with d obtain c w where s: "show_nat n = c # w" "is_digit c" by blast
    have "c \<noteq> CHR ''n'' \<and> c \<noteq> CHR ''t'' \<and> c \<noteq> CHR ''f'' \<and> c \<noteq> CHR ''N'' \<and> c \<noteq> CHR ''I'' \<and> c \<noteq> CHR ''-''"
      using s(2) by (auto simp: is_digit_def char_code_def)
    then have "json_const (show_nat n @ r) = json_number (show_nat n @ r)"
      by (simp add: json_const_def starts_with_def s(1))
    then show ?thesis using True json_number_nat(1)[OF True assms] by (simp add: show_int_def)
  next
    case False
    then have n: "0 \<le> - n" by simp
    with d obtain c w where s: "show_nat (- n) = c # w" "is_digit c" by blast
    have "c \<noteq> CHR ''I''" using s(2) by (auto simp: is_digit_def char_code_def)
    then have "json_const (CHR ''-'' # show_nat (- n) @ r) = json_number (CHR ''-'' # show_nat (- n) @ r)"
      by (simp add: json_const_def starts_with_def s(1))
    then show ?thesis using False json_number_nat(2)[OF n assms] by (simp add: show_int_def)
  qed
qed

lemma skip_ws_simps [simp]:
  "skip_ws (CHR '' '' # s) = skip_ws s" "skip_ws (CHR '','' # s) = CHR '','' # s"
  "skip_ws (CHR '':'' # s) = CHR '':'' # s" "skip_ws (CHR '']'' # s) = CHR '']'' # s"
  "skip_ws (CHR ''}'' # s) = CHR ''}'' # s" "skip_ws [] = []" "skip_ws (quote_char # s) = quote_char # s"
  by (simp_all add: skip_ws_def json_ws_def char_code_def quote_char_def)

lemma dumps_no_ws: "json_wf j \<Longrightarrow> skip_ws (json_dumps j @ r) = json_dumps j @ r"
proof (cases j)
  case (JInt n)
  obtain c w where "show_int n = c # w" "is_digit c \<or> c = CHR ''-''"
    using show_nat_digits[of n] show_nat_digits[of "- n"] show_nat_nonempty
    by (cases "show_int n") (auto simp: show_int_def split: if_splits)
  then show ?thesis using JInt
    by (auto simp: skip_ws_def json_ws_def is_digit_def char_code_def Let_def)
qed (auto simp: skip_ws_def json_ws_def char_code_def dumps_str_def quote_char_def)

lemma dumps_hd:
  "json_wf j \<Longrightarrow> \<not> starts_with (json_dumps j @ r) '']''"
proof (cases j)
  case (JInt n)
  obtain c w where "show_int n = c # w" "is_digit c \<or> c = CHR ''-''"
    using show_nat_digits[of n] show_nat_digits[of "- n"] show_nat_nonempty
    by (cases "show_int n") (auto simp: show_int_def split: if_splits)
  then show ?thesis using JInt by (auto simp: starts_with_def is_digit_def char_code_def)
qed (auto simp: starts_with_def dumps_str_def)

lemma join_Cons: "join sep (w # ws) = w @ (if ws = [] then [] else sep @ join sep ws)"
  by (cases ws) auto

lemma parse_elements_dumps:
  assumes "\<And>x r n. x \<in> set xs \<Longrightarrow> delimited r \<Longrightarrow> 2 * length (json_dumps x @ r) + 1 \<le> n \<Longrightarrow>
      parse_value n (json_dumps x @ r) = Some (x, r)"
    and "list_all json_wf xs" "xs \<noteq> []"
    and "2 * length (join '', '' (map json_dumps xs) @ '']'' @ r) + 2 \<le> n"
  shows "parse_elements n (join '', '' (map json_dumps xs) @ '']'' @ r) acc = Some (JArr (acc @ xs), r)"
  using assms
proof (induction xs arbitrary: acc n)
  case (Cons x xs)
  then obtain m where n: "n = Suc m" by (cases n) auto
  let ?s = "join '', '' (map json_dumps xs) @ '']'' @ r"
  show ?case
  proof (cases "xs = []")
    case True
    have "parse_value m (json_dumps x @ '']'' @ r) = Some (x, '']'' @ r)"
      using Cons.prems(1)[of x "'']'' @ r" m] Cons.prems(4) True n by simp
    then show ?thesis using n True by simp
  next
    case False
    have "parse_value m (json_dumps x @ '', '' @ ?s) = Some (x, '', '' @ ?s)"
      using Cons.prems(1)[of x "'', '' @ ?s" m] Cons.prems(4) False n by (simp add: join_Cons)
    moreover have "skip_ws ?s = ?s"
      using False Cons.prems(2) by (cases xs) (simp_all add: join_Cons dumps_no_ws)
    moreover have "parse_elements m ?s (acc @ [x]) = Some (JArr ((acc @ [x]) @ xs), r)"
      by (rule Cons.IH) (use Cons.prems False n in \<open>auto simp: join_Cons\<close>)
    ultimately show ?thesis using n False by (simp add: join_Cons)
  qed
qed simp

lemma dict_set_new: "k \<notin> fst ` set d \<Longrightarrow> dict_set k v d = d @ [(k, v)]"
  by (induction d) auto

definition dump_member :: "string \<times> json \<Rightarrow> string" where
  "dump_member = (\<lambda>(k, v). dumps_str k @ '': '' @ json_dumps v)"

lemma dump_member_no_ws: "skip_ws (dump_member m @ s) = dump_member m @ s"
  by (cases m) (simp add: dump_member_def dumps_str_def)

lemma parse_members_dumps:
  assumes "\<And>k x r n. (k, x) \<in> set d \<Longrightarrow> delimited r \<Longrightarrow> 2 * length (json_dumps x @ r) + 1 \<le> n \<Longrightarrow>
      parse_value n (json_dumps x @ r) = Some (x, r)"
    and "list_all (\<lambda>(k, v). json_wf v) d" "d \<noteq> []" "distinct (map fst (acc @ d))"
    and "2 * length (join '', '' (map dump_member d) @ ''}'' @ r) + 2 \<le> n"
  shows "parse_members n (join '', '' (map dump_member d) @ ''}'' @ r) acc = Some (JObj (acc @ d), r)"
  using assms
proof (induction d arbitrary: acc n)
  case (Cons m d)
  obtain k x where m: "m = (k, x)" by (cases m)
  from Cons obtain f where n: "n = Suc f" by (cases n) auto
  let ?s = "join '', '' (map dump_member d) @ ''}'' @ r"
  have set: "dict_set k x acc = acc @ [(k, x)]"
    using Cons.prems(4) m by (intro dict_set_new) auto
  have wf: "json_wf x" using Cons.prems(2) m by simp
  have member: "dump_member m @ q = quote_char # concat (map escape_ascii k) @ quote_char # '': '' @ json_dumps x @ q" for q
    by (simp add: m dump_member_def dumps_str_def)
  show ?case
  proof (cases "d = []")
    case True
    have "parse_value f (json_dumps x @ ''}'' @ r) = Some (x, ''}'' @ r)"
      using Cons.prems(1)[of k x "''}'' @ r" f] Cons.prems(5) True n m by (simp add: dump_member_def dumps_str_def)
    then show ?thesis
      using True n set by (simp add: member json_str_dumps dumps_no_ws[OF wf]) (simp add: m)
  next
    case False
    have "parse_value f (json_dumps x @ '', '' @ ?s) = Some (x, '', '' @ ?s)"
      using Cons.prems(1)[of k x "'', '' @ ?s" f] Cons.prems(5) False n m
      by (simp add: join_Cons dump_member_def dumps_str_def)
    moreover have "skip_ws ?s = ?s"
      using False by (cases d) (simp_all add: join_Cons dump_member_no_ws)
    moreover have "parse_members f ?s (acc @ [(k, x)]) = Some (JObj ((acc @ [(k, x)]) @ d), r)"
      by (rule Cons.IH) (use Cons.prems False n m in \<open>auto simp: join_Cons\<close>)
    ultimately show ?thesis
      using False n set by (simp add: join_Cons member json_str_dumps dumps_no_ws[OF wf]) (simp add: m)
  qed
qed simp

lemma dumps_members: "json_dumps (JObj d) = CHR ''{'' # join '', '' (map dump_member d) @ ''}''"
  by (simp add: dump_member_def)

lemma parse_dumps:
  "json_wf j \<Longrightarrow> delimited r \<Longrightarrow> 2 * length (json_dumps j @ r) + 1 \<le> n \<Longrightarrow>
     parse_value n (json_dumps j @ r) = Some (j, r)"
proof (induction j arbitrary: r n)
  case (JArr xs)
  then obtain m where n: "n = Suc m" by (cases n) auto
  show ?case
  proof (cases "xs = []")
    case False
    let ?s = "join '', '' (map json_dumps xs) @ '']'' @ r"
    have "parse_elements m ?s [] = Some (JArr ([] @ xs), r)"
      by (rule parse_elements_dumps) (use JArr False n in \<open>auto simp: list_all_iff\<close>)
    moreover have "skip_ws ?s = ?s" "\<not> starts_with ?s '']''"
      using False JArr.prems(1) by (cases xs; simp add: join_Cons dumps_no_ws dumps_hd)+
    ultimately show ?thesis using n by simp
  qed (simp add: n starts_with_def)
next
  case (JObj d)
  then obtain m where n: "n = Suc m" by (cases n) auto
  show ?case
  proof (cases "d = []")
    case False
    let ?s = "join '', '' (map dump_member d) @ ''}'' @ r"
    have "parse_members m ?s [] = Some (JObj ([] @ d), r)"
      by (rule parse_members_dumps)
        (use JObj False n in \<open>auto simp: list_all_iff dumps_members simp del: json_dumps.simps\<close>)
    moreover have "skip_ws ?s = ?s" "\<not> starts_with ?s ''}''"
      using False by (cases d; simp add: join_Cons dump_member_no_ws;
        simp add: dump_member_def dumps_str_def starts_with_def split: prod.splits)+
    ultimately show ?thesis using n by (simp add: dumps_members del: json_dumps.simps)
  qed (simp add: n starts_with_def)
next
  case (JInt k)
  then obtain m where n: "n = Suc m" by (cases n) auto
  obtain c w where s: "show_int k = c # w" "is_digit c \<or> c = CHR ''-''"
    using show_nat_digits[of k] show_nat_digits[of "- k"] show_nat_nonempty
    by (cases "show_int k") (auto simp: show_int_def split: if_splits)
  moreover have "\<not> is_digit quote_char" "\<not> is_digit (CHR ''{'')" "\<not> is_digit (CHR ''['')" by code_simp+
  ultimately have "c \<noteq> quote_char" "c \<noteq> CHR ''{''" "c \<noteq> CHR ''[''" by auto
  then show ?case using n s json_const_int[OF JInt.prems(2), of k] by simp
next
  case (JStr k)
  then obtain m where n: "n = Suc m" by (cases n) auto
  then show ?case by (simp add: dumps_str_append json_str_dumps)
next
  case (JBool b)
  then obtain m where n: "n = Suc m" by (cases n) auto
  then show ?case by (cases b) (simp_all add: json_const_def starts_with_def)
next
  case JNull
  then obtain m where n: "n = Suc m" by (cases n) auto
  then show ?case by (simp add: json_const_def starts_with_def)
qed simp

lemma json_loads_dumps: "json_wf j \<Longrightarrow> json_loads (json_dumps j) = Some j"
  using parse_dumps[of j "[]" "2 * length (json_dumps j) + 1"] dumps_no_ws[of j "[]"]
  by (simp add: json_loads_def)

lemma json_dumps_valid: "json_wf j \<Longrightarrow> json_valid (json_dumps j)"
  by (simp add: json_valid_def json_loads_dumps)

end
