(* ===== verification/Mcp_Tasks.thy ===== *)
theory Mcp_Tasks
  imports Scheduler Task_Manager_Facts Py_Json_Dumps
begin

text \<open>
  The task tools of the MCP server (\<open>errand/mcp_server.py\<close>): creating and scheduling tasks, reading
  them, the listing, the search over the history and the deletion of an evaluation profile.  A tool
  answers with a text; an answer that renders rows as JSON is the list of those rows.  \<open>classify\<close> is
  the language model (told whether the profiles are offered to it), \<open>encrypt\<close> the platform's cipher,
  \<open>None\<close> when no key is configured.
\<close>

datatype 'a reply = Reply string | Answer 'a

subsection \<open>Creating\<close>

definition validate_and_encrypt_env ::
    "((string \<times> string) list \<Rightarrow> string option) \<Rightarrow> (string \<times> json) list option \<Rightarrow> string + string option" where
  "validate_and_encrypt_env encrypt env =
     (case env of
        None \<Rightarrow> Inr None
      | Some e \<Rightarrow>
          if e = [] then Inr None
          else if \<not> list_all (\<lambda>(_, v). case v of JStr _ \<Rightarrow> True | _ \<Rightarrow> False) e then
            Inl ''Error: Invalid env value. Expected an object mapping strings to strings.''
          else (case encrypt [(k, s). (k, JStr s) \<leftarrow> e] of
              None \<Rightarrow> Inl ''Error: Cannot store encrypted env vars - encryption key not configured.''
            | Some c \<Rightarrow> Inr (Some c)))"

text \<open>The header \<open>X-Client-Id\<close>, when the request has one.\<close>

definition get_client_id :: "string option \<Rightarrow> string" where
  "get_client_id header =
     (if truthy header \<and> strip (the header) \<noteq> [] then strip (the header) else ''mcp'')"

definition unknown_profile :: "string \<Rightarrow> string" where
  "unknown_profile name = ''Error: Task profile '' @ [apostrophe] @ name @ [apostrophe] @ '' not found.''"

text \<open>The profile a tool is given by name: none, its id, or an error.\<close>

definition named_profile :: "string option \<Rightarrow> db \<Rightarrow> string + nat option" where
  "named_profile profile db =
     (if \<not> truthy profile then Inr None
      else (case find (\<lambda>(_, n). n = the profile) (profiles db) of
          None \<Rightarrow> Inl (unknown_profile (the profile))
        | Some (p, _) \<Rightarrow> Inr (Some p)))"

record mcp_fields =
  f_title :: string
  f_description :: "string option"
  f_category :: string
  f_status :: task_status
  f_execute_at :: "time option"
  f_repeat_interval :: "string option"
  f_repeat_until :: "time option"
  f_profile_id :: "nat option"
  f_encrypted_env :: "string option"
  f_created_by :: string

definition mcp_row :: "time \<Rightarrow> mcp_fields \<Rightarrow> db \<Rightarrow> task" where
  "mcp_row now f db =
     \<lparr>t_id = fresh_id (ids db), t_title = f_title f, t_description = f_description f,
      t_status = f_status f, t_created_at = now, t_updated_at = now, t_category = Some (f_category f),
      t_execute_at = f_execute_at f, t_repeat_interval = f_repeat_interval f,
      t_repeat_until = f_repeat_until f, t_position = next_position db (f_status f) None,
      t_output = None, t_runner_logs = None, t_questions = None, t_retry_count = 0,
      t_heartbeat_at = None, t_profile_id = f_profile_id f, t_created_by = Some (f_created_by f),
      t_updated_by = None, t_encrypted_env = f_encrypted_env f,
      t_is_eval = resolve_is_eval db (f_profile_id f)\<rparr>"

definition new_task_data_of :: "task \<Rightarrow> new_task_data" where
  "new_task_data_of t =
     \<lparr>n_id = t_id t, n_title = t_title t, n_description = t_description t, n_status = t_status t,
      n_position = t_position t, n_category = t_category t, n_execute_at = t_execute_at t,
      n_repeat_interval = t_repeat_interval t, n_repeat_until = t_repeat_until t, n_output = None,
      n_runner_logs = None, n_retry_count = 0, n_profile_id = t_profile_id t, n_profile_name = None,
      n_tags = [], n_created_at = t_created_at t, n_updated_at = t_updated_at t, n_is_eval = t_is_eval t\<rparr>"

definition add_mcp_task :: "time \<Rightarrow> mcp_fields \<Rightarrow> db \<Rightarrow> nat \<times> db" where
  "add_mcp_task now f db =
     (let row = mcp_row now f db in (t_id row, emit (New_task_event (new_task_data_of row)) (insert_task row db)))"

record new_task_args =
  a_description :: string
  a_profile :: "string option"
  a_title :: "string option"
  a_env :: "(string \<times> json) list option"

text \<open>Title, description, category and profile of a new task.\<close>

definition new_task_triage ::
    "(bool \<Rightarrow> string \<Rightarrow> llm_result) \<Rightarrow> new_task_args \<Rightarrow> nat option \<Rightarrow> db \<Rightarrow>
     string \<times> string option \<times> string \<times> nat option" where
  "new_task_triage classify a pid db =
     (if truthy (a_title a) then
        (the (a_title a), if a_description a = [] then None else Some (a_description a), ''immediate'', pid)
      else if 5 < length (words (strip (a_description a))) then
        (let r = classify (\<not> truthy (a_profile a)) (a_description a)
         in (l_title r, if \<not> l_success r then Some (strip (a_description a)) else l_description r,
             if l_category r = [] then ''immediate'' else l_category r,
             if truthy (a_profile a) then pid else profile_id_of_name db (l_profile r)))
      else (strip (a_description a), None, ''immediate'', pid))"

definition new_task ::
    "time \<Rightarrow> (bool \<Rightarrow> string \<Rightarrow> llm_result) \<Rightarrow> ((string \<times> string) list \<Rightarrow> string option) \<Rightarrow>
     string option \<Rightarrow> new_task_args \<Rightarrow> db \<Rightarrow> string + (nat \<times> db)" where
  "new_task now classify encrypt client a db =
     bind_res (named_profile (a_profile a) db) (\<lambda>pid.
       (case new_task_triage classify a pid db of (title, description, category, pid') \<Rightarrow>
          bind_res (validate_and_encrypt_env encrypt (a_env a)) (\<lambda>env.
            Inr (add_mcp_task now
              \<lparr>f_title = title, f_description = description, f_category = category,
               f_status = (if category \<in> {''scheduled'', ''repeating''} then Scheduled else Pending),
               f_execute_at = None, f_repeat_interval = None, f_repeat_until = None,
               f_profile_id = pid', f_encrypted_env = env, f_created_by = get_client_id client\<rparr> db))))"

record schedule_args =
  s_description :: string
  s_execute_at :: string
  s_repeat_interval :: "string option"
  s_repeat_until :: "string option"
  s_profile :: "string option"
  s_env :: "(string \<times> json) list option"

definition invalid_datetime :: "string \<Rightarrow> string \<Rightarrow> string" where
  "invalid_datetime field s =
     ''Error: Invalid '' @ field @ '' datetime format: '' @ [apostrophe] @ s @ [apostrophe] @ ''. Use ISO 8601 format (e.g. '' @ [apostrophe] @
       (if field = ''execute_at'' then ''2026-03-01T09:00:00Z'' else ''2026-06-01T00:00:00Z'') @ [apostrophe] @ '').''"

definition given_datetime :: "string \<Rightarrow> string \<Rightarrow> string + time" where
  "given_datetime field s =
     (case fromisoformat s of None \<Rightarrow> Inl (invalid_datetime field s) | Some t \<Rightarrow> Inr t)"

definition given_interval :: "string option \<Rightarrow> string + string option" where
  "given_interval interval =
     (case interval of
        None \<Rightarrow> Inr None
      | Some s \<Rightarrow>
          (case normalize_interval s of
             None \<Rightarrow> Inl (''Error: Invalid repeat_interval '' @ [apostrophe] @ s @ [apostrophe] @
               ''. Accepted formats: 15m, 1h, 1d, 1w, 7 days, 2 hours, daily, weekly, hourly.'')
           | Some n \<Rightarrow> Inr (Some n)))"

definition schedule_triage :: "(string \<Rightarrow> llm_result) \<Rightarrow> string \<Rightarrow> string \<times> string option" where
  "schedule_triage classify d =
     (if 5 < length (words (strip d)) then
        (let r = classify d
         in (l_title r, if truthy (l_description r) then l_description r else Some (strip d)))
      else (strip d, None))"

definition schedule_task ::
    "time \<Rightarrow> (string \<Rightarrow> llm_result) \<Rightarrow> ((string \<times> string) list \<Rightarrow> string option) \<Rightarrow>
     string option \<Rightarrow> schedule_args \<Rightarrow> db \<Rightarrow> string + (nat \<times> db)" where
  "schedule_task now classify encrypt client a db =
     bind_res (given_datetime ''execute_at'' (s_execute_at a)) (\<lambda>execute_at.
     bind_res (given_interval (s_repeat_interval a)) (\<lambda>interval.
     bind_res (case s_repeat_until a of None \<Rightarrow> Inr None
         | Some s \<Rightarrow> bind_res (given_datetime ''repeat_until'' s) (\<lambda>t. Inr (Some t))) (\<lambda>until.
     bind_res (named_profile (s_profile a) db) (\<lambda>pid.
       (case schedule_triage classify (s_description a) of (title, description) \<Rightarrow>
          bind_res (validate_and_encrypt_env encrypt (s_env a)) (\<lambda>env.
            Inr (add_mcp_task now
              \<lparr>f_title = title, f_description = description,
               f_category = (if truthy interval then ''repeating'' else ''scheduled''),
               f_status = Scheduled, f_execute_at = Some execute_at, f_repeat_interval = interval,
               f_repeat_until = until, f_profile_id = pid, f_encrypted_env = env,
               f_created_by = get_client_id client\<rparr> db)))))))"

subsection \<open>Reading\<close>

definition task_by_uuid :: "string \<Rightarrow> db \<Rightarrow> py_error + task option" where
  "task_by_uuid s db =
     (case parse_uuid s of None \<Rightarrow> Inl (ValueErr ''badly formed hexadecimal UUID string'') | Some i \<Rightarrow> Inr (find_task db i))"

definition unknown_task :: "string \<Rightarrow> string" where
  "unknown_task s = ''Error: Task '' @ s @ '' not found.''"

definition status_name :: "task_status \<Rightarrow> string" where
  "status_name s =
     (case s of New \<Rightarrow> ''new'' | Review \<Rightarrow> ''review'' | Scheduled \<Rightarrow> ''scheduled'' | Pending \<Rightarrow> ''pending''
      | Running \<Rightarrow> ''running'' | Completed \<Rightarrow> ''completed'' | Deleted \<Rightarrow> ''deleted'' | Archived \<Rightarrow> ''archived'')"

text \<open>The fields \<open>task_status\<close> shows; the text form leaves out the first and the last.\<close>

record task_summary =
  y_id :: nat
  y_title :: string
  y_status :: task_status
  y_category :: "string option"
  y_created_at :: time
  y_updated_at :: time
  y_has_output :: bool

definition task_status :: "string \<Rightarrow> string \<Rightarrow> db \<Rightarrow> py_error + task_summary reply" where
  "task_status s fmt db =
     (if fmt \<noteq> ''text'' \<and> fmt \<noteq> ''json'' then
        Inr (Reply (''Error: Unsupported format '' @ [apostrophe] @ fmt @ [apostrophe] @
          ''. Supported formats are '' @ [apostrophe] @ ''text'' @ [apostrophe] @ '' and '' @ [apostrophe] @ ''json'' @ [apostrophe] @ ''.''))
      else bind_res (task_by_uuid s db) (\<lambda>row.
        (case row of
           None \<Rightarrow> Inr (Reply (unknown_task s))
         | Some t \<Rightarrow> Inr (Answer
             \<lparr>y_id = t_id t, y_title = t_title t, y_status = t_status t, y_category = t_category t,
              y_created_at = t_created_at t, y_updated_at = t_updated_at t,
              y_has_output = truthy (t_output t)\<rparr>))))"

definition task_output :: "string \<Rightarrow> db \<Rightarrow> py_error + string" where
  "task_output s db =
     bind_res (task_by_uuid s db) (\<lambda>row.
       (case row of
          None \<Rightarrow> Inr (unknown_task s)
        | Some t \<Rightarrow>
            if t_status t \<in> {Completed, Review} then
              Inr (if truthy (t_output t) then the (t_output t) else ''(no output)'')
            else Inr (''Task is still in progress (status: '' @ status_name (t_status t) @ '')'')))"

definition task_logs :: "string \<Rightarrow> db \<Rightarrow> py_error + string" where
  "task_logs s db =
     bind_res (task_by_uuid s db) (\<lambda>row.
       (case row of
          None \<Rightarrow> Inr (unknown_task s)
        | Some t \<Rightarrow> Inr (if truthy (t_runner_logs t) then the (t_runner_logs t) else ''(no logs available)'')))"

definition BOARD_STATUSES :: "string list" where
  "BOARD_STATUSES = [''scheduled'', ''pending'', ''running'', ''review'', ''completed'']"

definition brief :: "task \<Rightarrow> nat \<times> string \<times> task_status" where
  "brief t = (t_id t, t_title t, t_status t)"

definition list_board_tasks :: "string option \<Rightarrow> db \<Rightarrow> (nat \<times> string \<times> task_status) list reply" where
  "list_board_tasks status db =
     (case status of
        Some s \<Rightarrow>
          if s \<notin> set BOARD_STATUSES then
            Reply (''Error: Invalid status '' @ [apostrophe] @ s @ [apostrophe] @ ''. Must be one of: '' @ join '', '' BOARD_STATUSES)
          else if s = ''completed'' then
            Answer (map brief (sort_key (\<lambda>t. - t_updated_at t)
              (filter (\<lambda>t. status_name (t_status t) = s) (tasks db))))
          else
            Answer (map brief (sort_key (\<lambda>t. (t_position t, t_created_at t))
              (filter (\<lambda>t. status_name (t_status t) = s) (tasks db))))
      | None \<Rightarrow>
          Answer (map brief
            (sort_key (\<lambda>t. (t_position t, t_created_at t))
               (filter (\<lambda>t. t_status t \<notin> {New, Deleted, Archived} \<and> t_status t \<noteq> Completed) (tasks db)) @
             sort_key (\<lambda>t. - t_updated_at t) (filter (\<lambda>t. t_status t = Completed) (tasks db)))))"

subsection \<open>Searching\<close>

record search_args =
  h_profile :: "string option"
  h_status :: "string option"
  h_created_after :: "string option"
  h_created_before :: "string option"
  h_title_contains :: "string option"
  h_is_eval :: "bool option"
  h_limit :: int
  h_offset :: int

definition parse_iso :: "string option \<Rightarrow> time option" where
  "parse_iso s = (if truthy s then fromisoformat (replace_str ''Z'' ''+00:00'' (the s)) else None)"

definition profile_name_of :: "db \<Rightarrow> task \<Rightarrow> string option" where
  "profile_name_of db t = Option.bind (t_profile_id t) (map_of (profiles db))"

definition search_matches :: "search_args \<Rightarrow> db \<Rightarrow> task \<Rightarrow> bool" where
  "search_matches h db t =
     ((case h_profile h of None \<Rightarrow> True | Some p \<Rightarrow> profile_name_of db t = Some p) \<and>
      (case h_status h of None \<Rightarrow> True | Some s \<Rightarrow> status_name (t_status t) = s) \<and>
      (case parse_iso (h_created_after h) of None \<Rightarrow> True | Some a \<Rightarrow> a \<le> t_created_at t) \<and>
      (case parse_iso (h_created_before h) of None \<Rightarrow> True | Some b \<Rightarrow> t_created_at t \<le> b) \<and>
      (\<not> truthy (h_title_contains h) \<or>
        like (py_lower (''%'' @ the (h_title_contains h) @ ''%'')) (py_lower (t_title t))) \<and>
      t_is_eval t = (case h_is_eval h of None \<Rightarrow> False | Some b \<Rightarrow> b))"

definition search_limit :: "search_args \<Rightarrow> nat" where
  "search_limit h = nat (max 1 (min (h_limit h) 200))"

definition search_tasks :: "search_args \<Rightarrow> db \<Rightarrow> task list reply" where
  "search_tasks h db =
     (if truthy (h_created_after h) \<and> parse_iso (h_created_after h) = None then
        Reply (''invalid created_after '' @ [apostrophe] @ the (h_created_after h) @ [apostrophe] @ '' (use ISO-8601)'')
      else if truthy (h_created_before h) \<and> parse_iso (h_created_before h) = None then
        Reply (''invalid created_before '' @ [apostrophe] @ the (h_created_before h) @ [apostrophe] @ '' (use ISO-8601)'')
      else
        Answer (take (search_limit h) (drop (nat (max 0 (h_offset h)))
          (sort_key (\<lambda>t. - t_created_at t) (filter (search_matches h db) (tasks db))))))"

subsection \<open>Deleting an evaluation profile\<close>

text \<open>The foreign key of \<open>tasks.profile_id\<close> is ON DELETE SET NULL.\<close>

definition drop_profile :: "nat \<Rightarrow> db \<Rightarrow> db" where
  "drop_profile p db =
     (update_where (\<lambda>t. t_profile_id t = Some p) (\<lambda>t. t\<lparr>t_profile_id := None\<rparr>) db)
       \<lparr>profiles := filter (\<lambda>(q, _). q \<noteq> p) (profiles db)\<rparr>"

definition delete_task_profile :: "string \<Rightarrow> db \<Rightarrow> bool reply \<times> db" where
  "delete_task_profile name db =
     (if \<not> starts_with name EVAL_PROFILE_PREFIX then
        (Reply (''delete is restricted to '' @ [apostrophe] @ EVAL_PROFILE_PREFIX @ [apostrophe] @ '' profiles''), db)
      else (case find (\<lambda>(_, n). n = name) (profiles db) of
          None \<Rightarrow> (Answer False, db)
        | Some (p, _) \<Rightarrow> (Answer True, drop_profile p db)))"

subsection \<open>What creation does\<close>

lemma mcp_row_place:
  "t_id (mcp_row now f db) = fresh_id (ids db)" "t_status (mcp_row now f db) = f_status f"
  "t_position (mcp_row now f db) = next_position db (f_status f) None"
  "t_title (mcp_row now f db) = f_title f" "t_description (mcp_row now f db) = f_description f"
  "t_category (mcp_row now f db) = Some (f_category f)" "t_profile_id (mcp_row now f db) = f_profile_id f"
  "t_execute_at (mcp_row now f db) = f_execute_at f"
  by (simp_all add: mcp_row_def)

lemma add_mcp_task_inv: "board_inv db \<Longrightarrow> board_inv (snd (add_mcp_task now f db))"
  unfolding add_mcp_task_def Let_def snd_conv board_inv_publish
  by (rule board_inv_insert)
    (use fresh_id_notin[of "ids db"] next_position_above in \<open>fastforce simp: mcp_row_place\<close>)+

lemma add_mcp_task_rows:
  "add_mcp_task now f db = (i, db') \<Longrightarrow> i = fresh_id (ids db) \<and> tasks db' = tasks db @ [mcp_row now f db] \<and>
     task_tags db' = task_tags db \<and> tags db' = tags db \<and> profiles db' = profiles db \<and>
     outbox db' = outbox db @ [New_task_event (new_task_data_of (mcp_row now f db))]"
  by (auto simp: add_mcp_task_def Let_def emit_def insert_task_def mcp_row_place)

lemma new_task_shape:
  assumes "new_task now classify encrypt client a db = Inr r"
  obtains f pid where "add_mcp_task now f db = r" "named_profile (a_profile a) db = Inr pid"
    "new_task_triage classify a pid db = (f_title f, f_description f, f_category f, f_profile_id f)"
    "f_status f = (if f_category f \<in> {''scheduled'', ''repeating''} then Scheduled else Pending)"
    "f_execute_at f = None" "f_created_by f = get_client_id client"
    "validate_and_encrypt_env encrypt (a_env a) = Inr (f_encrypted_env f)"
proof -
  from assms obtain pid where p: "named_profile (a_profile a) db = Inr pid" by (auto simp: new_task_def bind_res_eq_Inr)
  obtain title description category pid' where
    t: "new_task_triage classify a pid db = (title, description, category, pid')" by (metis surj_pair)
  from assms p t obtain env where
    "validate_and_encrypt_env encrypt (a_env a) = Inr env" and
    "add_mcp_task now \<lparr>f_title = title, f_description = description, f_category = category,
       f_status = (if category \<in> {''scheduled'', ''repeating''} then Scheduled else Pending),
       f_execute_at = None, f_repeat_interval = None, f_repeat_until = None,
       f_profile_id = pid', f_encrypted_env = env, f_created_by = get_client_id client\<rparr> db = r"
    by (auto simp: new_task_def bind_res_eq_Inr)
  from that[OF this(2) p _ _ _ _ ] t this(1) show thesis by simp
qed

lemma schedule_task_shape:
  assumes "schedule_task now classify encrypt client a db = Inr r"
  obtains f where "add_mcp_task now f db = r" "f_status f = Scheduled"
    "fromisoformat (s_execute_at a) = f_execute_at f" "f_execute_at f \<noteq> None"
    "f_repeat_interval f = Option.bind (s_repeat_interval a) normalize_interval"
    "f_repeat_interval f = None \<longleftrightarrow> s_repeat_interval a = None"
    "f_repeat_until f = Option.bind (s_repeat_until a) fromisoformat"
    "f_repeat_until f = None \<longleftrightarrow> s_repeat_until a = None"
    "schedule_triage classify (s_description a) = (f_title f, f_description f)"
    "f_category f = (if truthy (f_repeat_interval f) then ''repeating'' else ''scheduled'')"
    "named_profile (s_profile a) db = Inr (f_profile_id f)" "f_created_by f = get_client_id client"
proof -
  obtain title description where t: "schedule_triage classify (s_description a) = (title, description)"
    by (metis surj_pair)
  from assms t obtain ex interval until pid env where
    1: "given_datetime ''execute_at'' (s_execute_at a) = Inr ex" and
    2: "given_interval (s_repeat_interval a) = Inr interval" and
    3: "(case s_repeat_until a of None \<Rightarrow> Inr None
         | Some s \<Rightarrow> bind_res (given_datetime ''repeat_until'' s) (\<lambda>t. Inr (Some t))) = Inr until" and
    4: "named_profile (s_profile a) db = Inr pid" and
    5: "add_mcp_task now
         \<lparr>f_title = title, f_description = description,
          f_category = (if truthy interval then ''repeating'' else ''scheduled''),
          f_status = Scheduled, f_execute_at = Some ex, f_repeat_interval = interval,
          f_repeat_until = until, f_profile_id = pid, f_encrypted_env = env,
          f_created_by = get_client_id client\<rparr> db = r"
    by (auto simp: schedule_task_def bind_res_eq_Inr)
  have 6: "fromisoformat (s_execute_at a) = Some ex"
    using 1 by (simp add: given_datetime_def split: option.splits)
  have 7: "interval = Option.bind (s_repeat_interval a) normalize_interval" "interval = None \<longleftrightarrow> s_repeat_interval a = None"
    using 2 by (auto simp: given_interval_def dest: sym split: option.splits)
  have 8: "until = Option.bind (s_repeat_until a) fromisoformat" "until = None \<longleftrightarrow> s_repeat_until a = None"
    using 3 by (auto simp: given_datetime_def bind_res_eq_Inr dest: sym split: option.splits)
  show thesis by (rule that[OF 5]) (use 4 6 7 8 t in simp_all)
qed

lemma drop_profile_inv: "board_inv db \<Longrightarrow> board_inv (drop_profile p db)"
proof -
  assume "board_inv db"
  then have "board_inv (update_where (\<lambda>t. t_profile_id t = Some p) (\<lambda>t. t\<lparr>t_profile_id := None\<rparr>) db)"
    by (rule board_inv_keep) (simp_all add: keeps_id_def keeps_place_def)
  then show ?thesis by (subst board_inv_cong[of _ "update_where (\<lambda>t. t_profile_id t = Some p) (\<lambda>t. t\<lparr>t_profile_id := None\<rparr>) db"])
    (simp_all add: drop_profile_def)
qed

lemma mcp_keeps_inv:
  "new_task now classify encrypt client a db = Inr (i, db') \<Longrightarrow> board_inv db \<Longrightarrow> board_inv db'"
  "schedule_task now classify' encrypt client b db = Inr (i, db') \<Longrightarrow> board_inv db \<Longrightarrow> board_inv db'"
  "delete_task_profile name db = (r, db') \<Longrightarrow> board_inv db \<Longrightarrow> board_inv db'"
proof -
  assume "new_task now classify encrypt client a db = Inr (i, db')" "board_inv db"
  then show "board_inv db'" using add_mcp_task_inv by (elim new_task_shape) (metis snd_conv)
next
  assume "schedule_task now classify' encrypt client b db = Inr (i, db')" "board_inv db"
  then show "board_inv db'" using add_mcp_task_inv by (elim schedule_task_shape) (metis snd_conv)
next
  assume "delete_task_profile name db = (r, db')" "board_inv db"
  then show "board_inv db'"
    by (auto simp: delete_task_profile_def drop_profile_inv split: if_splits option.splits)
qed

lemma fresh_no_tags: "board_inv db \<Longrightarrow> task_tags db' = task_tags db \<Longrightarrow> tag_set db' (fresh_id (ids db)) = {}"
  using board_invD(4)[of db] fresh_id_notin[of "ids db"] by (force simp: tag_set_def links_inv_def)

lemma mcp_row_above:
  "u \<in> set (tasks db) \<Longrightarrow> t_status u = f_status f \<Longrightarrow> t_position u < t_position (mcp_row now f db)"
  using next_position_above[of u db "f_status f" None] by (simp add: mcp_row_place)

lemma named_profile_found:
  "named_profile profile db = Inr pid \<Longrightarrow> truthy profile \<Longrightarrow> \<exists>p. pid = Some p \<and> (p, the profile) \<in> set (profiles db)"
  by (auto simp: named_profile_def split: option.splits dest!: find_Some_in)

lemma named_profile_error:
  "named_profile profile db = Inl msg \<Longrightarrow> truthy profile \<and> the profile \<notin> snd ` set (profiles db)"
  by (force simp: named_profile_def find_None_iff split: if_splits option.splits)

subsection \<open>Rows the scheduler does not see\<close>

lemma promote_not_due:
  assumes "find_task db i = Some t" "t_execute_at t = None" "board_inv db"
  shows "find_task (snd (promote_due_tasks now db)) i = Some t"
proof -
  have "i \<notin> set (map t_id (due_tasks now db))"
  proof
    assume "i \<in> set (map t_id (due_tasks now db))"
    then obtain u where u: "u \<in> set (due_tasks now db)" "t_id u = i" by auto
    then have "u \<in> set (tasks db)" "t_execute_at u \<noteq> None"
      by (auto simp: due_tasks_def split: option.splits dest!: in_set_takeD)
    with u(2) find_task_unique[OF board_invD(1)[OF assms(3)]] assms(1,2) show False by force
  qed
  then show ?thesis using assms(1) by (simp add: promote_due_tasks_def Let_def promote.fold_other)
qed

lemma promotions_not_due:
  assumes "find_task db i = Some t" "t_execute_at t = None" "board_inv db"
  shows "find_task (fold (\<lambda>n d. snd (promote_due_tasks n d)) nows db) i = Some t"
  using assms
proof (induction nows arbitrary: db)
  case (Cons now nows)
  then show ?case using promote_not_due promote_due_keeps_inv by simp
qed simp

subsection \<open>Properties\<close>

text \<open>A task created over MCP: it is refused only for an unknown profile or environment values
  that cannot be stored; otherwise exactly one row is added, below its column, pending or, when it is
  classified as scheduled or repeating, scheduled; a given title and its description are kept
  verbatim, a given profile is the one of that name, and one event announces the row.\<close>

theorem new_task_spec:
  assumes "board_inv db"
  shows "case new_task now classify encrypt client a db of
      Inl msg \<Rightarrow> truthy (a_profile a) \<and> the (a_profile a) \<notin> snd ` set (profiles db) \<or>
        validate_and_encrypt_env encrypt (a_env a) = Inl msg
    | Inr (i, db') \<Rightarrow> board_inv db' \<and> i \<notin> set (ids db) \<and> tag_set db' i = {} \<and>
        (\<exists>t. tasks db' = tasks db @ [t] \<and> t_id t = i \<and>
           t_status t = (if t_category t \<in> {Some ''scheduled'', Some ''repeating''} then Scheduled else Pending) \<and>
           (\<forall>u \<in> set (tasks db). t_status u = t_status t \<longrightarrow> t_position u < t_position t) \<and>
           (truthy (a_title a) \<longrightarrow> t_title t = the (a_title a) \<and> t_category t = Some ''immediate'' \<and>
              t_description t = (if a_description a = [] then None else Some (a_description a))) \<and>
           (truthy (a_profile a) \<longrightarrow> (\<exists>p. t_profile_id t = Some p \<and> (p, the (a_profile a)) \<in> set (profiles db))) \<and>
           outbox db' = outbox db @ [New_task_event (new_task_data_of t)])"
proof (cases "new_task now classify encrypt client a db")
  case (Inl msg)
  then have "named_profile (a_profile a) db = Inl msg \<or> validate_and_encrypt_env encrypt (a_env a) = Inl msg"
    by (cases "named_profile (a_profile a) db"; cases "validate_and_encrypt_env encrypt (a_env a)")
      (auto simp: new_task_def split: prod.splits)
  with Inl named_profile_error show ?thesis by fastforce
next
  case (Inr r)
  obtain i db' where r: "r = (i, db')" by fastforce
  from Inr obtain f pid where f: "add_mcp_task now f db = (i, db')" "named_profile (a_profile a) db = Inr pid"
    "new_task_triage classify a pid db = (f_title f, f_description f, f_category f, f_profile_id f)"
    "f_status f = (if f_category f \<in> {''scheduled'', ''repeating''} then Scheduled else Pending)"
    unfolding r by (elim new_task_shape)
  note rows = add_mcp_task_rows[OF f(1)]
  let ?t = "mcp_row now f db"
  have "truthy (a_profile a) \<Longrightarrow> f_profile_id f = pid"
    using f(3) by (auto simp: new_task_triage_def Let_def split: if_splits)
  moreover have "truthy (a_title a) \<Longrightarrow> f_title f = the (a_title a) \<and> f_category f = ''immediate'' \<and>
      f_description f = (if a_description a = [] then None else Some (a_description a))"
    using f(3) by (simp add: new_task_triage_def)
  moreover have "board_inv db'" using add_mcp_task_inv[OF assms, of now f] f(1) by simp
  moreover have "tag_set db' i = {}" using fresh_no_tags[OF assms, of db'] rows by simp
  moreover have "\<forall>u \<in> set (tasks db). t_status u = t_status ?t \<longrightarrow> t_position u < t_position ?t"
    using mcp_row_above mcp_row_place(2) by metis
  ultimately show ?thesis
    using rows fresh_id_notin[of "ids db"] named_profile_found[OF f(2)] f(4)
    unfolding Inr r sum.case prod.case by (intro conjI exI[of _ ?t]) (simp_all add: mcp_row_place)
qed

definition mcp_args :: new_task_args where
  "mcp_args = \<lparr>a_description = ''remind me to water the plants every day'', a_profile = None, a_title = None, a_env = None\<rparr>"

definition recurring :: "bool \<Rightarrow> string \<Rightarrow> llm_result" where
  "recurring _ d = \<lparr>l_title = ''Water plants'', l_success = True, l_category = ''repeating'',
     l_execute_at = JStr ''2026-03-01'', l_repeat_interval = JStr ''1d'', l_repeat_until = JNull,
     l_description = None, l_profile = JNull, l_cause = None, l_questions = None\<rparr>"

theorem new_task_spec_witness:
  "case new_task 5 recurring (\<lambda>_. None) None mcp_args sample_db of
     Inl _ \<Rightarrow> False
   | Inr (i, db') \<Rightarrow> i = 6 \<and> board_inv db' \<and> length (tasks db') = 6"
proof -
  obtain db' where r: "new_task 5 recurring (\<lambda>_. None) None mcp_args sample_db = Inr (6, db')"
    "length (tasks db') = 6"
  proof -
    have "(case new_task 5 recurring (\<lambda>_. None) None mcp_args sample_db of
        Inl _ \<Rightarrow> False | Inr (i, db') \<Rightarrow> i = 6 \<and> length (tasks db') = 6)" by code_simp
    then show thesis using that by (auto split: sum.splits prod.splits)
  qed
  then show ?thesis
    using new_task_spec[OF sample_db_inv, where now = 5 and classify = recurring and encrypt = "\<lambda>_. None" and client = None and a = mcp_args] by simp
qed

text \<open>A task that the classifier calls scheduled or repeating and that comes in over MCP without a
  title waits for ever: it is stored in the scheduled column with no instant to run at, and no
  sequence of promotions, at whatever times, touches it.\<close>

theorem classified_schedule_never_runs:
  assumes "board_inv db" "new_task now classify encrypt client a db = Inr (i, db')"
    and "\<not> truthy (a_title a)" "5 < length (words (strip (a_description a)))"
    and "l_category (classify (\<not> truthy (a_profile a)) (a_description a)) \<in> {''scheduled'', ''repeating''}"
  shows "\<exists>t. find_task (fold (\<lambda>n d. snd (promote_due_tasks n d)) nows db') i = Some t \<and>
    t_status t = Scheduled \<and> t_execute_at t = None"
proof -
  from assms(2) obtain f pid where f: "add_mcp_task now f db = (i, db')"
    "new_task_triage classify a pid db = (f_title f, f_description f, f_category f, f_profile_id f)"
    "f_status f = (if f_category f \<in> {''scheduled'', ''repeating''} then Scheduled else Pending)" "f_execute_at f = None"
    by (elim new_task_shape)
  let ?t = "mcp_row now f db"
  have inv: "board_inv db'" using add_mcp_task_inv[OF assms(1), of now f] f(1) by simp
  have "f_category f \<in> {''scheduled'', ''repeating''}"
    using f(2) assms(3,4,5) by (auto simp: new_task_triage_def Let_def)
  then have t: "t_status ?t = Scheduled" "t_execute_at ?t = None" using f(3,4) by (auto simp: mcp_row_place)
  have "find_task db' i = Some ?t"
    using find_task_unique[OF board_invD(1)[OF inv], of ?t] add_mcp_task_rows[OF f(1)] by (simp add: mcp_row_place)
  from promotions_not_due[OF this t(2) inv] t show ?thesis by blast
qed

theorem classified_schedule_never_runs_witness:
  "\<exists>i db'. new_task 5 recurring (\<lambda>_. None) None mcp_args sample_db = Inr (i, db') \<and>
     (\<exists>t. find_task (fold (\<lambda>n d. snd (promote_due_tasks n d)) [days 40000] db') i = Some t \<and> t_status t = Scheduled)"
proof -
  have "(case new_task 5 recurring (\<lambda>_. None) None mcp_args sample_db of Inl _ \<Rightarrow> False | Inr _ \<Rightarrow> True)"
    "\<not> truthy (a_title mcp_args)" "5 < length (words (strip (a_description mcp_args)))"
    "l_category (recurring (\<not> truthy (a_profile mcp_args)) (a_description mcp_args)) \<in> {''scheduled'', ''repeating''}"
    by code_simp+
  moreover from this(1) obtain i db' where "new_task 5 recurring (\<lambda>_. None) None mcp_args sample_db = Inr (i, db')"
    by (auto split: sum.splits)
  ultimately show ?thesis using classified_schedule_never_runs[OF sample_db_inv] by blast
qed

text \<open>A task scheduled over MCP: the row is added to the scheduled column with the instant that was
  asked for, repeating exactly when an interval was given, which is stored in its normal form; if it
  has no description its title is what the user wrote; and from its instant on (and not before) it
  is among the tasks the scheduler promotes, unless a hundred others are due.\<close>

theorem schedule_task_spec:
  assumes "board_inv db" "schedule_task now classify encrypt client a db = Inr (i, db')"
  shows "board_inv db' \<and> i \<notin> set (ids db) \<and>
    (\<exists>t e. tasks db' = tasks db @ [t] \<and> t_id t = i \<and> t_status t = Scheduled \<and>
       fromisoformat (s_execute_at a) = Some e \<and> t_execute_at t = Some e \<and>
       t_category t = Some (if truthy (t_repeat_interval t) then ''repeating'' else ''scheduled'') \<and>
       t_repeat_interval t = Option.bind (s_repeat_interval a) normalize_interval \<and>
       (t_description t = None \<longrightarrow> t_title t = strip (s_description a)) \<and>
       (t \<in> set (due_tasks n db') \<longrightarrow> e \<le> n) \<and>
       (e \<le> n \<longrightarrow> length (due_tasks n db') < 100 \<longrightarrow> t \<in> set (due_tasks n db')))"
proof -
  from assms(2) obtain f where f: "add_mcp_task now f db = (i, db')" "f_status f = Scheduled"
    "fromisoformat (s_execute_at a) = f_execute_at f" "f_execute_at f \<noteq> None"
    "f_repeat_interval f = Option.bind (s_repeat_interval a) normalize_interval"
    "schedule_triage classify (s_description a) = (f_title f, f_description f)"
    "f_category f = (if truthy (f_repeat_interval f) then ''repeating'' else ''scheduled'')"
    by (elim schedule_task_shape)
  note rows = add_mcp_task_rows[OF f(1)]
  let ?t = "mcp_row now f db"
  from f(4) obtain e where e: "f_execute_at f = Some e" by auto
  have i: "t_repeat_interval ?t = f_repeat_interval f" by (simp add: mcp_row_def)
  have "f_description f = None \<Longrightarrow> f_title f = strip (s_description a)"
    using f(6) by (auto simp: schedule_triage_def Let_def truthy_def split: if_splits)
  moreover have "?t \<in> set (due_tasks n db') \<Longrightarrow> e \<le> n"
    using e by (auto simp: due_tasks_def mcp_row_place dest!: in_set_takeD)
  moreover have "e \<le> n \<Longrightarrow> length (due_tasks n db') < 100 \<Longrightarrow> ?t \<in> set (due_tasks n db')"
    using e rows f(2) by (auto simp: due_tasks_def mcp_row_place BATCH_SIZE_def)
  moreover have "board_inv db'" using add_mcp_task_inv[OF assms(1), of now f] f(1) by simp
  ultimately show ?thesis
    using rows fresh_id_notin[of "ids db"] f e i by (intro conjI exI[of _ ?t] exI[of _ e]) (simp_all add: mcp_row_place)
qed

definition sample_schedule :: schedule_args where
  "sample_schedule = \<lparr>s_description = ''stretch'', s_execute_at = ''1970-01-01T00:00:01Z'',
     s_repeat_interval = Some ''2 hours'', s_repeat_until = None, s_profile = None, s_env = None\<rparr>"

theorem schedule_task_spec_witness:
  "case schedule_task 0 (recurring True) (\<lambda>_. None) None sample_schedule sample_db of
     Inl _ \<Rightarrow> False
   | Inr (i, db') \<Rightarrow> map t_id (due_tasks (seconds 2) db') = [i] \<and> board_inv db' \<and>
       map t_repeat_interval (due_tasks (seconds 2) db') = [Some ''2h'']"
proof -
  have c: "case schedule_task 0 (recurring True) (\<lambda>_. None) None sample_schedule sample_db of
     Inl _ \<Rightarrow> False
   | Inr (i, db') \<Rightarrow> map t_id (due_tasks (seconds 2) db') = [i] \<and>
       map t_repeat_interval (due_tasks (seconds 2) db') = [Some ''2h'']" by code_simp
  then obtain i db' where r: "schedule_task 0 (recurring True) (\<lambda>_. None) None sample_schedule sample_db = Inr (i, db')"
    by (auto split: sum.splits)
  show ?thesis using c schedule_task_spec[OF sample_db_inv r] unfolding r by simp
qed

definition response_brief :: "task_response \<Rightarrow> nat \<times> string \<times> task_status" where
  "response_brief r = (r_id r, r_title r, r_status r)"

text \<open>The MCP listing is the board's listing with the evaluation tasks shown: without a filter it names
  the same tasks in the same order as the API does when evaluations are asked for, and with a status
  it is the part of that listing with the status.\<close>

theorem mcp_listing_is_board:
  "list_board_tasks None db = Answer (map response_brief (list_tasks True db)) \<and>
   list_all (\<lambda>s. list_board_tasks (Some s) db =
     Answer (filter (\<lambda>x. status_name (snd (snd x)) = s) (map response_brief (list_tasks True db)))) BOARD_STATUSES"
proof -
  let ?active = "sort_key (\<lambda>t. (t_position t, t_created_at t))
    (filter (\<lambda>t. t_status t \<notin> {New, Deleted, Archived} \<and> t_status t \<noteq> Completed) (tasks db))"
  let ?completed = "sort_key (\<lambda>t. - t_updated_at t) (filter (\<lambda>t. t_status t = Completed) (tasks db))"
  have rb: "response_brief (response_of db None t) = brief t" for t
    by (simp add: response_brief_def response_of_def from_task_def brief_def)
  have l: "map response_brief (list_tasks True db) = map brief (?active @ ?completed)"
    by (simp add: list_tasks_def visible_def rb comp_def conj_ac)
  have f: "filter (\<lambda>x. status_name (snd (snd x)) = s) (map brief xs) = map brief (filter (\<lambda>t. status_name (t_status t) = s) xs)"
    for s xs by (simp add: filter_map comp_def brief_def)
  have one: "list_board_tasks (Some s) db =
      Answer (filter (\<lambda>x. status_name (snd (snd x)) = s) (map response_brief (list_tasks True db)))"
    if "s \<in> set BOARD_STATUSES" for s
  proof (cases "s = ''completed''")
    case True
    have "status_name u = s \<longleftrightarrow> u = Completed" for u unfolding True by (cases u) (simp_all add: status_name_def)
    with True that show ?thesis
      unfolding l f by (simp add: list_board_tasks_def filter_sort conj_ac cong: conj_cong)
  next
    case False
    with that have act: "status_name u = s \<Longrightarrow> u \<notin> {New, Deleted, Archived} \<and> u \<noteq> Completed" for u
      by (cases u) (auto simp: status_name_def BOARD_STATUSES_def)
    let ?P = "\<lambda>t. status_name (t_status t) = s"
    have "filter ?P (filter (\<lambda>t. t_status t \<notin> {New, Deleted, Archived} \<and> t_status t \<noteq> Completed) (tasks db)) = filter ?P (tasks db)"
      using act by (auto intro!: filter_cong)
    moreover have "filter ?P (filter (\<lambda>t. t_status t = Completed) (tasks db)) = []"
      using act by (auto simp: filter_empty_conv)
    ultimately show ?thesis
      using False that unfolding l f by (simp add: list_board_tasks_def filter_sort del: filter_filter)
  qed
  then show ?thesis using l by (simp add: list_board_tasks_def list_all_iff)
qed

text \<open>C64. Searching the history page by page shows every match once: the pages of one size, one after the
  other, are the matching tasks from the newest on; a page has at most two hundred of them, and
  without \<open>is_eval\<close> none is an evaluation task.\<close>

definition page_of :: "search_args \<Rightarrow> nat \<Rightarrow> search_args" where
  "page_of h k = h\<lparr>h_offset := int (k * search_limit h)\<rparr>"

definition search_all :: "search_args \<Rightarrow> db \<Rightarrow> task list" where
  "search_all h db = sort_key (\<lambda>t. - t_created_at t) (filter (search_matches h db) (tasks db))"

lemma search_page:
  assumes "search_tasks (page_of h k) db = Answer ts"
  shows "ts = take (search_limit h) (drop (k * search_limit h) (search_all h db))"
proof -
  have "search_matches (page_of h k) db = search_matches h db" "search_limit (page_of h k) = search_limit h"
    by (rule ext, simp_all add: search_matches_def page_of_def search_limit_def)
  then show ?thesis
    using assms by (simp add: search_tasks_def search_all_def page_of_def del: of_nat_mult split: if_splits)
qed

theorem search_tasks_pages:
  assumes "\<forall>k < n. search_tasks (page_of h k) db = Answer (pages k)"
  shows "concat (map pages [0..<n]) = take (n * search_limit h) (search_all h db) \<and>
    (\<forall>k < n. length (pages k) \<le> 200) \<and>
    (h_is_eval h = None \<longrightarrow> (\<forall>t \<in> set (concat (map pages [0..<n])). \<not> t_is_eval t))"
proof -
  have p: "pages k = take (search_limit h) (drop (k * search_limit h) (search_all h db))" if "k < n" for k
    using assms that search_page by blast
  have all: "concat (map pages [0..<m]) = take (m * search_limit h) (search_all h db)" if "m \<le> n" for m
    using that
  proof (induction m)
    case (Suc m)
    then show ?case using p[of m] by (simp add: take_add add.commute[of "search_limit h"])
  qed simp
  moreover have "length (pages k) \<le> 200" if "k < n" for k
  proof -
    have "search_limit h \<le> 200" by (simp add: search_limit_def)
    then show ?thesis using p[OF that] by (simp add: min_le_iff_disj)
  qed
  moreover have "h_is_eval h = None \<Longrightarrow> t \<in> set (search_all h db) \<Longrightarrow> \<not> t_is_eval t" for t
    by (simp add: search_all_def search_matches_def)
  ultimately show ?thesis by (metis in_set_takeD order_refl)
qed

definition sample_search :: search_args where
  "sample_search = \<lparr>h_profile = None, h_status = Some ''pending'', h_created_after = Some ''1970-01-01'',
     h_created_before = None, h_title_contains = Some ''AS'', h_is_eval = None, h_limit = 2, h_offset = 0\<rparr>"

theorem search_tasks_pages_witness:
  "concat (map (case_nat [sample_task 1 Pending 1, sample_task 2 Pending 2] (\<lambda>_. [sample_task 3 Pending 3])) [0..<2]) =
     take (2 * search_limit sample_search) (search_all sample_search sample_db)"
proof -
  let ?pages = "case_nat [sample_task 1 Pending 1, sample_task 2 Pending 2] (\<lambda>_. [sample_task 3 Pending 3])"
  have "search_tasks (page_of sample_search 0) sample_db = Answer (?pages 0)"
    "search_tasks (page_of sample_search 1) sample_db = Answer (?pages 1)" by code_simp+
  then have "\<forall>k < 2. search_tasks (page_of sample_search k) sample_db = Answer (?pages k)"
    by (simp add: less_2_cases_iff)
  from search_tasks_pages[OF this] show ?thesis by blast
qed

end
