(* ===== verification/Zombie_Cleanup.thy ===== *)
theory Zombie_Cleanup
  imports Task_Board_Facts Row_Batch Lease_Locks
begin

text \<open>
  The zombie cleanup (\<open>errand/zombie_cleanup.py\<close>): running tasks whose heartbeat (or, without
  one, last change) is too old go back to the scheduled column with exponential backoff, or to
  review when their retries are used up.  The status is assigned before the position is queried,
  so the query's flush makes the row itself, at its old position, part of the target column.
  Retry counts are never negative (the column starts at 0 and is only incremented or reset).
\<close>

definition ZOMBIE_TIMEOUT_SECONDS :: int where "ZOMBIE_TIMEOUT_SECONDS = 300"
definition MAX_RETRIES :: int where "MAX_RETRIES = 5"

definition is_stale :: "time \<Rightarrow> task \<Rightarrow> bool" where
  "is_stale cutoff t =
     (t_status t = Running \<and>
      (case t_heartbeat_at t of Some h \<Rightarrow> h < cutoff | None \<Rightarrow> t_updated_at t < cutoff))"

definition stale_tasks :: "time \<Rightarrow> db \<Rightarrow> task list" where
  "stale_tasks cutoff db = filter (is_stale cutoff) (tasks db)"

definition stale_seconds :: "time \<Rightarrow> task \<Rightarrow> int" where
  "stale_seconds now t =
     (now - (case t_heartbeat_at t of Some h \<Rightarrow> h | None \<Rightarrow> t_updated_at t)) div seconds 1"

definition zombie_message :: "time \<Rightarrow> task \<Rightarrow> string" where
  "zombie_message now t =
     ''Task recovered from zombie state after '' @ show_int (stale_seconds now t) @
     ''s without heartbeat. Retry count ('' @ show_int (t_retry_count t) @
     '') has reached the maximum ('' @ show_int MAX_RETRIES @ ''). Moved to review for manual inspection.''"

definition backoff_minutes :: "task \<Rightarrow> int" where
  "backoff_minutes t = 2 ^ nat (t_retry_count t)"

definition orphan_message :: "task \<Rightarrow> string" where
  "orphan_message t =
     ''Task recovered during server startup cleanup. Retry count ('' @ show_int (t_retry_count t) @
     '') has reached the maximum ('' @ show_int MAX_RETRIES @ ''). Moved to review for manual inspection.''"

text \<open>The change of a row, with the message it gets in review.\<close>

definition recover_row :: "(task \<Rightarrow> string) \<Rightarrow> time \<Rightarrow> int \<Rightarrow> task \<Rightarrow> task" where
  "recover_row message now position t =
     (if t_retry_count t \<ge> MAX_RETRIES then
        t\<lparr>t_status := Review, t_position := position, t_output := Some (message t),
          t_updated_by := Some ''system'', t_updated_at := now, t_heartbeat_at := None\<rparr>
      else
        t\<lparr>t_status := Scheduled, t_position := position, t_retry_count := t_retry_count t + 1,
          t_execute_at := Some (now + minutes (backoff_minutes t)),
          t_updated_by := Some ''system'', t_updated_at := now, t_heartbeat_at := None\<rparr>)"

definition recovered_status :: "task \<Rightarrow> task_status" where
  "recovered_status t = (if t_retry_count t \<ge> MAX_RETRIES then Review else Scheduled)"

definition recover_task :: "(task \<Rightarrow> string) \<Rightarrow> time \<Rightarrow> nat \<Rightarrow> db \<Rightarrow> db" where
  "recover_task message now i db =
     (case find_task db i of
        None \<Rightarrow> db
      | Some t \<Rightarrow>
          let flushed = update_row i (\<lambda>u. touch now (u\<lparr>t_status := recovered_status t\<rparr>)) db;
              position = next_position flushed (recovered_status t) None
          in update_row i (\<lambda>_. recover_row message now position t) db)"

definition recover_zombie_tasks :: "time \<Rightarrow> db \<Rightarrow> nat \<times> db" where
  "recover_zombie_tasks now db =
     (let cutoff = now - seconds ZOMBIE_TIMEOUT_SECONDS; is = map t_id (stale_tasks cutoff db)
      in (length is, fold (publish ''task_updated'') is (fold (recover_task (zombie_message now) now) is db)))"

text \<open>The same recovery for the task of an orphaned Kubernetes job, at startup
  (\<open>_recover_orphaned_task\<close> of \<open>errand/container_runtime.py\<close>); each job's errors are its own.\<close>

definition recover_orphaned_task :: "time \<Rightarrow> string \<Rightarrow> db \<Rightarrow> py_error + db" where
  "recover_orphaned_task now task_id db =
     (case parse_uuid task_id of
        None \<Rightarrow> Inl (ValueErr ''badly formed hexadecimal UUID string'')
      | Some i \<Rightarrow>
          (case find_task db i of
             None \<Rightarrow> Inr db
           | Some t \<Rightarrow>
               if t_status t \<noteq> Running then Inr db
               else Inr (publish ''task_updated'' i (recover_task orphan_message now i db))))"

definition cleanup_orphaned_jobs :: "time \<Rightarrow> string option list \<Rightarrow> db \<Rightarrow> db" where
  "cleanup_orphaned_jobs now labels db =
     fold (\<lambda>label d. case label of
         None \<Rightarrow> d
       | Some task_id \<Rightarrow>
           if task_id = [] then d
           else (case recover_orphaned_task now task_id d of Inl _ \<Rightarrow> d | Inr d' \<Rightarrow> d')) labels db"

definition zombie_cycle :: "bool \<Rightarrow> string \<Rightarrow> time \<Rightarrow> key_state \<times> db \<Rightarrow> key_state \<times> db" where
  "zombie_cycle online host now s =
     (let (locked, k) = acquire_zombie_lock online host now (fst s)
      in if \<not> locked then (k, snd s)
         else (let (recovered, db1) = recover_zombie_tasks now (snd s)
               in (snd (refresh_zombie_lock online now k), db1)))"

subsection \<open>The batch\<close>

lemma recover_row_frame [simp]:
  "t_id (recover_row msg now p t) = t_id t" "t_position (recover_row msg now p t) = p"
  "t_status (recover_row msg now p t) = recovered_status t"
  by (simp_all add: recover_row_def recovered_status_def)

lemma recovered_columns: "recovered_status t = Review \<or> recovered_status t = Scheduled"
  by (simp add: recovered_status_def)

lemma recover_keeps_inv:
  assumes "board_inv db"
  shows "board_inv (recover_task msg now i db)"
proof (cases "find_task db i")
  case None
  then show ?thesis using assms by (simp add: recover_task_def)
next
  case (Some t)
  let ?f = "update_row i (\<lambda>u. touch now (u\<lparr>t_status := recovered_status t\<rparr>)) db"
  let ?p = "next_position ?f (recovered_status t) None"
  have "u \<in> set (tasks db) \<Longrightarrow> t_id u \<noteq> i \<Longrightarrow> u \<in> set (tasks ?f)" for u
    by (auto simp: tasks_update_row image_iff intro: bexI[of _ u])
  then have "t_position u < ?p" if "u \<in> set (tasks db)" "t_id u \<noteq> i" "t_status u = recovered_status t" for u
    using that next_position_above[of u ?f "recovered_status t" None] by simp
  moreover have "t_id t = i" using find_task_SomeD[OF Some] by simp
  ultimately have "board_inv (update_row i (\<lambda>_. recover_row msg now ?p t) db)"
    by (intro board_inv_append[OF assms, where s = "recovered_status t" and p = ?p]) simp_all
  with Some show ?thesis by (simp add: recover_task_def Let_def)
qed

lemma find_task_recover:
  "find_task (recover_task msg now i db) j =
    (if j = i then map_option (\<lambda>t. recover_row msg now (next_position
        (update_row i (\<lambda>u. touch now (u\<lparr>t_status := recovered_status t\<rparr>)) db) (recovered_status t) None) t)
        (find_task db i)
     else find_task db j)"
proof (cases "find_task db i")
  case None
  then show ?thesis by (auto simp: recover_task_def)
next
  case (Some t)
  then have "t_id t = i" using find_task_SomeD by blast
  with Some show ?thesis
    by (auto simp: recover_task_def Let_def find_task_update_row)
qed

lemma ids_recover: "ids (recover_task msg now i db) = ids db"
  by (auto simp: recover_task_def Let_def ids_update_row dest: find_task_SomeD split: option.splits)

interpretation recover: row_step "recover_task msg now" for msg now
  by unfold_locales (auto simp: find_task_recover ids_recover recover_keeps_inv)

lemma stale_subset_rows: "mset (stale_tasks c db) \<subseteq># mset (tasks db)"
  by (simp add: stale_tasks_def mset_filter multiset_filter_subset)

lemmas stale_task_ids = selection_ids[OF _ stale_subset_rows]

lemma recover_zombie_keeps_inv: "board_inv db \<Longrightarrow> board_inv (snd (recover_zombie_tasks now db))"
  using recover.fold_inv stale_task_ids(2) by (simp add: recover_zombie_tasks_def Let_def)

lemma recover_fold_row:
  assumes "board_inv db" "t \<in> set (stale_tasks c db)"
  shows "\<exists>p. find_task (fold (recover_task (zombie_message now) now) (map t_id (stale_tasks c db)) db) (t_id t) = Some (recover_row (zombie_message now) now p t)"
proof -
  let ?is = "map t_id (stale_tasks c db)"
  note d = stale_task_ids[OF assms(1), of c]
  have row: "find_task db (t_id t) = Some t"
    using assms find_task_unique[OF board_invD(1)[OF assms(1)], of t] by (simp add: stale_tasks_def)
  obtain k where k: "k < length ?is" "t_id t = ?is ! k"
    using assms(2) by (metis in_set_conv_nth length_map nth_map)
  show ?thesis
    using recover.fold_at[OF d(1) k(1), of "zombie_message now" now db]
      recover.fold_before[OF d(1) k(1), of "zombie_message now" now db] row k(2)
    by (auto simp: find_task_recover)
qed

lemma recover_orphaned_inv: "board_inv db \<Longrightarrow> recover_orphaned_task now s db = Inr db' \<Longrightarrow> board_inv db'"
  by (auto simp: recover_orphaned_task_def recover_keeps_inv split: option.splits if_splits)

lemma cleanup_orphaned_inv: "board_inv db \<Longrightarrow> board_inv (cleanup_orphaned_jobs now labels db)"
  unfolding cleanup_orphaned_jobs_def
proof (induction labels arbitrary: db)
  case (Cons l ls)
  have "board_inv (case l of None \<Rightarrow> db | Some task_id \<Rightarrow> if task_id = [] then db
      else (case recover_orphaned_task now task_id db of Inl _ \<Rightarrow> db | Inr d' \<Rightarrow> d'))"
    using Cons.prems recover_orphaned_inv by (auto split: option.splits sum.splits)
  then show ?case using Cons.IH by simp
qed simp

subsection \<open>Property\<close>

text \<open>C20. A cleanup on a consistent board: every running task that was stale leaves the running
  state, to the scheduled column with one more retry and a start time 1 to 16 minutes ahead that
  doubles with each retry, or to review once five retries are used; no stale running task is left;
  no other task changes; the count is right and the board stays consistent.\<close>

theorem recover_zombie_tasks_spec:
  assumes "board_inv db" "recover_zombie_tasks now db = (n, db')"
    "\<forall>t \<in> set (tasks db). 0 \<le> t_retry_count t"
  shows "n = length (filter (is_stale (now - seconds 300)) (tasks db)) \<and> board_inv db' \<and>
    (\<forall>t \<in> set (tasks db'). \<not> is_stale (now - seconds 300) t) \<and>
    (\<forall>t \<in> set (tasks db). is_stale (now - seconds 300) t \<longrightarrow>
       (\<exists>t'. find_task db' (t_id t) = Some t' \<and> t_heartbeat_at t' = None \<and>
         (if t_retry_count t < 5 then t_status t' = Scheduled \<and> t_retry_count t' = t_retry_count t + 1 \<and>
            t_execute_at t' = Some (now + minutes (2 ^ nat (t_retry_count t))) \<and>
            1 \<le> (2::int) ^ nat (t_retry_count t) \<and> (2::int) ^ nat (t_retry_count t) \<le> 16
          else t_status t' = Review \<and> t_retry_count t' = t_retry_count t))) \<and>
    (\<forall>j t. find_task db j = Some t \<longrightarrow> \<not> is_stale (now - seconds 300) t \<longrightarrow> find_task db' j = Some t)"
proof -
  let ?c = "now - seconds 300"
  let ?is = "map t_id (stale_tasks ?c db)"
  let ?f = "fold (recover_task (zombie_message now) now) ?is db"
  from assms(2) have n: "n = length ?is" and db': "db' = fold (publish ''task_updated'') ?is ?f"
    by (auto simp: recover_zombie_tasks_def ZOMBIE_TIMEOUT_SECONDS_def Let_def)
  have inv: "board_inv db'" using recover_zombie_keeps_inv[OF assms(1), of now] assms(2) by simp
  have stale: "\<exists>p. find_task db' (t_id t) = Some (recover_row (zombie_message now) now p t)"
    if "t \<in> set (tasks db)" "is_stale ?c t" for t
    using recover_fold_row[OF assms(1), of t ?c now] that by (simp add: db' stale_tasks_def)
  have keep: "find_task db' j = Some t" if "find_task db j = Some t" "\<not> is_stale ?c t" for j t
  proof -
    have "j \<notin> set ?is"
      using that find_task_unique[OF board_invD(1)[OF assms(1)]] by (auto simp: stale_tasks_def)
    from recover.fold_other[OF this, of "zombie_message now" now db] that(1) show ?thesis by (simp add: db')
  qed
  have pow: "(1::int) \<le> 2 ^ m" for m by simp
  have pow16: "(2::int) ^ nat r \<le> 16" if "0 \<le> r" "r < 5" for r
  proof -
    have "(2::int) ^ nat r \<le> 2 ^ 4" using that by (intro power_increasing) simp_all
    then show ?thesis by simp
  qed
  have none: "\<not> is_stale ?c t" if "t \<in> set (tasks db')" for t
  proof -
    have f: "find_task db' (t_id t) = Some t" using find_task_unique[OF board_invD(1)[OF inv] that] .
    have "ids db' = ids db" using recover.fold_ids[of "zombie_message now" now ?is db] by (simp add: db')
    moreover have "t_id t \<in> set (ids db')" using that by (simp add: ids_def)
    ultimately have "t_id t \<in> set (ids db)" by simp
    then obtain u where u: "find_task db (t_id t) = Some u" using find_task_None[of db "t_id t"] by blast
    note uD = find_task_SomeD[OF u]
    show ?thesis
    proof (cases "is_stale ?c u")
      case True
      then obtain p where "t = recover_row (zombie_message now) now p u" using stale[of u] uD f by auto
      then show ?thesis using recovered_columns[of u] by (auto simp: is_stale_def)
    next
      case False
      with keep[OF u] f show ?thesis by simp
    qed
  qed
  have rec: "\<exists>t'. find_task db' (t_id t) = Some t' \<and> t_heartbeat_at t' = None \<and>
         (if t_retry_count t < 5 then t_status t' = Scheduled \<and> t_retry_count t' = t_retry_count t + 1 \<and>
            t_execute_at t' = Some (now + minutes (2 ^ nat (t_retry_count t))) \<and>
            1 \<le> (2::int) ^ nat (t_retry_count t) \<and> (2::int) ^ nat (t_retry_count t) \<le> 16
          else t_status t' = Review \<and> t_retry_count t' = t_retry_count t)"
    if "t \<in> set (tasks db)" "is_stale ?c t" for t
    using stale[OF that] assms(3) that(1) pow pow16
    by (auto simp: recover_row_def MAX_RETRIES_def backoff_minutes_def)
  show ?thesis using n inv none rec keep by (simp add: stale_tasks_def)
qed

definition zombie_db :: db where
  "zombie_db = sample_db\<lparr>tasks :=
     [(sample_task 1 Running 3)\<lparr>t_heartbeat_at := Some 0, t_retry_count := 2\<rparr>,
      (sample_task 2 Running 3)\<lparr>t_retry_count := 5\<rparr>, sample_task 4 Review 1]\<rparr>"

lemma zombie_db_inv: "board_inv zombie_db"
  by code_simp

theorem recover_zombie_tasks_spec_witness:
  "fst (recover_zombie_tasks (seconds 400) zombie_db) = 2 \<and>
   (\<exists>t u. find_task (snd (recover_zombie_tasks (seconds 400) zombie_db)) 1 = Some t \<and>
      t_status t = Scheduled \<and> t_retry_count t = 3 \<and> t_execute_at t = Some (seconds 400 + minutes 4) \<and>
      find_task (snd (recover_zombie_tasks (seconds 400) zombie_db)) 2 = Some u \<and> t_status u = Review)"
proof -
  obtain n db' where r: "recover_zombie_tasks (seconds 400) zombie_db = (n, db')"
    by (cases "recover_zombie_tasks (seconds 400) zombie_db")
  have nn: "\<forall>t \<in> set (tasks zombie_db). 0 \<le> t_retry_count t" by code_simp
  note spec = recover_zombie_tasks_spec[OF zombie_db_inv r nn]
  let ?a = "(sample_task 1 Running 3)\<lparr>t_heartbeat_at := Some 0, t_retry_count := 2\<rparr>"
  let ?b = "(sample_task 2 Running 3)\<lparr>t_retry_count := 5\<rparr>"
  have m: "?a \<in> set (tasks zombie_db)" "?b \<in> set (tasks zombie_db)" by (simp_all add: zombie_db_def)
  have st: "is_stale (seconds 400 - seconds 300) ?a" "is_stale (seconds 400 - seconds 300) ?b"
    "length (filter (is_stale (seconds 400 - seconds 300)) (tasks zombie_db)) = 2" by code_simp+
  have "n = 2" using spec st(3) by simp
  moreover obtain t where "find_task db' 1 = Some t" "t_status t = Scheduled" "t_retry_count t = 3"
    "t_execute_at t = Some (seconds 400 + minutes 4)"
    using spec m(1) st(1) by (fastforce simp: sample_task_def)
  moreover obtain u where "find_task db' 2 = Some u" "t_status u = Review"
    using spec m(2) st(2) by (fastforce simp: sample_task_def)
  ultimately show ?thesis by (simp add: r)
qed

end
