(* ===== verification/Lifecycle.thy ===== *)
theory Lifecycle
  imports Mcp_Tasks Zombie_Cleanup
begin

text \<open>
  The life of the board as a whole: every operation of the API, the MCP server, the scheduler, the zombie
  cleanup, the startup cleanup and the workers is one step of \<open>board_step\<close>, at any instant and
  with any parameters, and the reachable boards are those any interleaving of them leads to.
  \<open>evolves\<close> says what no step does to a row that is there.
\<close>

subsection \<open>How rows evolve\<close>

definition same_task :: "task \<Rightarrow> task \<Rightarrow> bool" where
  "same_task t t' \<longleftrightarrow> t_id t' = t_id t \<and> t_created_at t' = t_created_at t \<and>
     t_created_by t' = t_created_by t \<and> t_is_eval t' = t_is_eval t \<and> t_encrypted_env t' = t_encrypted_env t \<and>
     (0 \<le> t_retry_count t \<longrightarrow> 0 \<le> t_retry_count t')"

definition evolves :: "db \<Rightarrow> db \<Rightarrow> bool" where
  "evolves db db' \<longleftrightarrow> (\<forall>i t. find_task db i = Some t \<longrightarrow> (\<exists>t'. find_task db' i = Some t' \<and> same_task t t'))"

lemma same_task_refl [simp]: "same_task t t"
  by (simp add: same_task_def)

lemma same_task_trans: "same_task a b \<Longrightarrow> same_task b c \<Longrightarrow> same_task a c"
  by (simp add: same_task_def)

lemma evolves_refl [simp]: "evolves db db"
  by (auto simp: evolves_def)

lemma evolves_trans: "evolves a b \<Longrightarrow> evolves b c \<Longrightarrow> evolves a c"
  unfolding evolves_def by (meson same_task_trans)

lemma evolves_same_rows: "tasks db' = tasks db \<Longrightarrow> evolves db db'"
  unfolding evolves_def using find_task_cong[of db' db] by auto

lemma evolves_publish [simp]:
  "evolves db (publish k i db') = evolves db db'" "evolves db (emit e db') = evolves db db'"
  "evolves db (publish_response k i c db') = evolves db db'"
  "evolves db (add_tag db' i n) = evolves db db'" "evolves db (remove_tag db' i n) = evolves db db'"
  by (simp_all add: evolves_def find_task_cong[of "emit e db'" db'])

lemma evolves_fold_publish [simp]: "evolves db (fold (publish k) is db') = evolves db db'"
  by (simp add: evolves_def)

lemma evolves_update_row:
  assumes "\<And>t. find_task db i = Some t \<Longrightarrow> same_task t (f t)" "keeps_at i f"
  shows "evolves db (update_row i f db)"
  unfolding evolves_def using assms(1) by (auto simp: find_task_update_row[OF assms(2)])

lemma evolves_append: "tasks db' = tasks db @ ts \<Longrightarrow> evolves db db'"
  unfolding evolves_def by (auto simp: find_task_def find_append_Some intro: exI[of _ "_ :: task"])

lemma evolves_fold:
  assumes "\<And>i d. evolves d (step i d)"
  shows "evolves db (fold step is db)"
proof (induction "is" arbitrary: db)
  case (Cons i "is")
  then show ?case using evolves_trans[OF assms[where i = i and d = db] Cons.IH] by simp
qed simp

subsection \<open>Every operation lets rows evolve\<close>

lemma same_task_touch [simp]: "same_task t (touch now u) = same_task t u"
  by (simp add: same_task_def touch_def)

lemma same_task_flush [simp]: "same_task t (flush_row now t u) = same_task t u"
  by (auto simp: flush_row_def)

lemma evolves_delete: "delete_task now i db = Inr db' \<Longrightarrow> evolves db db'"
proof -
  have "evolves db (update_row i (\<lambda>t. flush_row now t (t\<lparr>t_status := Deleted\<rparr>)) db)"
    by (rule evolves_update_row) (simp_all add: keeps_at_def, simp add: same_task_def)
  then show "delete_task now i db = Inr db' \<Longrightarrow> evolves db db'"
    by (auto simp: delete_task_def split: option.splits)
qed

lemma dequeue_task_in: "dequeue_task db = Some t \<Longrightarrow> t \<in> set (tasks db) \<and> t_status t = Pending"
proof -
  assume "dequeue_task db = Some t"
  then obtain r where r: "sort_key (\<lambda>t. (t_position t, t_created_at t)) (column db Pending) = t # r"
    by (auto simp: dequeue_task_def split: list.splits)
  have "t \<in> set (sort_key (\<lambda>t. (t_position t, t_created_at t)) (column db Pending))" unfolding r by simp
  then show ?thesis by (simp add: column_def)
qed

lemma evolves_create: "create_task_from_fields now a db = Inr (i, db') \<Longrightarrow> board_inv db \<Longrightarrow> evolves db db'"
  using create_task_from_fields_cases[where now = now and a = a and db = db] by (auto intro: evolves_append)

lemma evolves_create_task: "create_task now cl e inp db = Inr (i, db') \<Longrightarrow> board_inv db \<Longrightarrow> evolves db db'"
  using create_task_via_fields evolves_create by blast

lemma patch_place_shape: "patch_place now p t t1 db = (db1, t2) \<Longrightarrow> \<exists>pos. t2 = t1\<lparr>t_position := pos\<rparr>"
proof -
  assume "patch_place now p t t1 db = (db1, t2)"
  then have "t2 = t1 \<or> (\<exists>pos. t2 = t1\<lparr>t_position := pos\<rparr>)"
    by (auto simp: patch_place_def Let_def split: option.splits if_splits)
  moreover have "t1 = t1\<lparr>t_position := t_position t1\<rparr>" by simp
  ultimately show ?thesis by metis
qed

lemma same_task_patch:
  assumes "patch_place now p t (patch_head e p t) db = (db1, t2)" "patch_profile p db2 (patch_fields p t2) = Inr t4"
  shows "same_task t t4"
proof -
  have si: "same_task t (set_if v f u) = same_task t u" if "\<And>x w. same_task t (f x w) = same_task t w" for v f u
    using that by (cases v) (simp_all add: set_if_def)
  have h: "same_task t (patch_head e p t)"
    unfolding patch_head_def by (subst si, simp add: same_task_def)+ (simp add: same_task_def)
  obtain pos where "t2 = (patch_head e p t)\<lparr>t_position := pos\<rparr>"
    using patch_place_shape[OF assms(1)] by blast
  then have "same_task t t2" using h by (simp add: same_task_def)
  then have "same_task t (patch_fields p t2)"
    unfolding patch_fields_def by (subst si, simp add: same_task_def)+
  then show ?thesis
    using assms(2) unfolding patch_profile_def
    by (cases "u_profile_id p"; cases "parse_uuid (the (u_profile_id p))")
      (auto simp: same_task_def split: if_splits)
qed

lemma evolves_shift: "evolves db (shift_rows now s i old new db)"
  unfolding evolves_def
  by (auto simp: find_task_shift_rows same_task_def shifted_def touch_def)

lemma evolves_update: "update_task now e p i db = Inr db' \<Longrightarrow> evolves db db'"
proof -
  assume "update_task now e p i db = Inr db'"
  then obtain t db1 t2 db2 t4 where
    t: "find_task db i = Some t"
    and place: "patch_place now p t (patch_head e p t) db = (db1, t2)"
    and sync: "(case u_tags p of None \<Rightarrow> Inr db1 | Some names \<Rightarrow> sync_tags db1 i names) = Inr db2"
    and prof: "patch_profile p db2 (patch_fields p t2) = Inr t4"
    and db': "db' = publish_response ''task_updated'' i None (update_row i (\<lambda>_. flush_row now t t4) db2)"
    by (rule update_task_cases)
  have s: "same_task t (flush_row now t t4)" using same_task_patch[OF place prof] by simp
  then have k: "keeps_at i (\<lambda>_. flush_row now t t4)"
    using find_task_SomeD[OF t] by (simp add: same_task_def)
  have "evolves db db1"
    using place evolves_shift by (auto simp: patch_place_def Let_def split: option.splits if_splits)
  moreover have rows: "tasks db2 = tasks db1"
    using sync sync_tags_frame by (cases "u_tags p") auto
  ultimately have e2: "evolves db db2" using find_task_cong[OF rows] by (simp add: evolves_def)
  have "\<exists>t'. find_task (update_row i (\<lambda>_. flush_row now t t4) db2) j = Some t' \<and> same_task u t'"
    if u: "find_task db j = Some u" for j u
  proof -
    obtain u' where u': "find_task db2 j = Some u'" "same_task u u'" using e2 u by (auto simp: evolves_def)
    show ?thesis
    proof (cases "j = i")
      case True
      then have "u = t" using u t by simp
      then show ?thesis using True s u' by (simp add: find_task_update_row[OF k])
    next
      case False
      then show ?thesis using u' by (simp add: find_task_update_row[OF k])
    qed
  qed
  then show ?thesis unfolding db' by (simp add: evolves_def)
qed

lemma evolves_promote: "evolves db (snd (promote_due_tasks now db))"
proof -
  have "evolves d (promote_task now i d)" for i d
    unfolding promote_task_def Let_def by (rule evolves_update_row) (simp_all add: same_task_def keeps_at_def)
  then show ?thesis by (simp add: promote_due_tasks_def Let_def evolves_fold)
qed

lemma evolves_archive: "archive_completed_tasks st now db = Inr (n, db') \<Longrightarrow> evolves db db'"
proof -
  have "evolves d (archive_task now i d)" for i d
    unfolding archive_task_def by (rule evolves_update_row) (simp_all add: same_task_def keeps_at_def)
  then show "archive_completed_tasks st now db = Inr (n, db') \<Longrightarrow> evolves db db'"
    by (auto simp: archive_completed_tasks_def bind_res_eq_Inr Let_def evolves_fold)
qed

lemma same_task_recover: "same_task t (recover_row msg now p t)"
  by (simp add: recover_row_def same_task_def)

lemma evolves_recover: "evolves db (recover_task msg now i db)"
  unfolding evolves_def by (auto simp: find_task_recover same_task_recover)

lemma evolves_zombies: "evolves db (snd (recover_zombie_tasks now db))"
  by (simp add: recover_zombie_tasks_def Let_def evolves_fold evolves_recover)

lemma evolves_orphan: "recover_orphaned_task now s db = Inr db' \<Longrightarrow> evolves db db'"
  by (auto simp: recover_orphaned_task_def evolves_recover split: option.splits if_splits)

lemma evolves_dispatch:
  assumes "board_inv db"
  shows "evolves db (snd (poll_and_dispatch now n db))"
proof (cases "dequeue_task db")
  case (Some t)
  from dequeue_task_in[OF Some] find_task_unique[OF board_invD(1)[OF assms]]
  have row: "find_task db (t_id t) = Some t" by blast
  let ?t = "touch now (t\<lparr>t_status := Running, t_heartbeat_at := Some now, t_updated_by := Some ''system''\<rparr>)"
  have "same_task t ?t" by (simp, simp add: same_task_def)
  then have "evolves db (update_row (t_id t) (\<lambda>_. ?t) db)"
    by (intro evolves_update_row) (auto simp: row same_task_def)
  with Some show ?thesis by (simp add: poll_and_dispatch_def Let_def)
qed (simp add: poll_and_dispatch_def)

lemma dispatch_inv:
  assumes "board_inv db"
  shows "board_inv (snd (poll_and_dispatch now n db))"
proof (cases "dequeue_task db")
  case (Some t)
  let ?t = "touch now (t\<lparr>t_status := Running, t_heartbeat_at := Some now, t_updated_by := Some ''system''\<rparr>)"
  have "board_inv (update_row (t_id t) (\<lambda>_. ?t) db)"
    by (rule board_inv_leave[OF assms]) (simp_all add: touch_def board_columns_def)
  with Some assms show ?thesis by (simp add: poll_and_dispatch_def Let_def)
qed (simp add: poll_and_dispatch_def assms)

lemma evolves_heartbeat: "evolves db (heartbeat now i db)"
  unfolding heartbeat_def
  by (rule evolves_update_row) (simp, simp add: same_task_def, simp add: keeps_at_def touch_def)

lemma heartbeat_inv: "board_inv db \<Longrightarrow> board_inv (heartbeat now i db)"
  unfolding heartbeat_def
  by (rule board_inv_keep_row) (simp_all add: keeps_id_def keeps_place_def touch_def)

lemma same_task_retry: "0 \<le> t_retry_count c \<Longrightarrow> same_task t (retry_row now p c out logs t)"
  by (simp add: same_task_def retry_row_def set_some_def split: option.splits)

lemma evolves_escalate:
  assumes "find_task db i = Some t" 
  shows "evolves db (escalate_to_review_failed m now t out logs db)"
proof -
  let ?f = "\<lambda>u. set_some logs (\<lambda>v. t_runner_logs_update (\<lambda>_. v))
      (u\<lparr>t_status := Review, t_position := next_position db Review None,
         t_output := Some (escalation_message m out), t_retry_count := t_retry_count t + 1,
         t_updated_by := Some ''system'', t_updated_at := now\<rparr>)"
  have "evolves db (update_row i ?f db)"
  proof (rule evolves_update_row)
    fix u assume "find_task db i = Some u"
    then have "u = t" using assms by simp
    then show "same_task u (?f u)" by (simp add: same_task_def set_some_def split: option.splits)
  qed (simp add: keeps_at_def)
  then show ?thesis
    using find_task_SomeD[OF assms] by (simp add: escalate_to_review_failed_def Let_def)
qed

lemma evolves_retry: "evolves db (fst (schedule_retry setting now i out logs db))"
proof (cases "find_task db i")
  case (Some t)
  show ?thesis
  proof (cases "get_max_retry_attempts setting")
    case (Inr m)
    have "evolves db (update_row i (retry_row now p t out logs) db)" for p
    proof (rule evolves_update_row)
      fix u assume "find_task db i = Some u"
      then have "u = t" using Some by simp
      then show "same_task u (retry_row now p t out logs u)"
        by (simp add: same_task_def retry_row_def set_some_def split: option.splits)
    qed (simp add: keeps_at_def)
    then show ?thesis using evolves_escalate[OF Some] by (simp add: schedule_retry_eq[OF Some Inr])
  qed (simp add: schedule_retry_def Some)
qed (simp add: schedule_retry_def)

lemma evolves_reschedule:
  assumes "board_inv db" "q_tag_ids q = tag_ids_of db i"
  shows "evolves db (fst (reschedule_if_repeating now q db))"
proof -
  have "evolves db (cloned now ex q db)" for ex
    by (rule evolves_append[where ts = "[next_occurrence now ex q db]"]) (simp add: cloned_def)
  then show ?thesis by (simp add: reschedule_eq[OF assms] split: sum.splits option.splits)
qed

lemma evolves_finish:
  assumes "board_inv db"
  shows "evolves db (fst (finish_task now q r e db))"
proof (cases "find_task db (q_task_id q)")
  case (Some t)
  have "evolves db (update_row (q_task_id q) (finish_row now s p r e) db)" for s p
    by (rule evolves_update_row) (simp_all add: same_task_def finish_row_def keeps_at_def)
  then have f: "evolves db (finished_db now q r e db)" by (simp add: finished_db_def Let_def)
  show ?thesis
    using f evolves_trans[OF f evolves_reschedule[OF finished_inv[OF assms Some] from_orm_tags]] find_task_SomeD[OF Some]
    by (simp add: finish_task_eq[OF Some])
qed (simp add: finish_task_def)

lemma evolves_git: "evolves db (fst (handle_git_error setting now i s db))"
proof (cases "find_task db i")
  case (Some t)
  have "evolves d (update_row i (\<lambda>t. t\<lparr>t_status := Review, t_position := p, t_output := Some s,
      t_updated_by := Some ''system'', t_updated_at := now\<rparr>) d)" for d p
    by (rule evolves_update_row) (simp_all add: same_task_def keeps_at_def)
  from evolves_trans[OF _ this] evolves_retry show ?thesis
    using Some by (simp add: handle_git_error_def Let_def)
qed (simp add: handle_git_error_def)

lemma evolves_run:
  assumes "board_inv db"
  shows "evolves db (fst (run_task validate setting now q outcome db))"
proof (cases outcome)
  case (Exited code out err)
  have *: "evolves db (fst (case a of (db1, None) \<Rightarrow> (db1, None)
      | (db1, Some x) \<Rightarrow> schedule_retry setting now i None None db1))" if "evolves db (fst a)"
    for a :: "db \<times> py_error option" and i
    using that evolves_trans[OF that evolves_retry] by (cases a) (auto split: option.splits)
  show ?thesis
    unfolding run_task_def Exited Let_def process_result.case
    by (rule *) (use evolves_retry evolves_finish[OF assms] in \<open>auto split: option.splits\<close>)
qed (use evolves_retry evolves_git in \<open>simp_all add: run_task_def Let_def\<close>)

lemma evolves_mcp:
  "new_task now asked encrypt client n db = Inr (i, db') \<Longrightarrow> evolves db db'"
  "schedule_task now classify encrypt client s db = Inr (i, db') \<Longrightarrow> evolves db db'"
  "delete_task_profile name db = (b, db') \<Longrightarrow> evolves db db'"
proof -
  have add: "add_mcp_task now f db = (i, db') \<Longrightarrow> evolves db db'" for f
    using add_mcp_task_rows by (blast intro: evolves_append)
  show "new_task now asked encrypt client n db = Inr (i, db') \<Longrightarrow> evolves db db'"
    by (elim new_task_shape) (rule add)
  show "schedule_task now classify encrypt client s db = Inr (i, db') \<Longrightarrow> evolves db db'"
    by (elim schedule_task_shape) (rule add)
  have "evolves db (drop_profile p db)" for p
    unfolding evolves_def find_task_def by (auto simp: drop_profile_def tasks_update_where find_map comp_def same_task_def)
  then show "delete_task_profile name db = (b, db') \<Longrightarrow> evolves db db'"
    by (auto simp: delete_task_profile_def split: if_splits option.splits)
qed

subsection \<open>The reachable boards\<close>

text \<open>A profile is added by its own handler; its id is fresh.\<close>

definition add_profile :: "nat \<Rightarrow> string \<Rightarrow> db \<Rightarrow> db" where
  "add_profile p name db = db\<lparr>profiles := profiles db @ [(p, name)]\<rparr>"

inductive board_step :: "db \<Rightarrow> db \<Rightarrow> bool" where
  create: "create_task now classify email inp db = Inr (i, db') \<Longrightarrow> board_step db db'"
| create_from_fields: "create_task_from_fields now a db = Inr (i, db') \<Longrightarrow> board_step db db'"
| edit: "update_task now email p i db = Inr db' \<Longrightarrow> board_step db db'"
| remove: "delete_task now i db = Inr db' \<Longrightarrow> board_step db db'"
| profile: "p \<notin> fst ` set (profiles db) \<Longrightarrow> board_step db (add_profile p name db)"
| mcp_new: "new_task now asked encrypt client n db = Inr (i, db') \<Longrightarrow> board_step db db'"
| mcp_schedule: "schedule_task now classify encrypt client s db = Inr (i, db') \<Longrightarrow> board_step db db'"
| drop_eval_profile: "delete_task_profile name db = (b, db') \<Longrightarrow> board_step db db'"
| promote: "promote_due_tasks now db = (n, db') \<Longrightarrow> board_step db db'"
| archive: "archive_completed_tasks setting now db = Inr (n, db') \<Longrightarrow> board_step db db'"
| zombies: "recover_zombie_tasks now db = (n, db') \<Longrightarrow> board_step db db'"
| orphan: "recover_orphaned_task now s db = Inr db' \<Longrightarrow> board_step db db'"
| dispatch: "poll_and_dispatch now permits db = (q, db') \<Longrightarrow> board_step db db'"
| beat: "board_step db (heartbeat now i db)"
| run: "run_task validate setting now q outcome db = (db', e) \<Longrightarrow> board_step db db'"

inductive board_reachable :: "db \<Rightarrow> bool" where
  start: "board_reachable empty_db"
| step: "board_reachable db \<Longrightarrow> board_step db db' \<Longrightarrow> board_reachable db'"

lemma board_step_inv: "board_step db db' \<Longrightarrow> board_inv db \<Longrightarrow> board_inv db'"
proof (induction rule: board_step.induct)
  case (create now classify email inp db i db')
  then show ?case by (blast intro: create_task_keeps_inv)
next
  case (create_from_fields now a db i db')
  then show ?case using create_task_from_fields_cases[where db = db and now = now and a = a] by simp
next
  case (edit now email p i db db')
  then show ?case by (blast intro: update_task_keeps_inv)
next
  case (remove now i db db')
  then show ?case by (blast intro: delete_task_keeps_inv)
next
  case (profile p db name)
  then show ?case by (simp add: add_profile_def board_inv_def ids_def tag_inv_def links_inv_def)
next
  case (mcp_new now asked encrypt client n db i db')
  then show ?case by (blast intro: mcp_keeps_inv)
next
  case (mcp_schedule now classify encrypt client s db i db')
  then show ?case by (blast intro: mcp_keeps_inv)
next
  case (drop_eval_profile name db b db')
  then show ?case by (blast intro: mcp_keeps_inv)
next
  case (promote now db n db')
  then show ?case using promote_due_keeps_inv[of db now] by simp
next
  case (archive setting now db n db')
  then show ?case by (blast intro: archive_completed_keeps_inv)
next
  case (zombies now db n db')
  then show ?case using recover_zombie_keeps_inv[of db now] by simp
next
  case (orphan now s db db')
  then show ?case by (blast intro: recover_orphaned_inv)
next
  case (dispatch now permits db q db')
  then show ?case using dispatch_inv[of db now permits] by simp
next
  case (beat db now i)
  then show ?case by (rule heartbeat_inv)
next
  case (run validate setting now q outcome db db' e)
  then show ?case using run_task_inv[of db validate setting now q outcome] by simp
qed

lemma board_step_evolves: "board_step db db' \<Longrightarrow> board_inv db \<Longrightarrow> evolves db db'"
proof (induction rule: board_step.induct)
  case (create now classify email inp db i db')
  then show ?case by (blast intro: evolves_create_task)
next
  case (create_from_fields now a db i db')
  then show ?case by (blast intro: evolves_create)
next
  case (edit now email p i db db')
  then show ?case by (blast intro: evolves_update)
next
  case (remove now i db db')
  then show ?case by (blast intro: evolves_delete)
next
  case (profile p db name)
  show ?case by (rule evolves_same_rows) (simp add: add_profile_def)
next
  case (mcp_new now asked encrypt client n db i db')
  then show ?case by (blast intro: evolves_mcp)
next
  case (mcp_schedule now classify encrypt client s db i db')
  then show ?case by (blast intro: evolves_mcp)
next
  case (drop_eval_profile name db b db')
  then show ?case by (blast intro: evolves_mcp)
next
  case (promote now db n db')
  then show ?case using evolves_promote[of db now] by simp
next
  case (archive setting now db n db')
  then show ?case by (blast intro: evolves_archive)
next
  case (zombies now db n db')
  then show ?case using evolves_zombies[of db now] by simp
next
  case (orphan now s db db')
  then show ?case by (blast intro: evolves_orphan)
next
  case (dispatch now permits db q db')
  then show ?case using evolves_dispatch[of db now permits] by simp
next
  case (beat db now i)
  show ?case by (rule evolves_heartbeat)
next
  case (run validate setting now q outcome db db' e)
  then show ?case using evolves_run[of db validate setting now q outcome] by simp
qed

lemma board_inv_empty: "board_inv empty_db"
  by (simp add: board_inv_def empty_db_def ids_def tag_inv_def links_inv_def distinct_positions_def)

lemma reachable_inv: "board_reachable db \<Longrightarrow> board_inv db"
  by (induction rule: board_reachable.induct) (auto intro: board_inv_empty board_step_inv)

subsection \<open>Properties\<close>


definition scheduled_args :: create_args where
  "scheduled_args = \<lparr>c_title = ''t'', c_description = None, c_category = ''scheduled'',
     c_execute_at = Some 5, c_repeat_interval = None, c_repeat_until = None, c_profile_id = None,
     c_created_by = None, c_tag_names = [''urgent''], c_classification = None\<rparr>"

definition two_step_db :: db where
  "two_step_db = snd (promote_due_tasks 9 (snd (case create_task_from_fields 1 scheduled_args empty_db of Inr r \<Rightarrow> r)))"

lemma two_step_reachable: "board_reachable two_step_db"
proof -
  have c: "create_task_from_fields 1 scheduled_args empty_db =
      Inr (case create_task_from_fields 1 scheduled_args empty_db of Inr r \<Rightarrow> r)"
    using create_task_from_fields_cases[OF board_inv_empty, where now = 1 and a = scheduled_args]
    by (auto simp: scheduled_args_def profile_exists_def split: sum.splits)
  then have "board_step empty_db (snd (case create_task_from_fields 1 scheduled_args empty_db of Inr r \<Rightarrow> r))"
    by (metis board_step.create_from_fields prod.collapse)
  with board_reachable.start have "board_reachable (snd (case create_task_from_fields 1 scheduled_args empty_db of Inr r \<Rightarrow> r))"
    by (rule board_reachable.step)
  then show ?thesis
    unfolding two_step_db_def by (rule board_reachable.step) (rule board_step.promote[OF surjective_pairing])
qed


text \<open>C6. No operation loses or reassigns a task: on a consistent board, after any step every row is
  still there with the same id, creator, creation time, eval mark and stored credentials, and a
  retry count that was not negative still is not.\<close>

theorem tasks_are_never_lost:
  assumes "board_reachable db" "board_step db db'" "find_task db i = Some t"
  shows "\<exists>t'. find_task db' i = Some t' \<and> t_created_by t' = t_created_by t \<and>
    t_created_at t' = t_created_at t \<and> t_is_eval t' = t_is_eval t \<and> t_encrypted_env t' = t_encrypted_env t \<and>
    (0 \<le> t_retry_count t \<longrightarrow> 0 \<le> t_retry_count t')"
  using board_step_evolves[OF assms(2) reachable_inv[OF assms(1)]] assms(3)
  unfolding evolves_def same_task_def by blast

theorem tasks_are_never_lost_witness:
  "\<exists>t t'. find_task two_step_db 1 = Some t \<and> find_task (heartbeat 12 1 two_step_db) 1 = Some t' \<and>
     t_created_at t' = t_created_at t"
proof -
  have "find_task two_step_db 1 \<noteq> None" by code_simp
  then obtain t where t: "find_task two_step_db 1 = Some t" by blast
  from tasks_are_never_lost[OF two_step_reachable board_step.beat[of two_step_db 12 1] t] t
  show ?thesis by blast
qed

end
