(* ===== verification/Runner_Sanitize.thy ===== *)
theory Runner_Sanitize
  imports Py_Json_Dumps Llm_Classifier
begin

text \<open>
  The first two stages of the model-input filter of \<open>task-runner/main.py\<close>, over input items as
  decoded JSON: \<open>_sanitize_tool_calls\<close> with \<open>_repair_truncated_json\<close> (arguments cut off by an
  output limit are closed, others replaced by an error object), and \<open>_strip_screenshots\<close> (only
  the newest images stay).  Call ids used as dictionary keys are compared as JSON values; a list
  or object used as a key raises Python's TypeError.
\<close>

subsection \<open>Repairing truncated JSON\<close>

text \<open>The parity loop: whether a string literal is still open at the end.\<close>

fun open_string :: "bool \<Rightarrow> string \<Rightarrow> bool" where
  "open_string in_s [] = in_s"
| "open_string in_s [c] = (if c = backslash \<and> in_s then in_s else if c = quote_char then \<not> in_s else in_s)"
| "open_string in_s (c # d # s) =
     (if c = backslash \<and> in_s then open_string in_s s
      else open_string (if c = quote_char then \<not> in_s else in_s) (d # s))"

text \<open>The delimiter stack, its top first.\<close>

definition push_delim :: "char \<Rightarrow> string \<Rightarrow> string" where
  "push_delim c stack =
     (if c = CHR ''{'' then CHR ''}'' # stack
      else if c = CHR ''['' then CHR '']'' # stack
      else if (c = CHR ''}'' \<or> c = CHR '']'') \<and> stack \<noteq> [] \<and> hd stack = c then tl stack
      else stack)"

fun open_delims :: "bool \<Rightarrow> string \<Rightarrow> string \<Rightarrow> string" where
  "open_delims in_s stack [] = stack"
| "open_delims in_s stack (c # s) =
     (if c = backslash \<and> in_s then
        (case s of [] \<Rightarrow> stack | _ # r \<Rightarrow> open_delims in_s stack r)
      else if c = quote_char then open_delims (\<not> in_s) stack s
      else open_delims in_s (if in_s then stack else push_delim c stack) s)"

definition repair_truncated_json :: "string \<Rightarrow> string option" where
  "repair_truncated_json s =
     (if s = [] \<or> strip s = [] then None
      else if json_valid s then Some s
      else
        (let r1 = (if open_string False s then s @ [quote_char] else s);
             r2 = r1 @ open_delims False [] r1
         in if json_valid r2 then Some r2 else None))"

subsection \<open>Sanitizing tool calls\<close>

definition item_get :: "json \<Rightarrow> string \<Rightarrow> json \<Rightarrow> json" where
  "item_get m k dflt = (case json_get m k of None \<Rightarrow> dflt | Some v \<Rightarrow> v)"

definition has_type :: "string \<Rightarrow> json \<Rightarrow> bool" where
  "has_type t m = (json_get m ''type'' = Some (JStr t))"

definition item_set :: "string \<Rightarrow> json \<Rightarrow> json \<Rightarrow> json" where
  "item_set k v m = (case m of JObj d \<Rightarrow> JObj (dict_set k v d) | _ \<Rightarrow> m)"

definition hashable :: "json \<Rightarrow> bool" where
  "hashable j = (case j of JArr _ \<Rightarrow> False | JObj _ \<Rightarrow> False | _ \<Rightarrow> True)"

definition FRAGMENT_LENGTH :: nat where "FRAGMENT_LENGTH = 200"

definition placeholder_arguments :: "string \<Rightarrow> string" where
  "placeholder_arguments args =
     json_dumps (JObj [(''error'', JStr ''malformed_arguments''),
       (''original_fragment'', JStr (take FRAGMENT_LENGTH args))])"

text \<open>The arguments of an item the first loop has to replace.\<close>

definition malformed :: "json \<Rightarrow> string option" where
  "malformed m =
     (if \<not> has_type ''function_call'' m then None
      else case json_get m ''arguments'' of
          Some (JStr a) \<Rightarrow> if a = [] \<or> json_valid a then None else Some a
        | _ \<Rightarrow> None)"

text \<open>The first loop, with the ids of the repaired calls and their tools.\<close>

fun sanitize_calls :: "(json \<times> json) list \<Rightarrow> json list \<Rightarrow> py_error + json list \<times> (json \<times> json) list" where
  "sanitize_calls ids [] = Inr ([], ids)"
| "sanitize_calls ids (m # ms) =
     (case malformed m of
        None \<Rightarrow> bind_res (sanitize_calls ids ms) (\<lambda>(r, ids'). Inr (m # r, ids'))
      | Some a \<Rightarrow>
          (let call_id = item_get m ''call_id'' (JStr []); tool = item_get m ''name'' (JStr ''unknown'') in
           case repair_truncated_json a of
             Some fixed \<Rightarrow>
               if json_truthy call_id \<and> \<not> hashable call_id then Inl (TypeErr ''unhashable type'')
               else bind_res (sanitize_calls (if json_truthy call_id then dict_set call_id tool ids else ids) ms)
                 (\<lambda>(r, ids'). Inr (item_set ''arguments'' (JStr fixed) m # r, ids'))
           | None \<Rightarrow>
               bind_res (sanitize_calls ids ms)
                 (\<lambda>(r, ids'). Inr (item_set ''arguments'' (JStr (placeholder_arguments a)) m # r, ids'))))"

text \<open>The text parts of a content list, joined by a separator (\<open>str.join\<close> raises on a value that
  is not a string).\<close>

fun text_parts :: "json list \<Rightarrow> py_error + string list" where
  "text_parts [] = Inr []"
| "text_parts (p # ps) =
     (if has_type ''text'' p then
        (case item_get p ''text'' (JStr []) of
           JStr t \<Rightarrow> bind_res (text_parts ps) (\<lambda>ts. Inr (t # ts))
         | _ \<Rightarrow> Inl (TypeErr ''sequence item: expected str instance''))
      else text_parts ps)"

definition output_text :: "json \<Rightarrow> py_error + string" where
  "output_text out =
     (case out of
        JArr ps \<Rightarrow> bind_res (text_parts ps) (\<lambda>ts. Inr (join '' '' ts))
      | _ \<Rightarrow> Inr (py_str out))"

definition truncation_recovery_message :: "string \<Rightarrow> string \<Rightarrow> string" where
  "truncation_recovery_message tool_name original_output =
     ''OUTPUT TRUNCATED: Your previous tool call for '' @ [apostrophe] @ tool_name @ [apostrophe] @
     '' was truncated because your response exceeded the output token limit. '' @
     ''The arguments were cut off mid-generation, producing invalid JSON. The tool call failed.'' @
     [newline, newline] @
     ''To avoid this, split large content into multiple smaller tool calls. For example, '' @
     ''write files in sections or use append mode instead of writing everything at once.'' @
     [newline, newline] @ ''Original error: '' @ original_output"

fun inject_recovery :: "(json \<times> json) list \<Rightarrow> json list \<Rightarrow> py_error + json list" where
  "inject_recovery ids [] = Inr []"
| "inject_recovery ids (m # ms) =
     (if \<not> has_type ''function_call_output'' m then
        bind_res (inject_recovery ids ms) (\<lambda>r. Inr (m # r))
      else
        (let call_id = item_get m ''call_id'' (JStr []) in
         if \<not> hashable call_id then Inl (TypeErr ''unhashable type'')
         else case dict_get ids call_id of
             None \<Rightarrow> bind_res (inject_recovery ids ms) (\<lambda>r. Inr (m # r))
           | Some tool \<Rightarrow>
               bind_res (output_text (item_get m ''output'' (JStr []))) (\<lambda>out.
               bind_res (inject_recovery ids ms) (\<lambda>r.
                 Inr (item_set ''output''
                   (JStr (truncation_recovery_message (py_str tool) out)) m # r)))))"

definition sanitize_tool_calls :: "json list \<Rightarrow> py_error + json list" where
  "sanitize_tool_calls messages =
     bind_res (sanitize_calls [] messages) (\<lambda>(r, ids).
       if ids = [] then Inr r else inject_recovery ids r)"

subsection \<open>Retaining the newest screenshots\<close>

definition content_parts :: "json \<Rightarrow> json list" where
  "content_parts m = (case json_get m ''content'' of Some (JArr ps) \<Rightarrow> ps | _ \<Rightarrow> [])"

definition is_screenshot :: "json \<Rightarrow> bool" where
  "is_screenshot p =
     (has_type ''image_url'' p \<and>
      (case json_get p ''image_url'' of
         Some (JObj d) \<Rightarrow>
           (case map_of d ''url'' of Some (JStr u) \<Rightarrow> starts_with u ''data:image/'' | _ \<Rightarrow> False)
       | _ \<Rightarrow> False))"

definition image_locations :: "json list \<Rightarrow> (nat \<times> nat) list" where
  "image_locations ms =
     concat (map (\<lambda>i. map (Pair i)
         (filter (\<lambda>j. is_screenshot (content_parts (ms ! i) ! j)) [0..<length (content_parts (ms ! i))]))
       [0..<length ms])"

definition removed_part :: json where
  "removed_part = JObj [(''type'', JStr ''text''), (''text'', JStr ''[screenshot removed]'')]"

definition remove_image :: "nat \<times> nat \<Rightarrow> json list \<Rightarrow> json list" where
  "remove_image loc ms =
     (case loc of (i, j) \<Rightarrow>
        ms[i := item_set ''content'' (JArr ((content_parts (ms ! i))[j := removed_part])) (ms ! i)])"

definition strip_screenshots :: "int \<Rightarrow> json list \<Rightarrow> json list" where
  "strip_screenshots max_retained ms =
     (let locs = image_locations ms in
      if int (length locs) \<le> max_retained then ms
      else fold remove_image (take (nat (int (length locs) - max_retained)) locs) ms)"

subsection \<open>Lemmas on the repair\<close>

lemma push_delim_closers: "set (push_delim c stack) \<subseteq> {CHR ''}'', CHR '']''} \<union> set stack"
  by (cases stack) (auto simp: push_delim_def)

lemma open_delims_closers: "set (open_delims b stack s) \<subseteq> {CHR ''}'', CHR '']''} \<union> set stack"
proof (induction b stack s rule: open_delims.induct)
  case (2 b stack c s)
  show ?case
  proof (cases "c = backslash \<and> b")
    case True
    with 2(1) show ?thesis by (cases s) auto
  next
    case False
    then show ?thesis
      using 2(2-3)[OF False] push_delim_closers[of c stack]
      by (cases "c = quote_char"; cases b; simp del: insert_subset; blast)
  qed
qed auto

text \<open>A repair only appends: a closing quote if a string is open, then closing delimiters.\<close>

lemma repair_sound:
  assumes "repair_truncated_json s = Some r"
  shows "json_valid r"
    and "\<exists>q cs. r = s @ q @ cs \<and> q \<in> {[], [quote_char]} \<and> set cs \<subseteq> {CHR ''}'', CHR '']''}"
proof -
  show "json_valid r" using assms by (auto simp: repair_truncated_json_def Let_def split: if_splits)
  let ?q = "if open_string False s then [quote_char] else []"
  have "r = s \<or> r = s @ ?q @ open_delims False [] (s @ ?q)"
    using assms by (auto simp: repair_truncated_json_def Let_def split: if_splits)
  moreover have "set (open_delims False [] (s @ ?q)) \<subseteq> {CHR ''}'', CHR '']''}"
    using open_delims_closers[of False "[]" "s @ ?q"] by simp
  ultimately show "\<exists>q cs. r = s @ q @ cs \<and> q \<in> {[], [quote_char]} \<and> set cs \<subseteq> {CHR ''}'', CHR '']''}"
    by (metis append_Nil2 empty_subsetI insertCI list.set(1))
qed

subsection \<open>Lemmas on the sanitizer\<close>

lemma json_get_item_set [simp]:
  "json_get (item_set k v m) k' =
     (if k' = k \<and> (\<exists>d. m = JObj d) then Some v else json_get m k')"
  by (cases m) (auto simp: json_get_def item_set_def)

lemma item_set_object: "json_get m k' = Some w \<Longrightarrow> \<exists>d. m = JObj d"
  by (cases m) (auto simp: json_get_def)

lemma has_type_item_set [simp]: "k \<noteq> ''type'' \<Longrightarrow> has_type t (item_set k v m) = has_type t m"
  by (simp add: has_type_def)

lemma placeholder_valid: "json_valid (placeholder_arguments a)" "placeholder_arguments a \<noteq> []"
  by (simp_all add: placeholder_arguments_def json_dumps_valid del: json_dumps.simps)
    (simp add: dumps_str_def)

lemma malformed_fixed:
  assumes "malformed m = Some a" "json_valid b \<or> b = []"
  shows "malformed (item_set ''arguments'' (JStr b) m) = None"
proof -
  from assms(1) have "json_get m ''arguments'' = Some (JStr a)"
    by (auto simp: malformed_def split: if_splits option.splits json.splits)
  with assms(2) item_set_object[OF this] show ?thesis by (auto simp: malformed_def)
qed

lemma malformed_output: "malformed (item_set ''output'' v m) = malformed m"
  by (simp add: malformed_def)

text \<open>What the first loop does to each item, whatever the ids.\<close>

definition sanitized_item :: "json \<Rightarrow> json" where
  "sanitized_item m =
     (case malformed m of
        None \<Rightarrow> m
      | Some a \<Rightarrow> item_set ''arguments'' (JStr (case repair_truncated_json a of
            Some fixed \<Rightarrow> fixed | None \<Rightarrow> placeholder_arguments a)) m)"

lemma malformed_sanitized_item: "malformed (sanitized_item m) = None"
  by (auto simp: sanitized_item_def placeholder_valid repair_sound(1) split: option.splits
      intro!: malformed_fixed)

lemma has_type_sanitized_item [simp]: "has_type t (sanitized_item m) = has_type t m"
  by (auto simp: sanitized_item_def split: option.splits)

lemma sanitize_calls_items: "sanitize_calls ids ms = Inr (r, ids') \<Longrightarrow> r = map sanitized_item ms"
proof (induction ms arbitrary: ids r ids')
  case (Cons m ms)
  show ?case
  proof (cases "malformed m")
    case None
    with Cons.prems obtain r0 where "sanitize_calls ids ms = Inr (r0, ids')" "r = m # r0"
      by (auto simp: bind_res_eq_Inr)
    with Cons.IH None show ?thesis by (simp add: sanitized_item_def)
  next
    case (Some a)
    obtain ids0 r0 where r0: "sanitize_calls ids0 ms = Inr (r0, ids')" "r = sanitized_item m # r0"
      using Cons.prems Some
      by (cases "repair_truncated_json a")
        (auto simp: Let_def bind_res_eq_Inr sanitized_item_def split: if_splits)
    with Cons.IH[OF r0(1)] show ?thesis by simp
  qed
qed simp

lemma inject_recovery_items:
  "inject_recovery ids ms = Inr r \<Longrightarrow>
     length r = length ms \<and>
     (\<forall>i < length ms. r ! i = ms ! i \<or>
        has_type ''function_call_output'' (ms ! i) \<and> (\<exists>v. r ! i = item_set ''output'' v (ms ! i)))"
proof (induction ids ms arbitrary: r rule: inject_recovery.induct)
  case (2 ids m ms)
  then obtain r0 m' where r: "r = m' # r0" "inject_recovery ids ms = Inr r0"
      "m' = m \<or> has_type ''function_call_output'' m \<and> (\<exists>v. m' = item_set ''output'' v m)"
    by (auto simp: Let_def bind_res_eq_Inr split: if_splits option.splits)
  have "length r0 = length ms \<and> (\<forall>i < length ms. r0 ! i = ms ! i \<or>
        has_type ''function_call_output'' (ms ! i) \<and> (\<exists>v. r0 ! i = item_set ''output'' v (ms ! i)))"
    using 2 r(2) by (auto simp: Let_def split: if_splits option.splits)
  with r show ?case by (auto simp: nth_Cons split: nat.splits)
qed simp

subsection \<open>Lemmas on the screenshots\<close>

definition is_image_at :: "json list \<Rightarrow> nat \<times> nat \<Rightarrow> bool" where
  "is_image_at ms loc = (case loc of (i, j) \<Rightarrow>
     i < length ms \<and> j < length (content_parts (ms ! i)) \<and> is_screenshot (content_parts (ms ! i) ! j))"

lemma set_image_locations: "set (image_locations ms) = {loc. is_image_at ms loc}"
  by (auto simp: image_locations_def is_image_at_def)

lemma sorted_distinct_pairs:
  fixes f :: "nat \<Rightarrow> nat list"
  assumes "\<And>i. sorted (f i) \<and> distinct (f i)"
  shows "sorted (concat (map (\<lambda>i. map (Pair i) (f i)) [0..<n])) \<and>
    distinct (concat (map (\<lambda>i. map (Pair i) (f i)) [0..<n]))"
proof (induction n)
  case (Suc n)
  have "sorted (map (Pair n) (f n))"
    using assms[of n] by (auto simp: sorted_iff_nth_mono less_eq_prod_def)
  moreover have "distinct (map (Pair n) (f n))"
    using assms[of n] by (simp add: distinct_map inj_on_def)
  moreover have "\<forall>x \<in> set (concat (map (\<lambda>i. map (Pair i) (f i)) [0..<n])).
      \<forall>y \<in> set (map (Pair n) (f n)). x \<le> y \<and> x \<noteq> y"
    by (auto simp: less_eq_prod_def)
  ultimately show ?case
    using Suc unfolding upt_Suc_append[OF le0] map_append concat_append
    by (simp only: sorted_append distinct_append list.map concat.simps append_Nil2) blast
qed simp

lemma image_locations_sorted: "sorted (image_locations ms)" "distinct (image_locations ms)"
proof -
  let ?f = "\<lambda>i. filter (\<lambda>j. is_screenshot (content_parts (ms ! i) ! j)) [0..<length (content_parts (ms ! i))]"
  have "sorted (?f i) \<and> distinct (?f i)" for i by (simp add: sorted_filter[where f = id, simplified])
  from sorted_distinct_pairs[of ?f "length ms", OF this]
  show "sorted (image_locations ms)" "distinct (image_locations ms)" by (simp_all add: image_locations_def)
qed

lemma removed_part_no_image: "\<not> is_screenshot removed_part"
  by (simp add: is_screenshot_def removed_part_def has_type_def json_get_def)

lemma content_parts_removed:
  assumes "is_image_at ms (i, j)"
  shows "content_parts (item_set ''content'' (JArr ps) (ms ! i)) = ps"
proof -
  from assms have "content_parts (ms ! i) \<noteq> []" by (auto simp: is_image_at_def)
  then have "\<exists>d. ms ! i = JObj d"
    by (cases "ms ! i") (auto simp: content_parts_def json_get_def)
  then show ?thesis by (simp add: content_parts_def)
qed

lemma remove_image_at:
  assumes "is_image_at ms (i, j)"
  shows "length (remove_image (i, j) ms) = length ms"
    and "is_image_at (remove_image (i, j) ms) loc \<longleftrightarrow> is_image_at ms loc \<and> loc \<noteq> (i, j)"
proof -
  show "length (remove_image (i, j) ms) = length ms" by (simp add: remove_image_def)
  have b: "i < length ms" "j < length (content_parts (ms ! i))" using assms by (auto simp: is_image_at_def)
  obtain k l where loc: "loc = (k, l)" by (cases loc)
  have "content_parts (remove_image (i, j) ms ! k) =
      (if k = i then (content_parts (ms ! i))[j := removed_part] else content_parts (ms ! k))"
    using b content_parts_removed[OF assms] by (simp add: remove_image_def nth_list_update)
  then show "is_image_at (remove_image (i, j) ms) loc \<longleftrightarrow> is_image_at ms loc \<and> loc \<noteq> (i, j)"
    using b loc removed_part_no_image
    by (auto simp: is_image_at_def remove_image_def nth_list_update)
qed

lemma image_locations_remove:
  assumes "loc \<in> set (image_locations ms)"
  shows "image_locations (remove_image loc ms) = filter (\<lambda>l. l \<noteq> loc) (image_locations ms)"
proof (rule sorted_distinct_set_unique)
  show "set (image_locations (remove_image loc ms)) = set (filter (\<lambda>l. l \<noteq> loc) (image_locations ms))"
    using assms remove_image_at(2)[of ms "fst loc" "snd loc"] by (auto simp: set_image_locations)
qed (simp_all add: image_locations_sorted sorted_filter[where f = id, simplified])

lemma fold_remove_images:
  assumes "take n (image_locations ms) = locs" "n \<le> length (image_locations ms)"
  shows "image_locations (fold remove_image locs ms) = drop n (image_locations ms)"
    and "length (fold remove_image locs ms) = length ms"
proof -
  have "image_locations (fold remove_image locs ms) = drop n (image_locations ms) \<and>
      length (fold remove_image locs ms) = length ms"
    using assms
  proof (induction n arbitrary: ms locs)
    case (Suc n)
    then obtain l ls where il: "image_locations ms = l # ls" by (cases "image_locations ms") auto
    have r: "image_locations (remove_image l ms) = ls"
      using image_locations_remove[of l ms] image_locations_sorted(2)[of ms] il
      by (auto simp: filter_id_conv)
    have "l \<in> set (image_locations ms)" using il by simp
    then have "length (remove_image l ms) = length ms"
      using remove_image_at(1)[of ms "fst l" "snd l"] by (simp add: set_image_locations)
    then show ?case using Suc.IH[of "remove_image l ms" "take n ls"] Suc.prems il r by auto
  qed simp
  then show "image_locations (fold remove_image locs ms) = drop n (image_locations ms)"
    and "length (fold remove_image locs ms) = length ms" by auto
qed

lemma remove_image_frame:
  assumes "is_image_at ms (i, j)"
  shows "content_parts (remove_image (i, j) ms ! k) =
      (if k = i then (content_parts (ms ! i))[j := removed_part] else content_parts (ms ! k))"
    and "key \<noteq> ''content'' \<Longrightarrow> json_get (remove_image (i, j) ms ! k) key = json_get (ms ! k) key"
  using assms content_parts_removed[OF assms]
  by (auto simp: remove_image_def nth_list_update is_image_at_def)

lemma fold_remove_frame:
  assumes "set locs \<subseteq> {loc. is_image_at ms loc}" "distinct locs"
  shows "content_parts (fold remove_image locs ms ! k) ! l =
      (if (k, l) \<in> set locs then removed_part else content_parts (ms ! k) ! l)"
    and "key \<noteq> ''content'' \<Longrightarrow> json_get (fold remove_image locs ms ! k) key = json_get (ms ! k) key"
proof -
  have "content_parts (fold remove_image locs ms ! k) ! l =
      (if (k, l) \<in> set locs then removed_part else content_parts (ms ! k) ! l) \<and>
    (key \<noteq> ''content'' \<longrightarrow> json_get (fold remove_image locs ms ! k) key = json_get (ms ! k) key)"
    using assms
  proof (induction locs arbitrary: ms)
    case (Cons loc locs)
    obtain i j where loc: "loc = (i, j)" by (cases loc)
    have at: "is_image_at ms (i, j)" using Cons.prems loc by auto
    have "set locs \<subseteq> {l. is_image_at (remove_image (i, j) ms) l}"
      using Cons.prems remove_image_at(2)[OF at] loc by auto
    from Cons.IH[OF this] Cons.prems(2) have
      "content_parts (fold remove_image locs (remove_image (i, j) ms) ! k) ! l =
        (if (k, l) \<in> set locs then removed_part else content_parts (remove_image (i, j) ms ! k) ! l)"
      "key \<noteq> ''content'' \<longrightarrow> json_get (fold remove_image locs (remove_image (i, j) ms) ! k) key =
        json_get (remove_image (i, j) ms ! k) key" by auto
    moreover have "j < length (content_parts (ms ! i))" using at by (simp add: is_image_at_def)
    ultimately show ?case
      using remove_image_frame[OF at] loc by (auto simp: nth_list_update)
  qed simp
  then show "content_parts (fold remove_image locs ms ! k) ! l =
      (if (k, l) \<in> set locs then removed_part else content_parts (ms ! k) ! l)"
    and "key \<noteq> ''content'' \<Longrightarrow> json_get (fold remove_image locs ms ! k) key = json_get (ms ! k) key"
    by auto
qed

lemma sanitized_history:
  assumes "sanitize_tool_calls ms = Inr r"
  shows "length r = length ms"
    and "\<forall>m \<in> set r. malformed m = None"
    and "\<forall>i < length ms. malformed (ms ! i) = None \<longrightarrow> \<not> has_type ''function_call_output'' (ms ! i) \<longrightarrow> r ! i = ms ! i"
    and "\<forall>i < length ms. \<forall>a. malformed (ms ! i) = Some a \<longrightarrow>
       (\<exists>b. json_get (r ! i) ''arguments'' = Some (JStr b) \<and> json_valid b \<and>
         (b = placeholder_arguments a \<or>
          (\<exists>q cs. b = a @ q @ cs \<and> q \<in> {[], [quote_char]} \<and> set cs \<subseteq> {CHR ''}'', CHR '']''})))"
    and "(\<forall>m \<in> set ms. malformed m = None) \<longrightarrow> r = ms"
proof -
  obtain s ids where s: "sanitize_calls [] ms = Inr (s, ids)"
      "if ids = [] then r = s else inject_recovery ids s = Inr r"
    using assms by (auto simp: sanitize_tool_calls_def bind_res_eq_Inr split: if_splits)
  have sm: "s = map sanitized_item ms" by (rule sanitize_calls_items[OF s(1)])
  have item: "r ! i = sanitized_item (ms ! i) \<or> has_type ''function_call_output'' (ms ! i) \<and>
      (\<exists>v. r ! i = item_set ''output'' v (sanitized_item (ms ! i)))" if "i < length ms" for i
    using s(2) inject_recovery_items[of ids s r] that by (auto simp: sm split: if_splits)
  show len: "length r = length ms"
    using s(2) inject_recovery_items[of ids s r] by (auto simp: sm split: if_splits)
  show "\<forall>m \<in> set r. malformed m = None"
    using item len by (auto simp: in_set_conv_nth malformed_output malformed_sanitized_item)
      (metis malformed_output malformed_sanitized_item)
  show "\<forall>i < length ms. malformed (ms ! i) = None \<longrightarrow> \<not> has_type ''function_call_output'' (ms ! i) \<longrightarrow> r ! i = ms ! i"
    using item by (fastforce simp: sanitized_item_def)
  have none: "ids' = ids0" if "\<forall>m \<in> set ms. malformed m = None" "sanitize_calls ids0 ms = Inr (q, ids')" for ids0 ids' q
    using that by (induction ms arbitrary: ids0 q) (auto simp: bind_res_eq_Inr)
  show "(\<forall>m \<in> set ms. malformed m = None) \<longrightarrow> r = ms"
    using none[OF _ s(1)] s(2) by (auto simp: sm sanitized_item_def map_idI split: if_splits)
  show "\<forall>i < length ms. \<forall>a. malformed (ms ! i) = Some a \<longrightarrow>
       (\<exists>b. json_get (r ! i) ''arguments'' = Some (JStr b) \<and> json_valid b \<and>
         (b = placeholder_arguments a \<or>
          (\<exists>q cs. b = a @ q @ cs \<and> q \<in> {[], [quote_char]} \<and> set cs \<subseteq> {CHR ''}'', CHR '']''})))"
  proof (intro allI impI)
    fix i a assume i: "i < length ms" and a: "malformed (ms ! i) = Some a"
    then have "json_get (ms ! i) ''arguments'' = Some (JStr a)"
      by (auto simp: malformed_def split: if_splits option.splits json.splits)
    from item_set_object[OF this] a have
      "json_get (sanitized_item (ms ! i)) ''arguments'' = Some (JStr (case repair_truncated_json a of
          Some fixed \<Rightarrow> fixed | None \<Rightarrow> placeholder_arguments a))"
      by (simp add: sanitized_item_def)
    with item[OF i] have "json_get (r ! i) ''arguments'' = Some (JStr (case repair_truncated_json a of
          Some fixed \<Rightarrow> fixed | None \<Rightarrow> placeholder_arguments a))" by auto
    then show "\<exists>b. json_get (r ! i) ''arguments'' = Some (JStr b) \<and> json_valid b \<and>
         (b = placeholder_arguments a \<or>
          (\<exists>q cs. b = a @ q @ cs \<and> q \<in> {[], [quote_char]} \<and> set cs \<subseteq> {CHR ''}'', CHR '']''}))"
    proof (cases "repair_truncated_json a")
      case (Some b)
      with repair_sound[OF Some] \<open>json_get (r ! i) _ = _\<close> show ?thesis by simp
    qed (simp add: placeholder_valid)
  qed
qed

lemma stripped_history:
  "length (strip_screenshots (int k) ms) = length ms"
  "if length (image_locations ms) \<le> k then strip_screenshots (int k) ms = ms
   else image_locations (strip_screenshots (int k) ms) =
     drop (length (image_locations ms) - k) (image_locations ms)"
  "content_parts (strip_screenshots (int k) ms ! i) ! j =
     (if (i, j) \<in> set (take (length (image_locations ms) - k) (image_locations ms)) then removed_part
      else content_parts (ms ! i) ! j)"
  "key \<noteq> ''content'' \<Longrightarrow> json_get (strip_screenshots (int k) ms ! i) key = json_get (ms ! i) key"
proof -
  let ?n = "length (image_locations ms) - k"
  let ?locs = "take ?n (image_locations ms)"
  have eq: "strip_screenshots (int k) ms = fold remove_image ?locs ms"
    by (simp add: strip_screenshots_def Let_def nat_diff_distrib')
  have locs: "set ?locs \<subseteq> {loc. is_image_at ms loc}" "distinct ?locs"
    using set_take_subset[of ?n "image_locations ms"] image_locations_sorted(2)[of ms]
    by (auto simp: set_image_locations)
  show "length (strip_screenshots (int k) ms) = length ms"
    unfolding eq by (rule fold_remove_images(2)[OF refl]) simp
  show "if length (image_locations ms) \<le> k then strip_screenshots (int k) ms = ms
   else image_locations (strip_screenshots (int k) ms) = drop ?n (image_locations ms)"
    using fold_remove_images(1)[of ?n ms ?locs] by (simp add: eq)
  show "content_parts (strip_screenshots (int k) ms ! i) ! j =
     (if (i, j) \<in> set ?locs then removed_part else content_parts (ms ! i) ! j)"
    unfolding eq by (rule fold_remove_frame(1)[OF locs])
  show "key \<noteq> ''content'' \<Longrightarrow> json_get (strip_screenshots (int k) ms ! i) key = json_get (ms ! i) key"
    unfolding eq by (rule fold_remove_frame(2)[OF locs])
qed

subsection \<open>Properties\<close>


definition sample_call :: "string \<Rightarrow> json" where
  "sample_call args = JObj [(''type'', JStr ''function_call''), (''name'', JStr ''write_file''),
     (''call_id'', JStr ''c1''), (''arguments'', JStr args)]"

definition sample_output :: json where
  "sample_output = JObj [(''type'', JStr ''function_call_output''), (''call_id'', JStr ''c1''),
     (''output'', JStr ''bad args'')]"

lemma sample_sanitized:
  "sanitize_tool_calls [sample_call ''[1'', sample_output] =
     Inr [sample_call ''[1]'', item_set ''output'' (JStr (truncation_recovery_message ''write_file'' ''bad args'')) sample_output]"
  by code_simp


text \<open>Stripping screenshots keeps exactly the newest ones: with at most \<open>k\<close> of them the
  history is unchanged; otherwise the last \<open>k\<close> stay where they were, every older one is replaced
  by the text placeholder, and no other part or field of any item changes.\<close>

theorem strip_screenshots_spec:
  "length (strip_screenshots (int k) ms) = length ms \<and>
   (if length (image_locations ms) \<le> k then strip_screenshots (int k) ms = ms
    else image_locations (strip_screenshots (int k) ms) =
      drop (length (image_locations ms) - k) (image_locations ms)) \<and>
   (\<forall>i j. content_parts (strip_screenshots (int k) ms ! i) ! j =
     (if (i, j) \<in> set (take (length (image_locations ms) - k) (image_locations ms)) then removed_part
      else content_parts (ms ! i) ! j)) \<and>
   (\<forall>key i. if key = ''content'' then True
      else json_get (strip_screenshots (int k) ms ! i) key = json_get (ms ! i) key)"
  by (intro conjI allI stripped_history(1-3)) (simp add: stripped_history(4))

end
