(* ===== verification/Runner_Context.thy ===== *)
theory Runner_Context
  imports Runner_Sanitize
begin

text \<open>
  Measuring and trimming the model's context (\<open>task-runner/main.py\<close>): the token estimate, the
  ranking of what fills the context, the telemetry events and the pressure signal with its
  hysteresis, and \<open>_trim_context_window\<close>, which drops the oldest messages after the first.
  Events written to stderr are collected in the state.
\<close>

definition CHARS_PER_TOKEN :: int where "CHARS_PER_TOKEN = 3"
definition SNAPSHOT_TOP_CONTRIBUTORS :: nat where "SNAPSHOT_TOP_CONTRIBUTORS = 5"

definition estimate_tokens :: "json list \<Rightarrow> int" where
  "estimate_tokens ms = int (length (json_dumps (JArr ms))) div CHARS_PER_TOKEN"

subsection \<open>What fills the context\<close>

text \<open>\<open>x or "unknown"\<close>\<close>

definition or_unknown :: "json \<Rightarrow> json" where
  "or_unknown j = (if json_truthy j then j else JStr ''unknown'')"

fun call_names :: "(json \<times> json) list \<Rightarrow> json list \<Rightarrow> py_error + (json \<times> json) list" where
  "call_names d [] = Inr d"
| "call_names d (m # ms) =
     (if has_type ''function_call'' m \<and> json_truthy (item_get m ''call_id'' JNull) then
        (if hashable (item_get m ''call_id'' JNull)
         then call_names (dict_set (item_get m ''call_id'' JNull) (or_unknown (item_get m ''name'' JNull)) d) ms
         else Inl (TypeErr ''unhashable type''))
      else call_names d ms)"

text \<open>One entry: role, tool and size; sizes are those of the JSON text.\<close>

definition contributor :: "(json \<times> json) list \<Rightarrow> json \<Rightarrow> py_error + (string \<times> json) list" where
  "contributor names m =
     (let chars = JInt (int (length (json_dumps m))) in
      case m of
        JObj _ \<Rightarrow>
          if has_type ''function_call'' m then
            Inr [(''role'', JStr ''tool_call''), (''tool'', or_unknown (item_get m ''name'' JNull)), (''chars'', chars)]
          else if has_type ''function_call_output'' m then
            (if hashable (item_get m ''call_id'' JNull)
             then Inr [(''role'', JStr ''tool_result''),
               (''tool'', (case dict_get names (item_get m ''call_id'' JNull) of None \<Rightarrow> JStr ''unknown'' | Some t \<Rightarrow> t)),
               (''chars'', chars)]
             else Inl (TypeErr ''unhashable type''))
          else Inr [(''role'',
              (if json_truthy (item_get m ''role'' JNull) then item_get m ''role'' JNull
               else or_unknown (item_get m ''type'' JNull))), (''chars'', chars)]
      | _ \<Rightarrow> Inr [(''role'', JStr ''unknown''), (''chars'', JInt (int (length (py_str m))))])"

fun contributor_list :: "(json \<times> json) list \<Rightarrow> json list \<Rightarrow> py_error + (string \<times> json) list list" where
  "contributor_list names [] = Inr []"
| "contributor_list names (m # ms) =
     bind_res (contributor names m) (\<lambda>e. bind_res (contributor_list names ms) (\<lambda>es. Inr (e # es)))"

definition entry_chars :: "(string \<times> json) list \<Rightarrow> int" where
  "entry_chars e = (case map_of e ''chars'' of Some (JInt n) \<Rightarrow> n | _ \<Rightarrow> 0)"

text \<open>The sort is stable and descending.\<close>

definition context_contributors :: "json list \<Rightarrow> py_error + json list" where
  "context_contributors ms =
     bind_res (call_names [] ms) (\<lambda>names.
     bind_res (contributor_list names ms) (\<lambda>es.
       Inr (map JObj (take SNAPSHOT_TOP_CONTRIBUTORS (sort_key (\<lambda>e. - entry_chars e) es)))))"

subsection \<open>Telemetry\<close>

text \<open>The two thresholds, in hundredths, and the tracking state with the emitted events.\<close>

definition CONTEXT_PRESSURE_THRESHOLDS :: "int list" where "CONTEXT_PRESSURE_THRESHOLDS = [75, 90]"

record tracking =
  tr_messages :: "json list"
  tr_crossed :: "int list"
  tr_events :: "(string \<times> json) list"

definition emit_event :: "string \<Rightarrow> json \<Rightarrow> tracking \<Rightarrow> tracking" where
  "emit_event ty data t = t\<lparr>tr_events := tr_events t @ [(ty, data)]\<rparr>"

definition reset_context_tracking :: "tracking \<Rightarrow> tracking" where
  "reset_context_tracking t = t\<lparr>tr_messages := [], tr_crossed := []\<rparr>"

definition record_model_input :: "json list \<Rightarrow> tracking \<Rightarrow> tracking" where
  "record_model_input ms t = t\<lparr>tr_messages := ms\<rparr>"

definition emit_context_snapshot ::
    "int \<Rightarrow> string \<Rightarrow> json list option \<Rightarrow> int option \<Rightarrow> int option \<Rightarrow> tracking \<Rightarrow> py_error + tracking" where
  "emit_context_snapshot limit reason messages input_tokens estimated t =
     (let ms = (case messages of None \<Rightarrow> tr_messages t | Some x \<Rightarrow> x) in
      bind_res (context_contributors ms) (\<lambda>top.
        Inr (emit_event ''context_snapshot'' (JObj (
          [(''reason'', JStr reason), (''limit'', JInt limit), (''message_count'', JInt (int (length ms))),
           (''top_contributors'', JArr top)] @
          (case input_tokens of None \<Rightarrow> [] | Some n \<Rightarrow> [(''input_tokens'', JInt n)]) @
          [(''estimated_tokens'', JInt (case estimated of Some n \<Rightarrow> n | None \<Rightarrow> estimate_tokens ms))])) t)))"

definition threshold_json :: "int \<Rightarrow> json" where
  "threshold_json p = JFloat (if p = 90 then ''0.9'' else ''0.75'')"

text \<open>A threshold is crossed once; dropping below it arms it again.  The ratio of two integers is
  compared exactly.\<close>

definition reached :: "int \<Rightarrow> int \<Rightarrow> int \<Rightarrow> bool" where
  "reached limit tokens p = (limit * p \<le> tokens * 100)"

definition rearm :: "int \<Rightarrow> int \<Rightarrow> int list \<Rightarrow> int list" where
  "rearm limit tokens crossed =
     filter (\<lambda>p. p \<notin> set CONTEXT_PRESSURE_THRESHOLDS \<or> reached limit tokens p) crossed"

definition newly_crossed :: "int \<Rightarrow> int \<Rightarrow> int list \<Rightarrow> int list" where
  "newly_crossed limit tokens crossed =
     filter (\<lambda>p. reached limit tokens p \<and> p \<notin> set crossed) CONTEXT_PRESSURE_THRESHOLDS"

definition check_context_pressure :: "int \<Rightarrow> int option \<Rightarrow> tracking \<Rightarrow> py_error + tracking" where
  "check_context_pressure limit input_tokens t =
     (case input_tokens of
        None \<Rightarrow> Inr t
      | Some tokens \<Rightarrow>
          if tokens = 0 \<or> limit \<le> 0 then Inr t
          else
            (let crossed = rearm limit tokens (tr_crossed t);
                 newly = newly_crossed limit tokens crossed
             in if newly = [] then Inr (t\<lparr>tr_crossed := crossed\<rparr>)
                else emit_context_snapshot limit ''threshold_crossed'' None (Some tokens) None
                  (emit_event ''context_pressure''
                    (JObj [(''input_tokens'', JInt tokens), (''limit'', JInt limit),
                       (''threshold'', threshold_json (Max (set newly)))])
                    (t\<lparr>tr_crossed := crossed @ newly\<rparr>))))"

subsection \<open>Trimming\<close>

text \<open>\<open>int(MAX_CONTEXT_TOKENS * 0.6)\<close>\<close>

definition trim_target :: "int \<Rightarrow> int" where
  "trim_target limit = (if 0 \<le> limit then limit * 3 div 5 else - (- limit * 3 div 5))"

fun trim_rest :: "int \<Rightarrow> json list \<Rightarrow> json list \<Rightarrow> json list" where
  "trim_rest target first (m # n # rest) =
     (if target < estimate_tokens (first @ m # n # rest) then trim_rest target first (n # rest)
      else m # n # rest)"
| "trim_rest target first rest = rest"

definition trim_context_window :: "int \<Rightarrow> json list \<Rightarrow> json list" where
  "trim_context_window limit ms =
     (if length ms \<le> 2 \<or> estimate_tokens ms \<le> limit then ms
      else take 1 ms @ trim_rest (trim_target limit) (take 1 ms) (drop 1 ms))"

subsection \<open>Lemmas\<close>

lemma trim_rest_suffix:
  "rest \<noteq> [] \<Longrightarrow> \<exists>k < length rest. trim_rest target first rest = drop k rest \<and>
     (k + 1 < length rest \<longrightarrow> estimate_tokens (first @ drop k rest) \<le> target) \<and>
     (\<forall>j < k. target < estimate_tokens (first @ drop j rest))"
proof (induction target first rest rule: trim_rest.induct)
  case (1 target first m n rest)
  show ?case
  proof (cases "target < estimate_tokens (first @ m # n # rest)")
    case True
    with 1 obtain k where k: "k < length (n # rest)" "trim_rest target first (n # rest) = drop k (n # rest)"
        "k + 1 < length (n # rest) \<longrightarrow> estimate_tokens (first @ drop k (n # rest)) \<le> target"
        "\<forall>j < k. target < estimate_tokens (first @ drop j (n # rest))" by auto
    have "\<forall>j < Suc k. target < estimate_tokens (first @ drop j (m # n # rest))"
      using k(4) True by (auto simp: drop_Cons split: nat.splits)
    with k True show ?thesis by (intro exI[of _ "Suc k"]) simp
  next
    case False
    then show ?thesis by (intro exI[of _ 0]) simp
  qed
qed (auto intro: exI[of _ 0])

text \<open>What trimming returns: the first message and the longest suffix that meets the target (or
  the last message alone).\<close>

lemma trim_shape:
  assumes "\<not> (length ms \<le> 2 \<or> estimate_tokens ms \<le> limit)"
  obtains k where "1 \<le> k" "k < length ms" "trim_context_window limit ms = hd ms # drop k ms"
    "k + 1 < length ms \<Longrightarrow> estimate_tokens (hd ms # drop k ms) \<le> trim_target limit"
    "\<forall>j. 1 \<le> j \<longrightarrow> j < k \<longrightarrow> trim_target limit < estimate_tokens (hd ms # drop j ms)"
proof -
  obtain m rest where "ms = m # rest" using assms by (cases ms) auto
  with assms have ms: "ms = m # rest" "rest \<noteq> []" by auto
  obtain k where k: "k < length rest" "trim_rest (trim_target limit) [m] rest = drop k rest"
      "k + 1 < length rest \<longrightarrow> estimate_tokens ([m] @ drop k rest) \<le> trim_target limit"
      "\<forall>j < k. trim_target limit < estimate_tokens ([m] @ drop j rest)"
    using trim_rest_suffix[OF ms(2)] by blast
  show thesis
  proof (rule that[of "Suc k"])
    show "trim_context_window limit ms = hd ms # drop (Suc k) ms"
      using assms k(2) by (simp add: trim_context_window_def ms)
    show "\<forall>j. 1 \<le> j \<longrightarrow> j < Suc k \<longrightarrow> trim_target limit < estimate_tokens (hd ms # drop j ms)"
      using k(4) by (auto simp: ms drop_Cons split: nat.splits)
  qed (use k in \<open>auto simp: ms\<close>)
qed

text \<open>The crossed thresholds after a check, and when it signals.\<close>

lemma check_context_pressure_events:
  assumes "check_context_pressure limit (Some tokens) t = Inr t'" "tokens \<noteq> 0" "0 < limit"
  shows "\<exists>es. tr_events t' = tr_events t @ es \<and>
      (es = [] \<longleftrightarrow> (\<forall>p \<in> set CONTEXT_PRESSURE_THRESHOLDS. reached limit tokens p \<longrightarrow> p \<in> set (tr_crossed t)))"
    and "set (tr_crossed t) \<subseteq> set CONTEXT_PRESSURE_THRESHOLDS \<Longrightarrow>
      set (tr_crossed t') = {p \<in> set CONTEXT_PRESSURE_THRESHOLDS. reached limit tokens p}"
proof -
  let ?c = "rearm limit tokens (tr_crossed t)"
  let ?n = "newly_crossed limit tokens ?c"
  have n: "?n = [] \<longleftrightarrow> (\<forall>p \<in> set CONTEXT_PRESSURE_THRESHOLDS. reached limit tokens p \<longrightarrow> p \<in> set (tr_crossed t))"
    by (auto simp: newly_crossed_def rearm_def filter_empty_conv)
  have u: "set (tr_crossed t) \<subseteq> set CONTEXT_PRESSURE_THRESHOLDS \<Longrightarrow>
      set ?c \<union> set ?n = {p \<in> set CONTEXT_PRESSURE_THRESHOLDS. reached limit tokens p}"
    by (auto simp: newly_crossed_def rearm_def)
  have c: "?n = [] \<and> t' = t\<lparr>tr_crossed := ?c\<rparr> \<or>
      ?n \<noteq> [] \<and> (\<exists>e1 e2. t' = t\<lparr>tr_crossed := ?c @ ?n, tr_events := tr_events t @ [e1, e2]\<rparr>)"
    using assms by (auto simp: check_context_pressure_def Let_def emit_context_snapshot_def
        emit_event_def bind_res_eq_Inr split: if_splits)
  show "\<exists>es. tr_events t' = tr_events t @ es \<and>
      (es = [] \<longleftrightarrow> (\<forall>p \<in> set CONTEXT_PRESSURE_THRESHOLDS. reached limit tokens p \<longrightarrow> p \<in> set (tr_crossed t)))"
    using c n by auto
  show "set (tr_crossed t) \<subseteq> set CONTEXT_PRESSURE_THRESHOLDS \<Longrightarrow>
      set (tr_crossed t') = {p \<in> set CONTEXT_PRESSURE_THRESHOLDS. reached limit tokens p}"
    using c u by auto
qed

subsection \<open>Properties\<close>

text \<open>Trimming keeps the prompt and as much recent history as the target allows: above the limit
  the result is the first message followed by a proper suffix; the suffix is the longest that
  meets the trim target, or the newest message alone when nothing longer does.\<close>

theorem trim_context_window_spec:
  assumes "2 < length ms" "limit < estimate_tokens ms"
  shows "\<exists>k. 1 \<le> k \<and> k < length ms \<and> trim_context_window limit ms = hd ms # drop k ms \<and>
    (k + 1 < length ms \<longrightarrow> estimate_tokens (hd ms # drop k ms) \<le> trim_target limit) \<and>
    (\<forall>j. 1 \<le> j \<longrightarrow> j < k \<longrightarrow> trim_target limit < estimate_tokens (hd ms # drop j ms))"
proof -
  have "\<not> (length ms \<le> 2 \<or> estimate_tokens ms \<le> limit)" using assms by simp
  then show ?thesis by (rule trim_shape) blast
qed

theorem trim_context_window_spec_witness:
  "\<exists>k. 1 \<le> k \<and> k < length [JStr ''p'', JStr ''a'', JStr ''b'', JInt 1] \<and>
     trim_context_window 5 [JStr ''p'', JStr ''a'', JStr ''b'', JInt 1] =
       hd [JStr ''p'', JStr ''a'', JStr ''b'', JInt 1] # drop k [JStr ''p'', JStr ''a'', JStr ''b'', JInt 1]"
proof -
  have "2 < length [JStr ''p'', JStr ''a'', JStr ''b'', JInt 1]"
    "5 < estimate_tokens [JStr ''p'', JStr ''a'', JStr ''b'', JInt 1]" by code_simp+
  from trim_context_window_spec[OF this] show ?thesis by blast
qed

text \<open>The pressure signal has hysteresis: after a check exactly the thresholds the context has
  reached are marked, so falling below one arms it again, and events are emitted exactly when a
  threshold is reached that was not marked before.\<close>

theorem context_pressure_hysteresis:
  assumes "check_context_pressure limit (Some tokens) t = Inr t'" "tokens \<noteq> 0" "0 < limit"
    and "set (tr_crossed t) \<subseteq> set CONTEXT_PRESSURE_THRESHOLDS"
  shows "set (tr_crossed t') = {p \<in> set CONTEXT_PRESSURE_THRESHOLDS. limit * p \<le> tokens * 100} \<and>
    (tr_events t' \<noteq> tr_events t \<longleftrightarrow> (\<exists>p \<in> set (tr_crossed t'). p \<notin> set (tr_crossed t)))"
  using check_context_pressure_events(1)[OF assms(1-3)] check_context_pressure_events(2)[OF assms]
  by (auto simp: reached_def)

definition quiet :: "tracking" where
  "quiet = \<lparr>tr_messages = [], tr_crossed = [75], tr_events = []\<rparr>"

definition after_check :: "tracking" where
  "after_check = (case check_context_pressure 100 (Some 95) quiet of Inr t \<Rightarrow> t | Inl _ \<Rightarrow> quiet)"

theorem context_pressure_hysteresis_witness:
  "set (tr_crossed after_check) = {p \<in> set CONTEXT_PRESSURE_THRESHOLDS. 100 * p \<le> 95 * (100 :: int)}"
proof -
  have "check_context_pressure 100 (Some 95) quiet = Inr after_check" by code_simp
  from context_pressure_hysteresis[OF this] show ?thesis
    by (simp add: quiet_def CONTEXT_PRESSURE_THRESHOLDS_def)
qed

end
