(* ===== verification/Py_Text.thy ===== *)
theory Py_Text
  imports Errand_Prelude
begin

text \<open>
  More of Python's text library: \<open>str.splitlines\<close>, \<open>str.count\<close>, replacing one occurrence,
  \<open>str.isdigit\<close>, \<open>str.upper\<close>, the word class of \<open>re\<close>, \<open>shlex.split\<close> in its POSIX mode, and
  the lazy search for a text between two markers.  All on characters below 256.
\<close>

subsection \<open>Character classes\<close>

text \<open>\<open>\w\<close>: alphanumeric or underscore.\<close>

definition is_word :: "char \<Rightarrow> bool" where
  "is_word c = (let n = char_code c in
     is_digit c \<or> is_lower_az c \<or> is_upper_az c \<or> n = 95 \<or>
     n \<in> {170, 178, 179, 181, 185, 186, 188, 189, 190} \<or> (192 \<le> n \<and> n \<noteq> 215 \<and> n \<noteq> 247))"

definition py_isdigit :: "string \<Rightarrow> bool" where
  "py_isdigit s = (s \<noteq> [] \<and> list_all (\<lambda>c. is_digit c \<or> char_code c \<in> {178, 179, 185}) s)"

text \<open>\<open>str.upper\<close>; the three characters whose upper case is not one character below 256 stay.\<close>

definition upper_char :: "char \<Rightarrow> char" where
  "upper_char c = (let n = char_code c in
     if (97 \<le> n \<and> n \<le> 122) \<or> (224 \<le> n \<and> n \<le> 254 \<and> n \<noteq> 247) then char_of (n - 32) else c)"

definition py_upper :: "string \<Rightarrow> string" where "py_upper s = map upper_char s"

subsection \<open>Lines\<close>

definition is_line_break :: "char \<Rightarrow> bool" where
  "is_line_break c = (let n = char_code c in (10 \<le> n \<and> n \<le> 13) \<or> (28 \<le> n \<and> n \<le> 30) \<or> n = 133)"

text \<open>A carriage return and the line feed after it are one break; no empty line follows a final
  break.\<close>

fun lines_from :: "string \<Rightarrow> string \<Rightarrow> string list" where
  "lines_from acc [] = (if acc = [] then [] else [rev acc])"
| "lines_from acc [c] = (if is_line_break c then [rev acc] else [rev (c # acc)])"
| "lines_from acc (c # d # s) =
     (if is_line_break c then
        rev acc # (if char_code c = 13 \<and> char_code d = 10 then lines_from [] s else lines_from [] (d # s))
      else lines_from (c # acc) (d # s))"

definition splitlines :: "string \<Rightarrow> string list" where "splitlines s = lines_from [] s"

subsection \<open>Occurrences\<close>

text \<open>\<open>s.count(p)\<close>: occurrences that do not overlap, from the left; the empty string is counted
  between all characters.\<close>

function count_from :: "string \<Rightarrow> string \<Rightarrow> nat" where
  "count_from p [] = 0"
| "count_from p (c # s) =
     (if p \<noteq> [] \<and> starts_with (c # s) p then Suc (count_from p (drop (length p - 1) s))
      else count_from p s)"
  by pat_completeness auto
termination by (relation "measure (\<lambda>(p, s). length s)") auto

definition count_str :: "string \<Rightarrow> string \<Rightarrow> nat" where
  "count_str s p = (if p = [] then Suc (length s) else count_from p s)"

text \<open>\<open>s.replace(p, q, 1)\<close>\<close>

definition replace_first :: "string \<Rightarrow> string \<Rightarrow> string \<Rightarrow> string" where
  "replace_first p q s =
     (case find_str p s of None \<Rightarrow> s | Some i \<Rightarrow> take i s @ q @ drop (i + length p) s)"

text \<open>\<open>re.search(a + '(.*?)' + b, s, re.DOTALL).group(1)\<close> for literal markers: the first \<open>a\<close> and
  the first \<open>b\<close> after it; the rest follows \<open>b\<close>.\<close>

definition between :: "string \<Rightarrow> string \<Rightarrow> string \<Rightarrow> (string \<times> string) option" where
  "between a b s =
     (case find_str a s of
        None \<Rightarrow> None
      | Some i \<Rightarrow>
          (let r = drop (i + length a) s in
           case find_str b r of None \<Rightarrow> None | Some j \<Rightarrow> Some (take j r, drop (j + length b) r)))"

text \<open>\<open>\b(?:v1|v2|...)\b\<close> for words of word characters: whether one occurs as a whole word.\<close>

fun has_word :: "string list \<Rightarrow> bool \<Rightarrow> string \<Rightarrow> bool" where
  "has_word vs prev [] = False"
| "has_word vs prev (c # s) =
     (\<not> prev \<and> list_ex (\<lambda>v. starts_with (c # s) v \<and>
        (case drop (length v) (c # s) of [] \<Rightarrow> True | d # _ \<Rightarrow> \<not> is_word d)) vs
      \<or> has_word vs (is_word c) s)"

subsection \<open>\<open>shlex.split\<close>\<close>

datatype shlex_state = Blank | InWord | Quoted char | Escaped shlex_state

definition shlex_blank :: "char \<Rightarrow> bool" where
  "shlex_blank c = (let n = char_code c in n = 32 \<or> n = 9 \<or> n = 13 \<or> n = 10)"

definition double_quote :: char where "double_quote = char_of (34 :: nat)"
definition single_quote :: char where "single_quote = char_of (39 :: nat)"
definition escape_mark :: char where "escape_mark = char_of (92 :: nat)"

definition shlex_emit :: "bool \<Rightarrow> string \<Rightarrow> string list" where
  "shlex_emit quoted tok = (if tok \<noteq> [] \<or> quoted then [rev tok] else [])"

text \<open>\<open>None\<close> is the ValueError for a missing closing quotation or escaped character.\<close>

fun shlex_from :: "shlex_state \<Rightarrow> bool \<Rightarrow> string \<Rightarrow> string \<Rightarrow> string list option" where
  "shlex_from Blank quoted tok [] = Some (shlex_emit quoted tok)"
| "shlex_from InWord quoted tok [] = Some (shlex_emit quoted tok)"
| "shlex_from (Quoted q) quoted tok [] = None"
| "shlex_from (Escaped st) quoted tok [] = None"
| "shlex_from (Escaped st) quoted tok (c # s) =
     (case st of
        Quoted q \<Rightarrow>
          shlex_from st quoted (if c \<noteq> escape_mark \<and> c \<noteq> q then c # escape_mark # tok else c # tok) s
      | _ \<Rightarrow> shlex_from st quoted (c # tok) s)"
| "shlex_from (Quoted q) quoted tok (c # s) =
     (if c = q then shlex_from InWord True tok s
      else if c = escape_mark \<and> q = double_quote then shlex_from (Escaped (Quoted q)) True tok s
      else shlex_from (Quoted q) True (c # tok) s)"
| "shlex_from st quoted tok (c # s) =
     (if shlex_blank c then
        map_option ((@) (shlex_emit quoted tok)) (shlex_from Blank False [] s)
      else if c = escape_mark then shlex_from (Escaped InWord) quoted tok s
      else if c = double_quote \<or> c = single_quote then shlex_from (Quoted c) quoted tok s
      else shlex_from InWord quoted (c # tok) s)"

definition shlex_split :: "string \<Rightarrow> string list option" where
  "shlex_split s = shlex_from Blank False [] s"

lemma shlex_split_examples:
  "shlex_split (''cat -n  a'' @ [escape_mark] @ '' b c'') = Some [''cat'', ''-n'', ''a b'', ''c'']"
  "shlex_split (''x '' @ [double_quote] @ ''a b'' @ [double_quote] @ ''c'') = Some [''x'', ''a bc'']"
  "shlex_split [single_quote] = None"
  by code_simp+

lemma splitlines_example: "splitlines (''a'' @ [char_of (13 :: nat), char_of (10 :: nat)] @ ''b'') = [''a'', ''b'']"
  by code_simp

subsection \<open>Lemmas\<close>

lemma find_str_Some:
  "find_str p s = Some i \<Longrightarrow> take (length p) (drop i s) = p \<and> i + length p \<le> length s"
proof (induction s arbitrary: i)
  case (Cons c s)
  then show ?case
    by (auto simp: starts_with_def split: if_splits) (metis length_Cons length_take min.absorb_iff2 min.commute)+
qed (auto split: if_splits)

lemma find_str_None: "find_str p s = None \<longleftrightarrow> \<not> sublist p s"
proof (induction s)
  case (Cons c s)
  then show ?case by (simp add: str_simps sublist_Cons_right)
qed simp

lemma replace_first_shape:
  assumes "find_str p s = Some i"
  shows "s = take i s @ p @ drop (i + length p) s"
    and "replace_first p q s = take i s @ q @ drop (i + length p) s"
proof -
  have "drop i s = p @ drop (i + length p) s"
    using find_str_Some[OF assms] by (metis append_take_drop_id drop_drop add.commute)
  then show "s = take i s @ p @ drop (i + length p) s" by (metis append_take_drop_id)
  show "replace_first p q s = take i s @ q @ drop (i + length p) s" by (simp add: replace_first_def assms)
qed

lemma count_from_zero: "p \<noteq> [] \<Longrightarrow> count_from p s = 0 \<longleftrightarrow> \<not> sublist p s"
proof (induction p s rule: count_from.induct)
  case (2 p c s)
  then show ?case by (auto simp: str_simps sublist_Cons_right)
qed simp

end
