(* ===== verification/Runner_History.thy ===== *)
theory Runner_History
  imports Runner_Context Py_Text
begin

text \<open>
  What a compaction keeps of the history it replaces (\<open>task-runner/main.py\<close>): the text the
  summarising model reads (\<open>_serialize_messages_for_summary\<close>), the files the summarised calls
  read and changed (\<open>_extract_file_operations\<close>, with its regular expressions over shell
  commands), and the file lists appended to a summary (\<open>_format_file_lists\<close>).
\<close>

subsection \<open>Serialising\<close>

definition RESULT_TRUNCATION :: nat where "RESULT_TRUNCATION = 2000"

definition truncate_result :: "string \<Rightarrow> string" where
  "truncate_result s =
     (if RESULT_TRUNCATION < length s then take RESULT_TRUNCATION s @ ''... [truncated]'' else s)"

text \<open>The text of a message's content list.\<close>

fun content_texts :: "json list \<Rightarrow> py_error + string list" where
  "content_texts [] = Inr []"
| "content_texts (p # ps) =
     (case p of
        JObj _ \<Rightarrow>
          if has_type ''text'' p then
            (case item_get p ''text'' (JStr []) of
               JStr t \<Rightarrow> bind_res (content_texts ps) (\<lambda>ts. Inr (t # ts))
             | _ \<Rightarrow> Inl (TypeErr ''sequence item: expected str instance''))
          else if has_type ''image_url'' p then bind_res (content_texts ps) (\<lambda>ts. Inr (''[image]'' # ts))
          else content_texts ps
      | JStr t \<Rightarrow> bind_res (content_texts ps) (\<lambda>ts. Inr (t # ts))
      | _ \<Rightarrow> content_texts ps)"

definition message_text :: "json \<Rightarrow> py_error + string" where
  "message_text content =
     (case content of
        JArr ps \<Rightarrow> bind_res (content_texts ps) (\<lambda>ts. Inr (join [newline] ts))
      | _ \<Rightarrow> Inr (py_str content))"

definition serialize_message :: "json \<Rightarrow> py_error + string list" where
  "serialize_message m =
     (case m of
        JObj _ \<Rightarrow>
          if has_type ''function_call'' m then
            Inr [''[TOOL CALL: '' @ py_str (item_get m ''name'' (JStr ''unknown'')) @ '']'' @ [newline] @
              take RESULT_TRUNCATION (py_str (item_get m ''arguments'' (JStr ''{}'')))]
          else if has_type ''function_call_output'' m then
            bind_res (output_text (item_get m ''output'' (JStr []))) (\<lambda>out.
              Inr [''[TOOL RESULT]'' @ [newline] @ truncate_result out])
          else if json_truthy (item_get m ''role'' (JStr [])) then
            bind_res (message_text (item_get m ''content'' (JStr []))) (\<lambda>content.
              case item_get m ''role'' (JStr []) of
                JStr role \<Rightarrow> Inr [''['' @ py_upper role @ '']'' @ [newline] @ truncate_result content]
              | _ \<Rightarrow> Inl (AttributeErr ''upper''))
          else Inr []
      | _ \<Rightarrow> Inr [])"

fun serialize_parts :: "json list \<Rightarrow> py_error + string list" where
  "serialize_parts [] = Inr []"
| "serialize_parts (m # ms) =
     bind_res (serialize_message m) (\<lambda>p. bind_res (serialize_parts ms) (\<lambda>ps. Inr (p @ ps)))"

definition serialize_messages_for_summary :: "json list \<Rightarrow> py_error + string" where
  "serialize_messages_for_summary ms =
     bind_res (serialize_parts ms) (\<lambda>parts.
       Inr (''<conversation>'' @ [newline] @ join [newline, newline] parts @ [newline] @ ''</conversation>''))"

subsection \<open>File operations in a shell command\<close>

definition READ_VERBS :: "string list" where
  "READ_VERBS = [''cat'', ''head'', ''tail'', ''less'', ''grep'']"

text \<open>The tokens after the first verb; \<open>None\<close> when the verb is no token or the command does not
  split.\<close>

definition tokens_after :: "string list \<Rightarrow> string \<Rightarrow> string list option" where
  "tokens_after verbs command =
     (case shlex_split command of
        None \<Rightarrow> None
      | Some ts \<Rightarrow>
          (case dropWhile (\<lambda>t. t \<notin> set verbs) ts of [] \<Rightarrow> None | _ # r \<Rightarrow> Some r))"

definition read_operand :: "string \<Rightarrow> string list" where
  "read_operand command =
     (if \<not> has_word READ_VERBS False command then []
      else case tokens_after READ_VERBS command of
          None \<Rightarrow> []
        | Some ts \<Rightarrow>
            (case find (\<lambda>t. \<not> starts_with t ''-'' \<and> \<not> py_isdigit t) (rev ts) of None \<Rightarrow> [] | Some t \<Rightarrow> [t]))"

abbreviation non_space :: "char \<Rightarrow> bool" where "non_space c \<equiv> \<not> is_space c"

text \<open>\<open>(?:>>?)\s*(\S+)\<close> at a position, with the rest after the match; the second \<open>>\<close> is given
  back when no target follows it.\<close>

definition redirect_at :: "string \<Rightarrow> (string \<times> string) option" where
  "redirect_at s =
     (if \<not> starts_with s ''>'' then None
      else
        (let r = tl s; r2 = dropWhile is_space (tl r); r1 = dropWhile is_space r in
         if starts_with r ''>'' \<and> r2 \<noteq> [] then Some (takeWhile non_space r2, dropWhile non_space r2)
         else if r1 \<noteq> [] then Some (takeWhile non_space r1, dropWhile non_space r1) else None))"

lemma redirect_at_shorter: "redirect_at s = Some (t, r) \<Longrightarrow> length r < length s"
proof -
  assume a: "redirect_at s = Some (t, r)"
  then obtain c q where s: "s = c # q" by (cases s) (auto simp: redirect_at_def starts_with_def)
  have "length (dropWhile non_space (dropWhile is_space x)) \<le> length x" for x
    by (meson length_dropWhile_le order_trans)
  from this[of q] this[of "tl q"] show ?thesis
    using a s by (auto simp: redirect_at_def Let_def split: if_splits)
qed

function redirect_targets :: "string \<Rightarrow> string list" where
  "redirect_targets s =
     (case redirect_at s of
        Some (t, r) \<Rightarrow> t # redirect_targets r
      | None \<Rightarrow> (case s of [] \<Rightarrow> [] | _ # q \<Rightarrow> redirect_targets q))"
  by pat_completeness auto
termination by (relation "measure length") (auto dest: redirect_at_shorter)

text \<open>\<open>\bsed\b.*\s-i\b.*\s+(\S+)\s*$\<close>: the last word of the command, when a whole word \<open>sed\<close> is
  followed on its line by a space and a whole word \<open>-i\<close>, and only white space may break the line
  between that and the last word.\<close>

definition word_end :: "string \<Rightarrow> bool" where
  "word_end s = (case s of [] \<Rightarrow> True | c # _ \<Rightarrow> \<not> is_word c)"

definition inline_flag :: "string \<Rightarrow> bool" where
  "inline_flag s =
     list_ex (\<lambda>j. is_space (s ! j) \<and> starts_with (drop (Suc j) s) ''-i'' \<and> word_end (drop (j + 3) s) \<and>
         newline \<notin> set (take j s) \<and> j + 3 < length s \<and> newline \<notin> set (rstrip (drop (j + 3) s)))
       [0..<length s]"

definition sed_target :: "string \<Rightarrow> string list" where
  "sed_target command =
     (let core = rstrip command;
          last_word = rev (takeWhile non_space (rev core));
          before = rev (dropWhile non_space (rev core))
      in if last_word \<noteq> [] \<and> list_ex (\<lambda>p. starts_with (drop p before) ''sed'' \<and> word_end (drop (p + 3) before) \<and>
             (p = 0 \<or> \<not> is_word (before ! (p - 1))) \<and> inline_flag (drop (p + 3) before)) [0..<length before]
         then [last_word] else [])"

text \<open>\<open>\btee\s+(?:-a\s+)?(\S+)\<close>\<close>

definition tee_at :: "string \<Rightarrow> (string \<times> string) option" where
  "tee_at s =
     (if \<not> starts_with s ''tee'' then None
      else
        (let r = drop 3 s; r1 = dropWhile is_space r;
             q = drop 2 r1; q1 = dropWhile is_space q
         in if r1 = [] \<or> r1 = r then None
            else if starts_with r1 ''-a'' \<and> q1 \<noteq> q \<and> q1 \<noteq> [] then
              Some (takeWhile non_space q1, dropWhile non_space q1)
            else Some (takeWhile non_space r1, dropWhile non_space r1)))"

lemma tee_at_shorter: "tee_at s = Some (t, r) \<Longrightarrow> length r < length s"
proof -
  assume a: "tee_at s = Some (t, r)"
  then have l: "3 \<le> length s" by (auto simp: tee_at_def starts_with_def split: if_splits)
      (metis length_take min.bounded_iff numeral_3_eq_3 length_Cons list.size(3) nle_le)
  have d: "length (dropWhile non_space (dropWhile is_space x)) \<le> length x" for x
    by (meson length_dropWhile_le order_trans)
  have "length (drop 2 (dropWhile is_space (drop 3 s))) \<le> length (drop 3 s)"
    by (metis diff_le_self length_drop length_dropWhile_le order_trans)
  then have "length (dropWhile non_space (dropWhile is_space (drop 2 (dropWhile is_space (drop 3 s))))) \<le> length s - 3"
    using d[of "drop 2 (dropWhile is_space (drop 3 s))"] by simp
  moreover have "length (dropWhile non_space (dropWhile is_space (drop 3 s))) \<le> length s - 3"
    using d[of "drop 3 s"] by simp
  ultimately show ?thesis using a l by (auto simp: tee_at_def Let_def split: if_splits)
qed

function tee_targets :: "bool \<Rightarrow> string \<Rightarrow> string list" where
  "tee_targets prev s =
     (case (if prev then None else tee_at s) of
        Some (t, r) \<Rightarrow> t # tee_targets (is_word (last t)) r
      | None \<Rightarrow> (case s of [] \<Rightarrow> [] | c # q \<Rightarrow> tee_targets (is_word c) q))"
  by pat_completeness auto
termination by (relation "measure (\<lambda>(prev, s). length s)") (auto dest: tee_at_shorter split: if_splits)

definition copy_target :: "string \<Rightarrow> string list" where
  "copy_target command =
     (if \<not> has_word [''cp'', ''mv''] False command then []
      else case tokens_after [''cp'', ''mv''] command of
          None \<Rightarrow> []
        | Some ts \<Rightarrow>
            (let ps = filter (\<lambda>t. \<not> starts_with t ''-'') ts in if ps = [] then [] else [last ps]))"

definition command_writes :: "string \<Rightarrow> string list" where
  "command_writes command =
     redirect_targets command @ sed_target command @ tee_targets False command @ copy_target command"

text \<open>The sets of paths, as lists without repetition; a path need not be a string.\<close>

record file_ops =
  fo_read :: "json list"
  fo_modified :: "json list"

definition no_files :: file_ops where "no_files = \<lparr>fo_read = [], fo_modified = []\<rparr>"

definition add_read :: "json list \<Rightarrow> file_ops \<Rightarrow> file_ops" where
  "add_read ps f = f\<lparr>fo_read := fold List.insert ps (fo_read f)\<rparr>"

definition add_modified :: "json list \<Rightarrow> file_ops \<Rightarrow> file_ops" where
  "add_modified ps f = f\<lparr>fo_modified := fold List.insert ps (fo_modified f)\<rparr>"

definition FILE_TOOLS :: "string list" where "FILE_TOOLS = [''read_file'', ''write_file'', ''edit_file'']"

text \<open>\<open>json.loads(msg.get("arguments", "{}"))\<close>, \<open>None\<close> where the loop continues.\<close>

definition call_arguments :: "json \<Rightarrow> json option" where
  "call_arguments m = (case item_get m ''arguments'' (JStr ''{}'') of JStr a \<Rightarrow> json_loads a | _ \<Rightarrow> None)"

definition file_ops_of :: "json \<Rightarrow> file_ops \<Rightarrow> py_error + file_ops" where
  "file_ops_of m f =
     (if \<not> has_type ''function_call'' m then Inr f
      else
        (case item_get m ''name'' (JStr []) of
           JStr tool \<Rightarrow>
             if tool \<in> set FILE_TOOLS then
               (case call_arguments m of
                  None \<Rightarrow> Inr f
                | Some (JObj d) \<Rightarrow>
                    (let path = item_get (JObj d) ''path'' (JStr []) in
                     if \<not> json_truthy path then Inr f
                     else if \<not> hashable path then Inl (TypeErr ''unhashable type'')
                     else if tool = ''read_file'' then Inr (add_read [path] f)
                     else Inr (add_modified [path] f))
                | Some _ \<Rightarrow> Inl (AttributeErr ''get''))
             else if tool = ''execute_command'' then
               (case call_arguments m of
                  None \<Rightarrow> Inr f
                | Some (JObj d) \<Rightarrow>
                    (case item_get (JObj d) ''command'' (JStr []) of
                       JStr command \<Rightarrow>
                         Inr (add_modified (map JStr (command_writes command))
                           (add_read (map JStr (read_operand command)) f))
                     | command \<Rightarrow>
                         if json_truthy command then Inl (TypeErr ''expected string or bytes-like object'')
                         else Inr f)
                | Some _ \<Rightarrow> Inl (AttributeErr ''get''))
             else Inr f
         | _ \<Rightarrow> Inr f))"

fun extract_file_operations_from :: "file_ops \<Rightarrow> json list \<Rightarrow> py_error + file_ops" where
  "extract_file_operations_from f [] = Inr f"
| "extract_file_operations_from f (m # ms) =
     bind_res (file_ops_of m f) (\<lambda>f'. extract_file_operations_from f' ms)"

definition extract_file_operations :: "json list \<Rightarrow> py_error + file_ops" where
  "extract_file_operations = extract_file_operations_from no_files"

subsection \<open>File lists\<close>

definition listed_files :: "string \<Rightarrow> string \<Rightarrow> string \<Rightarrow> string list" where
  "listed_files a b summary =
     (case between a b summary of
        None \<Rightarrow> []
      | Some (body, _) \<Rightarrow> filter (\<lambda>f. f \<noteq> []) (map strip (splitlines body)))"

text \<open>Sorting or joining a path that is not a string raises a TypeError.\<close>

fun all_strings :: "json list \<Rightarrow> py_error + string list" where
  "all_strings [] = Inr []"
| "all_strings (j # js) =
     (case j of JStr s \<Rightarrow> bind_res (all_strings js) (\<lambda>ss. Inr (s # ss))
      | _ \<Rightarrow> Inl (TypeErr ''sequence item: expected str instance''))"

definition file_block :: "string \<Rightarrow> string \<Rightarrow> string list \<Rightarrow> string list" where
  "file_block a b files =
     (if files = [] then [] else [a @ [newline] @ join [newline] files @ [newline] @ b])"

definition format_file_lists :: "file_ops \<Rightarrow> string \<Rightarrow> py_error + string" where
  "format_file_lists f existing_summary =
     bind_res (all_strings (fo_read f)) (\<lambda>r.
     bind_res (all_strings (fo_modified f)) (\<lambda>m.
       Inr (join [newline]
         (file_block ''<read-files>'' ''</read-files>''
            (sort (remdups (listed_files ''<read-files>'' ''</read-files>'' existing_summary @ r))) @
          file_block ''<modified-files>'' ''</modified-files>''
            (sort (remdups (listed_files ''<modified-files>'' ''</modified-files>'' existing_summary @ m)))))))"

lemma command_examples:
  "redirect_targets ''a>>b >>'' = [''b'', ''>'']"
  "tee_targets False ''tee -a x'' = [''x'']"
  "sed_target ''sed -i e f '' = [''f'']"
  by code_simp+

end
