(* ===== verification/Runner_Compaction.thy ===== *)
theory Runner_Compaction
  imports Runner_History
begin

text \<open>
  Context compaction (\<open>task-runner/main.py\<close>): above the token limit the oldest messages are
  replaced by a summary the model writes; the initial prompt stays verbatim, a tool result is
  not cut from its call, a held summary is extended instead of starting again, and failures
  widen a window of turns in which the history is only trimmed.  \<open>filter_model_input\<close> runs the
  three stages before every model call.

  The SHA-256 function and the summarising model are parameters: the model returns its content,
  or an exception.  An exception of the runner itself leaves the filter as \<open>Inl\<close>.
\<close>

subsection \<open>Constants and prompts\<close>

definition KEEP_RECENT_TOKENS :: int where "KEEP_RECENT_TOKENS = 20000"
definition DEFAULT_COMPACTION_MAX_TOKENS :: int where "DEFAULT_COMPACTION_MAX_TOKENS = 4096"
definition COMPACTION_BACKOFF_CAP_TURNS :: int where "COMPACTION_BACKOFF_CAP_TURNS = 16"

definition COMPACTION_SUMMARY_PREFIX :: string where
  "COMPACTION_SUMMARY_PREFIX =
     ''The conversation history before this point was compacted into the following summary:''"

definition FIRST_COMPACTION_PROMPT :: "string \<Rightarrow> string" where
  "FIRST_COMPACTION_PROMPT conversation =
     ''Summarize the following conversation into a structured checkpoint. Use exactly these '' @
     ''sections:'' @ [newline, newline] @ ''## Goal'' @ [newline] @
     ''What the agent is trying to accomplish in this task.'' @ [newline, newline] @
     ''## Progress'' @ [newline] @ ''### Done'' @ [newline] @ ''Completed steps and outcomes.'' @
     [newline, newline] @ ''### In Progress'' @ [newline] @
     ''What is currently being worked on.'' @ [newline, newline] @ ''### Blocked'' @ [newline] @
     ''Any blockers or unresolved issues.'' @ [newline, newline] @ ''## Key Decisions'' @
     [newline] @ ''Important choices made and their rationale.'' @ [newline, newline] @
     ''## Next Steps'' @ [newline] @ ''Concrete actions remaining to complete the goal.'' @
     [newline, newline] @ ''## Critical Context'' @ [newline] @
     ''Important facts, constraints, or context the agent must remember.'' @ [newline, newline] @
     ''## Constraints'' @ [newline] @
     ''Any prohibitions, approval requirements, or scope limits stated in the conversation. '' @
     ''Record each one in its ORIGINAL WORDING rather than paraphrasing it, and prefer '' @
     ''including a borderline item over omitting it. Leave this section empty if there are '' @
     ''none.'' @ [newline, newline] @ ''---'' @ [newline] @ conversation"

definition MERGE_COMPACTION_PROMPT :: "string \<Rightarrow> string \<Rightarrow> string" where
  "MERGE_COMPACTION_PROMPT existing_summary conversation =
     ''You have an existing summary of earlier conversation history, and new conversation '' @
     ''content that occurred after that summary. Merge the new content into the existing '' @
     ''summary: update progress, add new decisions and context, and remove only clearly '' @
     ''irrelevant items. Preserve all existing information that is still relevant.'' @
     [newline, newline] @ ''The merged summary must have exactly these sections:'' @
     [newline, newline] @ ''## Goal'' @ [newline] @
     ''## Progress (### Done / ### In Progress / ### Blocked)'' @ [newline] @
     ''## Key Decisions'' @ [newline] @ ''## Next Steps'' @ [newline] @ ''## Critical Context'' @
     [newline] @ ''## Constraints'' @ [newline, newline] @
     ''Under Constraints, carry forward every prohibition, approval requirement, and scope '' @
     ''limit from both the existing summary and the new content, in its ORIGINAL WORDING '' @
     ''rather than paraphrased. Never drop a constraint when merging; prefer keeping a '' @
     ''borderline item over omitting it. Leave the section empty if there are none.'' @
     [newline, newline] @ ''---'' @ [newline] @ ''Existing summary:'' @ [newline, newline] @ existing_summary @
     [newline, newline] @ ''---'' @ [newline] @ ''New conversation content to merge:'' @
     [newline, newline] @ conversation"

subsection \<open>State\<close>

record compaction =
  c_turn :: int
  c_failures :: nat
  c_suppress_until :: int
  c_summary :: string
  c_digest :: string
  c_count :: nat
  c_tracking :: tracking

definition reset_compaction_summary :: "compaction \<Rightarrow> compaction" where
  "reset_compaction_summary st = st\<lparr>c_summary := [], c_digest := [], c_count := 0\<rparr>"

definition digest_messages :: "(string \<Rightarrow> string) \<Rightarrow> json list \<Rightarrow> string" where
  "digest_messages sha256 ms = sha256 (json_dumps_sorted (JArr ms))"

definition match_held_summary ::
    "(string \<Rightarrow> string) \<Rightarrow> compaction \<Rightarrow> json list \<Rightarrow> (string \<times> json list) option" where
  "match_held_summary sha256 st to_summarize =
     (if c_summary st = [] then None
      else if c_count st = 0 \<or> length to_summarize < c_count st then None
      else if digest_messages sha256 (take (c_count st) to_summarize) \<noteq> c_digest st then None
      else Some (c_summary st, drop (c_count st) to_summarize))"

definition summary_message :: "string \<Rightarrow> json" where
  "summary_message summary_text =
     JObj [(''role'', JStr ''user''),
       (''content'', JStr (COMPACTION_SUMMARY_PREFIX @ [newline, newline] @ ''<summary>'' @ [newline] @
          summary_text @ [newline] @ ''</summary>''))]"

definition hold_summary :: "(string \<Rightarrow> string) \<Rightarrow> string \<Rightarrow> json list \<Rightarrow> compaction \<Rightarrow> compaction" where
  "hold_summary sha256 summary_text covered st =
     st\<lparr>c_summary := summary_text, c_digest := digest_messages sha256 covered, c_count := length covered\<rparr>"

definition reset_compaction_backoff :: "compaction \<Rightarrow> compaction" where
  "reset_compaction_backoff st = st\<lparr>c_turn := 0, c_failures := 0, c_suppress_until := 0\<rparr>"

definition compaction_suppressed :: "compaction \<Rightarrow> bool" where
  "compaction_suppressed st = (c_turn st < c_suppress_until st)"

definition backoff_window :: "nat \<Rightarrow> int" where
  "backoff_window failures = min (2 ^ failures) COMPACTION_BACKOFF_CAP_TURNS"

definition record_compaction_failure :: "int \<Rightarrow> json list \<Rightarrow> compaction \<Rightarrow> py_error + compaction" where
  "record_compaction_failure limit ms st =
     bind_res (emit_context_snapshot limit ''compaction_failed'' (Some ms) None None (c_tracking st)) (\<lambda>tr.
       let failures = Suc (c_failures st) in
       Inr (st\<lparr>c_tracking := tr, c_failures := failures,
          c_suppress_until := c_turn st + backoff_window failures\<rparr>))"

definition record_compaction_success :: "compaction \<Rightarrow> compaction" where
  "record_compaction_success st = st\<lparr>c_failures := 0, c_suppress_until := 0\<rparr>"

subsection \<open>Where the history is cut\<close>

text \<open>Over the messages from the newest: the first one that exceeds the budget is the last to be
  summarised.\<close>

fun recent_split :: "int \<Rightarrow> json list \<Rightarrow> nat" where
  "recent_split recent_tokens [] = 1"
| "recent_split recent_tokens (m # older) =
     (if KEEP_RECENT_TOKENS < recent_tokens + estimate_tokens [m] then Suc (length older)
      else recent_split (recent_tokens + estimate_tokens [m]) older)"

definition is_function_call_output :: "json \<Rightarrow> bool" where
  "is_function_call_output = has_type ''function_call_output''"

function snap_split_forward :: "json list \<Rightarrow> nat \<Rightarrow> nat" where
  "snap_split_forward ms i =
     (if i < length ms - 1 \<and> is_function_call_output (ms ! i) then snap_split_forward ms (Suc i) else i)"
  by pat_completeness auto
termination by (relation "measure (\<lambda>(ms, i). length ms - i)") auto

declare snap_split_forward.simps [simp del]

definition split_index :: "json list \<Rightarrow> nat" where
  "split_index ms = snap_split_forward ms (max 2 (min (recent_split 0 (rev ms)) (length ms - 1)))"

subsection \<open>Earlier summaries\<close>

definition joined_content :: "json \<Rightarrow> py_error + json" where
  "joined_content m =
     (case item_get m ''content'' (JStr []) of
        JArr ps \<Rightarrow> bind_res (text_parts ps) (\<lambda>ts. Inr (JStr (join '' '' ts)))
      | j \<Rightarrow> Inr j)"

definition is_compaction_summary :: "json \<Rightarrow> py_error + bool" where
  "is_compaction_summary m =
     (case m of
        JObj _ \<Rightarrow> bind_res (joined_content m) (\<lambda>j.
          Inr (case j of JStr s \<Rightarrow> starts_with (strip s) COMPACTION_SUMMARY_PREFIX | _ \<Rightarrow> False))
      | _ \<Rightarrow> Inr False)"

text \<open>The summary message at the head of what is to be summarised, as text.\<close>

definition leading_summary :: "json list \<Rightarrow> py_error + string option" where
  "leading_summary to_summarize =
     (case to_summarize of
        [] \<Rightarrow> Inr None
      | m # _ \<Rightarrow> bind_res (is_compaction_summary m) (\<lambda>yes.
          if yes then bind_res (joined_content m) (\<lambda>j. Inr (Some (py_str j))) else Inr None))"

text \<open>\<open>re.sub(r'\n*<(?:read|modified)-files>.*?</(?:read|modified)-files>', '')\<close>\<close>

definition files_end :: "string \<Rightarrow> nat option" where
  "files_end s =
     (case (find_str ''</read-files>'' s, find_str ''</modified-files>'' s) of
        (None, None) \<Rightarrow> None
      | (Some i, None) \<Rightarrow> Some (i + 13)
      | (None, Some j) \<Rightarrow> Some (j + 17)
      | (Some i, Some j) \<Rightarrow> Some (if i < j then i + 13 else j + 17))"

definition file_block_end :: "string \<Rightarrow> string option" where
  "file_block_end s =
     (let r = dropWhile (\<lambda>c. c = newline) s;
          n = (if starts_with r ''<read-files>'' then 12 else if starts_with r ''<modified-files>'' then 16 else 0)
      in if n = 0 then None
         else case files_end (drop n r) of None \<Rightarrow> None | Some e \<Rightarrow> Some (drop e (drop n r)))"

lemma file_block_end_shorter: "file_block_end s = Some r \<Longrightarrow> length r < length s"
proof -
  assume a: "file_block_end s = Some r"
  define q where "q = dropWhile (\<lambda>c. c = newline) s"
  have "length q \<le> length s" unfolding q_def by (rule length_dropWhile_le)
  moreover have "length r < length q"
    using a by (cases q) (auto simp: file_block_end_def q_def[symmetric] Let_def starts_with_def
        split: if_splits option.splits)
  ultimately show ?thesis by simp
qed

function strip_file_blocks :: "string \<Rightarrow> string" where
  "strip_file_blocks s =
     (case file_block_end s of
        Some r \<Rightarrow> strip_file_blocks r
      | None \<Rightarrow> (case s of [] \<Rightarrow> [] | c # q \<Rightarrow> c # strip_file_blocks q))"
  by pat_completeness auto
termination by (relation "measure length") (auto dest: file_block_end_shorter)

definition summary_prompt :: "string \<Rightarrow> string \<Rightarrow> string" where
  "summary_prompt existing conversation =
     (if existing = [] then FIRST_COMPACTION_PROMPT conversation
      else
        (let inner = (case between ''<summary>'' ''</summary>'' existing of
               None \<Rightarrow> existing | Some (body, _) \<Rightarrow> strip body)
         in MERGE_COMPACTION_PROMPT (strip (strip_file_blocks inner)) conversation))"

subsection \<open>The compaction\<close>

datatype summary_reply = Summary_Failed | Summary_Content "string option"

record compaction_env =
  env_compaction_model :: string
  env_openai_model :: string
  env_openai_api_key :: string
  env_compaction_max_tokens :: string

definition compaction_model :: "compaction_env \<Rightarrow> string" where
  "compaction_model env =
     (if strip (env_compaction_model env) \<noteq> [] then strip (env_compaction_model env)
      else strip (env_openai_model env))"

definition compaction_max_tokens :: "compaction_env \<Rightarrow> int" where
  "compaction_max_tokens env =
     (case int_str (env_compaction_max_tokens env) of
        None \<Rightarrow> DEFAULT_COMPACTION_MAX_TOKENS
      | Some n \<Rightarrow> if 0 < n then n else DEFAULT_COMPACTION_MAX_TOKENS)"

type_synonym summariser = "string \<Rightarrow> int \<Rightarrow> string \<Rightarrow> summary_reply"

definition summarise_history ::
    "(string \<Rightarrow> string) \<Rightarrow> compaction_env \<Rightarrow> summariser \<Rightarrow> int \<Rightarrow> json list \<Rightarrow> json list \<Rightarrow> json list \<Rightarrow>
     json list \<Rightarrow> string \<Rightarrow> json list \<Rightarrow> compaction \<Rightarrow> py_error + compaction \<times> json list" where
  "summarise_history sha256 env summarise limit ms preserved to_summarize to_keep existing new st =
     bind_res (extract_file_operations new) (\<lambda>files.
     bind_res (serialize_messages_for_summary new) (\<lambda>conversation.
       if compaction_model env = [] \<or> strip (env_openai_api_key env) = []
       then Inr (st, trim_context_window limit ms)
       else
         (let content = (case summarise (compaction_model env) (compaction_max_tokens env)
                 (summary_prompt existing conversation) of
               Summary_Failed \<Rightarrow> []
             | Summary_Content None \<Rightarrow> []
             | Summary_Content (Some c) \<Rightarrow> c)
          in if strip content = [] then
               bind_res (record_compaction_failure limit ms st) (\<lambda>st'.
                 Inr (st', trim_context_window limit ms))
             else
               bind_res (format_file_lists files existing) (\<lambda>file_lists.
                 let summary_text = (if file_lists \<noteq> [] then rstrip content @ [newline, newline] @ file_lists
                       else content)
                 in Inr (record_compaction_success (hold_summary sha256 summary_text to_summarize st),
                      preserved @ [summary_message summary_text] @ to_keep)))))"

definition attempt_compaction ::
    "(string \<Rightarrow> string) \<Rightarrow> compaction_env \<Rightarrow> summariser \<Rightarrow> int \<Rightarrow> compaction \<Rightarrow> json list \<Rightarrow>
     py_error + compaction \<times> json list" where
  "attempt_compaction sha256 env summarise limit st ms =
     bind_res (is_compaction_summary (hd ms)) (\<lambda>starts_with_summary.
       let split = split_index ms;
           preserved = (if starts_with_summary then [] else [hd ms]);
           to_summarize = (if starts_with_summary then take split ms else drop 1 (take split ms));
           to_keep = drop split ms
       in case match_held_summary sha256 st to_summarize of
            Some (held, new) \<Rightarrow>
              if new = [] then Inr (st, preserved @ [summary_message held] @ to_keep)
              else summarise_history sha256 env summarise limit ms preserved to_summarize to_keep held new st
          | None \<Rightarrow>
              bind_res (leading_summary to_summarize) (\<lambda>leading.
                case leading of
                  Some existing \<Rightarrow>
                    summarise_history sha256 env summarise limit ms preserved to_summarize to_keep
                      existing (drop 1 to_summarize) st
                | None \<Rightarrow>
                    summarise_history sha256 env summarise limit ms preserved to_summarize to_keep
                      [] to_summarize st))"

definition compact_context ::
    "(string \<Rightarrow> string) \<Rightarrow> compaction_env \<Rightarrow> summariser \<Rightarrow> int \<Rightarrow> compaction \<Rightarrow> json list \<Rightarrow>
     py_error + compaction \<times> json list" where
  "compact_context sha256 env summarise limit st ms =
     (if length ms \<le> 2 \<or> estimate_tokens ms \<le> limit then Inr (st, ms)
      else
        (let st1 = st\<lparr>c_turn := c_turn st + 1\<rparr> in
         if compaction_suppressed st1 then Inr (st1, trim_context_window limit ms)
         else bind_res (emit_context_snapshot limit ''compaction_triggered'' (Some ms) None
               (Some (estimate_tokens ms)) (c_tracking st1)) (\<lambda>tr.
             attempt_compaction sha256 env summarise limit (st1\<lparr>c_tracking := tr\<rparr>) ms)))"

definition filter_model_input ::
    "(string \<Rightarrow> string) \<Rightarrow> compaction_env \<Rightarrow> summariser \<Rightarrow> int \<Rightarrow> int \<Rightarrow> compaction \<Rightarrow> json list \<Rightarrow>
     py_error + compaction \<times> json list" where
  "filter_model_input sha256 env summarise limit max_screenshots st ms =
     bind_res (sanitize_tool_calls ms) (\<lambda>ms1.
     bind_res (compact_context sha256 env summarise limit st (strip_screenshots max_screenshots ms1)) (\<lambda>(st', ms2).
       Inr (st'\<lparr>c_tracking := record_model_input ms2 (c_tracking st')\<rparr>, ms2)))"

subsection \<open>Lemmas\<close>

lemma snap_split_bounds:
  "i < length ms \<Longrightarrow> i \<le> snap_split_forward ms i \<and> snap_split_forward ms i < length ms \<and>
     (snap_split_forward ms i = length ms - 1 \<or> \<not> is_function_call_output (ms ! snap_split_forward ms i))"
proof (induction ms i rule: snap_split_forward.induct)
  case (1 ms i)
  show ?case
  proof (cases "i < length ms - 1 \<and> is_function_call_output (ms ! i)")
    case True
    then have "snap_split_forward ms i = snap_split_forward ms (Suc i)" by (simp add: snap_split_forward.simps)
    moreover have "Suc i < length ms" using True by linarith
    ultimately show ?thesis using 1(1)[OF True] by auto
  next
    case False
    then have "snap_split_forward ms i = i" by (simp add: snap_split_forward.simps)
    then show ?thesis using False 1(2) by auto
  qed
qed

text \<open>At least one message is preserved, one summarised, one kept; a tool result heads the kept
  part only when it is the whole of it.\<close>

lemma split_index_bounds:
  assumes "2 < length ms"
  shows "2 \<le> split_index ms" "split_index ms < length ms"
    "split_index ms = length ms - 1 \<or> \<not> is_function_call_output (ms ! split_index ms)"
proof -
  let ?i = "max 2 (min (recent_split 0 (rev ms)) (length ms - 1))"
  have "2 \<le> ?i" "?i < length ms" using assms by auto
  with snap_split_bounds[of ?i ms] show "2 \<le> split_index ms" "split_index ms < length ms"
    "split_index ms = length ms - 1 \<or> \<not> is_function_call_output (ms ! split_index ms)"
    by (auto simp: split_index_def)
qed

text \<open>The two shapes of a result above the limit.\<close>

definition summarised :: "json list \<Rightarrow> bool \<Rightarrow> string \<Rightarrow> json list" where
  "summarised ms starts_with_summary s =
     (if starts_with_summary then [] else [hd ms]) @ [summary_message s] @ drop (split_index ms) ms"

lemma summarise_history_out:
  assumes "summarise_history sha256 env summarise limit ms preserved to_summarize to_keep existing new st = Inr (st', out)"
  shows "out = trim_context_window limit ms \<or> (\<exists>s. out = preserved @ [summary_message s] @ to_keep)"
  using assms by (auto simp: summarise_history_def bind_res_eq_Inr Let_def split: if_splits)

lemma attempt_compaction_out:
  assumes "attempt_compaction sha256 env summarise limit st ms = Inr (st', out)"
  shows "out = trim_context_window limit ms \<or>
    (\<exists>yes s. is_compaction_summary (hd ms) = Inr yes \<and> out = summarised ms yes s)"
proof -
  obtain yes where yes: "is_compaction_summary (hd ms) = Inr yes"
    using assms by (auto simp: attempt_compaction_def bind_res_eq_Inr)
  let ?p = "if yes then [] else [hd ms]" and ?k = "drop (split_index ms) ms"
  let ?t = "if yes then take (split_index ms) ms else drop 1 (take (split_index ms) ms)"
  have "out = trim_context_window limit ms \<or> (\<exists>s. out = ?p @ [summary_message s] @ ?k)"
  proof (cases "match_held_summary sha256 st ?t")
    case None
    then obtain ex new where "summarise_history sha256 env summarise limit ms ?p ?t ?k ex new st = Inr (st', out)"
      using assms yes unfolding attempt_compaction_def Let_def
      by (auto simp: bind_res_eq_Inr split: option.splits)
    then show ?thesis by (rule summarise_history_out)
  next
    case (Some hn)
    obtain held new where hn: "hn = (held, new)" by (cases hn)
    show ?thesis
    proof (cases "new = []")
      case True
      then have "out = ?p @ [summary_message held] @ ?k"
        using assms yes Some hn unfolding attempt_compaction_def Let_def by simp
      then show ?thesis by blast
    next
      case False
      then have "summarise_history sha256 env summarise limit ms ?p ?t ?k held new st = Inr (st', out)"
        using assms yes Some hn unfolding attempt_compaction_def Let_def by simp
      then show ?thesis by (rule summarise_history_out)
    qed
  qed
  with yes show ?thesis by (simp add: summarised_def)
qed

lemma compact_context_out:
  assumes "compact_context sha256 env summarise limit st ms = Inr (st', out)"
  shows "if length ms \<le> 2 \<or> estimate_tokens ms \<le> limit then out = ms \<and> st' = st
    else out = trim_context_window limit ms \<or>
      (\<exists>yes s. is_compaction_summary (hd ms) = Inr yes \<and> out = summarised ms yes s)"
  using assms
  by (auto simp: compact_context_def Let_def bind_res_eq_Inr split: if_splits dest!: attempt_compaction_out)

lemma json_wf_sort_keys: "json_wf j \<Longrightarrow> json_wf (json_sort_keys j)"
proof (induction j)
  case (JObj d)
  define e where "e = map (\<lambda>(k, v). (k, json_sort_keys v)) d"
  have "map fst e = map fst d" by (auto simp: e_def case_prod_beta)
  moreover have "mset (map fst (sort_key fst e)) = mset (map fst e)" by simp
  ultimately have "distinct (map fst (sort_key fst e))"
    using JObj.prems mset_eq_imp_distinct_iff by (metis json_wf.simps(3))
  then have "distinct (map fst (sort_key fst (map (\<lambda>(k, v). (k, json_sort_keys v)) d)))" by (simp only: e_def)
  then show ?case using JObj by (auto simp: list_all_iff)
qed (auto simp: list_all_iff)

text \<open>Under a collision-free hash, equal digests are equal messages up to the order of keys.\<close>

lemma digest_messages_eq:
  assumes "json_dumps_sorted (JArr xs) = json_dumps_sorted (JArr ys)"
    and "list_all json_wf xs" "list_all json_wf ys"
  shows "map json_sort_keys xs = map json_sort_keys ys"
proof -
  have "json_dumps (json_sort_keys (JArr xs)) = json_dumps (json_sort_keys (JArr ys))"
    using assms(1) by (simp add: json_dumps_sorted_def)
  moreover have "json_wf (json_sort_keys (JArr xs))" "json_wf (json_sort_keys (JArr ys))"
    using assms(2,3) by (intro json_wf_sort_keys; simp)+
  ultimately have "json_sort_keys (JArr xs) = json_sort_keys (JArr ys)"
    by (metis json_loads_dumps option.inject)
  then show ?thesis by simp
qed

subsection \<open>Properties\<close>


text \<open>A held summary is used only for the messages it describes: if after holding a summary for
  some messages the match succeeds on a later history, the summary is that one and the covered
  prefix of the history equals those messages (up to the order of object keys), provided the hash
  has no collision between a prefix of this history and those messages; what is left to summarise is exactly what follows that prefix.\<close>

theorem held_summary_sound:
  assumes "list_all json_wf covered" "list_all json_wf history"
    and "\<And>k. sha256 (json_dumps_sorted (JArr (take k history))) = sha256 (json_dumps_sorted (JArr covered)) \<Longrightarrow>
      json_dumps_sorted (JArr (take k history)) = json_dumps_sorted (JArr covered)"
    and "match_held_summary sha256 (hold_summary sha256 text covered st) history = Some (held, new)"
  shows "held = text \<and>
    map json_sort_keys (take (length covered) history) = map json_sort_keys covered \<and>
    history = take (length covered) history @ new"
proof -
  have d: "digest_messages sha256 (take (length covered) history) = digest_messages sha256 covered"
    and h: "held = text" and n: "new = drop (length covered) history"
    using assms(4) by (auto simp: match_held_summary_def hold_summary_def split: if_splits)
  have w: "list_all json_wf (take (length covered) history)"
    using assms(2) set_take_subset[of "length covered" history] by (auto simp: list_all_iff)
  show ?thesis
    using digest_messages_eq[OF assms(3)[OF d[unfolded digest_messages_def]] w assms(1)] h n by simp
qed

text \<open>The backoff after a failed compaction: with \<open>n\<close> earlier failures in a row the window is
  \<open>min (2^(n+1)) 16\<close>; on each of the following \<open>window - 1\<close> turns above the limit the history is
  trimmed without asking the model and only the turn counter changes; on the turn after them
  compaction is attempted again, so that one turn less is suppressed than the log line says.\<close>

theorem compaction_backoff_window:
  assumes "record_compaction_failure limit ms0 st = Inr st1"
    and "2 < length ms" "limit < estimate_tokens ms"
  shows "(\<forall>k. 1 \<le> k \<longrightarrow> k < backoff_window (Suc (c_failures st)) \<longrightarrow>
      compact_context sha256 env summarise limit (st1\<lparr>c_turn := c_turn st + k - 1\<rparr>) ms =
        Inr (st1\<lparr>c_turn := c_turn st + k\<rparr>, trim_context_window limit ms)) \<and>
    \<not> compaction_suppressed (st1\<lparr>c_turn := c_turn st + backoff_window (Suc (c_failures st))\<rparr>)"
proof -
  from assms(1) have "c_suppress_until st1 = c_turn st + backoff_window (Suc (c_failures st))"
    by (auto simp: record_compaction_failure_def bind_res_eq_Inr Let_def)
  then show ?thesis
    using assms(2,3) by (auto simp: compact_context_def Let_def compaction_suppressed_def)
qed

text \<open>Trimming, the fallback, does cut tool results from their calls: a history of a prompt, a call
  and its result that exceeds the limit is trimmed to the prompt and the result, whose call is
  gone, where compaction would never keep such a result at the head of a longer tail.\<close>

theorem trimming_orphans_results:
  assumes "0 \<le> limit" "limit < estimate_tokens [prompt, call, output]"
    and "has_type ''function_call'' call" "has_type ''function_call_output'' output"
  shows "trim_context_window limit [prompt, call, output] = [prompt, output] \<and>
    call \<notin> set [output]"
proof -
  have "trim_target limit \<le> limit" using assms(1) by (simp add: trim_target_def)
  with assms(2) have "trim_target limit < estimate_tokens [prompt, call, output]" by simp
  with assms(2) have "trim_context_window limit [prompt, call, output] = [prompt, output]"
    by (simp add: trim_context_window_def)
  moreover have "call \<noteq> output" using assms(3,4) by (auto simp: has_type_def)
  ultimately show ?thesis by simp
qed

subsection \<open>Witnesses\<close>

definition idle_tracking :: tracking where
  "idle_tracking = \<lparr>tr_messages = [], tr_crossed = [], tr_events = []\<rparr>"

definition idle_compaction :: compaction where
  "idle_compaction = \<lparr>c_turn = 0, c_failures = 0, c_suppress_until = 0, c_summary = [], c_digest = [],
     c_count = 0, c_tracking = idle_tracking\<rparr>"

definition sample_env :: compaction_env where
  "sample_env = \<lparr>env_compaction_model = [], env_openai_model = ''m'', env_openai_api_key = ''k'',
     env_compaction_max_tokens = []\<rparr>"

definition sample_summariser :: summariser where
  "sample_summariser model max_tokens content = Summary_Content (Some ''s'')"

definition sample_history :: "json list" where
  "sample_history = [JStr ''p'', JStr ''a'', JStr ''b'']"

lemma sample_compacted:
  "map_sum id snd (compact_context id sample_env sample_summariser 1 idle_compaction sample_history) =
     Inr [JStr ''p'', summary_message ''s'', JStr ''b'']"
  by code_simp


theorem held_summary_sound_witness:
  "match_held_summary id (hold_summary id ''s'' [JStr ''a''] idle_compaction) [JStr ''a'', JInt 1] =
     Some (''s'', [JInt 1]) \<and>
   map json_sort_keys (take (length [JStr ''a'']) [JStr ''a'', JInt 1]) = map json_sort_keys [JStr ''a'']"
proof -
  have "match_held_summary id (hold_summary id ''s'' [JStr ''a''] idle_compaction) [JStr ''a'', JInt 1] =
      Some (''s'', [JInt 1])" by code_simp
  moreover from held_summary_sound[OF _ _ _ this]
  have "map json_sort_keys (take (length [JStr ''a'']) [JStr ''a'', JInt 1]) = map json_sort_keys [JStr ''a'']"
    by simp
  ultimately show ?thesis by blast
qed

definition failed_once :: compaction where
  "failed_once = (case record_compaction_failure 1 [] idle_compaction of
     Inr st \<Rightarrow> st | Inl _ \<Rightarrow> idle_compaction)"

theorem compaction_backoff_window_witness:
  "compact_context id sample_env sample_summariser 1 (failed_once\<lparr>c_turn := 0\<rparr>) sample_history =
     Inr (failed_once\<lparr>c_turn := 1\<rparr>, trim_context_window 1 sample_history)"
proof -
  have r: "record_compaction_failure 1 [] idle_compaction = Inr failed_once" by code_simp
  have l: "2 < length sample_history" "1 < estimate_tokens sample_history" by code_simp+
  have w: "1 < backoff_window (Suc (c_failures idle_compaction))" by code_simp
  show ?thesis
    using compaction_backoff_window[OF r l, of id sample_env sample_summariser] w
    by (auto dest!: spec[of _ "1 :: int"] simp: idle_compaction_def)
qed

theorem trimming_orphans_results_witness:
  "trim_context_window 9 [JStr ''p'', sample_call ''[]'', sample_output] = [JStr ''p'', sample_output]"
proof -
  have "9 < estimate_tokens [JStr ''p'', sample_call ''[]'', sample_output]" by code_simp
  then show ?thesis
    using trimming_orphans_results[of 9 "JStr ''p''" "sample_call ''[]''" sample_output]
    by (simp add: has_type_def json_get_def sample_call_def sample_output_def)
qed

end
