(* ===== verification/Stall_Guard.thy ===== *)
theory Stall_Guard
  imports Runner_Sanitize
begin

text \<open>
  The guard against no-progress loops (\<open>StallDetector\<close> and \<open>make_stall_guardrail\<close> of
  \<open>task-runner/main.py\<close>).  A call is its tool, its decoded arguments and the text of its result;
  SHA-256 is a parameter.  The reference definition \<open>trailing_run\<close> counts the equal results at
  the end of a call's own sequence; the detector's state refines it.
\<close>

definition DEFAULT_STALL_REPEAT_LIMIT :: int where "DEFAULT_STALL_REPEAT_LIMIT = 6"
definition DEFAULT_STALL_NUDGE_LIMIT :: int where "DEFAULT_STALL_NUDGE_LIMIT = 3"

record stall =
  st_limit :: int
  st_nudge_limit :: int
  st_state :: "(string \<times> (string \<times> nat)) list"
  st_nudged :: "string list"

definition new_stall :: "int \<Rightarrow> int \<Rightarrow> stall" where
  "new_stall limit nudge_limit =
     \<lparr>st_limit = limit, st_nudge_limit = (if 0 < nudge_limit \<and> nudge_limit < limit then nudge_limit else 0),
      st_state = [], st_nudged = []\<rparr>"

definition signature :: "string \<Rightarrow> json \<Rightarrow> string" where
  "signature tool args = tool @ '':'' @ json_dumps_sorted args"

definition stall_record :: "(string \<Rightarrow> string) \<Rightarrow> string \<Rightarrow> json \<Rightarrow> string \<Rightarrow> stall \<Rightarrow> stall \<times> nat" where
  "stall_record sha256 tool args result st =
     (if st_limit st \<le> 0 then (st, 0)
      else
        (let sig = signature tool args; digest = sha256 result;
             n = (case dict_get (st_state st) sig of
                    None \<Rightarrow> 1
                  | Some (prev, k) \<Rightarrow> if digest = prev then Suc k else 1)
         in (st\<lparr>st_state := dict_set sig (digest, n) (st_state st)\<rparr>, n)))"

definition should_nudge :: "string \<Rightarrow> json \<Rightarrow> nat \<Rightarrow> stall \<Rightarrow> stall \<times> bool" where
  "should_nudge tool args n st =
     (if st_nudge_limit st = 0 \<or> int n < st_nudge_limit st \<or> st_limit st \<le> int n then (st, False)
      else if signature tool args \<in> set (st_nudged st) then (st, False)
      else (st\<lparr>st_nudged := signature tool args # st_nudged st\<rparr>, True))"

text \<open>The dash of the message is outside the model's characters and stands as a hyphen.\<close>

definition build_stall_nudge :: "string \<Rightarrow> nat \<Rightarrow> string" where
  "build_stall_nudge tool n =
     ''You have now called '' @ tool @ '' '' @ show_nat (int n) @ '' times with identical arguments '' @
     ''and received the identical result every time. Its effect is already in '' @
     ''place - repeating it changes nothing. If your work is complete, call '' @
     ''submit_result now with a summary of what you accomplished. If it is not '' @
     ''complete, do something different from repeating this call.''"

definition stall_message :: "string \<Rightarrow> nat \<Rightarrow> int \<Rightarrow> string" where
  "stall_message tool n limit =
     ''Tool '' @ [apostrophe] @ tool @ [apostrophe] @ '' called '' @ show_nat (int n) @
     '' times with identical arguments and an unchanged result; aborting suspected no-progress loop '' @
     ''(STALL_REPEAT_LIMIT='' @ show_int limit @ '')''"

datatype verdict = Allow | Reject_Content string | Abort string

definition decode_arguments :: "string \<Rightarrow> json" where
  "decode_arguments raw =
     (if raw = [] then JObj []
      else case json_loads raw of Some j \<Rightarrow> j | None \<Rightarrow> JObj [(''raw'', JStr raw)])"

record tool_call =
  tc_tool :: string
  tc_arguments :: string   \<comment> \<open>as the model wrote them\<close>
  tc_result :: string

definition guardrail :: "(string \<Rightarrow> string) \<Rightarrow> tool_call \<Rightarrow> stall \<Rightarrow> stall \<times> verdict" where
  "guardrail sha256 c st =
     (let args = decode_arguments (tc_arguments c);
          (st1, n) = stall_record sha256 (tc_tool c) args (tc_result c) st
      in if n = 0 then (st1, Allow)
         else if st_limit st1 \<le> int n then (st1, Abort (stall_message (tc_tool c) n (st_limit st1)))
         else
           (let (st2, nudge) = should_nudge (tc_tool c) args n st1
            in (st2, if nudge then Reject_Content (build_stall_nudge (tc_tool c) n) else Allow)))"

text \<open>A run of the guard over the completed calls of one attempt.\<close>

fun guard_run :: "(string \<Rightarrow> string) \<Rightarrow> stall \<Rightarrow> tool_call list \<Rightarrow> stall \<times> verdict list" where
  "guard_run sha256 st [] = (st, [])"
| "guard_run sha256 st (c # cs) =
     (let (st1, v) = guardrail sha256 c st; (st2, vs) = guard_run sha256 st1 cs in (st2, v # vs))"

subsection \<open>The reference definition\<close>

definition call_signature :: "tool_call \<Rightarrow> string" where
  "call_signature c = signature (tc_tool c) (decode_arguments (tc_arguments c))"

definition trailing_run :: "'a list \<Rightarrow> nat" where
  "trailing_run xs = length (takeWhile (\<lambda>x. x = last xs) (rev xs))"

text \<open>The result digests a call's own sequence has returned.\<close>

definition own_digests :: "(string \<Rightarrow> string) \<Rightarrow> string \<Rightarrow> tool_call list \<Rightarrow> string list" where
  "own_digests sha256 sig cs = map (\<lambda>c. sha256 (tc_result c)) (filter (\<lambda>c. call_signature c = sig) cs)"

definition is_nudge :: "verdict \<Rightarrow> bool" where
  "is_nudge v = (case v of Reject_Content _ \<Rightarrow> True | _ \<Rightarrow> False)"

definition was_nudged :: "string \<Rightarrow> tool_call list \<Rightarrow> verdict list \<Rightarrow> bool" where
  "was_nudged sig cs vs = list_ex (\<lambda>(c, v). call_signature c = sig \<and> is_nudge v) (zip cs vs)"

lemma trailing_run_snoc:
  "trailing_run (xs @ [x]) = (if xs \<noteq> [] \<and> last xs = x then Suc (trailing_run xs) else 1)"
proof (cases "xs = []")
  case False
  then obtain ys y where "xs = ys @ [y]" by (cases xs rule: rev_cases) auto
  then show ?thesis by (auto simp: trailing_run_def)
qed (simp add: trailing_run_def)

lemma trailing_run_pos: "xs \<noteq> [] \<Longrightarrow> 0 < trailing_run xs"
  by (cases xs rule: rev_cases) (simp_all add: trailing_run_snoc)

text \<open>What the state says of a history.\<close>

definition stall_refines :: "(string \<Rightarrow> string) \<Rightarrow> int \<Rightarrow> int \<Rightarrow> stall \<Rightarrow> tool_call list \<Rightarrow> verdict list \<Rightarrow> bool" where
  "stall_refines sha256 limit nudge st cs vs =
     (st_limit st = limit \<and> st_nudge_limit st = (if 0 < nudge \<and> nudge < limit then nudge else 0) \<and>
      length vs = length cs \<and>
      (\<forall>sig. dict_get (st_state st) sig =
         (if own_digests sha256 sig cs = [] then None
          else Some (last (own_digests sha256 sig cs), trailing_run (own_digests sha256 sig cs)))) \<and>
      (\<forall>sig. sig \<in> set (st_nudged st) \<longleftrightarrow> was_nudged sig cs vs))"

definition verdict_spec :: "int \<Rightarrow> int \<Rightarrow> string \<Rightarrow> nat \<Rightarrow> bool \<Rightarrow> verdict" where
  "verdict_spec limit nudge tool n nudged =
     (if limit \<le> int n then Abort (stall_message tool n limit)
      else if 0 < nudge \<and> nudge \<le> int n \<and> \<not> nudged then Reject_Content (build_stall_nudge tool n)
      else Allow)"

lemma own_digests_snoc:
  "own_digests sha256 sig (cs @ [c]) =
     own_digests sha256 sig cs @ (if call_signature c = sig then [sha256 (tc_result c)] else [])"
  by (simp add: own_digests_def)

lemma was_nudged_snoc:
  "length vs = length cs \<Longrightarrow> was_nudged sig (cs @ [c]) (vs @ [v]) \<longleftrightarrow>
     was_nudged sig cs vs \<or> call_signature c = sig \<and> is_nudge v"
  by (auto simp: was_nudged_def)

lemma guardrail_refines:
  assumes "stall_refines sha256 limit nudge st cs vs" "0 < limit" "guardrail sha256 c st = (st', v)"
  shows "v = verdict_spec limit nudge (tc_tool c)
      (trailing_run (own_digests sha256 (call_signature c) (cs @ [c]))) (was_nudged (call_signature c) cs vs)"
    and "stall_refines sha256 limit nudge st' (cs @ [c]) (vs @ [v])"
proof -
  let ?sig = "call_signature c" and ?d = "sha256 (tc_result c)"
  let ?n = "trailing_run (own_digests sha256 ?sig (cs @ [c]))"
  note r = assms(1)[unfolded stall_refines_def]
  have n: "(case dict_get (st_state st) ?sig of None \<Rightarrow> 1
      | Some (prev, k) \<Rightarrow> if ?d = prev then Suc k else 1) = ?n"
    using r by (auto simp: own_digests_snoc trailing_run_snoc)
  have rec: "stall_record sha256 (tc_tool c) (decode_arguments (tc_arguments c)) (tc_result c) st =
      (st\<lparr>st_state := dict_set ?sig (?d, ?n) (st_state st)\<rparr>, ?n)"
    using r assms(2) n by (simp add: stall_record_def call_signature_def[symmetric] Let_def)
  have pos: "?n \<noteq> 0" by (simp add: own_digests_snoc trailing_run_snoc)
  have state: "dict_get (dict_set ?sig (?d, ?n) (st_state st)) sig =
      (if own_digests sha256 sig (cs @ [c]) = [] then None
       else Some (last (own_digests sha256 sig (cs @ [c])), trailing_run (own_digests sha256 sig (cs @ [c]))))" for sig
    using r by (auto simp: own_digests_snoc)
  have nudged: "sig \<in> set (st_nudged st) \<longleftrightarrow> was_nudged sig cs vs" for sig using r by blast
  have v: "v = verdict_spec limit nudge (tc_tool c) ?n (was_nudged ?sig cs vs)"
    and st': "st' = st\<lparr>st_state := dict_set ?sig (?d, ?n) (st_state st),
       st_nudged := (if is_nudge v then [?sig] else []) @ st_nudged st\<rparr>"
    using assms(2,3) r pos nudged[of ?sig]
    by (auto simp: guardrail_def rec Let_def should_nudge_def call_signature_def[symmetric] verdict_spec_def
        is_nudge_def split: if_splits)
  show "v = verdict_spec limit nudge (tc_tool c) ?n (was_nudged ?sig cs vs)" by (rule v)
  show "stall_refines sha256 limit nudge st' (cs @ [c]) (vs @ [v])"
    using r state nudged by (auto simp: stall_refines_def st' was_nudged_snoc)
qed

lemma guard_run_snoc:
  "guard_run sha256 st (cs @ [c]) =
     (case guard_run sha256 st cs of (st1, vs) \<Rightarrow>
        case guardrail sha256 c st1 of (st2, v) \<Rightarrow> (st2, vs @ [v]))"
  by (induction cs arbitrary: st) (simp_all add: Let_def split: prod.splits)

lemma guard_run_refines:
  assumes "0 < limit"
  shows "case guard_run sha256 (new_stall limit nudge) cs of (st, vs) \<Rightarrow> stall_refines sha256 limit nudge st cs vs"
proof (induction cs rule: rev_induct)
  case Nil
  show ?case by (simp add: stall_refines_def new_stall_def own_digests_def was_nudged_def)
next
  case (snoc c cs)
  obtain st vs where g: "guard_run sha256 (new_stall limit nudge) cs = (st, vs)" by fastforce
  obtain st' v where h: "guardrail sha256 c st = (st', v)" by fastforce
  from snoc g have "stall_refines sha256 limit nudge st cs vs" by simp
  from guardrail_refines(2)[OF this assms h] show ?case by (simp add: guard_run_snoc g h)
qed

subsection \<open>Properties\<close>

text \<open>C16. The stall guard refines its reference definition: over any sequence of completed calls, the
  verdict on the next call depends only on how many times in a row that call (same tool, same
  arguments up to key order) has now returned the same result in its own sequence, and on whether
  it was nudged before.  It is an abort exactly when that count reaches the limit, a nudge exactly
  when the count reaches the nudge limit and the call was never nudged, and otherwise the call is
  let through; calls of other tools or arguments do not matter.\<close>

theorem stall_guard_verdict:
  assumes "0 < limit" "guard_run sha256 (new_stall limit nudge) cs = (st, vs)"
  shows "snd (guardrail sha256 c st) =
    verdict_spec limit nudge (tc_tool c)
      (trailing_run (own_digests sha256 (call_signature c) (cs @ [c]))) (was_nudged (call_signature c) cs vs)"
proof -
  obtain st' v where g: "guardrail sha256 c st = (st', v)" by fastforce
  have "stall_refines sha256 limit nudge st cs vs"
    using guard_run_refines[OF assms(1), of sha256 nudge cs] assms(2) by simp
  from guardrail_refines(1)[OF this assms(1) g] g show ?thesis by simp
qed

definition sample_tool_call :: tool_call where
  "sample_tool_call = \<lparr>tc_tool = ''t'', tc_arguments = [], tc_result = ''r''\<rparr>"

theorem stall_guard_verdict_witness:
  "snd (guardrail id sample_tool_call (fst (guard_run id (new_stall 2 0) [sample_tool_call]))) =
     Abort (stall_message ''t'' 2 2)"
proof -
  obtain st vs where g: "guard_run id (new_stall 2 0) [sample_tool_call] = (st, vs)" by fastforce
  have "trailing_run (own_digests id (call_signature sample_tool_call) ([sample_tool_call] @ [sample_tool_call])) = 2"
    by code_simp
  with stall_guard_verdict[OF _ g, of sample_tool_call] g show ?thesis
    by (simp add: verdict_spec_def) (simp add: sample_tool_call_def)
qed

end
