(* ===== verification/Tool_Registry.thy ===== *)
theory Tool_Registry
  imports Runner_Sanitize
begin

text \<open>
  Lazy tool loading (\<open>task-runner/tool_registry.py\<close>): the hot list, the catalog of the tools that
  have to be discovered, \<open>discover_tools\<close> and \<open>submit_result\<close>.  The connected servers are their
  tool lists (\<open>None\<close> when listing failed); reading a skill file is a parameter.
\<close>

definition DEFAULT_HOT_TOOLS :: "string list" where
  "DEFAULT_HOT_TOOLS = [''web_search'', ''fetch_url'', ''retain'', ''recall'']"

definition EXCLUDED_CATALOG_TOOLS :: "string list" where
  "EXCLUDED_CATALOG_TOOLS = [''clone_task_profile'', ''delete_task_profile'', ''search_tasks'',
     ''start_eval_run'', ''record_eval_result'', ''finish_eval_run'', ''get_eval_run'']"

text \<open>Skills map a name to a path.\<close>

record visibility =
  v_enabled :: "string list"
  v_known :: "string list"
  v_always_on :: "string list"
  v_skills :: "(string \<times> string) list"
  v_submitted :: "json option"

text \<open>The environment variable is \<open>[]\<close> when unset.\<close>

definition get_hot_list :: "string \<Rightarrow> string list" where
  "get_hot_list raw =
     (if strip raw \<noteq> [] then filter (\<lambda>n. n \<noteq> []) (map strip (split_char CHR '','' raw)) else DEFAULT_HOT_TOOLS)"

definition tool_filter :: "visibility \<Rightarrow> string \<Rightarrow> bool" where
  "tool_filter v name = (name \<in> set (v_enabled v))"

definition ellipsize :: "nat \<Rightarrow> string \<Rightarrow> string" where
  "ellipsize n s = (if length s \<le> n then s else take n s @ ''...'')"

text \<open>The first sentence, or the first hundred characters.\<close>

definition truncate_description :: "string \<Rightarrow> string" where
  "truncate_description desc =
     (if desc = [] then []
      else case find_str ''. '' desc of
          Some i \<Rightarrow> ellipsize 100 (take (i + 1) desc)
        | None \<Rightarrow>
            (case find_str [CHR ''.'', newline] desc of
               Some i \<Rightarrow> ellipsize 100 (take (i + 1) desc)
             | None \<Rightarrow> ellipsize 100 desc))"

definition xml_escape :: "string \<Rightarrow> string" where
  "xml_escape s = concat (map (\<lambda>c.
     if c = CHR ''&'' then ''&amp;'' else if c = CHR ''<'' then ''&lt;'' else if c = CHR ''>'' then ''&gt;'' else [c]) s)"

definition visible_tools :: "(string \<times> string) list option list \<Rightarrow> (string \<times> string) list" where
  "visible_tools servers =
     filter (\<lambda>(name, _). name \<notin> set EXCLUDED_CATALOG_TOOLS)
       (concat (map (\<lambda>s. case s of None \<Rightarrow> [] | Some ts \<Rightarrow> ts) servers))"

definition catalog_line :: "string \<times> string \<Rightarrow> string" where
  "catalog_line t = (case t of (name, desc) \<Rightarrow> ''- '' @ xml_escape name @ '': '' @ xml_escape (truncate_description desc))"

definition catalog_header :: string where
  "catalog_header = ''IMPORTANT: The tools listed below are NOT yet enabled. You MUST call '' @
     ''discover_tools with the tool name(s) BEFORE you can use them. Calling a tool without '' @
     ''discovering it first will cause an error. Discover all tools you need in a single call.''"

definition build_tool_catalog ::
    "(string \<times> string) list option list \<Rightarrow> string list \<Rightarrow> string \<times> string list" where
  "build_tool_catalog servers hot_list =
     (let tools = visible_tools servers;
          deferred = map catalog_line (filter (\<lambda>(name, _). name \<notin> set hot_list) tools)
      in (if deferred = [] then []
          else ''<available_mcp_tools>'' @ [newline] @ catalog_header @ [newline] @
            join [newline] deferred @ [newline] @ ''</available_mcp_tools>'',
          map fst tools))"

subsection \<open>Submitting a result\<close>

definition runner_questions :: "json \<Rightarrow> string list" where
  "runner_questions value =
     (case value of
        JNull \<Rightarrow> []
      | JStr s \<Rightarrow> (case json_loads s of Some (JArr xs) \<Rightarrow> map py_str xs | _ \<Rightarrow> [s])
      | JArr xs \<Rightarrow> map py_str xs
      | _ \<Rightarrow> [py_str value])"

definition submit_result :: "string \<Rightarrow> string \<Rightarrow> json \<Rightarrow> visibility \<Rightarrow> visibility \<times> string" where
  "submit_result result status questions v =
     (if status \<noteq> ''completed'' \<and> status \<noteq> ''needs_input'' then
        (v, ''Invalid status '' @ [apostrophe] @ status @ [apostrophe] @ ''. Must be '' @ [apostrophe] @
          ''completed'' @ [apostrophe] @ '' or '' @ [apostrophe] @ ''needs_input'' @ [apostrophe] @ ''.'')
      else
        (v\<lparr>v_submitted := Some (JObj [(''status'', JStr status), (''result'', JStr result),
            (''questions'', JArr (map JStr (runner_questions questions)))])\<rparr>,
         ''Result submitted successfully. You may now stop.''))"

subsection \<open>Discovering tools\<close>

text \<open>Precedence: excluded, always on, known tool, installed skill, not found.  A skill whose file
  cannot be read is not found.\<close>

datatype discovery =
    Already_On
  | Enable
  | Skill string string   \<comment> \<open>path and content\<close>
  | Not_Found

definition resolve_name :: "(string \<Rightarrow> string option) \<Rightarrow> visibility \<Rightarrow> string \<Rightarrow> discovery" where
  "resolve_name read_file v name =
     (if name \<in> set EXCLUDED_CATALOG_TOOLS then Not_Found
      else if name \<in> set (v_always_on v) then Already_On
      else if name \<in> set (v_known v) then Enable
      else case dict_get (v_skills v) name of
          None \<Rightarrow> Not_Found
        | Some path \<Rightarrow> (case read_file path of None \<Rightarrow> Not_Found | Some content \<Rightarrow> Skill path content))"

definition skill_block :: "string \<times> string \<Rightarrow> string" where
  "skill_block s = (case s of (path, content) \<Rightarrow>
     ''--- '' @ path @ '' ---'' @ [newline] @ content @ [newline] @ ''--- end skill ---'')"

definition clause :: "string \<Rightarrow> string list \<Rightarrow> string list" where
  "clause label names = (if names = [] then [] else [label @ join '', '' names])"

definition discover_tools ::
    "(string \<Rightarrow> string option) \<Rightarrow> string list \<Rightarrow> visibility \<Rightarrow> visibility \<times> string" where
  "discover_tools read_file names v =
     (let r = resolve_name read_file v;
          enabled = filter (\<lambda>n. r n = Enable) names;
          already = filter (\<lambda>n. r n = Already_On) names;
          skills = concat (map (\<lambda>n. case r n of Skill p c \<Rightarrow> [(n, (p, c))] | _ \<Rightarrow> []) names);
          missing = filter (\<lambda>n. r n = Not_Found) names;
          parts = clause ''Enabled: '' enabled @ clause ''Already enabled (always-on): '' already @
            (if skills = [] then []
             else [''Loaded skill: '' @ join '', '' (map fst skills) @ [newline, newline] @
               join [newline, newline] (map (skill_block \<circ> snd) skills)]) @
            clause ''Not found: '' missing
      in (v\<lparr>v_enabled := v_enabled v @ filter (\<lambda>n. n \<notin> set (v_enabled v)) enabled\<rparr>,
          if parts = [] then ''No tools specified.'' else join ''. '' parts))"

subsection \<open>Lemmas\<close>

text \<open>The tools the model may see: known ones and the hot list, and an excluded one only if the
  operator put it on the hot list.\<close>

definition visibility_ok :: "string list \<Rightarrow> visibility \<Rightarrow> bool" where
  "visibility_ok hot_list v =
     (set (v_enabled v) \<subseteq> set hot_list \<union> set (v_known v) \<and>
      set (v_known v) \<inter> set EXCLUDED_CATALOG_TOOLS = {})"

definition initial_visibility :: "(string \<times> string) list option list \<Rightarrow> string list \<Rightarrow> string list \<Rightarrow>
    (string \<times> string) list \<Rightarrow> visibility" where
  "initial_visibility servers hot_list native skills =
     \<lparr>v_enabled = hot_list, v_known = snd (build_tool_catalog servers hot_list), v_always_on = native,
      v_skills = skills, v_submitted = None\<rparr>"

lemma initial_visibility_ok: "visibility_ok hot_list (initial_visibility servers hot_list native skills)"
  by (auto simp: visibility_ok_def initial_visibility_def build_tool_catalog_def visible_tools_def Let_def)

lemma resolve_name_Enable:
  "resolve_name rf v n = Enable \<longleftrightarrow>
     n \<in> set (v_known v) \<and> n \<notin> set (v_always_on v) \<and> n \<notin> set EXCLUDED_CATALOG_TOOLS"
  by (auto simp: resolve_name_def split: option.splits)

lemma discover_tools_enabled:
  "set (v_enabled (fst (discover_tools rf names v))) =
     set (v_enabled v) \<union> {n \<in> set names. resolve_name rf v n = Enable}"
  by (auto simp: discover_tools_def Let_def)

lemma discover_tools_ok: "visibility_ok hot v \<Longrightarrow> visibility_ok hot (fst (discover_tools rf names v))"
proof -
  assume ok: "visibility_ok hot v"
  have k: "v_known (fst (discover_tools rf names v)) = v_known v" by (simp add: discover_tools_def Let_def)
  have "set (v_enabled (fst (discover_tools rf names v))) \<subseteq> set hot \<union> set (v_known v)"
    unfolding discover_tools_enabled using ok by (auto simp: visibility_ok_def resolve_name_Enable)
  with ok show "visibility_ok hot (fst (discover_tools rf names v))"
    by (simp add: visibility_ok_def k)
qed

lemma submit_result_ok: "visibility_ok hot v \<Longrightarrow> visibility_ok hot (fst (submit_result r s q v))"
  by (auto simp: visibility_ok_def submit_result_def)

end
