(* ===== verification/Agent_Loop.thy ===== *)
theory Agent_Loop
  imports Tool_Registry Json_Extract
begin

text \<open>
  The agent loop of \<open>task-runner/main.py\<close> (\<open>main\<close> from its \<open>while\<close> on) with \<open>extract_output\<close>,
  \<open>_classify_error\<close> and the recovery of mangled tool names.  One run of the agents SDK is a
  parameter: what the model's tool calls did to the shared context (\<open>discover_tools\<close> and
  \<open>submit_result\<close>), and how the run ended.  The loop has no bound of its own, so it is run with
  fuel; \<open>agent_loop_terminates\<close> gives the fuel that is enough.
\<close>

definition MAX_AGENT_RETRIES :: nat where "MAX_AGENT_RETRIES = 3"
definition AGENT_RETRY_BASE_DELAY :: int where "AGENT_RETRY_BASE_DELAY = 2"
definition HARMONY_RECOVERY_CAP_PER_PAIR :: nat where "HARMONY_RECOVERY_CAP_PER_PAIR = 3"

subsection \<open>Errors of the model API\<close>

datatype api_error =
    Connection_Failed | Timed_Out | Rate_Limited
  | Api_Status nat bool string   \<comment> \<open>status, whether a bad request or authentication error, message\<close>
  | Other_Error

datatype error_class = Transient | Non_Retryable | Unknown_Class

definition classify_error :: "api_error \<Rightarrow> error_class" where
  "classify_error e =
     (case e of
        Connection_Failed \<Rightarrow> Transient | Timed_Out \<Rightarrow> Transient | Rate_Limited \<Rightarrow> Transient
      | Api_Status status refused msg \<Rightarrow>
          if status \<in> {429, 502, 503, 504} then Transient
          else if refused then Non_Retryable
          else if status = 500 then
            (if contains_str msg ''Unable to convert openai tool calls'' then Non_Retryable else Transient)
          else Non_Retryable
      | Other_Error \<Rightarrow> Unknown_Class)"

definition class_name :: "error_class \<Rightarrow> string" where
  "class_name c = (case c of Transient \<Rightarrow> ''transient'' | Non_Retryable \<Rightarrow> ''non_retryable'' | Unknown_Class \<Rightarrow> ''unknown'')"

subsection \<open>Mangled tool names\<close>

definition EXECUTE_COMMAND_ALIASES :: "string list" where
  "EXECUTE_COMMAND_ALIASES = [''run_command'', ''bash'', ''shell'', ''sh'', ''executescript'']"

definition normalize_harmony_tool_name :: "string \<Rightarrow> string" where
  "normalize_harmony_tool_name name =
     (case find_str ''<|'' name of None \<Rightarrow> name | Some i \<Rightarrow> take i name)"

definition resolve_recovery_target :: "string \<Rightarrow> string list \<Rightarrow> string option" where
  "resolve_recovery_target failing_name known =
     (if failing_name = [] then None
      else
        (let normalized = normalize_harmony_tool_name failing_name in
         if normalized = failing_name then None
         else if normalized \<in> set known \<or> normalized \<in> set EXECUTE_COMMAND_ALIASES
             \<or> normalized = ''execute_command'' then Some normalized
         else None))"

text \<open>\<open>re.search(r"Tool (\S+) not found in agent", message)\<close>\<close>

fun missing_tool :: "string \<Rightarrow> string option" where
  "missing_tool [] = None"
| "missing_tool (c # s) =
     (let w = takeWhile (\<lambda>d. \<not> is_space d) (drop 4 s) in
      if starts_with (c # s) ''Tool '' \<and> w \<noteq> [] \<and> starts_with (drop (4 + length w) s) '' not found in agent''
      then Some w else missing_tool s)"

subsection \<open>The output of a run\<close>

datatype extraction = Output string | Nudge | Empty_Fail

text \<open>\<open>accepts\<close> and \<open>dump\<close> stand for the pydantic model \<open>TaskRunnerOutput\<close>.\<close>

definition extract_output ::
    "(json \<Rightarrow> bool) \<Rightarrow> (json \<Rightarrow> string) \<Rightarrow> json option \<Rightarrow> string \<Rightarrow> bool \<Rightarrow> bool \<Rightarrow> extraction" where
  "extract_output accepts dump submitted raw_text has_tool_items nudge_attempted =
     (case submitted of
        Some r \<Rightarrow> Output (json_dumps r)
      | None \<Rightarrow>
          if strip raw_text \<noteq> [] then
            (case runner_extract_json accepts raw_text of
               Some parsed \<Rightarrow>
                 if json_truthy parsed then Output (dump parsed)
                 else Output (json_dumps (JObj [(''status'', JStr ''completed''), (''result'', JStr raw_text), (''questions'', JArr [])]))
             | None \<Rightarrow>
                 Output (json_dumps (JObj [(''status'', JStr ''completed''), (''result'', JStr raw_text), (''questions'', JArr [])])))
          else if has_tool_items \<and> \<not> nudge_attempted then Nudge
          else Empty_Fail)"

subsection \<open>One run\<close>

datatype context_op = Discover "string list" | Submit string string json

datatype run_end =
    Finished string bool          \<comment> \<open>final text, whether tools were called\<close>
  | Stalled string
  | Model_Behavior string
  | Failed api_error string string \<comment> \<open>error, message, class name\<close>

definition apply_op :: "(string \<Rightarrow> string option) \<Rightarrow> context_op \<Rightarrow> visibility \<Rightarrow> visibility" where
  "apply_op read_file p v =
     (case p of Discover names \<Rightarrow> fst (discover_tools read_file names v)
      | Submit r s q \<Rightarrow> fst (submit_result r s q v))"

record agent_state =
  ag_attempt :: nat
  ag_nudged :: bool
  ag_prompt :: string
  ag_harmony :: "((string \<times> string) \<times> nat) list"
  ag_context :: visibility
  ag_delays :: "int list"
  ag_events :: "(string \<times> json) list"

type_synonym agent_runner = "nat \<Rightarrow> agent_state \<Rightarrow> context_op list \<times> run_end"

record loop_env =
  lv_accepts :: "json \<Rightarrow> bool"
  lv_dump :: "json \<Rightarrow> string"
  lv_read_file :: "string \<Rightarrow> string option"
  lv_prompt :: string
  lv_model :: string

text \<open>The process exits with a code and what it printed, or the loop goes on.\<close>

datatype step_result = Exit nat "string option" | Continue

definition emit :: "string \<Rightarrow> (string \<times> json) list \<Rightarrow> agent_state \<Rightarrow> agent_state" where
  "emit ty data st = st\<lparr>ag_events := ag_events st @ [(ty, JObj data)]\<rparr>"

definition emit_error :: "string \<Rightarrow> string \<Rightarrow> string \<Rightarrow> agent_state \<Rightarrow> agent_state" where
  "emit_error msg ty cls = emit ''error''
     [(''message'', JStr msg), (''error_type'', JStr ty), (''error_class'', JStr cls)]"

definition failed_output :: "string \<Rightarrow> string" where
  "failed_output err = json_dumps (JObj [(''status'', JStr ''failed''), (''result'', JStr []),
     (''error'', JStr err), (''questions'', JArr [])])"

definition nudge_message :: string where
  "nudge_message = ''You completed your work but didn'' @ [apostrophe] @ ''t deliver the result to the user. '' @
     ''Call submit_result now with a comprehensive summary of what you found or accomplished.''"

definition harmony_count :: "agent_state \<Rightarrow> string \<times> string \<Rightarrow> nat" where
  "harmony_count st pair = (case dict_get (ag_harmony st) pair of None \<Rightarrow> 0 | Some n \<Rightarrow> n)"

definition enable_tool :: "string \<Rightarrow> agent_state \<Rightarrow> agent_state" where
  "enable_tool name st =
     st\<lparr>ag_context := (ag_context st)\<lparr>v_enabled := List.insert name (v_enabled (ag_context st))\<rparr>\<rparr>"

text \<open>The handler of \<open>ModelBehaviorError\<close>.\<close>

definition recover_tool :: "loop_env \<Rightarrow> string \<Rightarrow> string \<Rightarrow> agent_state \<Rightarrow> agent_state option" where
  "recover_tool env tool normalized st =
     (let prior = harmony_count st (tool, normalized) in
      if prior < HARMONY_RECOVERY_CAP_PER_PAIR then
        (let st1 = emit ''harmony_suffix_normalized''
               [(''original'', JStr tool), (''normalized'', JStr normalized), (''model'', JStr (lv_model env)),
                (''attempt'', JInt (int prior + 1))]
               (st\<lparr>ag_harmony := dict_set (tool, normalized) (prior + 1) (ag_harmony st)\<rparr>);
             st2 = (if normalized \<in> set (v_known (ag_context st1)) then enable_tool normalized st1 else st1)
         in Some (st2\<lparr>ag_attempt := ag_attempt st2 - 1\<rparr>))
      else None)"

definition give_up :: "string \<Rightarrow> agent_state \<Rightarrow> agent_state \<times> step_result" where
  "give_up msg st = (emit_error msg ''unknown'' ''ModelBehaviorError'' st, Exit 1 None)"

definition auto_enable :: "string \<Rightarrow> string \<Rightarrow> agent_state \<Rightarrow> agent_state \<times> step_result" where
  "auto_enable msg tool st =
     (if tool \<in> set (v_known (ag_context st)) \<and> tool \<notin> set EXCLUDED_CATALOG_TOOLS
      then (let st1 = enable_tool tool st in (st1\<lparr>ag_attempt := ag_attempt st1 - 1\<rparr>, Continue))
      else give_up msg st)"

definition handle_model_behavior :: "loop_env \<Rightarrow> string \<Rightarrow> agent_state \<Rightarrow> agent_state \<times> step_result" where
  "handle_model_behavior env msg st =
     (case missing_tool msg of
        None \<Rightarrow> give_up msg st
      | Some tool \<Rightarrow>
          (case resolve_recovery_target tool (v_known (ag_context st)) of
             None \<Rightarrow> auto_enable msg tool st
           | Some normalized \<Rightarrow>
               (case recover_tool env tool normalized st of
                  Some st' \<Rightarrow> (st', Continue)
                | None \<Rightarrow> auto_enable msg tool st)))"

definition handle_finished :: "loop_env \<Rightarrow> string \<Rightarrow> bool \<Rightarrow> agent_state \<Rightarrow> agent_state \<times> step_result" where
  "handle_finished env raw_text has_tool_items st =
     (case extract_output (lv_accepts env) (lv_dump env) (v_submitted (ag_context st)) raw_text
         has_tool_items (ag_nudged st) of
        Output out \<Rightarrow> (st, Exit 0 (Some out))
      | Nudge \<Rightarrow>
          (st\<lparr>ag_nudged := True, ag_prompt := lv_prompt env @ [newline, newline] @ nudge_message,
             ag_context := (ag_context st)\<lparr>v_submitted := None\<rparr>, ag_attempt := ag_attempt st - 1\<rparr>, Continue)
      | Empty_Fail \<Rightarrow>
          (emit_error ''LLM returned empty response'' ''empty_response'' ''EmptyResponseError'' st,
           Exit 1 (Some (failed_output ''LLM returned empty response''))))"

definition handle_failure :: "api_error \<Rightarrow> string \<Rightarrow> string \<Rightarrow> agent_state \<Rightarrow> agent_state \<times> step_result" where
  "handle_failure e msg cls st =
     (if classify_error e = Transient \<and> ag_attempt st < MAX_AGENT_RETRIES then
        (st\<lparr>ag_delays := ag_delays st @ [AGENT_RETRY_BASE_DELAY * 2 ^ (ag_attempt st - 1)]\<rparr>, Continue)
      else (emit_error msg (class_name (classify_error e)) cls st, Exit 1 None))"

text \<open>One iteration; the attempt is counted first.\<close>

definition attempt_step :: "loop_env \<Rightarrow> context_op list \<times> run_end \<Rightarrow> agent_state \<Rightarrow> agent_state \<times> step_result" where
  "attempt_step env run st0 =
     (let st = st0\<lparr>ag_attempt := ag_attempt st0 + 1,
            ag_context := fold (apply_op (lv_read_file env)) (fst run) (ag_context st0)\<rparr>
      in case snd run of
           Finished raw_text has_tool_items \<Rightarrow> handle_finished env raw_text has_tool_items st
         | Stalled msg \<Rightarrow>
             (emit_error msg ''stalled'' ''AgentStallError'' st, Exit 1 (Some (failed_output msg)))
         | Model_Behavior msg \<Rightarrow> handle_model_behavior env msg st
         | Failed e msg cls \<Rightarrow> handle_failure e msg cls st)"

text \<open>The loop; the result of leaving it without an exit would be \<open>Continue\<close>.\<close>

fun agent_loop :: "nat \<Rightarrow> loop_env \<Rightarrow> agent_runner \<Rightarrow> nat \<Rightarrow> agent_state \<Rightarrow> (agent_state \<times> step_result) option" where
  "agent_loop 0 env runner i st = None"
| "agent_loop (Suc fuel) env runner i st =
     (if ag_attempt st < MAX_AGENT_RETRIES then
        (case attempt_step env (runner i st) st of
           (st', Continue) \<Rightarrow> agent_loop fuel env runner (Suc i) st'
         | (st', Exit code out) \<Rightarrow> Some (st', Exit code out))
      else Some (st, Continue))"

definition start_agent :: "loop_env \<Rightarrow> visibility \<Rightarrow> agent_state" where
  "start_agent env v =
     \<lparr>ag_attempt = 0, ag_nudged = False, ag_prompt = lv_prompt env, ag_harmony = [], ag_context = v,
      ag_delays = [], ag_events = []\<rparr>"

subsection \<open>Lemmas\<close>

lemma apply_op_frame:
  "v_known (apply_op rf p v) = v_known v" "set (v_enabled v) \<subseteq> set (v_enabled (apply_op rf p v))"
  "visibility_ok hot v \<Longrightarrow> visibility_ok hot (apply_op rf p v)"
  by (auto simp: apply_op_def discover_tools_ok submit_result_ok split: context_op.splits)
    (auto simp: discover_tools_def submit_result_def Let_def)

lemma fold_ops_frame:
  "v_known (fold (apply_op rf) ps v) = v_known v"
  "set (v_enabled v) \<subseteq> set (v_enabled (fold (apply_op rf) ps v))"
  "visibility_ok hot v \<Longrightarrow> visibility_ok hot (fold (apply_op rf) ps v)"
proof -
  have "v_known (fold (apply_op rf) ps v) = v_known v \<and>
      set (v_enabled v) \<subseteq> set (v_enabled (fold (apply_op rf) ps v)) \<and>
      (visibility_ok hot v \<longrightarrow> visibility_ok hot (fold (apply_op rf) ps v))"
  proof (induction ps arbitrary: v)
    case (Cons p ps)
    show ?case
      using Cons[of "apply_op rf p v"] apply_op_frame[where rf = rf and p = p and v = v] by auto
  qed simp
  then show "v_known (fold (apply_op rf) ps v) = v_known v"
    "set (v_enabled v) \<subseteq> set (v_enabled (fold (apply_op rf) ps v))"
    "visibility_ok hot v \<Longrightarrow> visibility_ok hot (fold (apply_op rf) ps v)" by auto
qed

lemma enable_tool_ok:
  "visibility_ok hot (ag_context st) \<Longrightarrow> n \<in> set (v_known (ag_context st)) \<Longrightarrow>
     visibility_ok hot (ag_context (enable_tool n st))"
  by (auto simp: visibility_ok_def enable_tool_def)

text \<open>How a step goes on: which field pays for it.\<close>

lemma enable_tool_fields [simp]:
  "ag_attempt (enable_tool n st) = ag_attempt st" "ag_nudged (enable_tool n st) = ag_nudged st"
  "ag_harmony (enable_tool n st) = ag_harmony st" "v_known (ag_context (enable_tool n st)) = v_known (ag_context st)"
  "set (v_enabled (ag_context (enable_tool n st))) = insert n (set (v_enabled (ag_context st)))"
  by (simp_all add: enable_tool_def)

lemma emit_fields [simp]:
  "ag_attempt (emit ty d st) = ag_attempt st" "ag_nudged (emit ty d st) = ag_nudged st"
  "ag_harmony (emit ty d st) = ag_harmony st" "ag_context (emit ty d st) = ag_context st"
  "emit_error m t c st = emit ''error'' [(''message'', JStr m), (''error_type'', JStr t), (''error_class'', JStr c)] st"
  by (simp_all add: emit_def emit_error_def)

definition misses :: "context_op list \<times> run_end \<Rightarrow> string \<Rightarrow> bool" where
  "misses run tool = (\<exists>m. snd run = Model_Behavior m \<and> missing_tool m = Some tool)"

inductive pays :: "context_op list \<times> run_end \<Rightarrow> agent_state \<Rightarrow> agent_state \<Rightarrow> bool" for run st st' where
  pay_attempt: "ag_attempt st' = Suc (ag_attempt st) \<Longrightarrow> ag_nudged st' = ag_nudged st \<Longrightarrow>
    ag_harmony st' = ag_harmony st \<Longrightarrow> pays run st st'"
| pay_nudge: "ag_attempt st' = ag_attempt st \<Longrightarrow> \<not> ag_nudged st \<Longrightarrow> ag_nudged st' \<Longrightarrow>
    ag_harmony st' = ag_harmony st \<Longrightarrow> pays run st st'"
| pay_harmony: "ag_attempt st' = ag_attempt st \<Longrightarrow> ag_nudged st' = ag_nudged st \<Longrightarrow> misses run t \<Longrightarrow>
    resolve_recovery_target t (v_known (ag_context st)) = Some n \<Longrightarrow>
    harmony_count st (t, n) < HARMONY_RECOVERY_CAP_PER_PAIR \<Longrightarrow>
    ag_harmony st' = dict_set (t, n) (harmony_count st (t, n) + 1) (ag_harmony st) \<Longrightarrow> pays run st st'"
| pay_enable: "ag_attempt st' = ag_attempt st \<Longrightarrow> ag_nudged st' = ag_nudged st \<Longrightarrow>
    ag_harmony st' = ag_harmony st \<Longrightarrow> misses run t \<Longrightarrow>
    t \<in> set (v_known (ag_context st)) \<Longrightarrow> t \<in> set (v_enabled (ag_context st')) \<Longrightarrow> pays run st st'"

lemma step_continues:
  assumes "attempt_step env run st = (st', Continue)"
  shows "pays run st st'" "v_known (ag_context st') = v_known (ag_context st)"
    "set (v_enabled (ag_context st)) \<subseteq> set (v_enabled (ag_context st'))"
    "ag_attempt st < MAX_AGENT_RETRIES \<Longrightarrow> ag_attempt st' < MAX_AGENT_RETRIES"
    "visibility_ok hot (ag_context st) \<Longrightarrow> visibility_ok hot (ag_context st')"
proof -
  define c where "c = fold (apply_op (lv_read_file env)) (fst run) (ag_context st)"
  define st1 where "st1 = st\<lparr>ag_attempt := ag_attempt st + 1, ag_context := c\<rparr>"
  note fr = fold_ops_frame[where rf = "lv_read_file env" and ps = "fst run" and v = "ag_context st", folded c_def]
  have s: "attempt_step env run st = (case snd run of
           Finished raw_text has_tool_items \<Rightarrow> handle_finished env raw_text has_tool_items st1
         | Stalled msg \<Rightarrow>
             (emit_error msg ''stalled'' ''AgentStallError'' st1, Exit 1 (Some (failed_output msg)))
         | Model_Behavior msg \<Rightarrow> handle_model_behavior env msg st1
         | Failed e msg cls \<Rightarrow> handle_failure e msg cls st1)"
    unfolding attempt_step_def st1_def c_def Let_def by (rule refl)
  have st1: "ag_attempt st1 = Suc (ag_attempt st)" "ag_nudged st1 = ag_nudged st"
    "ag_harmony st1 = ag_harmony st" "ag_context st1 = c" "harmony_count st1 = harmony_count st"
    by (simp_all add: st1_def harmony_count_def fun_eq_iff)
  have auto: "pays run st st' \<and> v_known (ag_context st') = v_known c \<and> set (v_enabled c) \<subseteq> set (v_enabled (ag_context st')) \<and>
      ag_attempt st' = ag_attempt st \<and> (visibility_ok hot c \<longrightarrow> visibility_ok hot (ag_context st'))"
    if "auto_enable msg tool st1 = (st', Continue)" "misses run tool" for msg tool
  proof -
    from that(1) have t: "tool \<in> set (v_known c)" and e: "st' = (enable_tool tool st1)\<lparr>ag_attempt := ag_attempt st\<rparr>"
      by (auto simp: auto_enable_def give_up_def Let_def st1 split: if_splits)
    have "pays run st st'"
      by (rule pay_enable[where t = tool]) (use t e st1 fr(1) that(2) in auto)
    then show ?thesis using e t st1 enable_tool_ok[of hot st1 tool] by auto
  qed
  have rec: "pays run st st' \<and> v_known (ag_context st') = v_known c \<and> set (v_enabled c) \<subseteq> set (v_enabled (ag_context st')) \<and>
      ag_attempt st' = ag_attempt st \<and> (visibility_ok hot c \<longrightarrow> visibility_ok hot (ag_context st'))"
    if "recover_tool env tool nm st1 = Some st'" "misses run tool"
      "resolve_recovery_target tool (v_known c) = Some nm" for tool nm
  proof -
    have "pays run st st'"
      by (rule pay_harmony[where t = tool and n = nm])
        (use that st1 fr(1) in \<open>auto simp: recover_tool_def Let_def split: if_splits\<close>)
    moreover have "visibility_ok hot (ag_context (if nm \<in> set (v_known c) then enable_tool nm st2 else st2))"
      if "visibility_ok hot c" "ag_context st2 = c" for st2
      using that enable_tool_ok[of hot st2 nm] by auto
    ultimately show ?thesis using that st1
      by (auto simp: recover_tool_def Let_def split: if_splits)
  qed
  consider (fin) raw it where "snd run = Finished raw it" "handle_finished env raw it st1 = (st', Continue)"
    | (auto) msg tool where "auto_enable msg tool st1 = (st', Continue)" "misses run tool"
    | (rec) tool nm where "recover_tool env tool nm st1 = Some st'" "misses run tool"
        "resolve_recovery_target tool (v_known c) = Some nm"
    | (fail) e msg cls where "handle_failure e msg cls st1 = (st', Continue)"
    using assms unfolding s
    by (auto simp: handle_model_behavior_def give_up_def misses_def st1 split: run_end.splits option.splits)
  then have all: "pays run st st' \<and> v_known (ag_context st') = v_known c \<and>
      set (v_enabled c) \<subseteq> set (v_enabled (ag_context st')) \<and>
      (ag_attempt st < MAX_AGENT_RETRIES \<longrightarrow> ag_attempt st' < MAX_AGENT_RETRIES) \<and>
      (visibility_ok hot c \<longrightarrow> visibility_ok hot (ag_context st'))"
  proof cases
    case fin
    then have e: "\<not> ag_nudged st" "ag_nudged st'" "ag_attempt st' = ag_attempt st" "ag_harmony st' = ag_harmony st"
        "ag_context st' = c\<lparr>v_submitted := None\<rparr>"
      by (auto simp: handle_finished_def extract_output_def st1 split: extraction.splits option.splits if_splits)
    then have "pays run st st'" by (intro pay_nudge)
    with e show ?thesis by (simp add: visibility_ok_def)
  next
    case fail
    then have e: "ag_attempt st' = Suc (ag_attempt st)" "Suc (ag_attempt st) < MAX_AGENT_RETRIES"
        "ag_nudged st' = ag_nudged st" "ag_harmony st' = ag_harmony st" "ag_context st' = c"
      by (auto simp: handle_failure_def st1 split: if_splits)
    then have "pays run st st'" by (intro pay_attempt)
    with e show ?thesis by simp
  qed (use auto rec in auto)
  show "pays run st st'" "v_known (ag_context st') = v_known (ag_context st)"
    "set (v_enabled (ag_context st)) \<subseteq> set (v_enabled (ag_context st'))"
    "ag_attempt st < MAX_AGENT_RETRIES \<Longrightarrow> ag_attempt st' < MAX_AGENT_RETRIES"
    "visibility_ok hot (ag_context st) \<Longrightarrow> visibility_ok hot (ag_context st')"
    using all fr by auto
qed

text \<open>The measure: attempts, the nudge, recoveries per pair and tools not yet enabled.\<close>

definition remaining :: "(string \<times> string) list \<Rightarrow> agent_state \<Rightarrow> nat" where
  "remaining pairs st =
     (MAX_AGENT_RETRIES - ag_attempt st) + (if ag_nudged st then 0 else 1) +
     sum_list (map (\<lambda>p. HARMONY_RECOVERY_CAP_PER_PAIR - harmony_count st p) pairs) +
     card (set (v_known (ag_context st)) - set (v_enabled (ag_context st)))"

text \<open>The SDK reports as missing no tool that is enabled, and the mangled names it reports are
  among those of a finite list.\<close>

definition sdk_ok :: "loop_env \<Rightarrow> (string \<times> string) list \<Rightarrow> agent_runner \<Rightarrow> bool" where
  "sdk_ok env pairs runner \<longleftrightarrow>
     (\<forall>i st t. misses (runner i st) t \<longrightarrow>
        t \<notin> set (v_enabled (fold (apply_op (lv_read_file env)) (fst (runner i st)) (ag_context st))) \<and>
        (case resolve_recovery_target t (v_known (ag_context st)) of
           None \<Rightarrow> True | Some n \<Rightarrow> (t, n) \<in> set pairs))"

lemma sum_list_strict:
  fixes f g :: "'a \<Rightarrow> nat"
  assumes "\<And>x. x \<in> set xs \<Longrightarrow> f x \<le> g x" "y \<in> set xs" "f y < g y"
  shows "sum_list (map f xs) < sum_list (map g xs)"
  using assms
proof (induction xs)
  case (Cons a xs)
  have le: "sum_list (map f xs) \<le> sum_list (map g xs)"
    using Cons.prems(1) by (intro sum_list_mono) auto
  show ?case
  proof (cases "y \<in> set xs")
    case True
    have "sum_list (map f xs) < sum_list (map g xs)"
      by (rule Cons.IH) (use Cons.prems True in auto)
    moreover have "f a \<le> g a" using Cons.prems(1) by simp
    ultimately show ?thesis by simp
  next
    case False
    then have "f a < g a" using Cons.prems by auto
    with le show ?thesis by simp
  qed
qed simp

lemma step_decreases:
  assumes "attempt_step env (runner i st) st = (st', Continue)" "sdk_ok env pairs runner"
    and "ag_attempt st < MAX_AGENT_RETRIES"
  shows "remaining pairs st' < remaining pairs st"
proof -
  note f = step_continues[OF assms(1)]
  let ?D = "\<lambda>s. set (v_known (ag_context s)) - set (v_enabled (ag_context s))"
  have D: "?D st' \<subseteq> ?D st" using f(2,3) by auto
  then have card: "card (?D st') \<le> card (?D st)" by (simp add: card_mono)
  let ?H = "\<lambda>s. sum_list (map (\<lambda>p. HARMONY_RECOVERY_CAP_PER_PAIR - harmony_count s p) pairs)"
  have H: "ag_harmony st' = ag_harmony st \<Longrightarrow> ?H st' = ?H st" by (simp add: harmony_count_def)
  from f(1) show ?thesis
  proof cases
    case pay_attempt
    then show ?thesis using card H assms(3) by (auto simp: remaining_def)
  next
    case pay_nudge
    then show ?thesis using card H by (auto simp: remaining_def)
  next
    case (pay_harmony t n)
    have "(t, n) \<in> set pairs" using assms(2) pay_harmony by (fastforce simp: sdk_ok_def)
    then have "?H st' < ?H st"
      by (rule sum_list_strict[rotated]) (use pay_harmony in \<open>auto simp: harmony_count_def\<close>)
    then show ?thesis using card pay_harmony by (auto simp: remaining_def)
  next
    case (pay_enable t)
    have "t \<notin> set (v_enabled (ag_context st))"
      using assms(2) pay_enable fold_ops_frame(2) unfolding sdk_ok_def by blast
    then have "?D st' \<subset> ?D st" using D pay_enable f(2) by auto
    then have "card (?D st') < card (?D st)" by (intro psubset_card_mono) auto
    then show ?thesis using H pay_enable by (auto simp: remaining_def)
  qed
qed

lemma agent_loop_enough:
  assumes "sdk_ok env pairs runner" "ag_attempt st < MAX_AGENT_RETRIES" "remaining pairs st < fuel"
  shows "\<exists>st' code out. agent_loop fuel env runner i st = Some (st', Exit code out)"
  using assms(2,3)
proof (induction fuel arbitrary: i st)
  case (Suc fuel)
  obtain st1 r where s: "attempt_step env (runner i st) st = (st1, r)" by fastforce
  show ?case
  proof (cases r)
    case (Exit code out)
    then show ?thesis using Suc.prems s by simp
  next
    case Continue
    with s have c: "attempt_step env (runner i st) st = (st1, Continue)" by simp
    have "remaining pairs st1 < fuel" using step_decreases[OF c assms(1) Suc.prems(1)] Suc.prems(2) by simp
    with Suc.IH[of st1 "Suc i"] step_continues(4)[OF c Suc.prems(1)] show ?thesis
      using c Suc.prems(1) by simp
  qed
qed simp

lemma step_exits:
  assumes "attempt_step env run st = (st', Exit code out)"
  shows "code = 0 \<and> out \<noteq> None \<or> code = 1"
    and "ag_context st' = fold (apply_op (lv_read_file env)) (fst run) (ag_context st)"
  using assms
  by (auto simp: attempt_step_def Let_def handle_finished_def handle_model_behavior_def give_up_def auto_enable_def
      handle_failure_def split: run_end.splits extraction.splits option.splits if_splits)

lemma agent_loop_last:
  "agent_loop fuel env runner i st = Some (st', Exit code out) \<Longrightarrow>
     \<exists>j s. attempt_step env (runner j s) s = (st', Exit code out)"
proof (induction fuel arbitrary: i st)
  case (Suc fuel)
  obtain st1 q where s: "attempt_step env (runner i st) st = (st1, q)" by fastforce
  then show ?case using Suc by (cases q) (auto split: if_splits)
qed simp

lemma agent_loop_result:
  assumes "agent_loop fuel env runner i st = Some (st', r)"
    and "ag_attempt st < MAX_AGENT_RETRIES" "visibility_ok hot (ag_context st)"
  shows "(\<exists>code out. r = Exit code out \<and> (code = 0 \<and> out \<noteq> None \<or> code = 1)) \<and> visibility_ok hot (ag_context st')"
  using assms
proof (induction fuel arbitrary: i st)
  case (Suc fuel)
  obtain st1 q where s: "attempt_step env (runner i st) st = (st1, q)" by fastforce
  show ?case
  proof (cases q)
    case (Exit code out)
    then show ?thesis
      using Suc.prems s step_exits[of env "runner i st" st st1 code out] fold_ops_frame(3) by auto
  next
    case Continue
    with s have c: "attempt_step env (runner i st) st = (st1, Continue)" by simp
    show ?thesis
      using Suc.IH[of "Suc i" st1] Suc.prems c step_continues(4,5)[OF c] by auto
  qed
qed simp

lemma agent_loop_known:
  "agent_loop fuel env runner i st = Some (st', r) \<Longrightarrow> v_known (ag_context st') = v_known (ag_context st)"
proof (induction fuel arbitrary: i st)
  case (Suc fuel)
  obtain st1 q where s: "attempt_step env (runner i st) st = (st1, q)" by fastforce
  show ?case
  proof (cases q)
    case (Exit code out)
    then show ?thesis
      using Suc.prems s step_exits(2)[of env "runner i st" st st1 code out] fold_ops_frame(1)
      by (auto split: if_splits)
  next
    case Continue
    with s have c: "attempt_step env (runner i st) st = (st1, Continue)" by simp
    show ?thesis using Suc.IH[of "Suc i" st1] Suc.prems c step_continues(2)[OF c] by (auto split: if_splits)
  qed
qed simp

subsection \<open>Properties\<close>


definition silent_runner :: agent_runner where
  "silent_runner i st = (if i < 2 then ([], Failed Timed_Out ''t'' ''APITimeoutError'') else ([], Finished ''done'' False))"

definition sample_loop_env :: loop_env where
  "sample_loop_env = \<lparr>lv_accepts = (\<lambda>_. False), lv_dump = json_dumps, lv_read_file = (\<lambda>_. None),
     lv_prompt = ''p'', lv_model = ''m''\<rparr>"

definition sample_visibility :: visibility where
  "sample_visibility = initial_visibility [Some [(''notes'', ''Keep notes.'')]] DEFAULT_HOT_TOOLS [''execute_command''] []"


text \<open>C21. The evaluation tools stay out of reach: however the run goes (discoveries, recoveries,
  automatic enabling, retries), when the loop ends it has exited the process, and an excluded tool
  is enabled only if the operator put it on the hot list; every other enabled tool is one a server
  listed.\<close>

theorem excluded_tools_stay_hidden:
  assumes "agent_loop fuel env runner 0 (start_agent env (initial_visibility servers hot native skills)) = Some (st', r)"
  shows "r \<noteq> Continue \<and>
    (\<forall>t \<in> set (v_enabled (ag_context st')). t \<in> set hot \<or>
       t \<in> set (map fst (visible_tools servers)) \<and> t \<notin> set EXCLUDED_CATALOG_TOOLS)"
proof -
  have a: "ag_attempt (start_agent env (initial_visibility servers hot native skills)) < MAX_AGENT_RETRIES"
    by (simp add: start_agent_def MAX_AGENT_RETRIES_def)
  have v: "visibility_ok hot (ag_context (start_agent env (initial_visibility servers hot native skills)))"
    using initial_visibility_ok by (simp add: start_agent_def)
  note res = agent_loop_result[OF assms a v]
  have "v_known (ag_context st') = map fst (visible_tools servers)"
    using agent_loop_known[OF assms] by (simp add: start_agent_def initial_visibility_def build_tool_catalog_def Let_def)
  with res show ?thesis by (auto simp: visibility_ok_def)
qed

definition greedy_runner :: agent_runner where
  "greedy_runner i st = ([Discover [''search_tasks'', ''notes''], Submit ''ok'' ''completed'' JNull], Finished [] True)"

theorem excluded_tools_stay_hidden_witness:
  "\<exists>st' r. agent_loop 1 sample_loop_env greedy_runner 0 (start_agent sample_loop_env sample_visibility) =
       Some (st', r) \<and> r \<noteq> Continue \<and> ''search_tasks'' \<notin> set (v_enabled (ag_context st'))"
proof -
  have "agent_loop 1 sample_loop_env greedy_runner 0 (start_agent sample_loop_env sample_visibility) \<noteq> None"
    by (simp add: start_agent_def MAX_AGENT_RETRIES_def attempt_step_def greedy_runner_def handle_finished_def
        apply_op_def submit_result_def extract_output_def Let_def)
  then obtain st' r where "agent_loop 1 sample_loop_env greedy_runner 0 (start_agent sample_loop_env sample_visibility) =
      Some (st', r)" by auto
  moreover have "''search_tasks'' \<notin> set DEFAULT_HOT_TOOLS" "''search_tasks'' \<in> set EXCLUDED_CATALOG_TOOLS"
    by code_simp+
  ultimately show ?thesis
    using excluded_tools_stay_hidden[OF \<open>_ = Some (st', r)\<close>[unfolded sample_visibility_def]] by blast
qed

text \<open>The tools alone do not bound the retries: enabling a tool that is already enabled costs
  nothing, so if the SDK keeps reporting one known tool as missing the loop never ends, whatever
  fuel it gets.\<close>

theorem auto_enable_unbounded:
  assumes "\<And>i st. runner i st = ([], Model_Behavior msg)" "missing_tool msg = Some tool"
    and "tool \<in> set (v_known v)" "tool \<notin> set EXCLUDED_CATALOG_TOOLS"
    and "normalize_harmony_tool_name tool = tool"
  shows "agent_loop fuel env runner 0 (start_agent env v) = None"
proof -
  have step: "agent_loop fuel env runner i st = None"
    if "ag_attempt st = 0" "v_known (ag_context st) = v_known v" for i st
    using that
  proof (induction fuel arbitrary: i st)
    case (Suc fuel)
    have "attempt_step env (runner i st) st = ((enable_tool tool (st\<lparr>ag_attempt := 1\<rparr>))\<lparr>ag_attempt := 0\<rparr>, Continue)"
      using Suc.prems assms
      by (cases "tool = []") (simp_all add: attempt_step_def handle_model_behavior_def auto_enable_def
          resolve_recovery_target_def Let_def enable_tool_def)
    with Suc show ?case by (simp add: MAX_AGENT_RETRIES_def)
  qed simp
  show ?thesis by (rule step) (simp_all add: start_agent_def)
qed

theorem auto_enable_unbounded_witness:
  "agent_loop 1000 sample_loop_env (\<lambda>i st. ([], Model_Behavior ''Tool notes not found in agent x'')) 0
     (start_agent sample_loop_env sample_visibility) = None"
  by (rule auto_enable_unbounded[of _ "''Tool notes not found in agent x''" "''notes''"]) (simp, code_simp+)

text \<open>Past the cap of the name recovery the process exits at once: when a mangled name has been
  recovered three times and is no known tool, the run ends with code 1 and no output on whatever
  attempt it is, where the comment promises the normal retries.\<close>

theorem harmony_cap_exits:
  assumes "snd run = Model_Behavior msg" "missing_tool msg = Some tool"
    and "resolve_recovery_target tool (v_known (ag_context st)) = Some normalized"
    and "HARMONY_RECOVERY_CAP_PER_PAIR \<le> harmony_count st (tool, normalized)"
    and "tool \<notin> set (v_known (ag_context st))"
  shows "snd (attempt_step env run st) = Exit 1 None"
  using assms fold_ops_frame(1)
  by (simp add: attempt_step_def Let_def handle_model_behavior_def recover_tool_def harmony_count_def auto_enable_def
      give_up_def)

definition recovered_thrice :: agent_state where
  "recovered_thrice = (start_agent sample_loop_env sample_visibility)
     \<lparr>ag_harmony := [((''sh<|c'', ''sh''), 3)]\<rparr>"

theorem harmony_cap_exits_witness:
  "snd (attempt_step sample_loop_env ([], Model_Behavior ''Tool sh<|c not found in agent x'') recovered_thrice) = Exit 1 None"
  by (rule harmony_cap_exits[of _ "''Tool sh<|c not found in agent x''" "''sh<|c''" _ "''sh''"]) (simp, code_simp+)

end
