(* ===== verification/Result_Delivery.thy ===== *)
theory Result_Delivery
  imports Agent_Loop Task_Manager_Facts Py_Text Lease_Locks
begin

text \<open>
  How the runner's output reaches the server: the callback endpoint with its one-time token
  (\<open>receive_task_result\<close> of \<open>errand/main.py\<close>, the token of \<open>_process_task\<close> and
  \<open>_read_callback_result\<close> of \<open>errand/task_manager.py\<close>), the line \<open>KubernetesRuntime.result\<close>
  (\<open>errand/container_runtime.py\<close>) finds in the merged pod logs, and the choice between them.
  Valkey's keys for one task are two leases (\<open>key_state\<close>); its failures, the pod's status and
  the log text are parameters.
\<close>

subsection \<open>The callback\<close>

record callback_store =
  cb_token :: key_state
  cb_result :: key_state

definition valkey_set_ex :: "time \<Rightarrow> string \<Rightarrow> int \<Rightarrow> key_state" where
  "valkey_set_ex now v ttl = Some (v, now + seconds ttl)"

definition CALLBACK_TOKEN_TTL :: int where "CALLBACK_TOKEN_TTL = 1800"
definition CALLBACK_RESULT_TTL :: int where "CALLBACK_RESULT_TTL = 600"

text \<open>Storing the token before the container starts; the environment variables are set only when
  Valkey took it.\<close>

definition issue_callback_token ::
    "bool \<Rightarrow> time \<Rightarrow> string \<Rightarrow> callback_store \<Rightarrow> string option \<times> callback_store" where
  "issue_callback_token online now token st =
     (if online then (Some token, st\<lparr>cb_token := valkey_set_ex now token CALLBACK_TOKEN_TTL\<rparr>) else (None, st))"

definition refresh_callback_token :: "time \<Rightarrow> callback_store \<Rightarrow> callback_store" where
  "refresh_callback_token now st = st\<lparr>cb_token := snd (valkey_expire now CALLBACK_TOKEN_TTL (cb_token st))\<rparr>"

text \<open>Where Valkey fails while a request is served, if it does.\<close>

datatype valkey_fault = No_Fault | Get_Fault | Delete_Fault | Set_Fault

datatype callback_answer = Stored | Http_Refused nat string | Unhandled_Type_Error

definition bearer :: string where "bearer = ''Bearer ''"

text \<open>\<open>secrets.compare_digest\<close> raises on a string with a character outside ASCII; a header value
  is decoded as Latin-1 and may hold one.\<close>

definition is_ascii :: "string \<Rightarrow> bool" where "is_ascii s = list_all (\<lambda>c. char_code c < 128) s"

text \<open>The header is absent as the empty string; the body is \<open>None\<close> when it is no UTF-8.\<close>

definition receive_task_result ::
    "bool \<Rightarrow> valkey_fault \<Rightarrow> time \<Rightarrow> string \<Rightarrow> string option \<Rightarrow> callback_store \<Rightarrow>
     callback_answer \<times> callback_store" where
  "receive_task_result online fault now auth_header body st =
     (if \<not> online then (Http_Refused 503 ''Valkey unavailable'', st)
      else if \<not> starts_with auth_header bearer then (Http_Refused 401 ''Missing or invalid token'', st)
      else if fault = Get_Fault then (Http_Refused 503 ''Valkey unavailable'', st)
      else
        (case valkey_get now (cb_token st) of
           None \<Rightarrow> (Http_Refused 401 ''Invalid or expired token'', st)
         | Some expected \<Rightarrow>
             (let provided = drop (length bearer) auth_header in
              if \<not> is_ascii provided \<or> \<not> is_ascii expected then (Unhandled_Type_Error, st)
              else if provided \<noteq> expected then (Http_Refused 401 ''Invalid or expired token'', st)
              else if fault = Delete_Fault then (Http_Refused 503 ''Valkey unavailable'', st)
              else
                (let st1 = st\<lparr>cb_token := None\<rparr> in
                 case body of
                   None \<Rightarrow> (Http_Refused 503 ''Valkey unavailable'', st1)
                 | Some b \<Rightarrow>
                     if fault = Set_Fault then (Http_Refused 503 ''Valkey unavailable'', st1)
                     else (Stored, st1\<lparr>cb_result := valkey_set_ex now b CALLBACK_RESULT_TTL\<rparr>)))))"

definition read_callback_result :: "bool \<Rightarrow> time \<Rightarrow> callback_store \<Rightarrow> string option \<times> callback_store" where
  "read_callback_result online now st =
     (if online then (valkey_get now (cb_result st), st\<lparr>cb_token := None, cb_result := None\<rparr>) else (None, st))"

subsection \<open>The pod logs\<close>

definition is_result_line :: "string \<Rightarrow> bool" where
  "is_result_line line =
     (let s = strip line in
      starts_with s ''{'' \<and> ends_with s ''}'' \<and>
      (case json_loads s of
         Some (JObj d) \<Rightarrow> dict_get d ''status'' \<noteq> None \<and> dict_get d ''result'' \<noteq> None
       | _ \<Rightarrow> False))"

definition extract_structured_stdout :: "string \<Rightarrow> string" where
  "extract_structured_stdout full_logs =
     (case find is_result_line (rev (splitlines full_logs)) of None \<Rightarrow> [] | Some line \<Rightarrow> strip line)"

text \<open>One read of the pod: the containers with their exit codes once terminated, \<open>None\<close> when the
  API refuses.\<close>

type_synonym pod_read = "(string \<times> int option) list option"

definition terminated_code :: "pod_read \<Rightarrow> int" where
  "terminated_code r =
     (case r of
        None \<Rightarrow> -1
      | Some statuses \<Rightarrow>
          (case find (\<lambda>(name, code). name = ''task-runner'' \<and> code \<noteq> None) statuses of
             Some (_, Some code) \<Rightarrow> code
           | _ \<Rightarrow> -1))"

fun first_exit_code :: "pod_read list \<Rightarrow> int" where
  "first_exit_code [] = -1"
| "first_exit_code (r # rs) = (if terminated_code r \<noteq> -1 then terminated_code r else first_exit_code rs)"

definition kubernetes_result :: "pod_read list \<Rightarrow> string option \<Rightarrow> int \<times> string \<times> string" where
  "kubernetes_result reads logs =
     (let full_logs = (case logs of None \<Rightarrow> [] | Some s \<Rightarrow> s)
      in (first_exit_code (take 5 reads), extract_structured_stdout full_logs, full_logs))"

definition exit_code_unknown :: "pod_read list \<Rightarrow> bool" where
  "exit_code_unknown reads = (first_exit_code (take 5 reads) = -1)"

text \<open>What \<open>_process_task\<close> returns: the callback's result wins over the runtime's, both outputs
  are truncated to the configured size.\<close>

definition collect_result ::
    "nat \<Rightarrow> string option \<Rightarrow> int \<times> string \<times> string \<Rightarrow> int \<times> string \<times> string" where
  "collect_result max_bytes callback_result result =
     (case result of (exit_code, stdout, stderr) \<Rightarrow>
        (exit_code,
         truncate_output max_bytes (case callback_result of None \<Rightarrow> stdout | Some r \<Rightarrow> r),
         truncate_output max_bytes stderr))"

subsection \<open>The server's model of the output\<close>

text \<open>The fields \<open>TaskRunnerOutput\<close> declares, on a decoded object.\<close>

definition json_strings :: "json \<Rightarrow> string list option" where
  "json_strings j =
     (case j of
        JArr xs \<Rightarrow> those (map (\<lambda>x. case x of JStr s \<Rightarrow> Some s | _ \<Rightarrow> None) xs)
      | _ \<Rightarrow> None)"

definition runner_output_fields :: "(string \<times> json) list \<Rightarrow> runner_output option" where
  "runner_output_fields d =
     (case (dict_get d ''status'', dict_get d ''result'') of
        (Some (JStr status), Some (JStr result)) \<Rightarrow>
          if status = ''completed'' \<or> status = ''needs_input'' then
            (case dict_get d ''questions'' of
               None \<Rightarrow> Some \<lparr>o_status = status, o_result = result, o_questions = []\<rparr>
             | Some q \<Rightarrow>
                 map_option (\<lambda>qs. \<lparr>o_status = status, o_result = result, o_questions = qs\<rparr>) (json_strings q))
          else None
      | _ \<Rightarrow> None)"

text \<open>What the server relies on: \<open>model_validate_json\<close> on the text of an object checks these
  fields.\<close>

definition validates :: "(string \<Rightarrow> runner_output option) \<Rightarrow> bool" where
  "validates validate \<longleftrightarrow>
     (\<forall>d. json_wf (JObj d) \<longrightarrow> validate (json_dumps (JObj d)) = runner_output_fields d)"

definition pydantic_model :: "string \<Rightarrow> runner_output option" where
  "pydantic_model s = (case json_loads s of Some (JObj d) \<Rightarrow> runner_output_fields d | _ \<Rightarrow> None)"

lemma validates_pydantic_model: "validates pydantic_model"
  by (simp add: validates_def pydantic_model_def json_loads_dumps del: json_wf.simps json_dumps.simps)

subsection \<open>A dumped object among other lines\<close>

definition printable :: "char \<Rightarrow> bool" where "printable c = (32 \<le> char_code c \<and> char_code c < 127)"

lemma printable_hex2: "list_all printable (hex2 c)"
proof -
  have "printable (hex_digit n)" if "n < 16" for n
    using that by (auto simp: printable_def hex_digit_def char_code_def)
  moreover have "char_code c div 16 < 16" "char_code c mod 16 < 16" using char_code_less[of c] by auto
  ultimately show ?thesis by (simp add: hex2_def)
qed

lemma printable_marks [simp]:
  "printable backslash" "printable quote_char" "printable CHR ''{''" "printable CHR ''}''" "printable CHR ''[''"
  "printable CHR '']''" "printable CHR '',''" "printable CHR '' ''" "printable CHR '':''" "printable CHR ''-''"
  by (simp_all add: printable_def char_code_def backslash_def quote_char_def)

lemma printable_words: "list_all printable ''u00''" "list_all printable ''nrtfb''"
    "list_all printable ''null''" "list_all printable ''true''" "list_all printable ''false''"
  by (simp_all add: printable_def char_code_def)

lemma printable_escape: "list_all printable (escape_ascii c)"
  using printable_hex2[of c] printable_words(1,2)
  by (auto simp: escape_ascii_def Let_def) (simp_all add: printable_def)

lemma list_all_join: "list_all P sep \<Longrightarrow> list_all (list_all P) ws \<Longrightarrow> list_all P (join sep ws)"
  by (induction ws) (auto simp: join_Cons)

lemma printable_dumps_str: "list_all printable (dumps_str s)"
proof -
  have "list_all printable (concat (map escape_ascii s))"
    using printable_escape by (induction s) auto
  then show ?thesis by (simp add: dumps_str_def)
qed

lemma printable_show_int: "list_all printable (show_int n)"
proof -
  have "list_all printable (show_nat m)" if "0 \<le> m" for m
    using show_nat_digits[OF that] by (auto simp: list_all_iff is_digit_def printable_def Let_def)
  then show ?thesis by (auto simp: show_int_def)
qed

lemma printable_dumps: "json_wf j \<Longrightarrow> list_all printable (json_dumps j)"
proof (induction j rule: json_wf.induct)
  case (2 xs)
  have "list_all printable (join '', '' (map json_dumps xs))"
    using 2 by (intro list_all_join) (auto simp: list_all_iff)
  then show ?case by simp
next
  case (3 d)
  have "list_all (list_all printable) (map (\<lambda>(k, v). dumps_str k @ '': '' @ json_dumps v) d)"
    using 3 printable_dumps_str by (fastforce simp: list_all_iff)
  then have "list_all printable (join '', '' (map (\<lambda>(k, v). dumps_str k @ '': '' @ json_dumps v) d))"
    by (intro list_all_join) simp_all
  then show ?case by simp
qed (use printable_words in \<open>simp_all add: printable_dumps_str printable_show_int\<close>)

lemma printable_no_break: "printable c \<Longrightarrow> \<not> is_line_break c \<and> c \<noteq> newline"
  by (auto simp: printable_def is_line_break_def Let_def newline_def char_code_def)

lemma strip_line:
  assumes "s \<noteq> []" "\<not> is_space (hd s)" "\<not> is_space (last s)" "list_all is_space w"
  shows "strip (s @ w) = s"
proof -
  have "lstrip (s @ w) = s @ w" using assms(1,2) by (cases s) (simp_all add: lstrip_def)
  moreover have "dropWhile is_space (rev w @ rev s) = rev s"
    using assms by (cases s rule: rev_cases) (auto simp: dropWhile_append list_all_iff)
  ultimately show ?thesis by (simp add: strip_def rstrip_def)
qed

lemma find_char_hd: "find_char c (c # s) = Some 0" by simp

lemma rfind_char_last: "rfind_char c (s @ [c]) = Some (length s)"
  by (induction s) auto

text \<open>The text of an object: one line between braces.\<close>

lemma dumped_object:
  assumes "json_wf (JObj d)"
  obtains body where "json_dumps (JObj d) = CHR ''{'' # body @ ''}''" "list_all printable body"
  using printable_dumps[OF assms] by auto

lemma strip_dumped:
  assumes "json_wf (JObj d)" "list_all is_space w"
  shows "strip (json_dumps (JObj d) @ w) = json_dumps (JObj d)"
proof -
  obtain body where b: "json_dumps (JObj d) = CHR ''{'' # body @ ''}''" using dumped_object[OF assms(1)] .
  show ?thesis unfolding b by (rule strip_line) (use assms(2) in \<open>simp_all add: is_space_def char_code_def\<close>)
qed

lemma match_after_fence_line: "newline \<notin> set s \<Longrightarrow> match_after_fence s = None"
proof -
  assume n: "newline \<notin> set s"
  define r where "r = (if starts_with s ''json'' then drop 4 s else s)"
  have "newline \<notin> set r" using n by (auto simp: r_def dest: in_set_dropD)
  then have "filter (\<lambda>j. takeWhile is_space r ! j = newline) [0..<length (takeWhile is_space r)] = []"
    by (auto simp: filter_empty_conv) (metis nth_mem set_takeWhileD)
  then show ?thesis by (simp only: match_after_fence_def Let_def r_def[symmetric]) simp
qed

lemma search_fence_line: "newline \<notin> set s \<Longrightarrow> search_fence s = None"
proof (induction s)
  case (Cons c s)
  then have "match_after_fence (drop 3 (c # s)) = None"
    by (intro match_after_fence_line) (auto dest: in_set_dropD)
  with Cons show ?case by simp
qed simp

lemma candidates_dumped:
  assumes "json_wf (JObj d)" "list_all is_space w"
  shows "candidates (json_dumps (JObj d) @ w) = [json_dumps (JObj d), json_dumps (JObj d)]"
proof -
  obtain body where b: "json_dumps (JObj d) = CHR ''{'' # body @ ''}''" "list_all printable body"
    using dumped_object[OF assms(1)] .
  have "newline \<notin> set (json_dumps (JObj d))"
    using printable_dumps[OF assms(1)] printable_no_break unfolding list_all_iff by blast
  then have "search_fence (json_dumps (JObj d)) = None" by (rule search_fence_line)
  moreover have "brace_content (json_dumps (JObj d)) = Some (json_dumps (JObj d))"
    unfolding b brace_content_def using rfind_char_last[of "CHR ''}''" "CHR ''{'' # body"]
    by (simp del: rfind_char.simps)
  ultimately show ?thesis unfolding candidates_def Let_def strip_dumped[OF assms] by simp
qed

lemma extract_dumped:
  assumes "json_wf (JObj d)" "list_all is_space w"
  shows "extract_json validate (json_dumps (JObj d) @ w) =
    (if validate (json_dumps (JObj d)) = None then None else Some (json_dumps (JObj d)))"
  by (simp add: extract_json_def candidates_dumped[OF assms] del: json_dumps.simps)

text \<open>The lines of a log in which the object was printed.\<close>

lemma lines_from_line:
  "list_all printable s \<Longrightarrow> lines_from acc (s @ newline # r) = (rev acc @ s) # lines_from [] r"
proof (induction s arbitrary: acc)
  case Nil
  have n: "is_line_break newline" "char_code newline \<noteq> 13" by (simp_all add: is_line_break_def newline_def char_code_def)
  then show ?case by (cases r) simp_all
next
  case (Cons c s)
  have c: "\<not> is_line_break c" using Cons.prems printable_no_break by auto
  obtain d t where t: "s @ newline # r = d # t" by (cases s) auto
  have "lines_from (c # acc) (s @ newline # r) = (rev (c # acc) @ s) # lines_from [] r"
    using Cons.IH Cons.prems by simp
  then show ?case using c by (simp add: t)
qed

lemma lines_from_before:
  "\<exists>ls. lines_from acc (s @ newline # r) = ls @ lines_from [] r"
proof (induction acc s rule: lines_from.induct)
  case (1 acc)
  have n: "is_line_break newline" "char_code newline \<noteq> 13" by (simp_all add: is_line_break_def newline_def char_code_def)
  then show ?case by (cases r) auto
next
  case (2 acc c)
  have n: "is_line_break newline" "char_code newline = 10" by (simp_all add: is_line_break_def newline_def char_code_def)
  have one: "\<exists>ls. lines_from a (newline # r) = ls @ lines_from [] r" for a
    using n by (cases r) auto
  show ?case using n one[of "[]"] one[of "c # acc"]
    by (auto intro: exI[of _ "[x]" for x])
next
  case (3 acc c d s)
  show ?case
  proof (cases "is_line_break c")
    case True
    then show ?thesis using 3(1,2) by (auto intro: exI[of _ "x # xs" for x xs])
  next
    case False
    then show ?thesis using 3(3) by simp
  qed
qed

lemma splitlines_printed:
  assumes "list_all printable s" "pre = [] \<or> last pre = newline"
  shows "\<exists>ls. splitlines (pre @ s @ newline # post) = ls @ s # splitlines post"
proof (cases pre rule: rev_cases)
  case Nil
  then show ?thesis using lines_from_line[OF assms(1), of "[]" post]
    by (simp add: splitlines_def)
next
  case (snoc p c)
  then have "c = newline" using assms(2) by simp
  with snoc lines_from_before[of "[]" p "s @ newline # post"] lines_from_line[OF assms(1), of "[]" post]
  show ?thesis by (auto simp: splitlines_def)
qed

subsection \<open>The three ways to the server\<close>

text \<open>By the callback: the runner posts its output with the token it was given and the server
  reads it back; what the runtime reports does not matter then.  By the container's own stdout,
  which ends the printed output with a newline.  By the merged logs of a pod.\<close>

datatype channel =
    By_Callback time time string callback_store "int \<times> string \<times> string"
  | By_Stdout int string
  | By_Pod "pod_read list" string string

fun received :: "nat \<Rightarrow> channel \<Rightarrow> string \<Rightarrow> int \<times> string \<times> string" where
  "received m (By_Callback posted read_at token st result) out =
     collect_result m
       (fst (read_callback_result True read_at
          (snd (receive_task_result True No_Fault posted (bearer @ token) (Some out) st)))) result"
| "received m (By_Stdout code stderr) out = collect_result m None (code, out @ [newline], stderr)"
| "received m (By_Pod reads pre post) out =
     collect_result m None (kubernetes_result reads (Some (pre @ out @ newline # post)))"

text \<open>The token is the one on record and the result is read before it expires; the logs after the
  output hold no other result line.\<close>

fun channel_ok :: "channel \<Rightarrow> bool" where
  "channel_ok (By_Callback posted read_at token st result) =
     (valkey_get posted (cb_token st) = Some token \<and> is_ascii token \<and>
      read_at < posted + seconds CALLBACK_RESULT_TTL)"
| "channel_ok (By_Stdout code stderr) = True"
| "channel_ok (By_Pod reads pre post) =
     ((pre = [] \<or> last pre = newline) \<and> list_all (\<lambda>l. \<not> is_result_line l) (splitlines post))"

lemma callback_stored:
  assumes "valkey_get posted (cb_token st) = Some token" "is_ascii token"
  shows "receive_task_result True No_Fault posted (bearer @ token) (Some out) st =
    (Stored, st\<lparr>cb_token := None, cb_result := valkey_set_ex posted out CALLBACK_RESULT_TTL\<rparr>)"
  using assms by (simp add: receive_task_result_def starts_with_def)

lemma is_result_line_dumped:
  assumes "json_wf (JObj d)" "dict_get d ''status'' \<noteq> None" "dict_get d ''result'' \<noteq> None"
  shows "is_result_line (json_dumps (JObj d))"
proof -
  obtain body where b: "json_dumps (JObj d) = CHR ''{'' # body @ ''}''" using dumped_object[OF assms(1)] .
  have "starts_with (json_dumps (JObj d)) ''{''" "ends_with (json_dumps (JObj d)) ''}''"
    unfolding b by (simp_all add: starts_with_def ends_with_def)
  moreover have "strip (json_dumps (JObj d)) = json_dumps (JObj d)"
    using strip_dumped[OF assms(1), of "[]"] by simp
  ultimately show ?thesis
    using assms by (simp add: is_result_line_def Let_def json_loads_dumps del: json_dumps.simps json_wf.simps)
qed

lemma pod_stdout:
  assumes "json_wf (JObj d)" "dict_get d ''status'' \<noteq> None" "dict_get d ''result'' \<noteq> None"
    and "pre = [] \<or> last pre = newline" "list_all (\<lambda>l. \<not> is_result_line l) (splitlines post)"
  shows "extract_structured_stdout (pre @ json_dumps (JObj d) @ newline # post) = json_dumps (JObj d)"
proof -
  let ?s = "json_dumps (JObj d)"
  obtain ls where l: "splitlines (pre @ ?s @ newline # post) = ls @ ?s # splitlines post"
    using splitlines_printed[OF printable_dumps[OF assms(1)] assms(4)] by blast
  have skip: "find is_result_line (rev (ls @ x # xs)) = Some x"
    if "is_result_line x" "list_all (\<lambda>l. \<not> is_result_line l) xs" for x xs
    using that by (induction xs rule: rev_induct) auto
  have "find is_result_line (rev (ls @ ?s # splitlines post)) = Some ?s"
    by (rule skip[OF is_result_line_dumped[OF assms(1-3)] assms(5)])
  then show ?thesis
    using strip_dumped[OF assms(1), of "[]"] by (simp add: extract_structured_stdout_def l del: json_dumps.simps)
qed

text \<open>Whichever way it goes, what the server parses is the object's text, perhaps with a newline
  after it.\<close>

lemma received_dumped:
  assumes "json_wf (JObj d)" "dict_get d ''status'' \<noteq> None" "dict_get d ''result'' \<noteq> None"
    and "channel_ok ch" "byte_length (json_dumps (JObj d)) < m"
  obtains code stderr w where "received m ch (json_dumps (JObj d)) = (code, json_dumps (JObj d) @ w, stderr)"
    and "w = [] \<or> w = [newline]"
proof -
  let ?s = "json_dumps (JObj d)"
  have b: "byte_length (?s @ [newline]) = Suc (byte_length ?s)"
    by (simp add: byte_length_def utf8_len_def char_code_def newline_def del: json_dumps.simps)
  have t: "truncate_output m ?s = ?s" "truncate_output m (?s @ [newline]) = ?s @ [newline]"
    using assms(5) b by (simp_all add: truncate_output_def del: json_dumps.simps)
  show ?thesis
  proof (cases ch)
    case (By_Callback posted read_at token st result)
    then have ok: "valkey_get posted (cb_token st) = Some token" "is_ascii token"
        "read_at < posted + seconds CALLBACK_RESULT_TTL" using assms(4) by auto
    have "fst (read_callback_result True read_at
        (snd (receive_task_result True No_Fault posted (bearer @ token) (Some ?s) st))) = Some ?s"
      unfolding callback_stored[OF ok(1,2)] using ok(3)
      by (simp add: read_callback_result_def valkey_set_ex_def valkey_get_def del: json_dumps.simps)
    then show ?thesis
      using that[of _ "[]"] t By_Callback by (cases result) (simp add: collect_result_def del: json_dumps.simps)
  next
    case (By_Stdout code stderr)
    then show ?thesis using that[of _ "[newline]"] t by (simp add: collect_result_def del: json_dumps.simps)
  next
    case (By_Pod reads pre post)
    then have "extract_structured_stdout (pre @ ?s @ newline # post) = ?s"
      using assms(4) by (intro pod_stdout[OF assms(1-3)]) auto
    then show ?thesis
      using that[of _ "[]"] t By_Pod
      by (simp add: collect_result_def kubernetes_result_def Let_def del: json_dumps.simps)
  qed
qed

subsection \<open>What the board makes of it\<close>

definition submission :: "string \<Rightarrow> string \<Rightarrow> json \<Rightarrow> (string \<times> json) list" where
  "submission status result questions =
     [(''status'', JStr status), (''result'', JStr result), (''questions'', JArr (map JStr (runner_questions questions)))]"

lemma submission_wf: "json_wf (JObj (submission status result questions))"
  by (simp add: submission_def list_all_iff)

lemma submission_fields:
  "status \<in> {''completed'', ''needs_input''} \<Longrightarrow>
   runner_output_fields (submission status result questions) =
     Some \<lparr>o_status = status, o_result = result, o_questions = runner_questions questions\<rparr>"
proof -
  have "those (map Some xs) = Some xs" for xs :: "string list" by (induction xs) simp_all
  then show "status \<in> {''completed'', ''needs_input''} \<Longrightarrow> ?thesis"
    by (auto simp: runner_output_fields_def submission_def json_strings_def o_def)
qed

lemma failed_output_dumped:
  "failed_output msg = json_dumps (JObj [(''status'', JStr ''failed''), (''result'', JStr []),
     (''error'', JStr msg), (''questions'', JArr [])])"
  by (simp only: failed_output_def)

lemma submitted_step:
  assumes "fst run = ops @ [Submit result status questions]" "snd run = Finished txt tools"
    and "status \<in> {''completed'', ''needs_input''}"
  shows "snd (attempt_step env run st) = Exit 0 (Some (json_dumps (JObj (submission status result questions))))"
  using assms
  by (auto simp: attempt_step_def Let_def handle_finished_def extract_output_def apply_op_def submit_result_def
      submission_def simp del: json_dumps.simps)

lemma finish_task_plain:
  assumes "find_task db (q_task_id q) = Some t" "t_category t \<noteq> Some ''repeating''"
  shows "snd (finish_task now q r e db) = None"
  using assms by (simp add: finish_task_eq[OF assms(1)] reschedule_if_repeating_def from_orm_def finish_row_frame)

lemma extract_received:
  assumes "validates validate" "json_wf (JObj d)" "w = [] \<or> w = [newline]"
  shows "extract_json validate (json_dumps (JObj d) @ w) =
      (if runner_output_fields d = None then None else Some (json_dumps (JObj d)))"
    "validate (json_dumps (JObj d)) = runner_output_fields d"
proof -
  have v: "validate (json_dumps (JObj d)) = runner_output_fields d" using assms(1,2) unfolding validates_def by blast
  have "list_all is_space w" using assms(3) by (auto simp: is_space_def newline_def char_code_def)
  from extract_dumped[OF assms(2) this, of validate] v
  show "extract_json validate (json_dumps (JObj d) @ w) =
      (if runner_output_fields d = None then None else Some (json_dumps (JObj d)))" by simp
  show "validate (json_dumps (JObj d)) = runner_output_fields d" by (rule v)
qed

lemma run_task_accepts:
  assumes "find_task db (q_task_id q) = Some t" "t_category t \<noteq> Some ''repeating''" "validates validate"
    and "json_wf (JObj d)" "w = [] \<or> w = [newline]" "runner_output_fields d = Some r"
  shows "run_task validate setting now q (Exited code (json_dumps (JObj d) @ w) stderr) db =
    finish_task now q r stderr db"
  using run_task_success[OF assms(1) _ _ _ finish_task_plain[OF assms(1,2)],
      where validate = validate and c = "json_dumps (JObj d)" and r = r and code = code]
    extract_received[OF assms(3-5)] assms(6) by (simp del: json_dumps.simps) simp

lemma run_task_rejects:
  assumes "find_task db (q_task_id q) = Some t" "get_max_retry_attempts setting = Inr n" "validates validate"
    and "json_wf (JObj d)" "w = [] \<or> w = [newline]" "runner_output_fields d = None"
  shows "\<exists>out. run_task validate setting now q (Exited code (json_dumps (JObj d) @ w) stderr) db =
    schedule_retry setting now (q_task_id q) out (Some stderr) db"
proof -
  have "json_dumps (JObj d) @ w \<noteq> []" by simp
  moreover have "(case schedule_retry setting now (q_task_id q) out logs db of (db1, None) \<Rightarrow> (db1, None)
      | (db1, Some x) \<Rightarrow> f db1) = schedule_retry setting now (q_task_id q) out logs db" for out logs f
    using schedule_retry_no_error[OF assms(1,2)] by (auto split: prod.splits option.splits) (metis snd_conv option.distinct(1))+
  ultimately show ?thesis
    using extract_received[OF assms(3-5)] assms(6) by (simp add: run_task_def Let_def del: json_dumps.simps) blast
qed

text \<open>Every report the runner prints with exit code 1 has the status "failed".\<close>

lemma failing_step:
  assumes "snd (attempt_step env run st) = Exit 1 (Some out)"
  obtains msg where "out = failed_output msg"
  using assms
  by (auto simp: attempt_step_def Let_def handle_finished_def handle_model_behavior_def auto_enable_def give_up_def
      handle_failure_def simp del: json_dumps.simps split: run_end.splits extraction.splits option.splits if_splits)

subsection \<open>Properties\<close>


text \<open>C11. A failed run is never taken for a result: whenever the runner exits with 1 and prints a report
  (a stalled agent, an empty answer), then over each of the three ways to the server the report is
  refused and the task retried, scheduled after the backoff or, after the last attempt, in review.\<close>

theorem failed_run_is_retried:
  assumes "find_task db (q_task_id q) = Some t" "get_max_retry_attempts setting = Inr n"
    and "validates validate" "channel_ok ch"
    and "snd (attempt_step env run st) = Exit 1 (Some out)" "byte_length out < m"
    and "received m ch out = (code, stdout, stderr)"
    and "run_task validate setting now q (Exited code stdout stderr) db = (db', e)"
  shows "e = None \<and> (\<exists>t'. find_task db' (q_task_id q) = Some t' \<and> t_retry_count t' = t_retry_count t + 1 \<and>
    (if t_retry_count t \<ge> n - 1 then t_status t' = Review
     else t_status t' = Scheduled \<and> t_execute_at t' = Some (now + minutes (retry_backoff (t_retry_count t)))))"
proof -
  obtain msg where msg: "out = failed_output msg" using failing_step[OF assms(5)] .
  define d where "d = [(''status'', JStr ''failed''), (''result'', JStr []), (''error'', JStr msg), (''questions'', JArr [])]"
  have out: "out = json_dumps (JObj d)" unfolding msg d_def by (rule failed_output_dumped)
  have f: "json_wf (JObj d)" "dict_get d ''status'' \<noteq> None" "dict_get d ''result'' \<noteq> None"
    "runner_output_fields d = None" by (simp_all add: d_def runner_output_fields_def)
  obtain w where w: "stdout = json_dumps (JObj d) @ w" "w = [] \<or> w = [newline]"
    using received_dumped[OF f(1-3) assms(4), of m] assms(6,7) out by (metis prod.inject)
  obtain o' where "run_task validate setting now q (Exited code stdout stderr) db =
      schedule_retry setting now (q_task_id q) o' (Some stderr) db"
    using run_task_rejects[OF assms(1-3) f(1) w(2) f(4), of now code stderr] w(1) by auto
  with assms(8) have r: "schedule_retry setting now (q_task_id q) o' (Some stderr) db = (db', e)" by simp
  show ?thesis
    using schedule_retry_row[OF assms(1,2), of now o' "Some stderr"]
      schedule_retry_no_error[OF assms(1,2), of now o' "Some stderr"] unfolding r by simp
qed

text \<open>The requests that reach the endpoint, in their order.\<close>

record callback_request =
  rq_online :: bool
  rq_fault :: valkey_fault
  rq_at :: time
  rq_authorization :: string
  rq_body :: "string option"

fun serve :: "callback_request list \<Rightarrow> callback_store \<Rightarrow> callback_answer list \<times> callback_store" where
  "serve [] st = ([], st)"
| "serve (r # rs) st =
     (let (answer, st1) = receive_task_result (rq_online r) (rq_fault r) (rq_at r) (rq_authorization r) (rq_body r) st;
          (answers, st2) = serve rs st1
      in (answer # answers, st2))"

lemma receive_cases:
  "receive_task_result online fault now auth body st = (a, st') \<Longrightarrow>
     (a \<noteq> Stored \<and> cb_result st' = cb_result st \<and> (cb_token st' = cb_token st \<or> cb_token st' = None)) \<or>
     (a = Stored \<and> cb_token st' = None \<and> (\<exists>token b. valkey_get now (cb_token st) = Some token \<and>
        auth = bearer @ token \<and> body = Some b \<and> cb_result st' = valkey_set_ex now b CALLBACK_RESULT_TTL))"
  by (auto simp: receive_task_result_def Let_def starts_with_def split: if_splits option.splits)
    (metis append_take_drop_id)

lemma serve_without_token:
  "cb_token st = None \<Longrightarrow> cb_result (snd (serve rs st)) = cb_result st \<and> Stored \<notin> set (fst (serve rs st))"
proof (induction rs arbitrary: st)
  case (Cons r rs)
  obtain a st1 where a: "receive_task_result (rq_online r) (rq_fault r) (rq_at r) (rq_authorization r) (rq_body r) st = (a, st1)"
    by fastforce
  from receive_cases[OF a] Cons.prems have "a \<noteq> Stored" "cb_token st1 = None" "cb_result st1 = cb_result st"
    by (auto simp: valkey_get_def)
  with Cons.IH[of st1] a show ?case by (simp add: case_prod_beta)
qed simp


subsection \<open>Witnesses\<close>

definition submitting_run :: "context_op list \<times> run_end" where
  "submitting_run = ([Submit ''ok'' ''completed'' JNull], Finished [] True)"

definition issued_store :: callback_store where
  "issued_store = \<lparr>cb_token = Some (''tok'', seconds 1800), cb_result = None\<rparr>"

definition sample_start :: agent_state where
  "sample_start = start_agent sample_loop_env sample_visibility"


theorem failed_run_is_retried_witness:
  "\<exists>db' t'. run_task pydantic_model (Inr (JInt 5)) 9 sample_dequeued
       (Exited 1 (failed_output ''stuck'' @ [newline]) ''log'') sample_db = (db', None) \<and>
     find_task db' 5 = Some t' \<and> t_status t' = Scheduled \<and> t_retry_count t' = 1"
proof -
  have x: "snd (attempt_step sample_loop_env ([], Stalled ''stuck'') sample_start) =
      Exit 1 (Some (failed_output ''stuck''))"
    by (simp add: attempt_step_def Let_def)
  have b: "byte_length (failed_output ''stuck'') < 100" by code_simp
  have rc: "received 100 (By_Stdout 1 ''log'') (failed_output ''stuck'') = (1, failed_output ''stuck'' @ [newline], ''log'')"
    by code_simp
  have m: "get_max_retry_attempts (Inr (JInt 5)) = Inr 5" by code_simp
  have c: "t_retry_count (sample_task 5 Running 2) = 0" "q_task_id sample_dequeued = 5" by code_simp+
  obtain db' e where d: "run_task pydantic_model (Inr (JInt 5)) 9 sample_dequeued
      (Exited 1 (failed_output ''stuck'' @ [newline]) ''log'') sample_db = (db', e)" by fastforce
  from failed_run_is_retried[OF sample_running m validates_pydantic_model _ x b rc d]
  show ?thesis using d c by auto
qed

end
