(* ===== verification/File_Tools.thy ===== *)
theory File_Tools
  imports Json_Extract Py_Text
begin

text \<open>
  The native tools of the task runner (\<open>task-runner/main.py\<close>): reading, writing and editing text
  files and the output of shell commands.  A file holds its decoded text or undecodable bytes;
  reading in text mode translates line ends, writing does not.  The operating system's refusals,
  the subprocess and \<open>difflib\<close> are parameters.
\<close>

subsection \<open>Files\<close>

datatype stored = Text string | Binary

type_synonym fs = "string \<Rightarrow> stored option"

text \<open>Universal newlines: \<open>\r\n\<close> and \<open>\r\<close> are read as \<open>\n\<close>.\<close>

definition return_char :: char where "return_char = char_of (13 :: nat)"

fun universal_newlines :: "string \<Rightarrow> string" where
  "universal_newlines [] = []"
| "universal_newlines [c] = [if c = return_char then newline else c]"
| "universal_newlines (c # d # s) =
     (if c = return_char then newline # (if d = newline then universal_newlines s else universal_newlines (d # s))
      else c # universal_newlines (d # s))"

text \<open>The refusal of an operation on a path: the text of the OSError.\<close>

type_synonym refusal = "string \<Rightarrow> string option"

definition write_file :: "refusal \<Rightarrow> string \<Rightarrow> string \<Rightarrow> fs \<Rightarrow> fs \<times> string" where
  "write_file refuse path content fs =
     (case refuse path of
        Some e \<Rightarrow> (fs, ''Error: unable to write file '' @ path @ '': '' @ e)
      | None \<Rightarrow> (fs(path \<mapsto> Text content),
          ''Wrote '' @ show_nat (int (byte_length content)) @ '' bytes to '' @ path))"

definition edit_file ::
    "refusal \<Rightarrow> refusal \<Rightarrow> (string list \<Rightarrow> string list \<Rightarrow> string \<Rightarrow> string \<Rightarrow> string list) \<Rightarrow> string \<Rightarrow> string \<Rightarrow> string \<Rightarrow> fs \<Rightarrow>
     fs \<times> string" where
  "edit_file refuse_read refuse_write unified_diff path old_text new_text fs =
     (case fs path of
        None \<Rightarrow> (fs, ''Error: file not found: '' @ path)
      | Some f \<Rightarrow>
         (case (refuse_read path, f) of
            (Some e, _) \<Rightarrow> (fs, ''Error: unable to edit file '' @ path @ '': '' @ e)
          | (None, Binary) \<Rightarrow> (fs, ''Error: unable to edit file '' @ path @ '': invalid start byte'')
          | (None, Text raw) \<Rightarrow>
          (let original = universal_newlines raw; n = count_str original old_text in
           if n = 0 then (fs, ''Error: no match found for the provided old_text in '' @ path)
           else if 1 < n then
             (fs, ''Error: found '' @ show_nat (int n) @ '' matches for old_text in '' @ path @
                ''. Provide more context for a unique match.'')
           else
             (let updated = replace_first old_text new_text original in
              case refuse_write path of
                Some e \<Rightarrow> (fs, ''Error: unable to edit file '' @ path @ '': '' @ e)
              | None \<Rightarrow>
                  (let diff = concat (unified_diff (splitlines original) (splitlines updated) (''a/'' @ path) (''b/'' @ path))
                   in (fs(path \<mapsto> Text updated),
                       if diff = [] then ''No visible diff (whitespace-only change)'' else diff))))))"

definition numbered_line :: "nat \<Rightarrow> string \<Rightarrow> string" where
  "numbered_line n line = show_nat (int n) @ [char_of (9 :: nat)] @ line"

text \<open>The listed lines; \<open>offset\<close> and \<open>limit\<close> below zero count as zero.\<close>

definition page_lines :: "string list \<Rightarrow> int \<Rightarrow> int \<Rightarrow> string list" where
  "page_lines all_lines offset limit =
     (let offset = nat (max 0 offset); limit = nat (max 0 limit);
          lines = (if 0 < offset then drop offset all_lines else all_lines);
          lines = (if 0 < limit then take limit lines else lines)
      in map (\<lambda>(i, line). numbered_line (i + offset + 1) line) (enumerate 0 lines))"

definition read_file :: "refusal \<Rightarrow> string \<Rightarrow> int \<Rightarrow> int \<Rightarrow> fs \<Rightarrow> string" where
  "read_file refuse path offset limit fs =
     (case fs path of
        None \<Rightarrow> ''Error: file not found: '' @ path
      | Some f \<Rightarrow>
          (case refuse path of
             Some e \<Rightarrow> ''Error: unable to read file '' @ path @ '': '' @ e
           | None \<Rightarrow>
               (case f of
                  Binary \<Rightarrow> ''Error: Binary file detected (not UTF-8 text): '' @ path @ ''. '' @
                    ''Do not attempt to read binary file contents into the conversation - this will exceed '' @
                    ''the context window. To work with this file, use execute_command for metadata '' @
                    ''(e.g., file size, type) or use file-path-based upload tools to transfer it directly.''
                | Text raw \<Rightarrow>
                    (let all_lines = splitlines (universal_newlines raw);
                         page = page_lines all_lines offset limit
                     in if all_lines = [] then ''(empty file)''
                        else if page = [] then ''(no lines in range)''
                        else join [newline] page))))"

subsection \<open>Commands\<close>

text \<open>\<open>int(MAX_CONTEXT_TOKENS * CHARS_PER_TOKEN * 0.25)\<close>\<close>

definition MAX_TOOL_OUTPUT_CHARS :: "int \<Rightarrow> int" where
  "MAX_TOOL_OUTPUT_CHARS max_context_tokens =
     (if 0 \<le> max_context_tokens then max_context_tokens * 3 div 4 else - (- max_context_tokens * 3 div 4))"

definition truncation_suffix :: "nat \<Rightarrow> int \<Rightarrow> string" where
  "truncation_suffix original_len limit =
     [newline, newline] @ ''[OUTPUT TRUNCATED - was '' @ show_nat (int original_len) @
     '' characters, limit is '' @ show_int limit @ '' characters]'' @ [newline] @
     ''This output exceeds the context window budget. For binary files (images, archives, etc.), '' @
     ''do not read contents into the conversation. Use file-path-based tools to upload or process '' @
     ''them directly (e.g., cloud-storage upload tools that accept a file path).''"

text \<open>A slice \<open>s[:k]\<close> with an integer that may be negative.\<close>

definition slice_to :: "int \<Rightarrow> string \<Rightarrow> string" where
  "slice_to k s = (if 0 \<le> k then take (nat k) s else take (length s - nat (- k)) s)"

definition with_exit_line :: "int \<Rightarrow> string \<Rightarrow> string" where
  "with_exit_line returncode output =
     (if returncode \<noteq> 0 then ''Command exited with code '' @ show_int returncode @ [newline] @ output else output)"

definition format_command_output :: "int \<Rightarrow> int \<Rightarrow> string \<Rightarrow> string" where
  "format_command_output limit returncode output =
     (let out = with_exit_line returncode output
      in if limit < int (length out) then
           (let suffix = truncation_suffix (length out) limit
            in slice_to (limit - int (length suffix)) out @ suffix)
         else out)"

text \<open>\<open>_run_subprocess\<close>: standard output and error, joined; or the exceptions of \<open>subprocess\<close>.\<close>

datatype process_result = Completed int string string | Process_Timeout | Process_Error string

definition combined_output :: "string \<Rightarrow> string \<Rightarrow> string" where
  "combined_output out err =
     (let parts = filter (\<lambda>p. p \<noteq> []) [out, err] in if parts = [] then ''(no output)'' else join [newline] parts)"

definition auth_failed_signature :: string where
  "auth_failed_signature =
     [quote_char] @ ''status'' @ [quote_char] @ '': '' @ [quote_char] @ ''UNAUTHENTICATED'' @ [quote_char]"

definition raw_401_code_signature :: string where
  "raw_401_code_signature = [quote_char] @ ''code'' @ [quote_char] @ '': 401''"

definition is_google_token_expired :: "string \<Rightarrow> bool" where
  "is_google_token_expired output =
     (contains_str output auth_failed_signature \<or>
      contains_str output raw_401_code_signature \<and>
      contains_str output ''Request had invalid authentication credentials'')"

text \<open>One execution of a command, with the token the environment holds before it; a refresh that
  returns a token is followed by one second run.\<close>

definition first_or_second :: "process_result \<Rightarrow> (int \<times> string) option \<Rightarrow> int \<Rightarrow> int \<Rightarrow> string" where
  "first_or_second failure done limit timeout =
     (case done of
        Some (rc, out) \<Rightarrow> format_command_output limit rc out
      | None \<Rightarrow>
          (case failure of
             Process_Error e \<Rightarrow> ''Error executing command: '' @ e
           | _ \<Rightarrow> ''Command timed out after '' @ show_int timeout @ '' seconds''))"

definition ran :: "process_result \<Rightarrow> (int \<times> string) option" where
  "ran r = (case r of Completed rc out err \<Rightarrow> Some (rc, combined_output out err) | _ \<Rightarrow> None)"

definition execute_command ::
    "int \<Rightarrow> int \<Rightarrow> string \<Rightarrow> process_result \<Rightarrow> (string \<Rightarrow> string option) \<Rightarrow> (string \<Rightarrow> process_result) \<Rightarrow> string \<times> nat" where
  "execute_command limit timeout token first refresh second =
     (case ran first of
        None \<Rightarrow> (first_or_second first None limit timeout, 1)
      | Some (rc, out) \<Rightarrow>
          if is_google_token_expired out \<and> token \<noteq> [] then
            (case refresh token of
               None \<Rightarrow> (format_command_output limit rc out, 1)
             | Some new_token \<Rightarrow>
                 (first_or_second (second new_token) (ran (second new_token)) limit timeout, 2))
          else (format_command_output limit rc out, 1))"

subsection \<open>Lemmas\<close>

lemma universal_newlines_no_return: "return_char \<notin> set (universal_newlines s)"
  by (induction s rule: universal_newlines.induct) (auto simp: return_char_def newline_def)

lemma universal_newlines_id: "return_char \<notin> set s \<Longrightarrow> universal_newlines s = s"
  by (induction s rule: universal_newlines.induct) auto

text \<open>The outcomes of an edit.\<close>

lemma edit_file_cases:
  assumes "edit_file rr rw diff path old new fs = (fs', msg)"
  obtains (same) "fs' = fs"
  | (edited) raw where "fs path = Some (Text raw)" "rr path = None" "rw path = None"
      "count_str (universal_newlines raw) old = 1"
      "fs' = fs(path \<mapsto> Text (replace_first old new (universal_newlines raw)))"
proof -
  show thesis
  proof (cases "\<exists>raw. fs path = Some (Text raw) \<and> rr path = None \<and> rw path = None \<and>
      count_str (universal_newlines raw) old = 1")
    case True
    then show thesis using assms edited by (auto simp: edit_file_def Let_def)
  next
    case False
    then have "fs' = fs"
      using assms by (auto simp: edit_file_def Let_def split: option.splits stored.splits if_splits)
    then show thesis by (rule same)
  qed
qed

lemma count_one_find: "count_str s p = 1 \<Longrightarrow> \<exists>i. find_str p s = Some i"
proof (cases "p = []")
  case True
  then show ?thesis by (cases s) (auto simp: starts_with_def)
next
  case False
  then show "count_str s p = 1 \<Longrightarrow> ?thesis"
    using find_str_None[of p s] count_from_zero[OF False, of s] by (auto simp: count_str_def)
qed

subsection \<open>Properties\<close>

text \<open>An edit is exact: either the file system is unchanged, or the file held the old text exactly
  once, and now holds the text as read with that one occurrence replaced, everything before and
  after it kept, and no other file changes.\<close>

theorem edit_file_spec:
  assumes "edit_file rr rw diff path old new fs = (fs', msg)"
  shows "fs' = fs \<or>
    (\<exists>raw pre post. fs path = Some (Text raw) \<and> count_str (universal_newlines raw) old = 1 \<and>
       universal_newlines raw = pre @ old @ post \<and> fs' path = Some (Text (pre @ new @ post)) \<and>
       (\<forall>p. p \<noteq> path \<longrightarrow> fs' p = fs p))"
  using assms
proof (cases rule: edit_file_cases)
  case (edited raw)
  obtain i where i: "find_str old (universal_newlines raw) = Some i" using count_one_find[OF edited(4)] by blast
  note r = replace_first_shape[OF i]
  from r(1) r(2)[of new] edited show ?thesis by (metis fun_upd_other fun_upd_same)
qed simp

definition one_file :: "string \<Rightarrow> fs" where
  "one_file content = (\<lambda>p. if p = ''f'' then Some (Text content) else None)"

definition no_refusal :: refusal where "no_refusal p = None"

definition plain_diff :: "string list \<Rightarrow> string list \<Rightarrow> string \<Rightarrow> string \<Rightarrow> string list" where
  "plain_diff a b x y = b"

lemma sample_edit:
  "fst (edit_file no_refusal no_refusal plain_diff ''f'' ''b'' ''B'' (one_file ''abc'')) ''f'' = Some (Text ''aBc'')"
  by code_simp

theorem edit_file_spec_witness:
  "\<exists>pre post. ''abc'' = pre @ ''b'' @ post \<and>
     fst (edit_file no_refusal no_refusal plain_diff ''f'' ''b'' ''B'' (one_file ''abc'')) ''f'' =
       Some (Text (pre @ ''B'' @ post))"
proof -
  obtain fs' msg where e: "edit_file no_refusal no_refusal plain_diff ''f'' ''b'' ''B'' (one_file ''abc'') = (fs', msg)"
    by fastforce
  have "fs' \<noteq> one_file ''abc''" using sample_edit e by (auto simp: one_file_def)
  then obtain raw pre post where "one_file ''abc'' ''f'' = Some (Text raw)" "universal_newlines raw = pre @ ''b'' @ post"
      "fs' ''f'' = Some (Text (pre @ ''B'' @ post))"
    using edit_file_spec[OF e] by blast
  moreover have "universal_newlines ''abc'' = ''abc''" by code_simp
  ultimately have "''abc'' = pre @ ''b'' @ post" "fs' ''f'' = Some (Text (pre @ ''B'' @ post))"
    by (simp_all add: one_file_def)
  with e show ?thesis by (metis fst_conv)
qed

text \<open>An edit rewrites every line end of the file: after a successful edit no carriage return is
  left unless the new text brings one, so a file with \<open>\r\n\<close> line ends is changed on all its
  lines, not only where the old text stood.\<close>

theorem edit_file_converts_newlines:
  assumes "edit_file rr rw diff path old new fs = (fs', msg)" "fs' \<noteq> fs" "return_char \<notin> set new"
  shows "\<exists>updated. fs' path = Some (Text updated) \<and> return_char \<notin> set updated"
  using assms(1)
proof (cases rule: edit_file_cases)
  case (edited raw)
  obtain i where i: "find_str old (universal_newlines raw) = Some i" using count_one_find[OF edited(4)] by blast
  have "set (replace_first old new (universal_newlines raw)) \<subseteq> set (universal_newlines raw) \<union> set new"
    unfolding replace_first_shape(2)[OF i] by (auto dest: in_set_takeD in_set_dropD)
  then show ?thesis using universal_newlines_no_return[of raw] assms(3) edited by auto
qed (use assms(2) in simp)

definition crlf :: string where "crlf = ''a'' @ [return_char, newline] @ ''b'' @ [return_char, newline]"

theorem edit_file_converts_newlines_witness:
  "\<exists>updated. fst (edit_file no_refusal no_refusal plain_diff ''f'' ''b'' ''B'' (one_file crlf)) ''f'' =
     Some (Text updated) \<and> return_char \<notin> set updated"
proof -
  obtain fs' msg where e: "edit_file no_refusal no_refusal plain_diff ''f'' ''b'' ''B'' (one_file crlf) = (fs', msg)"
    by fastforce
  have "fst (edit_file no_refusal no_refusal plain_diff ''f'' ''b'' ''B'' (one_file crlf)) ''f'' =
      Some (Text (''a'' @ [newline] @ ''B'' @ [newline]))" by code_simp
  moreover have "one_file crlf ''f'' \<noteq> Some (Text (''a'' @ [newline] @ ''B'' @ [newline]))" by code_simp
  ultimately have "fs' \<noteq> one_file crlf" using e by auto
  moreover have "return_char \<notin> set ''B''" by code_simp
  ultimately show ?thesis using edit_file_converts_newlines[OF e] e by simp
qed

text \<open>Command output stays within the budget: output that fits (with its exit code line) is
  returned whole; longer output is cut so that the kept prefix and the truncation notice together
  have exactly the length of the limit, whenever the limit leaves room for the notice.\<close>

theorem format_command_output_bound:
  "let full = with_exit_line rc output; notice = truncation_suffix (length full) limit;
       result = format_command_output limit rc output
   in if int (length full) \<le> limit then result = full
      else if int (length notice) \<le> limit then
        int (length result) = limit \<and> (\<exists>kept. prefix kept full \<and> result = kept @ notice)
      else True"
proof -
  let ?full = "with_exit_line rc output"
  let ?notice = "truncation_suffix (length ?full) limit"
  have "int (length (format_command_output limit rc output)) = limit \<and>
      (\<exists>kept. prefix kept ?full \<and> format_command_output limit rc output = kept @ ?notice)"
    if "\<not> int (length ?full) \<le> limit" "int (length ?notice) \<le> limit"
  proof -
    have "format_command_output limit rc output = take (nat (limit - int (length ?notice))) ?full @ ?notice"
      using that by (simp add: format_command_output_def Let_def slice_to_def)
    then show ?thesis using that by (auto simp: take_is_prefix)
  qed
  then show ?thesis by (simp add: Let_def) (simp add: format_command_output_def Let_def)
qed

end
