(* ===== verification/File_Queue.thy ===== *)
theory File_Queue
  imports Main
begin

text \<open>
  The per-file queue of the task runner (\<open>FileMutationQueue\<close> of \<open>task-runner/main.py\<close>) under
  interleaving: coroutines enter with a path, wait for the lock object of the resolved path, hold
  it, and leave (or are cancelled while waiting).  Lock objects have identities, since an entry is
  dropped from the map when its last user leaves and a later caller creates a new one; only the
  user count keeps a lock that is still in use from being replaced.
\<close>

datatype pc = Idle | Waiting string nat | Holding string nat

definition lock_of :: "pc \<Rightarrow> (string \<times> nat) option" where
  "lock_of p = (case p of Idle \<Rightarrow> None | Waiting r l \<Rightarrow> Some (r, l) | Holding r l \<Rightarrow> Some (r, l))"

record queue =
  q_locks :: "string \<Rightarrow> nat option"   \<comment> \<open>\<open>_locks\<close>: resolved path to lock object\<close>
  q_users :: "nat \<Rightarrow> nat"
  q_holder :: "nat \<Rightarrow> nat option"
  q_pc :: "nat \<Rightarrow> pc"
  q_next :: nat

definition empty_queue :: queue where
  "empty_queue = \<lparr>q_locks = (\<lambda>_. None), q_users = (\<lambda>_. 0), q_holder = (\<lambda>_. None), q_pc = (\<lambda>_. Idle), q_next = 0\<rparr>"

text \<open>Up to the \<open>async with\<close>: find or create the lock state and count the caller.\<close>

definition enter :: "nat \<Rightarrow> string \<Rightarrow> queue \<Rightarrow> queue" where
  "enter c resolved q =
     (let (l, q1) = (case q_locks q resolved of
            Some l \<Rightarrow> (l, q)
          | None \<Rightarrow> (q_next q, q\<lparr>q_locks := (q_locks q)(resolved \<mapsto> q_next q),
              q_users := (q_users q)(q_next q := 0), q_holder := (q_holder q)(q_next q := None),
              q_next := Suc (q_next q)\<rparr>))
      in q1\<lparr>q_users := (q_users q1)(l := Suc (q_users q1 l)), q_pc := (q_pc q1)(c := Waiting resolved l)\<rparr>)"

definition grant :: "nat \<Rightarrow> string \<Rightarrow> nat \<Rightarrow> queue \<Rightarrow> queue" where
  "grant c resolved l q =
     q\<lparr>q_holder := (q_holder q)(l \<mapsto> c), q_pc := (q_pc q)(c := Holding resolved l)\<rparr>"

text \<open>The \<open>finally\<close> block.\<close>

definition finish_use :: "nat \<Rightarrow> string \<Rightarrow> nat \<Rightarrow> queue \<Rightarrow> queue" where
  "finish_use c resolved l q =
     (let n = q_users q l - 1 in
      q\<lparr>q_users := (q_users q)(l := n), q_pc := (q_pc q)(c := Idle),
        q_locks := (if n = 0 then (q_locks q)(resolved := None) else q_locks q)\<rparr>)"

definition leave :: "nat \<Rightarrow> string \<Rightarrow> nat \<Rightarrow> queue \<Rightarrow> queue" where
  "leave c resolved l q = finish_use c resolved l (q\<lparr>q_holder := (q_holder q)(l := None)\<rparr>)"

text \<open>The scheduler: which step may happen when.  Which waiter a free lock goes to is left open.\<close>

inductive queue_step :: "(string \<Rightarrow> string) \<Rightarrow> queue \<Rightarrow> queue \<Rightarrow> bool" for resolve where
  Enter: "q_pc q c = Idle \<Longrightarrow> queue_step resolve q (enter c (resolve path) q)"
| Grant: "q_pc q c = Waiting r l \<Longrightarrow> q_holder q l = None \<Longrightarrow> queue_step resolve q (grant c r l q)"
| Leave: "q_pc q c = Holding r l \<Longrightarrow> queue_step resolve q (leave c r l q)"
| Cancel: "q_pc q c = Waiting r l \<Longrightarrow> queue_step resolve q (finish_use c r l q)"

inductive queue_reachable :: "(string \<Rightarrow> string) \<Rightarrow> queue \<Rightarrow> bool" for resolve where
  Start: "queue_reachable resolve empty_queue"
| Step: "queue_reachable resolve q \<Longrightarrow> queue_step resolve q q' \<Longrightarrow> queue_reachable resolve q'"

subsection \<open>The invariant\<close>

definition users_of :: "queue \<Rightarrow> nat \<Rightarrow> nat set" where
  "users_of q l = {c. \<exists>r. lock_of (q_pc q c) = Some (r, l)}"

definition queue_inv :: "queue \<Rightarrow> bool" where
  "queue_inv q \<longleftrightarrow>
     (\<forall>c r l. lock_of (q_pc q c) = Some (r, l) \<longrightarrow> q_locks q r = Some l) \<and>
     (\<forall>r l. q_locks q r = Some l \<longrightarrow> l < q_next q \<and> users_of q l \<noteq> {}) \<and>
     (\<forall>l. finite (users_of q l) \<and> q_users q l = card (users_of q l)) \<and>
     (\<forall>l c. q_holder q l = Some c \<longleftrightarrow> (\<exists>r. q_pc q c = Holding r l))"

lemma lock_of_simps [simp]:
  "lock_of Idle = None" "lock_of (Waiting r l) = Some (r, l)" "lock_of (Holding r l) = Some (r, l)"
  by (simp_all add: lock_of_def)

lemma lock_of_Holding: "lock_of p = None \<Longrightarrow> p = Idle"
  by (cases p) auto

lemma queue_inv_empty: "queue_inv empty_queue"
  by (simp add: queue_inv_def empty_queue_def users_of_def)

text \<open>The clauses, one by one.\<close>

lemma queue_invD:
  assumes "queue_inv q"
  shows "lock_of (q_pc q c) = Some (r, l) \<Longrightarrow> q_locks q r = Some l"
    and "q_locks q r = Some l \<Longrightarrow> l < q_next q" "q_locks q r = Some l \<Longrightarrow> users_of q l \<noteq> {}"
    and "finite (users_of q l)" "q_users q l = card (users_of q l)"
    and "q_holder q l = Some c \<longleftrightarrow> (\<exists>r. q_pc q c = Holding r l)"
  using assms by (auto simp: queue_inv_def)

lemma users_of_update:
  "users_of (q\<lparr>q_pc := (q_pc q)(c := p)\<rparr>) l =
     (if \<exists>r. lock_of p = Some (r, l) then insert c (users_of q l) else users_of q l - {c})"
  by (auto simp: users_of_def)

lemma users_of_cong: "q_pc q' = q_pc q \<Longrightarrow> users_of q' = users_of q"
  by (simp add: users_of_def fun_eq_iff)

lemma fresh_lock_unused: "queue_inv q \<Longrightarrow> users_of q (q_next q) = {}"
  using queue_invD(1,2)[of q] by (fastforce simp: users_of_def)

lemma not_user: "lock_of (q_pc q c) = None \<Longrightarrow> c \<notin> users_of q l"
  by (simp add: users_of_def)

lemma enter_inv:
  assumes inv: "queue_inv q" and idle: "q_pc q c = Idle"
  shows "queue_inv (enter c r q)"
proof -
  note d = queue_invD[OF inv]
  have lt: "q_locks q r' = Some l' \<Longrightarrow> q_next q \<le> n \<Longrightarrow> l' < n" for r' l' n
    using d(2) less_le_trans by blast
  have no: "c \<notin> users_of q l" for l using idle by (simp add: not_user)
  obtain l q1 where lq: "(case q_locks q r of
            Some l \<Rightarrow> (l, q)
          | None \<Rightarrow> (q_next q, q\<lparr>q_locks := (q_locks q)(r \<mapsto> q_next q),
              q_users := (q_users q)(q_next q := 0), q_holder := (q_holder q)(q_next q := None),
              q_next := Suc (q_next q)\<rparr>)) = (l, q1)" by fastforce
  have q1: "q_pc q1 = q_pc q" "q_locks q1 = (q_locks q)(r \<mapsto> l)" "l < q_next q1" "q_next q \<le> q_next q1"
      "q_users q1 = q_users q" "q_holder q1 = q_holder q"
    using lq d fresh_lock_unused[OF inv] idle
    by (auto split: option.splits simp: fun_eq_iff) (metis less_irrefl lock_of_simps(3) not_None_eq option.distinct(1))+
  let ?q = "enter c r q"
  have f: "q_pc ?q = (q_pc q)(c := Waiting r l)" "q_locks ?q = (q_locks q)(r \<mapsto> l)" "q_next ?q = q_next q1"
      "q_users ?q = (q_users q)(l := Suc (q_users q l))" "q_holder ?q = q_holder q"
    using lq q1 by (simp_all add: enter_def)
  have u: "users_of ?q l' = (if l' = l then insert c (users_of q l) else users_of q l')" for l'
    using no by (auto simp: users_of_def f)
  show ?thesis
    unfolding queue_inv_def
  proof (intro conjI allI impI)
    fix c' r' l' assume "lock_of (q_pc ?q c') = Some (r', l')"
    then show "q_locks ?q r' = Some l'"
      using d(1)[of c' r' l'] lq by (auto simp: f split: if_splits option.splits)
  qed (use d u q1 idle no lt[OF _ q1(4)] in \<open>auto simp: f split: if_splits\<close>)
qed

lemma grant_inv:
  assumes inv: "queue_inv q" and w: "q_pc q c = Waiting r l" "q_holder q l = None"
  shows "queue_inv (grant c r l q)"
proof -
  note d = queue_invD[OF inv]
  have u: "users_of (grant c r l q) = users_of q"
    using w by (auto simp: users_of_def grant_def fun_eq_iff)
  have lk: "lock_of (q_pc (grant c r l q) c') = lock_of (q_pc q c')" for c'
    using w by (simp add: grant_def)
  have h: "q_holder q l = Some c' \<longleftrightarrow> False" for c' using w by simp
  show ?thesis
    unfolding queue_inv_def u lk using d h w
    by (auto simp: grant_def) (metis option.distinct(1) pc.distinct(5))+
qed

lemma lock_owner_unique:
  assumes "queue_inv q" "lock_of (q_pc q c) = Some (r, l)" "lock_of (q_pc q c') = Some (r', l)"
    and "q_locks q r' = Some l \<Longrightarrow> r' = r"
  shows "r' = r"
  using assms queue_invD(1)[OF assms(1)] by blast

text \<open>Leaving, with the lock released or never granted.\<close>

lemma finish_inv:
  assumes inv: "queue_inv q" and uses: "lock_of (q_pc q c) = Some (r, l)"
    and inj: "\<And>r'. q_locks q r' = Some l \<Longrightarrow> r' = r"
    and holder: "q1 = q\<lparr>q_holder := hs\<rparr>"
      "\<And>l' c'. hs l' = Some c' \<longleftrightarrow> (\<exists>r. q_pc q c' = Holding r l') \<and> c' \<noteq> c"
  shows "queue_inv (finish_use c r l q1)"
proof -
  note d = queue_invD[OF inv]
  let ?q = "finish_use c r l q1"
  have mem: "c \<in> users_of q l" using uses by (auto simp: users_of_def)
  have u: "users_of ?q l' = users_of q l' - {c}" for l'
    by (auto simp: users_of_def finish_use_def Let_def holder)
  have other: "l' \<noteq> l \<Longrightarrow> c \<notin> users_of q l'" for l' using uses by (auto simp: users_of_def)
  have n: "q_users q l - 1 = card (users_of q l - {c})"
    using mem d(4,5) by simp
  have f: "q_pc ?q = (q_pc q)(c := Idle)" "q_next ?q = q_next q" "q_holder ?q = hs"
      "q_users ?q = (q_users q)(l := card (users_of q l - {c}))"
      "q_locks ?q = (if users_of q l - {c} = {} then (q_locks q)(r := None) else q_locks q)"
    using n d(4)[of l] by (auto simp: finish_use_def Let_def holder card_eq_0_iff)
  have live: "users_of q l - {c} \<noteq> {}" if "lock_of (q_pc q c') = Some (r, l')" "c' \<noteq> c" for c' l'
  proof -
    have "l' = l" using d(1)[OF that(1)] d(1)[OF uses] by simp
    with that show ?thesis by (auto simp: users_of_def)
  qed
  show ?thesis
    unfolding queue_inv_def
  proof (intro conjI allI impI)
    fix c' r' l' assume a: "lock_of (q_pc ?q c') = Some (r', l')"
    then have c': "c' \<noteq> c" "lock_of (q_pc q c') = Some (r', l')" by (auto simp: f split: if_splits)
    show "q_locks ?q r' = Some l'" using d(1)[OF c'(2)] live[of c' l'] c' by (auto simp: f)
  next
    fix r' l' assume a: "q_locks ?q r' = Some l'"
    then have q: "q_locks q r' = Some l'" by (auto simp: f split: if_splits)
    show "l' < q_next ?q" using d(2)[OF q] by (simp add: f)
    show "users_of ?q l' \<noteq> {}"
    proof (cases "l' = l")
      case True
      then have "r' = r" using inj q by simp
      then show ?thesis using a True unfolding u by (auto simp: f split: if_splits)
    next
      case False
      then show ?thesis using other[OF False] d(3)[OF q] by (simp add: u)
    qed
  next
    fix l'
    show "finite (users_of ?q l')" using d(4) by (simp add: u)
    show "q_users ?q l' = card (users_of ?q l')" using d(5)[of l'] other[of l'] by (auto simp: u f)
  next
    fix l' c'
    show "q_holder ?q l' = Some c' \<longleftrightarrow> (\<exists>r. q_pc ?q c' = Holding r l')" using holder(2) by (auto simp: f)
  qed
qed

text \<open>Two paths never share a lock object.\<close>

definition locks_distinct :: "queue \<Rightarrow> bool" where
  "locks_distinct q \<longleftrightarrow> (\<forall>r r' l. q_locks q r = Some l \<longrightarrow> q_locks q r' = Some l \<longrightarrow> r = r')"

lemma locks_distinct_enter: "queue_inv q \<Longrightarrow> locks_distinct q \<Longrightarrow> locks_distinct (enter c r q)"
  using queue_invD(2)[of q] unfolding locks_distinct_def enter_def
  by (auto simp: Let_def split: option.splits prod.splits if_splits) blast+

lemma locks_distinct_finish: "locks_distinct q \<Longrightarrow> locks_distinct (finish_use c r l q)"
  by (auto simp: locks_distinct_def finish_use_def Let_def)

lemma queue_step_inv:
  assumes "queue_step resolve q q'" "queue_inv q" "locks_distinct q"
  shows "queue_inv q' \<and> locks_distinct q'"
  using assms(1)
proof (cases rule: queue_step.cases)
  case (Enter c path)
  then show ?thesis using enter_inv[OF assms(2)] locks_distinct_enter[OF assms(2,3)] by simp
next
  case (Grant c r l)
  then show ?thesis using grant_inv[OF assms(2)] assms(3) by (simp add: locks_distinct_def grant_def)
next
  case (Leave c r l)
  note d = queue_invD[OF assms(2)]
  have lk: "lock_of (q_pc q c) = Some (r, l)" using Leave by simp
  have inj: "\<And>r'. q_locks q r' = Some l \<Longrightarrow> r' = r"
    using assms(3) d(1)[OF lk] by (auto simp: locks_distinct_def)
  have "((q_holder q)(l := None)) l' = Some c' \<longleftrightarrow> (\<exists>r. q_pc q c' = Holding r l') \<and> c' \<noteq> c" for l' c'
  proof (cases "l' = l")
    case True
    have "q_holder q l = Some c" using d(6)[of l c] Leave(2) by blast
    then show ?thesis using d(6)[of l c'] True by auto
  next
    case False
    have "\<not> (\<exists>r. q_pc q c = Holding r l')" using False Leave(2) by simp
    then show ?thesis using d(6)[of l' c'] False by auto
  qed
  from finish_inv[OF assms(2) lk inj refl this] have "queue_inv (leave c r l q)" by (simp only: leave_def)
  moreover have "locks_distinct (q\<lparr>q_holder := (q_holder q)(l := None)\<rparr>)"
    using assms(3) by (simp add: locks_distinct_def)
  then have "locks_distinct (leave c r l q)" unfolding leave_def by (rule locks_distinct_finish)
  ultimately show ?thesis using Leave(1) by simp
next
  case (Cancel c r l)
  note d = queue_invD[OF assms(2)]
  have lk: "lock_of (q_pc q c) = Some (r, l)" using Cancel by simp
  have inj: "\<And>r'. q_locks q r' = Some l \<Longrightarrow> r' = r"
    using assms(3) d(1)[OF lk] by (auto simp: locks_distinct_def)
  have "q_holder q l' = Some c' \<longleftrightarrow> (\<exists>r. q_pc q c' = Holding r l') \<and> c' \<noteq> c" for l' c'
    using d(6)[of l' c'] Cancel(2) by (metis pc.distinct(5))
  from finish_inv[OF assms(2) lk inj _ this, of q] have "queue_inv (finish_use c r l q)" by simp
  with Cancel(1) locks_distinct_finish[OF assms(3)] show ?thesis by simp
qed

lemma queue_reachable_inv: "queue_reachable resolve q \<Longrightarrow> queue_inv q \<and> locks_distinct q"
proof (induction rule: queue_reachable.induct)
  case Start
  then show ?case using queue_inv_empty by (simp add: locks_distinct_def empty_queue_def)
qed (use queue_step_inv in blast)

subsection \<open>Properties\<close>

text \<open>C10. Writes to one file exclude each other under every interleaving: two coroutines never hold
  locks for the same resolved path at once, everyone who waits for or holds a path shares one
  lock object, and an entry of the map exists exactly while some coroutine uses it, so that idle
  paths leave nothing behind.\<close>

theorem file_queue_exclusive:
  assumes "queue_reachable resolve q"
  shows "(\<forall>c c' r l l'. q_pc q c = Holding r l \<longrightarrow> q_pc q c' = Holding r l' \<longrightarrow> c = c') \<and>
    (\<forall>r l. q_locks q r = Some l \<longleftrightarrow> (\<exists>c. q_pc q c = Waiting r l \<or> q_pc q c = Holding r l))"
proof -
  have inv: "queue_inv q" "locks_distinct q" using queue_reachable_inv[OF assms] by auto
  note d = queue_invD[OF inv(1)]
  have "c = c'" if "q_pc q c = Holding r l" "q_pc q c' = Holding r l'" for c c' r l l'
  proof -
    have "q_locks q r = Some l" "q_locks q r = Some l'" using that d(1)[of c r l] d(1)[of c' r l'] by simp_all
    then have "q_holder q l = Some c" "q_holder q l = Some c'" using that d(6) by auto
    then show ?thesis by simp
  qed
  moreover have "q_locks q r = Some l \<longleftrightarrow> (\<exists>c. q_pc q c = Waiting r l \<or> q_pc q c = Holding r l)" for r l
  proof
    assume a: "q_locks q r = Some l"
    then obtain c r' where c: "lock_of (q_pc q c) = Some (r', l)" using d(3)[OF a] by (auto simp: users_of_def)
    have "r' = r" using d(1)[OF c] a inv(2) by (auto simp: locks_distinct_def)
    with c show "\<exists>c. q_pc q c = Waiting r l \<or> q_pc q c = Holding r l"
      by (cases "q_pc q c") auto
  next
    assume "\<exists>c. q_pc q c = Waiting r l \<or> q_pc q c = Holding r l"
    then obtain c where "lock_of (q_pc q c) = Some (r, l)" by (metis lock_of_simps(2,3))
    then show "q_locks q r = Some l" by (rule d(1))
  qed
  ultimately show ?thesis by blast
qed

theorem file_queue_exclusive_witness:
  "\<forall>r l. q_locks (grant 0 ''f'' 0 (enter 0 ''f'' empty_queue)) r = Some l \<longleftrightarrow>
     (\<exists>c. q_pc (grant 0 ''f'' 0 (enter 0 ''f'' empty_queue)) c = Waiting r l \<or>
        q_pc (grant 0 ''f'' 0 (enter 0 ''f'' empty_queue)) c = Holding r l)"
proof -
  have "queue_step id empty_queue (enter 0 (id ''f'') empty_queue)"
    by (rule queue_step.Enter) (simp add: empty_queue_def)
  moreover have "queue_step id (enter 0 ''f'' empty_queue) (grant 0 ''f'' 0 (enter 0 ''f'' empty_queue))"
    by (rule queue_step.Grant) (simp_all add: enter_def empty_queue_def)
  ultimately have "queue_reachable id (grant 0 ''f'' 0 (enter 0 ''f'' empty_queue))"
    by (metis id_apply queue_reachable.intros)
  from file_queue_exclusive[OF this] show ?thesis by blast
qed

end
