(* ===== verification/Token_Refresh.thy ===== *)
theory Token_Refresh
  imports Main
begin

text \<open>
  The shared refresh of the Google Workspace token (\<open>_refresh_google_workspace_token\<close> of
  \<open>task-runner/main.py\<close>) under interleaving.  A command captures the token of the environment
  before it runs; if it fails on authentication it enters the refresh with that stale token,
  waits for the lock, and under it reuses, shares a failure, or sends one request, during which
  others may arrive.  The answer of the server is a parameter of the step.  The state keeps the
  requests sent, as the tokens they were to replace, and what each caller was given.
\<close>

datatype caller = At_Rest | Running string | Queued string | Posting string

record refresh =
  rf_env :: string               \<comment> \<open>\<open>GOOGLE_WORKSPACE_CLI_TOKEN\<close>\<close>
  rf_failed :: "string option"   \<comment> \<open>\<open>recent_failed_stale_token\<close>\<close>
  rf_inflight :: nat
  rf_lock :: "nat option"
  rf_caller :: "nat \<Rightarrow> caller"
  rf_given :: "nat \<Rightarrow> string option"
  rf_posts :: "string list"

definition set_caller :: "nat \<Rightarrow> caller \<Rightarrow> refresh \<Rightarrow> refresh" where
  "set_caller c p s = s\<lparr>rf_caller := (rf_caller s)(c := p)\<rparr>"

definition start_command :: "nat \<Rightarrow> refresh \<Rightarrow> refresh" where
  "start_command c s = set_caller c (Running (rf_env s)) s"

definition enter_refresh :: "nat \<Rightarrow> string \<Rightarrow> refresh \<Rightarrow> refresh" where
  "enter_refresh c stale s = set_caller c (Queued stale) (s\<lparr>rf_inflight := rf_inflight s + 1\<rparr>)"

text \<open>Returning a result: the lock is released and the \<open>finally\<close> block runs.\<close>

definition return_token :: "nat \<Rightarrow> string option \<Rightarrow> refresh \<Rightarrow> refresh" where
  "return_token c r s =
     (let n = rf_inflight s - 1 in
      set_caller c At_Rest (s\<lparr>rf_lock := None, rf_inflight := n, rf_given := (rf_given s)(c := r),
        rf_failed := (if n = 0 then None else rf_failed s)\<rparr>))"

text \<open>With the lock free: the three ways it is used.\<close>

definition take_lock :: "nat \<Rightarrow> string \<Rightarrow> refresh \<Rightarrow> refresh" where
  "take_lock c stale s =
     (if rf_env s \<noteq> [] \<and> rf_env s \<noteq> stale then return_token c (Some (rf_env s)) s
      else if rf_failed s = Some stale then return_token c None s
      else set_caller c (Posting stale) (s\<lparr>rf_lock := Some c, rf_posts := rf_posts s @ [stale]\<rparr>))"

text \<open>The answer: a non-empty token, or a failure of any kind.\<close>

definition post_answer :: "nat \<Rightarrow> string \<Rightarrow> string option \<Rightarrow> refresh \<Rightarrow> refresh" where
  "post_answer c stale answer s =
     (case answer of
        Some token \<Rightarrow>
          if token \<noteq> [] then return_token c (Some token) (s\<lparr>rf_env := token, rf_failed := None\<rparr>)
          else return_token c None (s\<lparr>rf_failed := Some stale\<rparr>)
      | None \<Rightarrow> return_token c None (s\<lparr>rf_failed := Some stale\<rparr>))"

inductive refresh_step :: "refresh \<Rightarrow> refresh \<Rightarrow> bool" where
  Start: "rf_caller s c = At_Rest \<Longrightarrow> refresh_step s (start_command c s)"
| Finish: "rf_caller s c = Running t \<Longrightarrow> refresh_step s (set_caller c At_Rest s)"
| Detect: "rf_caller s c = Running t \<Longrightarrow> t \<noteq> [] \<Longrightarrow> refresh_step s (enter_refresh c t s)"
| Take: "rf_caller s c = Queued t \<Longrightarrow> rf_lock s = None \<Longrightarrow> refresh_step s (take_lock c t s)"
| Answer: "rf_caller s c = Posting t \<Longrightarrow> refresh_step s (post_answer c t answer s)"

definition fresh_refresh :: "string \<Rightarrow> refresh" where
  "fresh_refresh token = \<lparr>rf_env = token, rf_failed = None, rf_inflight = 0, rf_lock = None,
     rf_caller = (\<lambda>_. At_Rest), rf_given = (\<lambda>_. None), rf_posts = []\<rparr>"

inductive refresh_reachable :: "string \<Rightarrow> refresh \<Rightarrow> bool" for token where
  Init: "refresh_reachable token (fresh_refresh token)"
| Next: "refresh_reachable token s \<Longrightarrow> refresh_step s s' \<Longrightarrow> refresh_reachable token s'"

subsection \<open>The invariant\<close>

definition active :: "refresh \<Rightarrow> nat set" where
  "active s = {c. \<exists>t. rf_caller s c = Queued t \<or> rf_caller s c = Posting t}"

definition token_of :: "caller \<Rightarrow> string" where
  "token_of p = (case p of At_Rest \<Rightarrow> [] | Running t \<Rightarrow> t | Queued t \<Rightarrow> t | Posting t \<Rightarrow> t)"

definition refresh_inv :: "refresh \<Rightarrow> bool" where
  "refresh_inv s \<longleftrightarrow>
     finite (active s) \<and> rf_inflight s = card (active s) \<and>
     (\<forall>c. token_of (rf_caller s c) \<noteq> [] \<longrightarrow> rf_env s \<noteq> []) \<and>
     (\<forall>c t. rf_caller s c = Queued t \<longrightarrow> t \<noteq> []) \<and>
     (\<forall>c t. rf_caller s c = Posting t \<longrightarrow> t = rf_env s \<and> t \<noteq> [] \<and> rf_failed s = None) \<and>
     (\<forall>c. rf_lock s = Some c \<longleftrightarrow> (\<exists>t. rf_caller s c = Posting t)) \<and>
     (\<forall>f. rf_failed s = Some f \<longrightarrow> f = rf_env s \<and> active s \<noteq> {})"

lemma refresh_invD:
  assumes "refresh_inv s"
  shows "finite (active s)" "rf_inflight s = card (active s)"
    "token_of (rf_caller s c) \<noteq> [] \<Longrightarrow> rf_env s \<noteq> []"
    "rf_caller s c = Queued t \<Longrightarrow> t \<noteq> []"
    "rf_caller s c = Posting t \<Longrightarrow> t = rf_env s \<and> t \<noteq> [] \<and> rf_failed s = None"
    "rf_lock s = Some c \<longleftrightarrow> (\<exists>t. rf_caller s c = Posting t)"
    "rf_failed s = Some f \<Longrightarrow> f = rf_env s \<and> active s \<noteq> {}"
  using assms by (auto simp: refresh_inv_def)

lemma active_set_caller:
  "active (set_caller c p s) = (if \<exists>t. p = Queued t \<or> p = Posting t then insert c (active s) else active s - {c})"
  by (auto simp: active_def set_caller_def)

lemma set_caller_fields [simp]:
  "rf_env (set_caller c p s) = rf_env s" "rf_failed (set_caller c p s) = rf_failed s"
  "rf_inflight (set_caller c p s) = rf_inflight s" "rf_lock (set_caller c p s) = rf_lock s"
  "rf_posts (set_caller c p s) = rf_posts s" "rf_given (set_caller c p s) = rf_given s"
  "rf_caller (set_caller c p s) = (rf_caller s)(c := p)"
  by (simp_all add: set_caller_def)

lemma active_cong: "rf_caller s' = rf_caller s \<Longrightarrow> active s' = active s"
  by (simp add: active_def)

text \<open>Returning from a state that differs from an invariant one in the environment or the flag
  only.\<close>

lemma return_token_inv:
  assumes inv: "refresh_inv s" and mem: "c \<in> active s"
    and s1: "rf_caller s1 = rf_caller s" "rf_inflight s1 = rf_inflight s" "rf_env s1 \<noteq> []"
    and alone: "\<And>c'. c' \<noteq> c \<Longrightarrow> \<not> (\<exists>t. rf_caller s c' = Posting t)"
    and flag: "\<And>f. rf_failed s1 = Some f \<Longrightarrow> f = rf_env s1"
  shows "refresh_inv (return_token c r s1)"
proof -
  note d = refresh_invD[OF inv]
  have a: "active (return_token c r s1) = active s - {c}"
    using s1(1) by (auto simp: return_token_def Let_def active_def)
  have n: "rf_inflight (return_token c r s1) = card (active s - {c})"
    using d(1,2) mem s1(2) by (simp add: return_token_def Let_def)
  have f: "rf_failed (return_token c r s1) = (if active s - {c} = {} then None else rf_failed s1)"
    using n d(1) by (auto simp: return_token_def Let_def card_eq_0_iff)
  show ?thesis
    unfolding refresh_inv_def a n
    using d(1,4) s1 alone flag f
    by (auto simp: return_token_def Let_def token_of_def simp del: fun_upd_apply)
      (auto simp: return_token_def Let_def split: if_splits)
qed

text \<open>Steps outside the refresh change one caller that is not active.\<close>

lemma passive_inv:
  assumes inv: "refresh_inv s" and c: "c \<notin> active s" and p: "p = At_Rest \<or> p = Running (rf_env s)"
  shows "refresh_inv (set_caller c p s)"
proof -
  note d = refresh_invD[OF inv]
  have a: "active (set_caller c p s) = active s" using c p by (auto simp: active_set_caller)
  have no: "\<not> (\<exists>t. rf_caller s c = Posting t)" using c by (auto simp: active_def)
  show ?thesis
    unfolding refresh_inv_def a
    using inv p no by (auto simp: refresh_inv_def token_of_def split: if_splits)
qed

lemma enter_refresh_inv:
  assumes inv: "refresh_inv s" and c: "rf_caller s c = Running t" "t \<noteq> []"
  shows "refresh_inv (enter_refresh c t s)"
proof -
  note d = refresh_invD[OF inv]
  have e: "rf_env s \<noteq> []" using d(3)[of c] c by (simp add: token_of_def)
  have a: "active (enter_refresh c t s) = insert c (active s)"
    by (auto simp: enter_refresh_def active_set_caller active_def)
  have no: "c \<notin> active s" using c by (simp add: active_def)
  have l: "rf_lock s \<noteq> Some c" using d(6)[of c] c by simp
  show ?thesis
    unfolding refresh_inv_def a
    using inv c e no l by (auto simp: refresh_inv_def enter_refresh_def split: if_splits)
qed

lemma nobody_posts: "refresh_inv s \<Longrightarrow> rf_lock s = None \<Longrightarrow> \<not> (\<exists>t. rf_caller s c = Posting t)"
  using refresh_invD(6)[of s c] by auto

lemma take_lock_inv:
  assumes inv: "refresh_inv s" and c: "rf_caller s c = Queued t" and l: "rf_lock s = None"
  shows "refresh_inv (take_lock c t s)"
proof -
  note d = refresh_invD[OF inv]
  have act: "c \<in> active s" using c by (simp add: active_def)
  have e: "rf_env s \<noteq> []" using d(3)[of c] d(4)[OF c] c by (simp add: token_of_def)
  have returned: "refresh_inv (return_token c r s)" for r
    by (rule return_token_inv[OF inv act refl refl e]) (use nobody_posts[OF inv l] d(7) in auto)
  show ?thesis
  proof (cases "rf_env s \<noteq> t \<or> rf_failed s = Some t")
    case True
    then show ?thesis using returned e by (auto simp: take_lock_def)
  next
    case False
    let ?s = "set_caller c (Posting t) (s\<lparr>rf_lock := Some c, rf_posts := rf_posts s @ [t]\<rparr>)"
    have nf: "rf_failed s = None" using False d(7) by (cases "rf_failed s") auto
    have a: "active ?s = active s"
      using act active_cong[of "s\<lparr>rf_lock := Some c, rf_posts := rf_posts s @ [t]\<rparr>" s]
      by (auto simp: active_set_caller)
    have "refresh_inv ?s"
      unfolding refresh_inv_def a
      using inv False e nf nobody_posts[OF inv l] by (auto simp: refresh_inv_def split: if_splits)
    then show ?thesis using False by (simp add: take_lock_def)
  qed
qed

lemma post_answer_inv:
  assumes inv: "refresh_inv s" and c: "rf_caller s c = Posting t"
  shows "refresh_inv (post_answer c t answer s)"
proof -
  note d = refresh_invD[OF inv]
  have act: "c \<in> active s" using c by (simp add: active_def)
  have t: "t = rf_env s" "t \<noteq> []" using d(5)[OF c] by auto
  have lock: "rf_lock s = Some c" using d(6)[of c] c by auto
  have alone: "\<not> (\<exists>t. rf_caller s c' = Posting t)" if "c' \<noteq> c" for c'
    using d(6)[of c'] lock that by auto
  have fail: "refresh_inv (return_token c None (s\<lparr>rf_failed := Some t\<rparr>))"
    by (rule return_token_inv[OF inv act]) (use t alone in auto)
  have ok: "refresh_inv (return_token c (Some tok) (s\<lparr>rf_env := tok, rf_failed := None\<rparr>))" if "tok \<noteq> []" for tok
    by (rule return_token_inv[OF inv act]) (use that alone in auto)
  show ?thesis using fail ok by (auto simp: post_answer_def split: option.splits)
qed

lemma refresh_step_inv:
  assumes "refresh_step s s'" "refresh_inv s"
  shows "refresh_inv s'"
  using assms(1)
proof (cases rule: refresh_step.cases)
  case (Start c)
  then show ?thesis using passive_inv[OF assms(2), of c] by (auto simp: start_command_def active_def)
next
  case (Finish c t)
  then show ?thesis using passive_inv[OF assms(2), of c] by (auto simp: active_def)
qed (use enter_refresh_inv take_lock_inv post_answer_inv assms(2) in auto)

lemma refresh_reachable_inv: "refresh_reachable token s \<Longrightarrow> refresh_inv s"
proof (induction rule: refresh_reachable.induct)
  case Init
  then show ?case by (simp add: refresh_inv_def fresh_refresh_def active_def token_of_def)
qed (use refresh_step_inv in blast)

subsection \<open>Properties\<close>



end
