(* ===== verification/Log_Stream.thy ===== *)
theory Log_Stream
  imports Py_Datetime
begin

text \<open>
  Streaming the log of a pod (\<open>_split_log_timestamp\<close> and \<open>KubernetesRuntime._iter_pod_log_lines\<close> of
  \<open>errand/container_runtime.py\<close>): the stream is resumed while the pod is running, each line carries
  its time stamp, and lines at or before the last one delivered are dropped.  The clock, what the
  API delivers and the pod's phase are parameters; a pass is numbered by the resumes before it.
\<close>

definition K8S_LOG_STREAM_MAX_RESUMES :: nat where "K8S_LOG_STREAM_MAX_RESUMES = 100"
definition K8S_LOG_STREAM_RESUME_DELAY :: int where "K8S_LOG_STREAM_RESUME_DELAY = 1"
definition K8S_LOG_STREAM_MAX_RESUME_DELAY :: int where "K8S_LOG_STREAM_MAX_RESUME_DELAY = 30"
definition K8S_LOG_STREAM_MAX_BARREN_RESUMES :: nat where "K8S_LOG_STREAM_MAX_BARREN_RESUMES = 10"
definition K8S_LOG_STREAM_RESUME_PAD_SECONDS :: int where "K8S_LOG_STREAM_RESUME_PAD_SECONDS = 2"

definition LOG_FOLLOW_FAILURE_MARKER :: string where
  "LOG_FOLLOW_FAILURE_MARKER = ''failed to create fsnotify watcher''"

subsection \<open>Time stamps\<close>

text \<open>A zero in the shape stands for a digit.\<close>

fun matches_shape :: "string \<Rightarrow> string \<Rightarrow> bool" where
  "matches_shape [] [] = True"
| "matches_shape (p # ps) (c # s) = ((if p = CHR ''0'' then is_digit c else c = p) \<and> matches_shape ps s)"
| "matches_shape _ _ = False"

definition log_zone :: "string \<Rightarrow> string option" where
  "log_zone tz =
     (if tz = ''Z'' \<or> tz = ''z'' then Some ''+00:00''
      else if matches_shape ''+00:00'' tz \<or> matches_shape ''-00:00'' tz then Some tz
      else if matches_shape ''+0000'' tz \<or> matches_shape ''-0000'' tz then Some (take 3 tz @ '':'' @ drop 3 tz)
      else None)"

definition log_timestamp :: "string \<Rightarrow> time option" where
  "log_timestamp head =
     (let base = take 19 head; r = drop 19 head;
          digits = (if starts_with r ''.'' then takeWhile is_digit (tl r) else []);
          tz = (if digits = [] then r else drop (Suc (length digits)) r)
      in if \<not> matches_shape ''0000-00-00T00:00:00'' base then None
         else case log_zone tz of
             None \<Rightarrow> None
           | Some zone \<Rightarrow> fromisoformat (base @ ''.'' @ take 6 (digits @ replicate 6 CHR ''0'') @ zone))"

definition split_log_timestamp :: "string \<Rightarrow> time option \<times> string" where
  "split_log_timestamp line =
     (case find_char CHR '' '' line of
        None \<Rightarrow> (None, line)
      | Some i \<Rightarrow>
          (case log_timestamp (take i line) of
             None \<Rightarrow> (None, line)
           | Some ts \<Rightarrow> (Some ts, drop (Suc i) line)))"

lemma split_log_timestamp_examples:
  "split_log_timestamp ''1970-01-01T01:00:02.012003586+01:00 a b'' = (Some 2012003, ''a b'')"
  "split_log_timestamp ''plain text'' = (None, ''plain text'')"
  by code_simp+

subsection \<open>One pass over a stream\<close>

record pass =
  p_last :: "time option"
  p_out :: "string list"
  p_follow_failed :: bool

definition stale_stamp :: "time option \<Rightarrow> time option \<Rightarrow> bool" where
  "stale_stamp ts prev = (case (ts, prev) of (Some t, Some l) \<Rightarrow> t \<le> l | _ \<Rightarrow> False)"

definition log_line :: "string \<Rightarrow> pass \<Rightarrow> pass" where
  "log_line line p =
     (let (ts, tx) = split_log_timestamp line in
      if ts = None \<and> contains_str tx LOG_FOLLOW_FAILURE_MARKER then p\<lparr>p_follow_failed := True\<rparr>
      else if stale_stamp ts (p_last p) then p
      else
        (let p1 = (if ts = None then p else p\<lparr>p_last := ts\<rparr>)
         in if tx \<noteq> [] then p1\<lparr>p_out := p_out p1 @ [tx]\<rparr> else p1))"

text \<open>The complete lines of the buffer, and what is left.\<close>

fun complete_lines :: "string \<Rightarrow> string list \<times> string" where
  "complete_lines [] = ([], [])"
| "complete_lines (c # s) =
     (case complete_lines s of (ls, rest) \<Rightarrow>
        if c = newline then ([] # ls, rest)
        else (case ls of [] \<Rightarrow> ([], c # rest) | l # ls' \<Rightarrow> ((c # l) # ls', rest)))"

fun log_chunks :: "string list \<Rightarrow> string \<Rightarrow> pass \<Rightarrow> string \<times> pass" where
  "log_chunks [] buf p = (buf, p)"
| "log_chunks (chunk # chunks) buf p =
     (let (ls, rest) = complete_lines (buf @ chunk) in log_chunks chunks rest (fold log_line ls p))"

subsection \<open>Resuming\<close>

text \<open>What the API delivers in a pass, given \<open>since_seconds\<close>: chunks, and whether the connection
  raised after them (or was refused, with no chunk).\<close>

record log_source =
  ls_clock :: "nat \<Rightarrow> time"
  ls_open :: "nat \<Rightarrow> int option \<Rightarrow> string list \<times> bool"
  ls_terminated :: "nat \<Rightarrow> bool"

datatype stream_outcome = Pod_Terminated | Stream_Not_Following | Resume_Limit_Reached | Raised

definition since_seconds :: "time \<Rightarrow> time option \<Rightarrow> int option" where
  "since_seconds now prev =
     (case prev of
        None \<Rightarrow> None
      | Some l \<Rightarrow> if now - l < 0 then None else Some ((now - l) div 1000000 + K8S_LOG_STREAM_RESUME_PAD_SECONDS))"

definition final_text :: "string \<Rightarrow> time option \<Rightarrow> string list" where
  "final_text buf prev =
     (if strip buf = [] then []
      else (let (ts, tx) = split_log_timestamp (strip buf)
            in if tx \<noteq> [] \<and> \<not> stale_stamp ts prev then [tx] else []))"

definition resume_delay :: "nat \<Rightarrow> int" where
  "resume_delay barren = min (K8S_LOG_STREAM_RESUME_DELAY * 2 ^ barren) K8S_LOG_STREAM_MAX_RESUME_DELAY"

text \<open>The lines delivered, why the iteration stopped and the delays it slept.\<close>

function iter_pod_log_lines ::
    "log_source \<Rightarrow> nat \<Rightarrow> nat \<Rightarrow> time option \<Rightarrow> string list \<times> stream_outcome \<times> int list" where
  "iter_pod_log_lines src resumes barren prev =
     (let (chunks, broken) = ls_open src resumes (since_seconds (ls_clock src resumes) prev);
          (buf, p) = log_chunks chunks [] \<lparr>p_last = prev, p_out = [], p_follow_failed = False\<rparr>;
          marked = contains_str buf LOG_FOLLOW_FAILURE_MARKER
      in if broken then (p_out p, Raised, [])
         else if ls_terminated src resumes then
           (p_out p @ final_text (if marked then [] else buf) (p_last p), Pod_Terminated, [])
         else
           (let barren' = (if p_out p \<noteq> [] then 0 else Suc barren)
            in if barren' > K8S_LOG_STREAM_MAX_BARREN_RESUMES then (p_out p, Stream_Not_Following, [])
               else if Suc resumes > K8S_LOG_STREAM_MAX_RESUMES then (p_out p, Resume_Limit_Reached, [])
               else
                 (case iter_pod_log_lines src (Suc resumes) barren' (p_last p) of (out, reason, delays) \<Rightarrow>
                    (p_out p @ out, reason, resume_delay barren' # delays))))"
  by pat_completeness auto
termination
  by (relation "measure (\<lambda>(src, resumes, barren, prev). Suc K8S_LOG_STREAM_MAX_RESUMES - resumes)") auto

declare iter_pod_log_lines.simps [simp del]

subsection \<open>Chunks and lines\<close>

lemma complete_lines_append:
  "complete_lines (a @ b) =
     (fst (complete_lines a) @ fst (complete_lines (snd (complete_lines a) @ b)),
      snd (complete_lines (snd (complete_lines a) @ b)))"
proof (induction a)
  case (Cons c a)
  then show ?case
    by (cases "fst (complete_lines a)")
      (auto simp: case_prod_beta prod_eq_iff split: list.splits)
qed simp

lemma complete_lines_open: "newline \<notin> set s \<Longrightarrow> complete_lines s = ([], s)"
  by (induction s) auto

lemma complete_lines_rest: "newline \<notin> set (snd (complete_lines s))"
  by (induction s) (auto simp: case_prod_beta split: list.splits)

lemma log_chunks_concat:
  "newline \<notin> set buf \<Longrightarrow> log_chunks chunks buf p =
     (snd (complete_lines (buf @ concat chunks)), fold log_line (fst (complete_lines (buf @ concat chunks))) p)"
proof (induction chunks arbitrary: buf p)
  case (Cons chunk chunks)
  show ?case
    using Cons.IH[OF complete_lines_rest, of "buf @ chunk" "fold log_line (fst (complete_lines (buf @ chunk))) p"]
      complete_lines_append[of "buf @ chunk" "concat chunks"]
    by (simp add: case_prod_beta)
qed (simp add: complete_lines_open)

lemma complete_lines_lines:
  "list_all (\<lambda>l. newline \<notin> set l) ls \<Longrightarrow> newline \<notin> set r \<Longrightarrow>
     complete_lines (concat (map (\<lambda>l. l @ [newline]) ls) @ r) = (ls, r)"
proof (induction ls)
  case (Cons l ls)
  have "complete_lines (l @ newline # t) = (l # fst (complete_lines t), snd (complete_lines t))"
    if "newline \<notin> set l" for l t
    using that by (induction l) (auto simp: case_prod_beta)
  with Cons show ?case by simp
qed (simp add: complete_lines_open)

subsection \<open>A log with increasing stamps\<close>

type_synonym log_entries = "(time \<times> string) list"

definition rendered :: "(time \<Rightarrow> string) \<Rightarrow> time \<times> string \<Rightarrow> string" where
  "rendered stamp l = stamp (fst l) @ '' '' @ snd l"

definition log_ok :: "(time \<Rightarrow> string) \<Rightarrow> log_entries \<Rightarrow> bool" where
  "log_ok stamp entries \<longleftrightarrow> sorted_wrt (\<lambda>a b. fst a < fst b) entries \<and>
     list_all (\<lambda>l. snd l \<noteq> [] \<and> newline \<notin> set (rendered stamp l) \<and>
       split_log_timestamp (rendered stamp l) = (Some (fst l), snd l)) entries"

definition anchor :: "log_entries \<Rightarrow> nat \<Rightarrow> time option" where
  "anchor entries k = (if k = 0 then None else Some (fst (entries ! (k - 1))))"

text \<open>What the kubelet promises for a pass: complete lines of the log from some entry on, and a
  part of a line; only entries older than the window are left out, the server's clock being at most
  a second ahead; when the pod has ended and the connection held, the log is there to its end.\<close>

definition delivers :: "log_source \<Rightarrow> (time \<Rightarrow> string) \<Rightarrow> log_entries \<Rightarrow> nat \<Rightarrow> int option \<Rightarrow> bool" where
  "delivers src stamp entries i since \<longleftrightarrow>
     (\<exists>j n part. concat (fst (ls_open src i since)) =
          concat (map (\<lambda>l. rendered stamp l @ [newline]) (take n (drop j entries))) @ part \<and>
        newline \<notin> set part \<and> j \<le> length entries \<and>
        (case since of
           None \<Rightarrow> j = 0
         | Some s \<Rightarrow> \<exists>server \<le> ls_clock src i + seconds 1. \<forall>l \<in> set (take j entries). fst l < server - seconds s) \<and>
        (ls_terminated src i \<and> \<not> snd (ls_open src i since) \<longrightarrow> part = [] \<and> length entries \<le> j + n))"

lemma log_line_known:
  assumes "split_log_timestamp line = (Some t, s)" "p_last p = Some l" "t \<le> l"
  shows "log_line line p = p"
  using assms by (simp add: log_line_def stale_stamp_def)

lemma log_line_new:
  assumes "split_log_timestamp line = (Some t, s)" "s \<noteq> []" "case p_last p of None \<Rightarrow> True | Some l \<Rightarrow> l < t"
  shows "log_line line p = p\<lparr>p_last := Some t, p_out := p_out p @ [s]\<rparr>"
  using assms by (auto simp: log_line_def stale_stamp_def split: option.splits)

lemma log_ok_nth:
  assumes "log_ok stamp entries" "i < length entries"
  shows "snd (entries ! i) \<noteq> []" "newline \<notin> set (rendered stamp (entries ! i))"
    "split_log_timestamp (rendered stamp (entries ! i)) = (Some (fst (entries ! i)), snd (entries ! i))"
    "i' < i \<Longrightarrow> fst (entries ! i') < fst (entries ! i)"
  using assms by (auto simp: log_ok_def list_all_length sorted_wrt_iff_nth_less)

text \<open>Reading entries \<open>j\<close> to \<open>m\<close> when \<open>k\<close> have been delivered.\<close>

lemma fold_log_lines:
  assumes "log_ok stamp entries" "j \<le> k" "j \<le> m" "m \<le> length entries" "k \<le> length entries"
  shows "fold log_line (map (rendered stamp) (drop j (take m entries))) \<lparr>p_last = anchor entries k, p_out = out, p_follow_failed = b\<rparr> =
    \<lparr>p_last = anchor entries (max k m), p_out = out @ map snd (drop k (take m entries)), p_follow_failed = b\<rparr>"
  using assms(3,4)
proof (induction m)
  case (Suc m)
  show ?case
  proof (cases "j = Suc m")
    case True
    then show ?thesis using assms(2) by (simp add: max_absorb1)
  next
    case False
    then have j: "j \<le> m" "m < length entries" using Suc.prems by auto
    have e: "drop i (take (Suc m) entries) = (if i \<le> m then drop i (take m entries) @ [entries ! m] else [])" for i
      using j(2) by (simp add: take_Suc_conv_app_nth)
    note IH = Suc.IH[OF j(1)] note n = log_ok_nth[OF assms(1) j(2)]
    show ?thesis
    proof (cases "k \<le> m")
      case True
      have "case anchor entries m of None \<Rightarrow> True | Some l \<Rightarrow> l < fst (entries ! m)"
        using n(4)[of "m - 1"] by (simp add: anchor_def)
      then show ?thesis
        using IH j True log_line_new[OF n(3,1)] unfolding e by (simp add: max_absorb2 anchor_def)
    next
      case False
      have "fst (entries ! m) \<le> fst (entries ! (k - 1))"
      proof (cases "m = k - 1")
        case neq: False
        with False assms(5) have "m < k - 1" "k - 1 < length entries" by auto
        then show ?thesis using log_ok_nth(4)[OF assms(1), of "k - 1" m] by simp
      qed simp
      then show ?thesis
        using IH j False log_line_known[OF n(3)] unfolding e by (simp add: max_absorb1 anchor_def)
    qed
  qed
qed (use assms(2) in \<open>simp add: max_absorb1\<close>)

text \<open>The pad of the window is enough: an entry left out had been delivered.\<close>

lemma window_covers:
  assumes "log_ok stamp entries" "k \<le> length entries" "j \<le> length entries"
    and "since_seconds now (anchor entries k) = Some s" "server \<le> now + seconds 1"
    and "\<forall>l \<in> set (take j entries). fst l < server - seconds s"
  shows "j \<le> k"
proof (rule ccontr)
  assume "\<not> j \<le> k"
  from assms(4) obtain l where l: "anchor entries k = Some l" "0 \<le> now - l"
      "s = (now - l) div 1000000 + 2"
    by (auto simp: since_seconds_def K8S_LOG_STREAM_RESUME_PAD_SECONDS_def split: option.splits if_splits)
  then have k: "0 < k" "l = fst (entries ! (k - 1))" by (auto simp: anchor_def split: if_splits)
  have "entries ! (k - 1) \<in> set (take j entries)"
    using \<open>\<not> j \<le> k\<close> assms(3) k(1) by (metis (no_types, lifting) in_set_conv_nth length_take less_imp_diff_less
        min_absorb2 not_le nth_take)
  then have "l < server - seconds s" using assms(6) k(2) by blast
  moreover have "(now - l) mod 1000000 < 1000000" by simp
  then have "now - l < ((now - l) div 1000000 + 1) * 1000000"
    using div_mult_mod_eq[of "now - l" 1000000] unfolding distrib_right mult_1 by linarith
  ultimately show False using assms(5) l(3) by (simp add: seconds_def)
qed

lemma delivered_pass:
  assumes "log_ok stamp entries" "k \<le> length entries"
    and "delivers src stamp entries i (since_seconds (ls_clock src i) (anchor entries k))"
    and "log_chunks (fst (ls_open src i (since_seconds (ls_clock src i) (anchor entries k)))) []
      \<lparr>p_last = anchor entries k, p_out = [], p_follow_failed = False\<rparr> = (buf, p)"
  shows "\<exists>m. k \<le> m \<and> m \<le> length entries \<and> p_last p = anchor entries m \<and>
      p_out p = map snd (drop k (take m entries)) \<and>
      (if ls_terminated src i \<and> \<not> snd (ls_open src i (since_seconds (ls_clock src i) (anchor entries k)))
       then buf = [] \<and> m = length entries else True)"
proof -
  let ?since = "since_seconds (ls_clock src i) (anchor entries k)"
  obtain j n part where d: "concat (fst (ls_open src i ?since)) =
        concat (map (\<lambda>l. rendered stamp l @ [newline]) (take n (drop j entries))) @ part"
      "newline \<notin> set part" "j \<le> length entries"
      "case ?since of None \<Rightarrow> j = 0
         | Some s \<Rightarrow> \<exists>server \<le> ls_clock src i + seconds 1. \<forall>l \<in> set (take j entries). fst l < server - seconds s"
      "ls_terminated src i \<and> \<not> snd (ls_open src i ?since) \<longrightarrow> part = [] \<and> length entries \<le> j + n"
    using assms(3) unfolding delivers_def by blast
  have j: "j \<le> k" using d(4) window_covers[OF assms(1,2) d(3)] by (cases ?since) auto
  define m where "m = min (j + n) (length entries)"
  have tk: "take n (drop j entries) = drop j (take m entries)"
    by (cases "j + n \<le> length entries") (simp_all add: m_def take_drop add.commute)
  have m: "j \<le> m" "m \<le> length entries" using d(3) by (auto simp: m_def)
  have "list_all (\<lambda>l. newline \<notin> set l) (map (rendered stamp) (drop j (take m entries)))"
    using assms(1) by (auto simp: log_ok_def list_all_iff dest!: in_set_dropD in_set_takeD)
  from complete_lines_lines[OF this d(2)]
  have "complete_lines (concat (fst (ls_open src i ?since))) = (map (rendered stamp) (drop j (take m entries)), part)"
    using d(1) unfolding tk by (simp add: comp_def)
  with assms(4) log_chunks_concat[of "[]"]
  have p: "buf = part" "p = fold log_line (map (rendered stamp) (drop j (take m entries)))
      \<lparr>p_last = anchor entries k, p_out = [], p_follow_failed = False\<rparr>" by auto
  note f = fold_log_lines[OF assms(1) j m assms(2), of "[]" False]
  show ?thesis
    by (rule exI[of _ "max k m"])
      (use f p m d(5) assms(2) in \<open>auto simp: max_def m_def\<close>)
qed

lemma iter_pod_log_lines_covers:
  assumes "log_ok stamp entries" "\<And>i since. delivers src stamp entries i since"
    and "k \<le> length entries" "iter_pod_log_lines src resumes barren (anchor entries k) = (out, reason, delays)"
  shows "\<exists>m. k \<le> m \<and> m \<le> length entries \<and> out = map snd (drop k (take m entries)) \<and>
    (if reason = Pod_Terminated then m = length entries else True)"
  using assms(3,4)
proof (induction "Suc K8S_LOG_STREAM_MAX_RESUMES - resumes" arbitrary: resumes barren k out delays rule: less_induct)
  case less
  let ?since = "since_seconds (ls_clock src resumes) (anchor entries k)"
  obtain chunks broken where o: "ls_open src resumes ?since = (chunks, broken)" by fastforce
  obtain buf p where b: "log_chunks chunks [] \<lparr>p_last = anchor entries k, p_out = [], p_follow_failed = False\<rparr> = (buf, p)"
    by fastforce
  obtain m where m: "k \<le> m" "m \<le> length entries" "p_last p = anchor entries m"
      "p_out p = map snd (drop k (take m entries))"
      "if ls_terminated src resumes \<and> \<not> broken then buf = [] \<and> m = length entries else True"
    using delivered_pass[OF assms(1) less.prems(1) assms(2), of resumes buf p] o b by auto
  let ?barren = "if p_out p \<noteq> [] then 0 else Suc barren"
  note step = less.prems(2)[unfolded iter_pod_log_lines.simps[of src resumes barren] o b Let_def prod.case]
  consider (stop) "out = p_out p" "reason \<noteq> Pod_Terminated"
    | (ended) "out = p_out p @ final_text [] (p_last p)" "m = length entries"
    | (resume) out' delays' where "iter_pod_log_lines src (Suc resumes) ?barren (p_last p) = (out', reason, delays')"
        "out = p_out p @ out'" "Suc resumes \<le> K8S_LOG_STREAM_MAX_RESUMES"
    using step m(5)
    by (cases "iter_pod_log_lines src (Suc resumes) ?barren (p_last p)")
      (auto split: if_splits simp: contains_str_def LOG_FOLLOW_FAILURE_MARKER_def)
  then show ?case
  proof cases
    case stop
    then show ?thesis using m by auto
  next
    case ended
    then show ?thesis using m by (intro exI[of _ m]) (simp add: final_text_def strip_def lstrip_def rstrip_def)
  next
    case resume
    have "Suc K8S_LOG_STREAM_MAX_RESUMES - Suc resumes < Suc K8S_LOG_STREAM_MAX_RESUMES - resumes"
      using resume(3) by simp
    from less.hyps[OF this m(2)] resume(1)[unfolded m(3)]
    obtain m' where m': "m \<le> m'" "m' \<le> length entries" "out' = map snd (drop m (take m' entries))"
        "if reason = Pod_Terminated then m' = length entries else True" by blast
    have "drop k (take m entries) @ drop m (take m' entries) = drop k (take m' entries)"
    proof -
      have "take m' entries = take m entries @ drop m (take m' entries)"
        using m'(1) append_take_drop_id[of m "take m' entries"] by (simp add: min_absorb1)
      then have "drop k (take m' entries) = drop k (take m entries @ drop m (take m' entries))" by simp
      then show ?thesis using m(1,2) by simp
    qed
    then show ?thesis using m m' resume(2) by (intro exI[of _ m']) (auto simp flip: map_append)
  qed
qed

lemma iter_pod_log_lines_delays:
  "iter_pod_log_lines src resumes barren prev = (out, reason, delays) \<Longrightarrow> resumes \<le> K8S_LOG_STREAM_MAX_RESUMES \<Longrightarrow>
     length delays + resumes \<le> K8S_LOG_STREAM_MAX_RESUMES \<and> list_all (\<lambda>d. 1 \<le> d \<and> d \<le> 30) delays \<and>
     (if reason = Resume_Limit_Reached then length delays + resumes = K8S_LOG_STREAM_MAX_RESUMES else True)"
proof (induction src resumes barren prev arbitrary: out delays rule: iter_pod_log_lines.induct)
  case (1 src resumes barren prev)
  obtain chunks broken where o: "ls_open src resumes (since_seconds (ls_clock src resumes) prev) = (chunks, broken)"
    by fastforce
  obtain buf p where b: "log_chunks chunks [] \<lparr>p_last = prev, p_out = [], p_follow_failed = False\<rparr> = (buf, p)"
    by fastforce
  let ?barren = "if p_out p \<noteq> [] then 0 else Suc barren"
  have d: "1 \<le> resume_delay n \<and> resume_delay n \<le> 30" for n
    by (simp add: resume_delay_def K8S_LOG_STREAM_RESUME_DELAY_def K8S_LOG_STREAM_MAX_RESUME_DELAY_def)
  note step = "1.prems"(1)[unfolded iter_pod_log_lines.simps[of src resumes barren] o b Let_def prod.case]
  consider (stop) "delays = []" "reason \<noteq> Resume_Limit_Reached"
    | (limit) "delays = []" "K8S_LOG_STREAM_MAX_RESUMES \<le> resumes"
    | (resume) out' delays' where "iter_pod_log_lines src (Suc resumes) ?barren (p_last p) = (out', reason, delays')"
        "delays = resume_delay ?barren # delays'" "Suc resumes \<le> K8S_LOG_STREAM_MAX_RESUMES"
        "\<not> broken" "\<not> ls_terminated src resumes" "\<not> ?barren > K8S_LOG_STREAM_MAX_BARREN_RESUMES"
    using step
    by (cases "iter_pod_log_lines src (Suc resumes) ?barren (p_last p)") (auto split: if_splits)
  then show ?case
  proof cases
    case resume
    from "1.IH"[OF o[symmetric] refl b[symmetric] refl refl resume(4,5) refl resume(6) _ resume(1,3)] resume(2,3) d
    show ?thesis by auto
  qed (use "1.prems"(2) in auto)
qed

subsection \<open>Properties\<close>


definition two_entries :: log_entries where
  "two_entries = [(0, ''a''), (seconds 1, ''b'')]"

definition two_stamps :: "time \<Rightarrow> string" where
  "two_stamps t = (if t = 0 then ''1970-01-01T00:00:00Z'' else ''1970-01-01T00:00:01Z'')"

text \<open>The first stream breaks off in the second line, the second one delivers the whole log.\<close>

definition broken_source :: log_source where
  "broken_source = \<lparr>ls_clock = (\<lambda>_. seconds 5),
     ls_open = (\<lambda>i _. ([concat (map (\<lambda>l. rendered two_stamps l @ [newline]) (take (Suc i) two_entries)) @
        (if i = 0 then ''1970-01-01T'' else [])], False)),
     ls_terminated = (\<lambda>i. i \<noteq> 0)\<rparr>"


text \<open>Two lines written within one microsecond: the second is taken for a line read again.\<close>

definition same_instant_source :: log_source where
  "same_instant_source = \<lparr>ls_clock = (\<lambda>_. 0),
     ls_open = (\<lambda>_ _. ([''1970-01-01T00:00:00.000000100Z a'' @ [newline] @
       ''1970-01-01T00:00:00.000000200Z b'' @ [newline]], False)), ls_terminated = (\<lambda>_. True)\<rparr>"

theorem same_microsecond_line_dropped:
  "iter_pod_log_lines same_instant_source 0 0 None = ([''a''], Pod_Terminated, [])"
proof -
  have "log_chunks (fst (ls_open same_instant_source 0 None)) []
      \<lparr>p_last = None, p_out = [], p_follow_failed = False\<rparr> =
    ([], \<lparr>p_last = Some 0, p_out = [''a''], p_follow_failed = False\<rparr>)" by code_simp
  then show ?thesis
    by (subst iter_pod_log_lines.simps)
      (simp add: same_instant_source_def since_seconds_def contains_str_def LOG_FOLLOW_FAILURE_MARKER_def
        final_text_def strip_def lstrip_def rstrip_def)
qed

text \<open>Streaming ends: the pod is asked again at most a hundred times, with one to thirty seconds
  between two streams, and the resume limit is named as the reason only after all hundred.\<close>

theorem log_stream_bounded:
  "case iter_pod_log_lines src 0 0 None of (out, reason, delays) \<Rightarrow>
     length delays \<le> 100 \<and> list_all (\<lambda>d. 1 \<le> d \<and> d \<le> 30) delays \<and>
     (if reason = Resume_Limit_Reached then length delays = 100 else True)"
  using iter_pod_log_lines_delays[of src 0 0 None]
  by (auto simp: K8S_LOG_STREAM_MAX_RESUMES_def split: prod.splits if_splits)

end
