(* ===== verification/Cache_Reconcile.thy ===== *)
theory Cache_Reconcile
  imports Py_Json_Dumps Py_Datetime
begin

text \<open>
  The start-up reconcile of the workspace gateway (\<open>workspace-gateway/cache_reconcile.py\<close>): which
  dirty entries of the rclone cache are cleared, repaired, quarantined or left alone.  The cache is
  three maps from relative paths, the metadata (decoded, \<open>None\<close> when unreadable or no JSON), the data
  files and the quarantine; what the operating system refuses and what \<open>rclone lsjson\<close> prints are
  parameters.  Two paths of the quarantine collide only when they are equal.
\<close>

subsection \<open>Fingerprints\<close>

definition parse_fingerprint :: "json \<Rightarrow> int option \<times> string option \<times> string option" where
  "parse_fingerprint fp =
     (case fp of
        JStr s \<Rightarrow>
          if s = [] then (None, None, None)
          else
            (let parts = split_char CHR '','' s in
             (int_str (parts ! 0), if 1 < length parts then Some (parts ! 1) else None,
              if 2 < length parts then Some (parts ! 2) else None))
      | _ \<Rightarrow> (None, None, None))"

text \<open>\<open>strptime\<close>: a field of one or two digits, white space, a fraction of up to six digits and an
  offset (without seconds).\<close>

definition num_field :: "int \<Rightarrow> int \<Rightarrow> string \<Rightarrow> (int \<times> string) option" where
  "num_field lo hi s =
     (if length (take 2 s) = 2 \<and> list_all is_digit (take 2 s) \<and> lo \<le> digits_val (take 2 s) \<and> digits_val (take 2 s) \<le> hi
      then Some (digits_val (take 2 s), drop 2 s)
      else if s \<noteq> [] \<and> is_digit (hd s) \<and> lo \<le> digit_val (hd s) then Some (digit_val (hd s), tl s)
      else None)"

definition day_field :: "string \<Rightarrow> (int \<times> string) option" where
  "day_field s = (if starts_with s '' '' \<and> list_all is_digit (take 1 (tl s)) then num_field 1 9 (tl s) else num_field 1 31 s)"

definition some_space :: "string \<Rightarrow> string option" where
  "some_space s = (if s \<noteq> [] \<and> is_space (hd s) then Some (dropWhile is_space s) else None)"

definition strptime_fraction :: "string \<Rightarrow> (int \<times> string) option" where
  "strptime_fraction s =
     (case expect CHR ''.'' s of
        None \<Rightarrow> None
      | Some r \<Rightarrow>
          (let ds = takeWhile is_digit (take 6 r) in
           if ds = [] then None else Some (fraction_micros ds, drop (length ds) r)))"

definition strptime_zone :: "string \<Rightarrow> int option" where
  "strptime_zone s =
     (if s = ''Z'' then Some 0
      else case s of
        c # r \<Rightarrow>
          if c = CHR ''+'' \<or> c = CHR ''-'' then
            (case take_digits 2 r of
               None \<Rightarrow> None
             | Some (h, r1) \<Rightarrow>
                 (case take_digits 2 (if starts_with r1 '':'' then tl r1 else r1) of
                    Some (m, []) \<Rightarrow>
                      if m \<le> 59 \<and> h \<le> 23 then Some ((if c = CHR ''+'' then 1 else - 1) * (hours h + minutes m)) else None
                  | _ \<Rightarrow> None))
          else None
      | [] \<Rightarrow> None)"

text \<open>\<open>%Y-%m-%d %H:%M:%S\<close>, with or without \<open>.%f\<close> and \<open>%z\<close>.\<close>

definition strptime :: "bool \<Rightarrow> bool \<Rightarrow> string \<Rightarrow> time option" where
  "strptime with_fraction with_zone s =
     Option.bind (take_digits 4 s) (\<lambda>(y, s). Option.bind (expect CHR ''-'' s) (\<lambda>s.
     Option.bind (num_field 1 12 s) (\<lambda>(m, s). Option.bind (expect CHR ''-'' s) (\<lambda>s.
     Option.bind (day_field s) (\<lambda>(d, s). Option.bind (some_space s) (\<lambda>s.
     Option.bind (num_field 0 23 s) (\<lambda>(h, s). Option.bind (expect CHR '':'' s) (\<lambda>s.
     Option.bind (num_field 0 59 s) (\<lambda>(mi, s). Option.bind (expect CHR '':'' s) (\<lambda>s.
     Option.bind (num_field 0 61 s) (\<lambda>(sec, s).
     Option.bind (if with_fraction then strptime_fraction s else Some (0, s)) (\<lambda>(us, s).
     Option.bind (if with_zone then Option.bind (some_space s) strptime_zone
         else if s = [] then Some 0 else None) (\<lambda>off.
       if 1 \<le> y \<and> d \<le> days_in_month y m \<and> sec \<le> 59
       then Some (days (days_from_civil y m d) + hours h + minutes mi + seconds sec + us - off)
       else None)))))))))))))"

fun first_time :: "time option list \<Rightarrow> time option" where
  "first_time [] = None"
| "first_time (x # xs) = (case x of None \<Rightarrow> first_time xs | Some t \<Rightarrow> Some t)"

definition parse_time :: "json \<Rightarrow> time option" where
  "parse_time j =
     (case j of
        JStr s0 \<Rightarrow>
          (let s = strip s0;
               cleaned = strip (replace_str '' m='' '' '' (replace_str '' UTC'' [] s))
           in if s = [] then None
              else first_time [fromisoformat (replace_str ''Z'' ''+00:00'' s), strptime True True cleaned,
                strptime False True cleaned, strptime True False cleaned, strptime False False cleaned])
      | _ \<Rightarrow> None)"

lemma parse_time_examples:
  "parse_time (JStr ''2026-07-26T19:55:59Z'') = parse_time (JStr ''2026-07-26 20:55:59 +0100 UTC'')"
  "parse_time (JStr ''2026-07-26 19:55:59.159 +0000 UTC m=+0.01'') = None"
  by code_simp+

text \<open>The size of the remote is an integer; a float would never match.\<close>

definition same_size :: "int \<Rightarrow> json \<Rightarrow> bool" where
  "same_size n j = (case j of JInt k \<Rightarrow> k = n | JBool b \<Rightarrow> n = (if b then 1 else 0) | _ \<Rightarrow> False)"

definition remote_hashes :: "json \<Rightarrow> py_error + string list" where
  "remote_hashes remote =
     (let h = json_get_or_null remote ''Hashes'' in
      if \<not> json_truthy h then Inr []
      else case h of JObj d \<Rightarrow> Inr (map (\<lambda>(_, v). py_lower (py_str v)) (fold (\<lambda>(k, v). dict_set (py_lower k) v) d []))
        | _ \<Rightarrow> Inl (AttributeErr ''items''))"

definition fingerprint_matches :: "json \<Rightarrow> json \<Rightarrow> py_error + bool" where
  "fingerprint_matches fp remote =
     (if \<not> json_truthy remote then Inr False
      else case parse_fingerprint fp of
        (None, _, _) \<Rightarrow> Inr False
      | (Some recorded, modtime, hashval) \<Rightarrow>
          if \<not> same_size recorded (json_get_or_null remote ''Size'') then Inr False
          else bind_res (remote_hashes remote) (\<lambda>hashes.
            if truthy hashval \<and> py_lower (the hashval) \<in> set hashes then Inr True
            else if truthy hashval \<and> hashes \<noteq> [] then Inr False
            else
              (case (parse_time (case modtime of None \<Rightarrow> JNull | Some t \<Rightarrow> JStr t),
                     parse_time (json_get_or_null remote ''ModTime'')) of
                 (Some a, Some b) \<Rightarrow> Inr (\<bar>a - b\<bar> \<le> 1000000)
               | _ \<Rightarrow> Inr False)))"

subsection \<open>The remote probe\<close>

datatype lookup_result = Found json | Absent | Unverifiable

record probe =
  pr_index :: "(string \<times> json) list option"
  pr_failed :: bool
  pr_depth :: "nat option"

definition new_probe :: probe where
  "new_probe = \<lparr>pr_index = None, pr_failed = False, pr_depth = None\<rparr>"

fun index_items :: "json list \<Rightarrow> (string \<times> json) list \<Rightarrow> (string \<times> json) list option" where
  "index_items [] idx = Some idx"
| "index_items (item # items) idx =
     (case item of
        JObj d \<Rightarrow>
          (let path = json_get_or_null item ''Path'' in
           if \<not> json_truthy path then index_items items idx
           else (case path of JStr p \<Rightarrow> index_items items (dict_set p item idx) | _ \<Rightarrow> None))
      | _ \<Rightarrow> index_items items idx)"

text \<open>One \<open>lsjson\<close> run that ended with code 0; \<open>None\<close> when its output cannot be used.\<close>

definition index_of_listing :: "string \<Rightarrow> (string \<times> json) list option" where
  "index_of_listing stdout =
     (case json_loads (if stdout = [] then ''[]'' else stdout) of
        Some (JArr xs) \<Rightarrow> index_items xs []
      | Some (JObj d) \<Rightarrow> Some []
      | Some (JStr s) \<Rightarrow> Some []
      | _ \<Rightarrow> None)"

definition PROBE_ATTEMPTS :: nat where "PROBE_ATTEMPTS = 2"

fun first_listing :: "string option list \<Rightarrow> (string \<times> json) list option" where
  "first_listing [] = None"
| "first_listing (r # rs) =
     (case Option.bind r index_of_listing of None \<Rightarrow> first_listing rs | Some idx \<Rightarrow> Some idx)"

definition load_index :: "string option list \<Rightarrow> probe \<Rightarrow> bool \<times> probe" where
  "load_index runs p =
     (if pr_index p \<noteq> None then (True, p)
      else if pr_failed p then (False, p)
      else (case first_listing (take PROBE_ATTEMPTS runs) of
          Some idx \<Rightarrow> (True, p\<lparr>pr_index := Some idx\<rparr>)
        | None \<Rightarrow> (False, p\<lparr>pr_failed := True\<rparr>)))"

definition suffix_path :: "string list \<Rightarrow> nat \<Rightarrow> string" where
  "suffix_path parts k = join ''/'' (drop k parts)"

definition probe_lookup :: "string option list \<Rightarrow> string \<Rightarrow> probe \<Rightarrow> lookup_result \<times> probe" where
  "probe_lookup runs cache_path p0 =
     (case load_index runs p0 of
        (False, p) \<Rightarrow> (Unverifiable, p)
      | (True, p) \<Rightarrow>
          (let idx = the (pr_index p); parts = split_char CHR ''/'' cache_path in
           case pr_depth p of
             Some k \<Rightarrow>
               (if k \<ge> length parts then (Absent, p)
                else case dict_get idx (suffix_path parts k) of None \<Rightarrow> (Absent, p) | Some item \<Rightarrow> (Found item, p))
           | None \<Rightarrow>
               (case find (\<lambda>k. dict_get idx (suffix_path parts k) \<noteq> None) [1..<length parts] of
                  None \<Rightarrow> (Absent, p)
                | Some k \<Rightarrow> (Found (the (dict_get idx (suffix_path parts k))), p\<lparr>pr_depth := Some k\<rparr>))))"

subsection \<open>The cache\<close>

datatype kept = Data string | Meta "(string \<times> json) list"

record cache =
  c_meta :: "(string \<times> json option) list"
  c_data :: "(string \<times> string) list"
  c_quarantine :: "(string \<times> kept) list"

record cache_faults =
  ft_list :: bool                       \<comment> \<open>a directory cannot be listed\<close>
  ft_stat :: "string \<Rightarrow> bool"            \<comment> \<open>the data file cannot be examined\<close>
  ft_remove_data :: "string \<Rightarrow> bool"
  ft_remove_meta :: "string \<Rightarrow> bool"
  ft_move_data :: "string \<Rightarrow> bool"
  ft_move_meta :: "string \<Rightarrow> bool"
  ft_repair :: "string \<Rightarrow> bool"

record dirty_entry =
  e_path :: string
  e_meta :: "(string \<times> json) list"
  e_has_data :: bool
  e_size :: "int option"

definition meta_field :: "(string \<times> json) list \<Rightarrow> string \<Rightarrow> json" where
  "meta_field d k = (case dict_get d k of None \<Rightarrow> JNull | Some v \<Rightarrow> v)"

definition is_dirty :: "(string \<times> json) list \<Rightarrow> bool" where
  "is_dirty d = json_truthy (meta_field d ''Dirty'')"

definition stat_data_file :: "cache_faults \<Rightarrow> cache \<Rightarrow> string \<Rightarrow> bool \<times> int option" where
  "stat_data_file ft c p =
     (if ft_stat ft p then (True, None)
      else case dict_get (c_data c) p of None \<Rightarrow> (False, None) | Some s \<Rightarrow> (True, Some (int (length s))))"

definition is_orphaned :: "dirty_entry \<Rightarrow> bool" where "is_orphaned e = (\<not> e_has_data e)"

definition is_inconsistent :: "dirty_entry \<Rightarrow> bool" where
  "is_inconsistent e =
     (if \<not> e_has_data e \<or> e_size e = None \<or> e_size e = Some 0 then False
      else \<not> json_truthy (meta_field (e_meta e) ''Size'') \<and> \<not> json_truthy (meta_field (e_meta e) ''Rs''))"

definition dirty_entry_at :: "cache_faults \<Rightarrow> cache \<Rightarrow> string \<times> json option \<Rightarrow> dirty_entry list" where
  "dirty_entry_at ft c f =
     (case f of
        (p, Some (JObj d)) \<Rightarrow>
          if is_dirty d then
            (case stat_data_file ft c p of (present, n) \<Rightarrow> [\<lparr>e_path = p, e_meta = d, e_has_data = present, e_size = n\<rparr>])
          else []
      | _ \<Rightarrow> [])"

definition iter_dirty_entries :: "cache_faults \<Rightarrow> cache \<Rightarrow> py_error + dirty_entry list" where
  "iter_dirty_entries ft c =
     (if ft_list ft then Inl (OsErr ''cannot list'') else Inr (concat (map (dirty_entry_at ft c) (c_meta c))))"

subsection \<open>The three dispositions\<close>

definition repair_metadata :: "dirty_entry \<Rightarrow> cache \<Rightarrow> cache" where
  "repair_metadata e c =
     (let n = (case e_size e of None \<Rightarrow> JNull | Some k \<Rightarrow> JInt k);
          repaired = dict_set ''Rs'' (JArr [JObj [(''Pos'', JInt 0), (''Size'', n)]]) (dict_set ''Size'' n (e_meta e))
      in c\<lparr>c_meta := dict_set (e_path e) (Some (JObj repaired)) (c_meta c)\<rparr>)"

definition numbered :: "string \<Rightarrow> nat \<Rightarrow> string" where
  "numbered base n = base @ ''.'' @ show_nat (int n)"

text \<open>The first free name; one of the first \<open>length taken + 1\<close> numbers is free.\<close>

definition quarantine_destination :: "string list \<Rightarrow> string \<Rightarrow> string" where
  "quarantine_destination taken base =
     (if base \<notin> set taken then base
      else case find (\<lambda>n. numbered base n \<notin> set taken) [1..<length taken + 2] of
          None \<Rightarrow> base
        | Some n \<Rightarrow> numbered base n)"

definition quarantine_put :: "string \<Rightarrow> kept \<Rightarrow> (string \<times> kept) list \<Rightarrow> (string \<times> kept) list" where
  "quarantine_put base k q = dict_set (quarantine_destination (map fst q) base) k q"

definition move_data :: "cache_faults \<Rightarrow> string \<Rightarrow> cache \<Rightarrow> cache" where
  "move_data ft p c =
     (case dict_get (c_data c) p of
        None \<Rightarrow> c
      | Some s \<Rightarrow>
          if ft_move_data ft p then c
          else c\<lparr>c_data := dict_del p (c_data c), c_quarantine := quarantine_put (''vfs/'' @ p) (Data s) (c_quarantine c)\<rparr>)"

definition move_meta :: "cache_faults \<Rightarrow> string \<Rightarrow> (string \<times> json) list \<Rightarrow> cache \<Rightarrow> cache" where
  "move_meta ft p d c =
     (if dict_get (c_meta c) p = None \<or> ft_move_meta ft p then c
      else c\<lparr>c_meta := dict_del p (c_meta c), c_quarantine := quarantine_put (''vfsMeta/'' @ p) (Meta d) (c_quarantine c)\<rparr>)"

definition quarantine_entry :: "cache_faults \<Rightarrow> dirty_entry \<Rightarrow> cache \<Rightarrow> cache" where
  "quarantine_entry ft e c = move_meta ft (e_path e) (e_meta e) (move_data ft (e_path e) c)"

definition clear_orphan :: "cache_faults \<Rightarrow> dirty_entry \<Rightarrow> cache \<Rightarrow> bool \<times> cache" where
  "clear_orphan ft e c =
     (let p = e_path e;
          c1 = (if ft_remove_data ft p then c else c\<lparr>c_data := dict_del p (c_data c)\<rparr>)
      in if ft_remove_meta ft p then (False, c1)
         else (True, c1\<lparr>c_meta := dict_del p (c_meta c1)\<rparr>))"

datatype action = Cleared | Repaired | Quarantined string

definition refusal_reason :: "lookup_result \<Rightarrow> json \<Rightarrow> py_error + string option" where
  "refusal_reason r fp =
     (case r of
        Found remote \<Rightarrow> bind_res (fingerprint_matches fp remote) (\<lambda>ok.
          Inr (if ok then None else Some ''fingerprint_mismatch''))
      | Absent \<Rightarrow> Inr (if \<not> json_truthy fp then None else Some ''remote_deleted'')
      | Unverifiable \<Rightarrow> Inr (Some ''remote_unverifiable''))"

text \<open>The records so far, the probe and the cache; an error leaves them as they are then.  Without a
  serve target there is no probe.\<close>

type_synonym reconcile_state = "(string \<times> action) list \<times> probe \<times> cache"

definition reconcile_entry ::
    "cache_faults \<Rightarrow> string option list option \<Rightarrow> dirty_entry \<Rightarrow> reconcile_state \<Rightarrow> reconcile_state \<times> py_error option" where
  "reconcile_entry ft runs e st =
     (case st of (records, pr, c) \<Rightarrow>
        if is_orphaned e then
          (case clear_orphan ft e c of
             (False, c1) \<Rightarrow> ((records, pr, c1), None)
           | (True, c1) \<Rightarrow> ((records @ [(e_path e, Cleared)], pr, c1), None))
        else if is_inconsistent e then
          (let fp = meta_field (e_meta e) ''Fingerprint'';
               (found, pr1) = (case runs of None \<Rightarrow> (Unverifiable, pr) | Some rs \<Rightarrow> probe_lookup rs (e_path e) pr)
           in case refusal_reason found fp of
                Inl err \<Rightarrow> ((records, pr1, c), Some err)
              | Inr None \<Rightarrow>
                  if ft_repair ft (e_path e) then ((records, pr1, c), Some (OsErr ''cannot write''))
                  else ((records @ [(e_path e, Repaired)], pr1, repair_metadata e c), None)
              | Inr (Some reason) \<Rightarrow>
                  ((records @ [(e_path e, Quarantined reason)], pr1, quarantine_entry ft e c), None))
        else (st, None))"

fun reconcile_entries ::
    "cache_faults \<Rightarrow> string option list option \<Rightarrow> dirty_entry list \<Rightarrow> reconcile_state \<Rightarrow> reconcile_state \<times> py_error option" where
  "reconcile_entries ft runs [] st = (st, None)"
| "reconcile_entries ft runs (e # es) st =
     (case reconcile_entry ft runs e st of
        (st', Some err) \<Rightarrow> (st', Some err)
      | (st', None) \<Rightarrow> reconcile_entries ft runs es st')"

definition reconcile_cache ::
    "cache_faults \<Rightarrow> string option list option \<Rightarrow> cache \<Rightarrow> reconcile_state \<times> py_error option" where
  "reconcile_cache ft runs c =
     (case iter_dirty_entries ft c of
        Inl err \<Rightarrow> (([], new_probe, c), Some err)
      | Inr es \<Rightarrow> reconcile_entries ft runs (sort_key e_path es) ([], new_probe, c))"

subsection \<open>The quarantine never overwrites\<close>

lemma numbered_inj: "numbered base a = numbered base b \<longleftrightarrow> a = b"
proof
  assume "numbered base a = numbered base b"
  then have "show_nat (int a) = show_nat (int b)" by (simp only: numbered_def append_same_eq same_append_eq)
  then have "digits_val (show_nat (int a)) = digits_val (show_nat (int b))" by (rule arg_cong)
  then show "a = b" by (simp only: digits_val_show_nat of_nat_0_le_iff of_nat_eq_iff)
qed simp

lemma quarantine_destination_free: "quarantine_destination taken base \<notin> set taken"
proof (cases "base \<in> set taken")
  case True
  let ?ns = "[1..<length taken + 2]"
  have "\<not> (\<forall>n \<in> set ?ns. numbered base n \<in> set taken)"
  proof
    assume all: "\<forall>n \<in> set ?ns. numbered base n \<in> set taken"
    have "inj_on (numbered base) (set ?ns)" by (auto simp: inj_on_def numbered_inj)
    then have "card (set ?ns) = card (numbered base ` set ?ns)" by (simp add: card_image)
    also have "\<dots> \<le> card (set taken)" using all by (intro card_mono) auto
    finally have "length taken + 1 \<le> card (set taken)" by (simp only: set_upt card_atLeastLessThan)
    then show False using card_length[of taken] by simp
  qed
  then obtain n where "find (\<lambda>n. numbered base n \<notin> set taken) ?ns = Some n"
    by (cases "find (\<lambda>n. numbered base n \<notin> set taken) ?ns") (auto simp: find_None_iff)
  with find_Some_in[OF this] True show ?thesis by (simp add: quarantine_destination_def)
qed (simp add: quarantine_destination_def)

lemma dict_set_fresh: "k \<notin> fst ` set d \<Longrightarrow> set (dict_set k v d) = insert (k, v) (set d)"
  by (induction d) auto

lemma quarantine_put_keeps: "set (quarantine_put base k q) = insert (quarantine_destination (map fst q) base, k) (set q)"
  unfolding quarantine_put_def using quarantine_destination_free[of "map fst q" base]
  by (intro dict_set_fresh) simp

subsection \<open>No content is lost\<close>

text \<open>Every data file of the first cache is still in the second or in its quarantine, and nothing in
  the quarantine has gone.\<close>

definition retains :: "cache \<Rightarrow> cache \<Rightarrow> bool" where
  "retains a b \<longleftrightarrow> set (c_quarantine a) \<subseteq> set (c_quarantine b) \<and>
     (\<forall>p s. dict_get (c_data a) p = Some s \<longrightarrow>
        dict_get (c_data b) p = Some s \<or> Data s \<in> snd ` set (c_quarantine b))"

lemma retains_refl [simp]: "retains a a" by (simp add: retains_def)

lemma retains_trans: "retains a b \<Longrightarrow> retains b c \<Longrightarrow> retains a c"
  unfolding retains_def by (meson image_mono subset_iff subset_trans)

lemma retains_same: "c_data b = c_data a \<Longrightarrow> c_quarantine b = c_quarantine a \<Longrightarrow> retains a b"
  by (simp add: retains_def)

lemma move_data_retains: "retains c (move_data ft p c)"
  by (auto simp: move_data_def retains_def quarantine_put_keeps image_iff split: option.splits)

lemma move_meta_retains: "retains c (move_meta ft p d c)"
  by (auto simp: move_meta_def retains_def quarantine_put_keeps image_iff)

lemma reconcile_entry_retains:
  assumes "is_orphaned e \<Longrightarrow> dict_get (c_data c) (e_path e) = None"
    and "reconcile_entry ft runs e (records, pr, c) = ((records', pr', c'), err)"
  shows "retains c c' \<and> (\<forall>p. dict_get (c_data c) p = None \<longrightarrow> dict_get (c_data c') p = None)"
proof -
  have q: "retains c (quarantine_entry ft e c)"
    unfolding quarantine_entry_def using move_data_retains move_meta_retains retains_trans by blast
  have qn: "dict_get (c_data c) p = None \<Longrightarrow> dict_get (c_data (quarantine_entry ft e c)) p = None" for p
    by (auto simp: quarantine_entry_def move_meta_def move_data_def split: option.splits)
  have r: "retains c (repair_metadata e c)" "c_data (repair_metadata e c) = c_data c"
    by (simp_all add: repair_metadata_def Let_def retains_same)
  have o: "retains c (snd (clear_orphan ft e c))" if "is_orphaned e"
    using assms(1)[OF that] by (auto simp: clear_orphan_def Let_def retains_def)
  have on: "dict_get (c_data c) p = None \<Longrightarrow> dict_get (c_data (snd (clear_orphan ft e c))) p = None" for p
    by (auto simp: clear_orphan_def Let_def)
  consider "is_orphaned e" "c' = snd (clear_orphan ft e c)" | "c' = c" | "c' = repair_metadata e c"
    | "c' = quarantine_entry ft e c"
    using assms(2) by (auto simp: reconcile_entry_def Let_def split: if_splits prod.splits bool.splits sum.splits option.splits)
  then show ?thesis using o on q qn r by cases auto
qed

lemma reconcile_entries_retains:
  assumes "\<And>e. e \<in> set es \<Longrightarrow> is_orphaned e \<Longrightarrow> dict_get (c_data c) (e_path e) = None"
    and "reconcile_entries ft runs es (records, pr, c) = ((records', pr', c'), err)"
  shows "retains c c'"
  using assms
proof (induction es arbitrary: records pr c)
  case (Cons e es)
  obtain records1 pr1 c1 err1 where e: "reconcile_entry ft runs e (records, pr, c) = ((records1, pr1, c1), err1)"
    by (metis prod_cases3 surj_pair)
  note r = reconcile_entry_retains[OF _ e, OF Cons.prems(1)[of e]]
  show ?case
  proof (cases err1)
    case None
    then have "reconcile_entries ft runs es (records1, pr1, c1) = ((records', pr', c'), err)"
      using Cons.prems(2) e by simp
    from Cons.IH[OF _ this] Cons.prems(1) r have "retains c1 c'" by (metis list.set_intros(1,2))
    with r show ?thesis using retains_trans by (metis list.set_intros(1))
  next
    case (Some x)
    then have "c' = c1" using Cons.prems(2) e by simp
    with r show ?thesis by simp
  qed
qed simp

lemma dirty_entry_at_fields:
  "e \<in> set (dirty_entry_at ft c f) \<Longrightarrow> f = (e_path e, Some (JObj (e_meta e))) \<and> is_dirty (e_meta e) \<and>
     (e_has_data e, e_size e) = stat_data_file ft c (e_path e)"
proof -
  assume e: "e \<in> set (dirty_entry_at ft c f)"
  obtain p m where f: "f = (p, m)" by fastforce
  obtain present n where st: "stat_data_file ft c p = (present, n)" by fastforce
  obtain d where d: "m = Some (JObj d)"
  proof (cases m)
    case (Some j)
    have "dirty_entry_at ft c (p, Some j) = []" if "\<nexists>d. j = JObj d"
      using that unfolding dirty_entry_at_def by (cases j) auto
    then have "\<exists>d. j = JObj d" using e f Some by fastforce
    then show ?thesis using that Some by blast
  qed (use e in \<open>simp add: dirty_entry_at_def f\<close>)
  have "dirty_entry_at ft c f = (if is_dirty d then [\<lparr>e_path = p, e_meta = d, e_has_data = present, e_size = n\<rparr>] else [])"
    by (simp add: dirty_entry_at_def f d st)
  then have "is_dirty d \<and> e = \<lparr>e_path = p, e_meta = d, e_has_data = present, e_size = n\<rparr>"
    using e by (cases "is_dirty d") simp_all
  then show ?thesis using f st d by simp
qed

lemma reconcile_cache_retains:
  assumes "reconcile_cache ft runs c = ((records, pr, c'), err)"
  shows "retains c c'"
proof (cases "ft_list ft")
  case False
  let ?es = "concat (map (dirty_entry_at ft c) (c_meta c))"
  have "reconcile_entries ft runs (sort_key e_path ?es) ([], new_probe, c) = ((records, pr, c'), err)"
    using assms False by (simp add: reconcile_cache_def iter_dirty_entries_def)
  moreover have "dict_get (c_data c) (e_path e) = None" if "e \<in> set (sort_key e_path ?es)" "is_orphaned e" for e
    using that dirty_entry_at_fields[of e ft c]
    by (fastforce simp: is_orphaned_def stat_data_file_def split: if_splits option.splits)
  ultimately show ?thesis using reconcile_entries_retains by blast
qed (use assms in \<open>simp add: reconcile_cache_def iter_dirty_entries_def\<close>)

subsection \<open>One path at a time\<close>

definition same_at :: "string \<Rightarrow> cache \<Rightarrow> cache \<Rightarrow> bool" where
  "same_at p a b \<longleftrightarrow> dict_get (c_meta a) p = dict_get (c_meta b) p \<and> dict_get (c_data a) p = dict_get (c_data b) p"

lemma same_at_refl [simp]: "same_at p a a" by (simp add: same_at_def)

lemma same_at_trans: "same_at p a b \<Longrightarrow> same_at p b c \<Longrightarrow> same_at p a c" by (simp add: same_at_def)

lemma quarantine_same_at: "e_path e \<noteq> p \<Longrightarrow> same_at p c (quarantine_entry ft e c)"
  by (auto simp: quarantine_entry_def move_meta_def move_data_def same_at_def split: option.splits)

lemma reconcile_entry_outcome:
  assumes "reconcile_entry ft runs e (records, pr, c) = ((records', pr', c'), err)"
  shows "c' = c \<or> (is_orphaned e \<and> c' = snd (clear_orphan ft e c)) \<or>
    (\<not> is_orphaned e \<and> is_inconsistent e \<and> (c' = quarantine_entry ft e c \<or>
       (c' = repair_metadata e c \<and> (\<exists>rs. runs = Some rs \<and>
          refusal_reason (fst (probe_lookup rs (e_path e) pr)) (meta_field (e_meta e) ''Fingerprint'') = Inr None))))"
proof -
  have u: "refusal_reason Unverifiable fp \<noteq> Inr None" for fp by (simp add: refusal_reason_def)
  consider "is_orphaned e" | "\<not> is_orphaned e" "\<not> is_inconsistent e" | "\<not> is_orphaned e" "is_inconsistent e" by blast
  then show ?thesis
  proof cases
    case 1
    then show ?thesis using assms by (auto simp: reconcile_entry_def split: prod.splits bool.splits)
  next
    case 2
    then show ?thesis using assms by (simp add: reconcile_entry_def)
  next
    case 3
    obtain found pr1 where f: "(case runs of None \<Rightarrow> (Unverifiable, pr) | Some rs \<Rightarrow> probe_lookup rs (e_path e) pr) = (found, pr1)"
      by fastforce
    show ?thesis
    proof (cases "refusal_reason found (meta_field (e_meta e) ''Fingerprint'') = Inr None")
      case True
      then obtain rs where "runs = Some rs" "fst (probe_lookup rs (e_path e) pr) = found"
        using f u by (cases runs) auto
      then show ?thesis using assms 3 True f by (auto simp: reconcile_entry_def Let_def split: if_splits)
    next
      case False
      then show ?thesis
        using assms 3 f by (auto simp: reconcile_entry_def Let_def split: if_splits sum.splits option.splits)
    qed
  qed
qed

lemma reconcile_entry_elsewhere:
  assumes "reconcile_entry ft runs e (records, pr, c) = ((records', pr', c'), err)" "e_path e \<noteq> p"
  shows "same_at p c c'"
  using reconcile_entry_outcome[OF assms(1)] assms(2) quarantine_same_at
  by (auto simp: clear_orphan_def repair_metadata_def Let_def same_at_def)

lemma reconcile_entries_elsewhere:
  "reconcile_entries ft runs es (records, pr, c) = ((records', pr', c'), err) \<Longrightarrow> p \<notin> e_path ` set es \<Longrightarrow> same_at p c c'"
proof (induction es arbitrary: records pr c)
  case (Cons e es)
  obtain records1 pr1 c1 err1 where e: "reconcile_entry ft runs e (records, pr, c) = ((records1, pr1, c1), err1)"
    by (metis prod_cases3 surj_pair)
  with Cons.prems(2) have s: "same_at p c c1" using reconcile_entry_elsewhere by auto
  show ?case
  proof (cases err1)
    case None
    with Cons e have "same_at p c1 c'" by auto
    with s show ?thesis by (rule same_at_trans)
  qed (use Cons.prems e s in simp)
qed simp

lemma reconcile_entries_at:
  assumes "reconcile_entries ft runs es (records, pr, c) = ((records', pr', c'), err)" "distinct (map e_path es)"
  shows "same_at p c c' \<or> (\<exists>e \<in> set es. \<exists>r1 q1 c1 r2 q2 c2 err'. e_path e = p \<and> same_at p c c1 \<and>
    reconcile_entry ft runs e (r1, q1, c1) = ((r2, q2, c2), err') \<and> same_at p c2 c')"
  using assms
proof (induction es arbitrary: records pr c)
  case (Cons e es)
  obtain records1 pr1 c1 err1 where e: "reconcile_entry ft runs e (records, pr, c) = ((records1, pr1, c1), err1)"
    by (metis prod_cases3 surj_pair)
  show ?case
  proof (cases "e_path e = p")
    case True
    have "same_at p c1 c'"
    proof (cases err1)
      case None
      then have "reconcile_entries ft runs es (records1, pr1, c1) = ((records', pr', c'), err)"
        using Cons.prems(1) e by simp
      then show ?thesis by (rule reconcile_entries_elsewhere) (use Cons.prems(2) True in auto)
    qed (use Cons.prems(1) e in simp)
    with e True same_at_refl[of p c] show ?thesis by (metis list.set_intros(1))
  next
    case False
    from reconcile_entry_elsewhere[OF e False] have s: "same_at p c c1" .
    show ?thesis
    proof (cases err1)
      case None
      then have "reconcile_entries ft runs es (records1, pr1, c1) = ((records', pr', c'), err)"
        using Cons.prems(1) e by simp
      from Cons.IH[OF this] Cons.prems(2) s show ?thesis
        by (metis distinct.simps(2) list.set_intros(2) list.simps(9) same_at_trans)
    qed (use Cons.prems(1) e s in simp)
  qed
qed simp

lemma dirty_entries_distinct:
  assumes "distinct (map fst ms)"
  shows "distinct (map e_path (concat (map (dirty_entry_at ft c) ms)))"
  using assms
proof (induction ms)
  case (Cons f ms)
  have at: "e_path e = fst f" if "e \<in> set (dirty_entry_at ft c f)" for e f
    using dirty_entry_at_fields[OF that] by (cases f) simp
  have "length (dirty_entry_at ft c f) \<le> 1"
    by (auto simp: dirty_entry_at_def split: prod.splits option.splits json.splits)
  then have one: "distinct (map e_path (dirty_entry_at ft c f))"
    by (cases "dirty_entry_at ft c f") auto
  have "e_path a \<noteq> e_path b" if "a \<in> set (dirty_entry_at ft c f)" "b \<in> set (concat (map (dirty_entry_at ft c) ms))" for a b
  proof -
    from that(2) obtain g where "g \<in> set ms" "b \<in> set (dirty_entry_at ft c g)" by auto
    moreover have "fst f \<noteq> fst g" using Cons.prems calculation(1) by force
    ultimately show ?thesis using at[of b g] at[OF that(1)] by simp
  qed
  then have "e_path ` set (dirty_entry_at ft c f) \<inter> e_path ` set (concat (map (dirty_entry_at ft c) ms)) = {}" by blast
  with one Cons show ?case by simp
qed simp

subsection \<open>Properties\<close>

text \<open>C18. The reconcile never loses content: whatever the operating system refuses on the way and
  wherever an error stops it, every data file of the cache is afterwards where it was or, with the
  same content, in the quarantine, and what was in the quarantine is still there.\<close>

theorem reconcile_preserves_content:
  assumes "reconcile_cache ft runs c = ((records, pr, c'), err)" "dict_get (c_data c) p = Some s"
  shows "(dict_get (c_data c') p = Some s \<or> (\<exists>name. (name, Data s) \<in> set (c_quarantine c'))) \<and>
    set (c_quarantine c) \<subseteq> set (c_quarantine c')"
proof -
  have "retains c c'" by (rule reconcile_cache_retains[OF assms(1)])
  then show ?thesis using assms(2) unfolding retains_def by force
qed

text \<open>Metadata is touched only where it is faulted, and an upload is released only where it is safe:
  for each metadata file, either it and its data are as before; or it was dirty with its data file
  absent, and it is gone; or it was dirty and empty beside a non-empty data file, and then it was
  moved away, or it was rewritten to the data's length with the data untouched, and then the cloud
  object still had the recorded fingerprint, or was absent and none had been recorded.\<close>

theorem reconcile_releases_safely:
  assumes "reconcile_cache ft runs c = ((records, pr, c'), err)" "distinct (map fst (c_meta c))"
    and "dict_get (c_meta c) p = Some m"
  shows "dict_get (c_meta c') p = Some m \<and> dict_get (c_data c') p = dict_get (c_data c) p \<or>
    (\<exists>d. m = Some (JObj d) \<and> is_dirty d \<and>
      (dict_get (c_data c) p = None \<and> dict_get (c_meta c') p \<in> {None, Some m} \<or>
       (\<exists>s. dict_get (c_data c) p = Some s \<and> s \<noteq> [] \<and>
          \<not> json_truthy (meta_field d ''Size'') \<and> \<not> json_truthy (meta_field d ''Rs'') \<and>
          (dict_get (c_meta c') p \<in> {None, Some m} \<or>
           dict_get (c_data c') p = Some s \<and>
           (\<exists>d'. dict_get (c_meta c') p = Some (Some (JObj d')) \<and> meta_field d' ''Size'' = JInt (int (length s)) \<and> is_dirty d') \<and>
           (\<exists>rs q. runs = Some rs \<and>
              (case fst (probe_lookup rs p q) of
                 Found remote \<Rightarrow> fingerprint_matches (meta_field d ''Fingerprint'') remote = Inr True
               | Absent \<Rightarrow> \<not> json_truthy (meta_field d ''Fingerprint'')
               | Unverifiable \<Rightarrow> False))))))"
proof (cases "same_at p c c'")
  case True
  then show ?thesis using assms(3) by (simp add: same_at_def)
next
  case changed: False
  let ?es = "concat (map (dirty_entry_at ft c) (c_meta c))"
  have l: "\<not> ft_list ft" using assms(1) changed by (auto simp: reconcile_cache_def iter_dirty_entries_def)
  then have run: "reconcile_entries ft runs (sort_key e_path ?es) ([], new_probe, c) = ((records, pr, c'), err)"
    using assms(1) by (simp add: reconcile_cache_def iter_dirty_entries_def)
  have dist: "distinct (map e_path (sort_key e_path ?es))"
    using dirty_entries_distinct[OF assms(2), of ft c] by (simp add: distinct_map)
  obtain e r1 q1 c1 r2 q2 c2 err' where e: "e \<in> set ?es" "e_path e = p" "same_at p c c1"
      "reconcile_entry ft runs e (r1, q1, c1) = ((r2, q2, c2), err')" "same_at p c2 c'"
    using reconcile_entries_at[OF run dist, of p] changed unfolding set_sort by blast
  obtain f where f: "f \<in> set (c_meta c)" "e \<in> set (dirty_entry_at ft c f)" using e(1) by auto
  note fields = dirty_entry_at_fields[OF f(2), unfolded e(2)]
  have m: "m = Some (JObj (e_meta e))"
    using f(1) fields assms(3) map_of_is_SomeI[OF assms(2)] by fastforce
  have c1: "dict_get (c_meta c1) p = Some m" "dict_get (c_data c1) p = dict_get (c_data c) p"
    using e(3) assms(3) by (simp_all add: same_at_def)
  have c2: "dict_get (c_meta c') p = dict_get (c_meta c2) p" "dict_get (c_data c') p = dict_get (c_data c2) p"
    using e(5) by (simp_all add: same_at_def)
  have data: "\<exists>s. dict_get (c_data c) p = Some s \<and> s \<noteq> [] \<and> e_size e = Some (int (length s)) \<and>
      \<not> json_truthy (meta_field (e_meta e) ''Size'') \<and> \<not> json_truthy (meta_field (e_meta e) ''Rs'')" if "is_inconsistent e"
    using that fields by (auto simp: is_inconsistent_def stat_data_file_def split: if_splits option.splits)
  from reconcile_entry_outcome[OF e(4)] consider (same) "c2 = c1"
    | (orphan) "is_orphaned e" "c2 = snd (clear_orphan ft e c1)"
    | (quarantine) "is_inconsistent e" "c2 = quarantine_entry ft e c1"
    | (repair) rs where "is_inconsistent e" "c2 = repair_metadata e c1" "runs = Some rs"
        "refusal_reason (fst (probe_lookup rs p q1)) (meta_field (e_meta e) ''Fingerprint'') = Inr None"
    unfolding e(2) by blast
  then show ?thesis
  proof cases
    case same
    then show ?thesis using c1 c2 by simp
  next
    case orphan
    then have "dict_get (c_data c) p = None"
      using fields by (auto simp: is_orphaned_def stat_data_file_def split: if_splits option.splits)
    moreover have "dict_get (c_meta c2) p \<in> {None, Some m}"
      using orphan(2) c1 e(2) by (auto simp: clear_orphan_def Let_def)
    ultimately show ?thesis using m fields c2 by simp
  next
    case quarantine
    have "dict_get (c_meta c2) p \<in> {None, Some m}"
      using quarantine(2) c1 e(2) by (auto simp: quarantine_entry_def move_meta_def move_data_def split: option.splits)
    then show ?thesis using data[OF quarantine(1)] m fields c2 by auto
  next
    case repair
    from data[OF repair(1)] obtain s where s: "dict_get (c_data c) p = Some s" "s \<noteq> []" "e_size e = Some (int (length s))"
        "\<not> json_truthy (meta_field (e_meta e) ''Size'')" "\<not> json_truthy (meta_field (e_meta e) ''Rs'')" by blast
    have "\<exists>d'. dict_get (c_meta c') p = Some (Some (JObj d')) \<and> meta_field d' ''Size'' = JInt (int (length s)) \<and> is_dirty d'"
      using fields repair(2) c2(1) e(2) s(3) by (auto simp: repair_metadata_def Let_def meta_field_def is_dirty_def)
    moreover have "dict_get (c_data c') p = Some s" using repair(2) c1 c2 s(1) by (simp add: repair_metadata_def Let_def)
    moreover have "case fst (probe_lookup rs p q1) of
        Found remote \<Rightarrow> fingerprint_matches (meta_field (e_meta e) ''Fingerprint'') remote = Inr True
      | Absent \<Rightarrow> \<not> json_truthy (meta_field (e_meta e) ''Fingerprint'')
      | Unverifiable \<Rightarrow> False"
      using repair(4) by (auto simp: refusal_reason_def bind_res_def split: lookup_result.splits sum.splits if_splits)
    ultimately show ?thesis using m fields s repair(3) by blast
  qed
qed

definition no_faults :: cache_faults where
  "no_faults = \<lparr>ft_list = False, ft_stat = (\<lambda>_. False), ft_remove_data = (\<lambda>_. False), ft_remove_meta = (\<lambda>_. False),
     ft_move_data = (\<lambda>_. False), ft_move_meta = (\<lambda>_. False), ft_repair = (\<lambda>_. False)\<rparr>"

definition desynced :: "(string \<times> json) list" where
  "desynced = [(''Dirty'', JBool True), (''Size'', JInt 0), (''Rs'', JNull)]"

definition faulted_cache :: cache where
  "faulted_cache = \<lparr>c_meta = [(''g/n/a'', Some (JObj desynced)), (''g/n/b'', Some (JObj desynced))],
     c_data = [(''g/n/a'', ''x''), (''g/n/b'', ''yz'')], c_quarantine = [(''vfs/g/n/a'', Data ''old'')]\<rparr>"

definition listing :: "(string \<times> json) list \<Rightarrow> string option list" where
  "listing items = [None, Some (json_dumps (JArr (map (\<lambda>(p, n). JObj [(''Path'', JStr p), (''Size'', n)]) items)))]"

lemma quarantined_cache:
  "reconcile_cache no_faults None faulted_cache =
     (([(''g/n/a'', Quarantined ''remote_unverifiable''), (''g/n/b'', Quarantined ''remote_unverifiable'')], new_probe,
       \<lparr>c_meta = [], c_data = [],
          c_quarantine = [(''vfs/g/n/a'', Data ''old''), (''vfs/g/n/a.1'', Data ''x''), (''vfsMeta/g/n/a'', Meta desynced),
            (''vfs/g/n/b'', Data ''yz''), (''vfsMeta/g/n/b'', Meta desynced)]\<rparr>), None)"
  by code_simp

theorem reconcile_preserves_content_witness:
  "\<exists>c'. snd (snd (fst (reconcile_cache no_faults None faulted_cache))) = c' \<and>
     dict_get (c_data c') ''g/n/a'' = None \<and> (\<exists>name. (name, Data ''x'') \<in> set (c_quarantine c'))"
proof -
  have "dict_get (c_data faulted_cache) ''g/n/a'' = Some ''x''" by (simp add: faulted_cache_def)
  from reconcile_preserves_content[OF quarantined_cache this] show ?thesis
    unfolding quarantined_cache by simp
qed

lemma repaired_cache:
  "fst (fst (reconcile_cache no_faults (Some (listing [])) faulted_cache)) =
     [(''g/n/a'', Repaired), (''g/n/b'', Repaired)]"
  by code_simp

theorem reconcile_releases_safely_witness:
  "\<exists>c'. snd (snd (fst (reconcile_cache no_faults (Some (listing [])) faulted_cache))) = c' \<and>
     dict_get (c_meta faulted_cache) ''g/n/b'' \<noteq> dict_get (c_meta c') ''g/n/b'' \<and> dict_get (c_data c') ''g/n/b'' = Some ''yz''"
proof -
  obtain records pr c' err where r: "reconcile_cache no_faults (Some (listing [])) faulted_cache = ((records, pr, c'), err)"
    by (metis prod_cases3 surj_pair)
  have m: "dict_get (c_meta faulted_cache) ''g/n/b'' = Some (Some (JObj desynced))" "distinct (map fst (c_meta faulted_cache))"
    by (simp_all add: faulted_cache_def)
  have s: "dict_get (c_meta (snd (snd (fst (reconcile_cache no_faults (Some (listing [])) faulted_cache))))) ''g/n/b'' =
      Some (Some (JObj (dict_set ''Rs'' (JArr [JObj [(''Pos'', JInt 0), (''Size'', JInt 2)]]) (dict_set ''Size'' (JInt 2) desynced))))"
    "dict_set ''Rs'' (JArr [JObj [(''Pos'', JInt 0), (''Size'', JInt 2)]]) (dict_set ''Size'' (JInt 2) desynced) \<noteq> desynced"
    by code_simp+
  show ?thesis
    using reconcile_releases_safely[OF r m(2,1)] s r m(1) by (auto simp: faulted_cache_def)
qed

text \<open>The depth of the root is latched from the first lookup that finds anything.  When that is a
  namesake (here \<open>a\<close> at the root for the absent \<open>n/a\<close>), every later path is judged at the wrong depth:
  \<open>n/b\<close>, which is in the cloud and would have been quarantined, is released over it.\<close>

theorem latched_depth_misjudges:
  "fst (fst (reconcile_cache no_faults (Some (listing [(''a'', JInt 1), (''n/b'', JInt 9)])) faulted_cache)) =
     [(''g/n/a'', Quarantined ''fingerprint_mismatch''), (''g/n/b'', Repaired)] \<and>
   fst (fst (reconcile_cache no_faults (Some (listing [(''n/b'', JInt 9)])) faulted_cache)) =
     [(''g/n/a'', Repaired), (''g/n/b'', Quarantined ''fingerprint_mismatch'')]"
  by code_simp

end
