(* ===== verification/Skills.thy ===== *)
theory Skills
  imports Task_Board Py_Text Py_Json_Dumps
begin

text \<open>
  The skills an agent can read: the tables \<open>skills\<close> and \<open>skill_files\<close> of \<open>errand/models.py\<close> (the files
  of a skill are kept with it, as the foreign key deletes them with it), the handlers of
  \<open>errand/main.py\<close> and the tools of \<open>errand/mcp_server.py\<close> that change them.  A request body is any
  JSON object; a value of the wrong type raises where the code first uses it as a string.
\<close>

record skill_file =
  sf_id :: nat
  sf_path :: string
  sf_content :: string

record skill =
  k_id :: nat
  k_name :: string
  k_description :: string
  k_instructions :: string
  k_files :: "skill_file list"

definition find_skill :: "nat \<Rightarrow> skill list \<Rightarrow> skill option" where
  "find_skill i ks = find (\<lambda>k. k_id k = i) ks"

definition skill_named :: "string \<Rightarrow> skill list \<Rightarrow> skill option" where
  "skill_named n ks = find (\<lambda>k. k_name k = n) ks"

definition change_skill :: "nat \<Rightarrow> (skill \<Rightarrow> skill) \<Rightarrow> skill list \<Rightarrow> skill list" where
  "change_skill i f ks = map (\<lambda>k. if k_id k = i then f k else k) ks"

definition file_ids :: "skill list \<Rightarrow> nat list" where
  "file_ids ks = concat (map (\<lambda>k. map sf_id (k_files k)) ks)"

subsection \<open>Validation\<close>

text \<open>\<open>^[a-z0-9]([a-z0-9-]*[a-z0-9])?$\<close>, whose \<open>$\<close> also matches before a final newline.\<close>

definition name_char :: "char \<Rightarrow> bool" where "name_char c = (is_lower_az c \<or> is_digit c)"

definition name_core :: "string \<Rightarrow> bool" where
  "name_core s = (s \<noteq> [] \<and> name_char (hd s) \<and> name_char (last s) \<and> list_all (\<lambda>c. name_char c \<or> c = CHR ''-'') s)"

definition name_matches :: "string \<Rightarrow> bool" where
  "name_matches s = (name_core s \<or> s \<noteq> [] \<and> last s = newline \<and> name_core (butlast s))"

definition py_len :: "json \<Rightarrow> py_error + nat" where
  "py_len j = (case j of JStr s \<Rightarrow> Inr (length s) | JArr xs \<Rightarrow> Inr (length xs) | JObj d \<Rightarrow> Inr (length d)
     | _ \<Rightarrow> Inl (TypeErr ''object has no len()''))"

definition name_error :: "bool \<Rightarrow> string \<Rightarrow> string option" where
  "name_error relaxed s =
     (if s = [] then Some ''Name is required''
      else if length s > 64 then Some ''Name must be at most 64 characters''
      else if s \<noteq> py_lower s then Some ''Name must be lowercase''
      else if \<not> relaxed \<and> contains_str s ''--'' then Some ''Name must not contain consecutive hyphens''
      else if \<not> name_matches s then
        Some ''Name must contain only lowercase letters, digits, and hyphens, and must not start or end with a hyphen''
      else None)"

definition validate_skill_name :: "json \<Rightarrow> py_error + string option" where
  "validate_skill_name j =
     (case j of
        JStr s \<Rightarrow> Inr (name_error False s)
      | _ \<Rightarrow>
          if \<not> json_truthy j then Inr (Some ''Name is required'')
          else bind_res (py_len j) (\<lambda>n.
            if n > 64 then Inr (Some ''Name must be at most 64 characters'') else Inl (AttributeErr ''lower'')))"

definition ALLOWED_SUBDIRS :: "string list" where
  "ALLOWED_SUBDIRS = [''assets'', ''references'', ''scripts'']"

definition path_error :: "string \<Rightarrow> string option" where
  "path_error p =
     (if p = [] then Some ''Path is required''
      else (case split_char CHR ''/'' p of
          [d, f] \<Rightarrow>
            if d = [] \<or> f = [] then Some ''Path must be one level deep within scripts/, references/, or assets/''
            else if d \<notin> set ALLOWED_SUBDIRS then Some (''Path must be in one of: '' @ join '', '' ALLOWED_SUBDIRS @ ''/'')
            else None
        | _ \<Rightarrow> Some ''Path must be one level deep within scripts/, references/, or assets/''))"

definition validate_skill_file_path :: "json \<Rightarrow> py_error + string option" where
  "validate_skill_file_path j =
     (case j of
        JStr p \<Rightarrow> Inr (path_error p)
      | _ \<Rightarrow> if json_truthy j then Inl (AttributeErr ''split'') else Inr (Some ''Path is required''))"

subsection \<open>The HTTP handlers\<close>

definition refuse_if :: "string option \<Rightarrow> py_error + unit" where
  "refuse_if e = (case e of None \<Rightarrow> Inr () | Some m \<Rightarrow> Inl (Http 422 m))"

definition body_get :: "(string \<times> json) list \<Rightarrow> string \<Rightarrow> json" where
  "body_get body k = (case dict_get body k of None \<Rightarrow> JStr [] | Some v \<Rightarrow> v)"

definition check_description :: "json \<Rightarrow> py_error + unit" where
  "check_description d =
     (if \<not> json_truthy d then Inl (Http 422 ''Description is required'')
      else bind_res (py_len d) (\<lambda>n.
        if n > 1024 then Inl (Http 422 ''Description must be at most 1024 characters'') else Inr ()))"

definition check_instructions :: "json \<Rightarrow> py_error + unit" where
  "check_instructions v = (if json_truthy v then Inr () else Inl (Http 422 ''Instructions are required''))"

definition name_taken :: "string \<Rightarrow> py_error" where
  "name_taken n = Http 409 (''Skill with name '' @ [apostrophe] @ n @ [apostrophe] @ '' already exists'')"

text \<open>A value that is no string is refused by the driver at the flush.\<close>

definition text_column :: "json \<Rightarrow> py_error + string" where
  "text_column j = (case j of JStr s \<Rightarrow> Inr s | _ \<Rightarrow> Inl (TypeErr ''expected str''))"

definition create_skill :: "(string \<times> json) list \<Rightarrow> skill list \<Rightarrow> py_error + (skill \<times> skill list)" where
  "create_skill body ks =
     (let name = body_get body ''name''; description = body_get body ''description'';
          instructions = body_get body ''instructions''
      in bind_res (validate_skill_name name) (\<lambda>e. bind_res (refuse_if e) (\<lambda>_.
         bind_res (check_description description) (\<lambda>_. bind_res (check_instructions instructions) (\<lambda>_.
         bind_res (text_column name) (\<lambda>n.
           if skill_named n ks \<noteq> None then Inl (name_taken n)
           else bind_res (text_column description) (\<lambda>d. bind_res (text_column instructions) (\<lambda>x.
             let k = \<lparr>k_id = fresh_id (map k_id ks), k_name = n, k_description = d, k_instructions = x, k_files = []\<rparr>
             in Inr (k, ks @ [k])))))))))"

definition get_skill_by_id :: "nat \<Rightarrow> skill list \<Rightarrow> py_error + skill" where
  "get_skill_by_id i ks = (case find_skill i ks of None \<Rightarrow> Inl (Http 404 ''Skill not found'') | Some k \<Rightarrow> Inr k)"

definition list_skills :: "skill list \<Rightarrow> skill list" where
  "list_skills ks = sort_key k_name ks"

text \<open>One optional field of the body: absent, or checked and converted.\<close>

definition body_field ::
    "(string \<times> json) list \<Rightarrow> string \<Rightarrow> (json \<Rightarrow> py_error + unit) \<Rightarrow> string \<Rightarrow> py_error + json" where
  "body_field body key check old =
     (case dict_get body key of None \<Rightarrow> Inr (JStr old) | Some v \<Rightarrow> bind_res (check v) (\<lambda>_. Inr v))"

definition check_new_name :: "skill \<Rightarrow> skill list \<Rightarrow> json \<Rightarrow> py_error + unit" where
  "check_new_name k ks v =
     bind_res (validate_skill_name v) (\<lambda>e. bind_res (refuse_if e) (\<lambda>_.
       (case v of
          JStr n \<Rightarrow> if n \<noteq> k_name k \<and> skill_named n ks \<noteq> None then Inl (name_taken n) else Inr ()
        | _ \<Rightarrow> Inr ())))"

definition update_skill :: "nat \<Rightarrow> (string \<times> json) list \<Rightarrow> skill list \<Rightarrow> py_error + skill list" where
  "update_skill i body ks =
     bind_res (get_skill_by_id i ks) (\<lambda>k.
     bind_res (body_field body ''name'' (check_new_name k ks) (k_name k)) (\<lambda>jn.
     bind_res (body_field body ''description'' check_description (k_description k)) (\<lambda>jd.
     bind_res (body_field body ''instructions'' check_instructions (k_instructions k)) (\<lambda>ji.
     bind_res (text_column jn) (\<lambda>n. bind_res (text_column jd) (\<lambda>d. bind_res (text_column ji) (\<lambda>x.
       Inr (change_skill i (\<lambda>k. k\<lparr>k_name := n, k_description := d, k_instructions := x\<rparr>) ks))))))))"

definition delete_skill :: "nat \<Rightarrow> skill list \<Rightarrow> py_error + skill list" where
  "delete_skill i ks = bind_res (get_skill_by_id i ks) (\<lambda>_. Inr (filter (\<lambda>k. k_id k \<noteq> i) ks))"

definition path_taken :: "string \<Rightarrow> py_error" where
  "path_taken p = Http 409 (''File with path '' @ [apostrophe] @ p @ [apostrophe] @ '' already exists for this skill'')"

definition add_skill_file :: "nat \<Rightarrow> (string \<times> json) list \<Rightarrow> skill list \<Rightarrow> py_error + skill list" where
  "add_skill_file i body ks =
     bind_res (get_skill_by_id i ks) (\<lambda>k.
     bind_res (validate_skill_file_path (body_get body ''path'')) (\<lambda>e. bind_res (refuse_if e) (\<lambda>_.
       if \<not> json_truthy (body_get body ''content'') then Inl (Http 422 ''Content is required'')
       else bind_res (text_column (body_get body ''path'')) (\<lambda>p.
         if p \<in> sf_path ` set (k_files k) then Inl (path_taken p)
         else bind_res (text_column (body_get body ''content'')) (\<lambda>c.
           Inr (change_skill i (\<lambda>k. k\<lparr>k_files := k_files k @
             [\<lparr>sf_id = fresh_id (file_ids ks), sf_path = p, sf_content = c\<rparr>]\<rparr>) ks))))))"

definition delete_skill_file :: "nat \<Rightarrow> nat \<Rightarrow> skill list \<Rightarrow> py_error + skill list" where
  "delete_skill_file i j ks =
     (if list_ex (\<lambda>k. k_id k = i \<and> j \<in> sf_id ` set (k_files k)) ks
      then Inr (change_skill i (\<lambda>k. k\<lparr>k_files := filter (\<lambda>f. sf_id f \<noteq> j) (k_files k)\<rparr>) ks)
      else Inl (Http 404 ''File not found''))"

subsection \<open>The MCP tools\<close>

definition mcp_path_error :: "string \<Rightarrow> string option" where
  "mcp_path_error p =
     (case split_char CHR ''/'' p of
        [d, f] \<Rightarrow>
          if d = [] \<or> f = [] then Some (''Error: Invalid file path '' @ [apostrophe] @ p @ [apostrophe] @ '' - must be subdir/filename'')
          else if d \<notin> set ALLOWED_SUBDIRS then
            Some (''Error: Invalid file path '' @ [apostrophe] @ p @ [apostrophe] @ '' - must be in scripts/, references/, or assets/'')
          else None
      | _ \<Rightarrow> Some (''Error: Invalid file path '' @ [apostrophe] @ p @ [apostrophe] @ '' - must be subdir/filename''))"

definition file_entry :: "json \<Rightarrow> string + (string \<times> string)" where
  "file_entry f =
     (case f of
        JObj d \<Rightarrow>
          (case (dict_get d ''path'', dict_get d ''content'') of
             (Some p, Some c) \<Rightarrow>
               (case p of
                  JStr path \<Rightarrow>
                    if path = [] then Inl (''Error: Each file '' @ [apostrophe] @ ''path'' @ [apostrophe] @ '' must be a non-empty string'')
                    else (case c of
                        JStr content \<Rightarrow> (case mcp_path_error path of None \<Rightarrow> Inr (path, content) | Some e \<Rightarrow> Inl e)
                      | _ \<Rightarrow> Inl (''Error: Each file '' @ [apostrophe] @ ''content'' @ [apostrophe] @ '' must be a string''))
                | _ \<Rightarrow> Inl (''Error: Each file '' @ [apostrophe] @ ''path'' @ [apostrophe] @ '' must be a non-empty string''))
           | _ \<Rightarrow> Inl (''Error: Each file must be an object with '' @ [apostrophe] @ ''path'' @ [apostrophe] @ '' and '' @
               [apostrophe] @ ''content'' @ [apostrophe] @ '' keys''))
      | _ \<Rightarrow> Inl (''Error: Each file must be an object with '' @ [apostrophe] @ ''path'' @ [apostrophe] @ '' and '' @
          [apostrophe] @ ''content'' @ [apostrophe] @ '' keys''))"

fun file_entries :: "json list \<Rightarrow> string + (string \<times> string) list" where
  "file_entries [] = Inr []"
| "file_entries (f # fs) = bind_res (file_entry f) (\<lambda>x. bind_res (file_entries fs) (\<lambda>xs. Inr (x # xs)))"

definition checked_files :: "json list option \<Rightarrow> string + (string \<times> string) list" where
  "checked_files files =
     bind_res (file_entries (case files of None \<Rightarrow> [] | Some fs \<Rightarrow> fs)) (\<lambda>xs.
       if distinct (map fst xs) then Inr xs else Inl ''Error: Duplicate file paths are not allowed'')"

fun number_files :: "nat \<Rightarrow> (string \<times> string) list \<Rightarrow> skill_file list" where
  "number_files n [] = []"
| "number_files n ((p, c) # xs) = \<lparr>sf_id = n, sf_path = p, sf_content = c\<rparr> # number_files (Suc n) xs"

text \<open>Whether the skill was created, its id, and the table.\<close>

definition upsert_skill ::
    "string \<Rightarrow> string \<Rightarrow> string \<Rightarrow> json list option \<Rightarrow> skill list \<Rightarrow> string + (bool \<times> nat \<times> skill list)" where
  "upsert_skill name description instructions files ks =
     (case name_error True name of
        Some e \<Rightarrow> Inl (''Error: '' @ e)
      | None \<Rightarrow>
          if length description > 1024 then Inl ''Error: Description must be at most 1024 characters''
          else bind_res (checked_files files) (\<lambda>fs.
            (let new_files = number_files (fresh_id (file_ids ks)) fs in
             case skill_named name ks of
               Some k \<Rightarrow> Inr (False, k_id k, change_skill (k_id k) (\<lambda>k. k\<lparr>k_description := description,
                   k_instructions := instructions, k_files := new_files\<rparr>) ks)
             | None \<Rightarrow>
                 (let i = fresh_id (map k_id ks) in
                  Inr (True, i, ks @ [\<lparr>k_id = i, k_name = name, k_description = description,
                    k_instructions = instructions, k_files = new_files\<rparr>])))))"

definition mcp_delete_skill :: "string \<Rightarrow> skill list \<Rightarrow> string + skill list" where
  "mcp_delete_skill name ks =
     (case skill_named name ks of
        None \<Rightarrow> Inl (''Error: Skill '' @ [apostrophe] @ name @ [apostrophe] @ '' not found.'')
      | Some k \<Rightarrow> Inr (filter (\<lambda>l. k_id l \<noteq> k_id k) ks))"

subsection \<open>The tables' invariant\<close>

definition skill_name_ok :: "string \<Rightarrow> bool" where
  "skill_name_ok n \<longleftrightarrow> length n \<le> 64 \<and> py_lower n = n \<and> name_matches n"

definition skill_path_ok :: "string \<Rightarrow> bool" where
  "skill_path_ok p \<longleftrightarrow> (\<exists>d f. p = d @ CHR ''/'' # f \<and> d \<in> {''scripts'', ''references'', ''assets''} \<and> f \<noteq> [] \<and> CHR ''/'' \<notin> set f)"

definition skill_ok :: "skill \<Rightarrow> bool" where
  "skill_ok k \<longleftrightarrow> skill_name_ok (k_name k) \<and> length (k_description k) \<le> 1024 \<and>
     distinct (map sf_path (k_files k)) \<and> (\<forall>f \<in> set (k_files k). skill_path_ok (sf_path f))"

definition skills_inv :: "skill list \<Rightarrow> bool" where
  "skills_inv ks \<longleftrightarrow> distinct (map k_id ks) \<and> distinct (map k_name ks) \<and> distinct (file_ids ks) \<and>
     (\<forall>k \<in> set ks. skill_ok k)"

lemma split_char_nonempty [simp]: "split_char c s \<noteq> []"
  by (induction s) (auto split: list.splits)

lemma split_char_line: "c \<notin> set a \<Longrightarrow> split_char c (a @ c # b) = a # split_char c b"
  by (induction a) (auto split: list.splits)

lemma split_char_free: "c \<notin> set a \<Longrightarrow> split_char c a = [a]"
  by (induction a) auto

lemma split_char_pair:
  "split_char c s = [d, f] \<Longrightarrow> s = d @ c # f \<and> c \<notin> set d \<and> c \<notin> set f"
proof -
  have one: "split_char c s = [w] \<Longrightarrow> s = w \<and> c \<notin> set w" for w s
    by (induction s arbitrary: w) (auto split: list.splits if_splits)
  show "split_char c s = [d, f] \<Longrightarrow> s = d @ c # f \<and> c \<notin> set d \<and> c \<notin> set f"
  proof (induction s arbitrary: d)
    case (Cons x s)
    then show ?case using one[of s] by (auto split: list.splits if_splits)
  qed simp
qed

lemma path_error_None: "path_error p = None \<Longrightarrow> skill_path_ok p"
  by (auto simp: path_error_def skill_path_ok_def ALLOWED_SUBDIRS_def split: list.splits if_splits dest!: split_char_pair)

lemma mcp_path_error_None: "mcp_path_error p = None \<Longrightarrow> skill_path_ok p"
  by (auto simp: mcp_path_error_def skill_path_ok_def ALLOWED_SUBDIRS_def split: list.splits if_splits dest!: split_char_pair)

lemma name_error_None: "name_error relaxed n = None \<Longrightarrow> skill_name_ok n"
  by (auto simp: name_error_def skill_name_ok_def split: if_splits)

lemma validated_name: "validate_skill_name j = Inr e \<Longrightarrow> refuse_if e = Inr u \<Longrightarrow> text_column j = Inr n \<Longrightarrow> skill_name_ok n"
  by (auto simp: validate_skill_name_def refuse_if_def text_column_def intro: name_error_None split: json.splits option.splits)

lemma validated_description: "check_description j = Inr u \<Longrightarrow> text_column j = Inr d \<Longrightarrow> length d \<le> 1024"
  by (auto simp: check_description_def text_column_def py_len_def split: json.splits if_splits)

lemma skill_named_None: "skill_named n ks = None \<longleftrightarrow> n \<notin> k_name ` set ks"
  by (auto simp: skill_named_def find_None_iff)

lemma skill_named_Some: "skill_named n ks = Some k \<Longrightarrow> k \<in> set ks \<and> k_name k = n"
  by (auto simp: skill_named_def find_Some_iff)

lemma find_skill_Some: "find_skill i ks = Some k \<Longrightarrow> k \<in> set ks \<and> k_id k = i"
  by (auto simp: find_skill_def find_Some_iff)

lemma skills_invD:
  assumes "skills_inv ks"
  shows "distinct (map k_id ks)" "distinct (map k_name ks)" "distinct (file_ids ks)" "k \<in> set ks \<Longrightarrow> skill_ok k"
  using assms by (simp_all add: skills_inv_def)

lemma file_ids_append [simp]: "file_ids (a @ b) = file_ids a @ file_ids b" "file_ids (k # b) = map sf_id (k_files k) @ file_ids b"
  "file_ids [] = []"
  by (simp_all add: file_ids_def)

lemma file_ids_in: "k \<in> set ks \<Longrightarrow> f \<in> set (k_files k) \<Longrightarrow> sf_id f \<in> set (file_ids ks)"
  by (auto simp: file_ids_def)

lemma file_ids_of: "distinct (file_ids ks) \<Longrightarrow> k \<in> set ks \<Longrightarrow> distinct (map sf_id (k_files k))"
  by (auto dest!: split_list)

text \<open>A new row, a deleted row, and a changed row.\<close>

lemma skills_inv_append:
  assumes "skills_inv ks" "k_id k \<notin> k_id ` set ks" "k_name k \<notin> k_name ` set ks" "skill_ok k"
    and "distinct (map sf_id (k_files k))" "set (map sf_id (k_files k)) \<inter> set (file_ids ks) = {}"
  shows "skills_inv (ks @ [k])"
  using assms by (auto simp: skills_inv_def)

lemma skills_inv_filter: "skills_inv ks \<Longrightarrow> skills_inv (filter P ks)"
proof -
  have s: "set (file_ids (filter P ks)) \<subseteq> set (file_ids ks)" for ks by (induction ks) auto
  have "distinct (file_ids ks) \<Longrightarrow> distinct (file_ids (filter P ks))"
  proof (induction ks)
    case (Cons k ks)
    then show ?case using s[of ks] by auto
  qed simp
  then show "skills_inv ks \<Longrightarrow> skills_inv (filter P ks)"
    by (auto simp: skills_inv_def distinct_map_filter)
qed

lemma change_skill_ids: "(\<And>k. k_id (f k) = k_id k) \<Longrightarrow> map k_id (change_skill i f ks) = map k_id ks"
  by (induction ks) (simp_all add: change_skill_def)

lemma change_skill_absent: "i \<notin> k_id ` set ks \<Longrightarrow> change_skill i f ks = ks"
  by (induction ks) (auto simp: change_skill_def)

lemma change_skill_split:
  assumes "skills_inv ks" "k \<in> set ks"
  obtains a b where "ks = a @ k # b" "change_skill (k_id k) f ks = a @ f k # b"
proof -
  obtain a b where ks: "ks = a @ k # b" using split_list[OF assms(2)] by blast
  then have "k_id k \<notin> k_id ` set a" "k_id k \<notin> k_id ` set b" using skills_invD(1)[OF assms(1)] by auto
  then have "change_skill (k_id k) f ks = a @ f k # b"
    using change_skill_absent[of "k_id k" a] change_skill_absent[of "k_id k" b]
    unfolding ks by (simp add: change_skill_def)
  with ks that show thesis by blast
qed

lemma skills_inv_change:
  assumes "skills_inv ks" "k \<in> set ks" "k_id (f k) = k_id k" "skill_ok (f k)"
    and "k_name (f k) = k_name k \<or> k_name (f k) \<notin> k_name ` set ks"
    and "distinct (map sf_id (k_files (f k)))"
    and "\<And>j. j \<in> set (map sf_id (k_files (f k))) \<Longrightarrow> j \<in> set (map sf_id (k_files k)) \<or> j \<notin> set (file_ids ks)"
  shows "skills_inv (change_skill (k_id k) f ks)"
proof -
  obtain a b where ks: "ks = a @ k # b" and c: "change_skill (k_id k) f ks = a @ f k # b"
    using change_skill_split[OF assms(1,2)] by blast
  have "distinct (map k_name (a @ f k # b))"
    using skills_invD(2)[OF assms(1)] assms(5) unfolding ks by (auto simp: image_iff)
  moreover have "distinct (file_ids (a @ f k # b))"
    using skills_invD(3)[OF assms(1)] assms(6,7) unfolding ks by (auto simp: image_iff)
  moreover have "distinct (map k_id (a @ f k # b))"
    using skills_invD(1)[OF assms(1)] assms(3) unfolding ks by simp
  moreover have "\<forall>x \<in> set (a @ f k # b). skill_ok x"
    using skills_invD(4)[OF assms(1)] assms(4) unfolding ks by auto
  ultimately show ?thesis unfolding c skills_inv_def by blast
qed

lemma number_files_spec:
  "map sf_id (number_files n xs) = [n..<n + length xs]" "map sf_path (number_files n xs) = map fst xs"
  by (induction n xs rule: number_files.induct) (simp_all add: upt_conv_Cons del: upt_Suc)

lemma file_entry_path: "file_entry f = Inr (p, c) \<Longrightarrow> skill_path_ok p"
  by (auto simp: file_entry_def intro: mcp_path_error_None split: json.splits option.splits if_splits)

lemma file_entries_paths: "file_entries fs = Inr xs \<Longrightarrow> x \<in> set xs \<Longrightarrow> skill_path_ok (fst x)"
proof (induction fs arbitrary: xs)
  case (Cons f fs)
  then show ?case using file_entry_path[of f] by (auto simp: bind_res_eq_Inr)
qed simp

lemma checked_files_ok:
  "checked_files files = Inr xs \<Longrightarrow> distinct (map fst xs) \<and> (\<forall>x \<in> set xs. skill_path_ok (fst x))"
  using file_entries_paths by (fastforce simp: checked_files_def bind_res_eq_Inr split: if_splits)

lemma numbered_files_ok:
  assumes "checked_files files = Inr xs"
  shows "distinct (map sf_path (number_files n xs))" "\<forall>f \<in> set (number_files n xs). skill_path_ok (sf_path f)"
    "distinct (map sf_id (number_files n xs))"
proof -
  note ok = checked_files_ok[OF assms]
  show "distinct (map sf_path (number_files n xs))" using ok by (simp add: number_files_spec)
  have "sf_path ` set (number_files n xs) = fst ` set xs"
    using number_files_spec(2)[of n xs] by (metis list.set_map)
  then show "\<forall>f \<in> set (number_files n xs). skill_path_ok (sf_path f)" using ok by (metis image_iff)
qed (simp add: number_files_spec)

lemma fresh_above: "x \<in> set xs \<Longrightarrow> x < fresh_id xs"
proof -
  have "x \<in> set xs \<Longrightarrow> x \<le> foldr max xs 0" by (induction xs) (auto intro: max.coboundedI2)
  then show "x \<in> set xs \<Longrightarrow> x < fresh_id xs" by (simp add: fresh_id_def less_Suc_eq_le)
qed

lemma numbered_fresh: "j \<in> set (map sf_id (number_files (fresh_id used) xs)) \<Longrightarrow> j \<notin> set used"
  using fresh_above[of j used] by (auto simp: number_files_spec)

subsection \<open>Every operation keeps it\<close>

lemma create_skill_inv:
  assumes "create_skill body ks = Inr (k, ks')" "skills_inv ks"
  shows "skills_inv ks'"
proof -
  from assms(1) obtain e u u' n d x where
    v: "validate_skill_name (body_get body ''name'') = Inr e" "refuse_if e = Inr u" "text_column (body_get body ''name'') = Inr n"
      "check_description (body_get body ''description'') = Inr u'" "text_column (body_get body ''description'') = Inr d"
    and n: "skill_named n ks = None"
    and ks': "ks' = ks @ [\<lparr>k_id = fresh_id (map k_id ks), k_name = n, k_description = d, k_instructions = x, k_files = []\<rparr>]"
    by (auto simp: create_skill_def Let_def bind_res_eq_Inr split: if_splits)
  have "skill_ok \<lparr>k_id = fresh_id (map k_id ks), k_name = n, k_description = d, k_instructions = x, k_files = []\<rparr>"
    using validated_name[OF v(1-3)] validated_description[OF v(4,5)] by (simp add: skill_ok_def)
  then show ?thesis
    using fresh_id_notin[of "map k_id ks"] n unfolding ks'
    by (intro skills_inv_append[OF assms(2)]) (simp_all add: skill_named_None)
qed

lemma body_field_cases:
  assumes "body_field body key check old = Inr j"
  shows "j = JStr old \<or> (\<exists>u. check j = Inr u)"
  using assms by (auto simp: body_field_def bind_res_eq_Inr split: option.splits)

lemma update_skill_inv:
  assumes "update_skill i body ks = Inr ks'" "skills_inv ks"
  shows "skills_inv ks'"
proof -
  from assms(1) obtain k jn jd x n d where
    k: "find_skill i ks = Some k" and
    jn: "body_field body ''name'' (check_new_name k ks) (k_name k) = Inr jn" "text_column jn = Inr n" and
    jd: "body_field body ''description'' check_description (k_description k) = Inr jd" "text_column jd = Inr d" and
    ks': "ks' = change_skill i (\<lambda>k. k\<lparr>k_name := n, k_description := d, k_instructions := x\<rparr>) ks"
    by (auto simp: update_skill_def get_skill_by_id_def bind_res_eq_Inr split: option.splits)
  from find_skill_Some[OF k] have k': "k \<in> set ks" "k_id k = i" by simp_all
  note ok = skills_invD(4)[OF assms(2) k'(1)]
  have d: "length d \<le> 1024"
    using body_field_cases[OF jd(1)] jd(2) ok validated_description by (fastforce simp: text_column_def skill_ok_def)
  have n: "skill_name_ok n \<and> (n = k_name k \<or> n \<notin> k_name ` set ks)"
  proof (cases "jn = JStr (k_name k)")
    case True
    then show ?thesis using jn(2) ok by (simp add: text_column_def skill_ok_def)
  next
    case False
    then obtain u where u: "check_new_name k ks jn = Inr u" using body_field_cases[OF jn(1)] by blast
    from u obtain e u' where "validate_skill_name jn = Inr e" "refuse_if e = Inr u'"
      by (auto simp: check_new_name_def bind_res_eq_Inr)
    then have "skill_name_ok n" using jn(2) by (rule validated_name)
    moreover have "n = k_name k \<or> n \<notin> k_name ` set ks"
      using u jn(2) by (auto simp: check_new_name_def bind_res_eq_Inr text_column_def skill_named_None split: json.splits if_splits)
    ultimately show ?thesis by blast
  qed
  have "skills_inv (change_skill (k_id k) (\<lambda>k. k\<lparr>k_name := n, k_description := d, k_instructions := x\<rparr>) ks)"
    by (rule skills_inv_change[OF assms(2) k'(1)])
      (use n d ok file_ids_of[OF skills_invD(3)[OF assms(2)] k'(1)] in \<open>auto simp: skill_ok_def\<close>)
  then show ?thesis using k'(2) ks' by simp
qed

lemma add_skill_file_inv:
  assumes "add_skill_file i body ks = Inr ks'" "skills_inv ks"
  shows "skills_inv ks'"
proof -
  from assms(1) obtain k e u p c where
    k: "find_skill i ks = Some k" and
    p: "validate_skill_file_path (body_get body ''path'') = Inr e" "refuse_if e = Inr u" "text_column (body_get body ''path'') = Inr p"
      "p \<notin> sf_path ` set (k_files k)" and
    ks': "ks' = change_skill i (\<lambda>k. k\<lparr>k_files := k_files k @ [\<lparr>sf_id = fresh_id (file_ids ks), sf_path = p, sf_content = c\<rparr>]\<rparr>) ks"
    by (auto simp: add_skill_file_def get_skill_by_id_def bind_res_eq_Inr split: option.splits if_splits)
  from find_skill_Some[OF k] have k': "k \<in> set ks" "k_id k = i" by simp_all
  note ok = skills_invD(4)[OF assms(2) k'(1)] and fi = file_ids_of[OF skills_invD(3)[OF assms(2)] k'(1)]
  have "skill_path_ok p"
    using p(1-3) by (auto simp: validate_skill_file_path_def refuse_if_def text_column_def intro: path_error_None split: json.splits option.splits)
  moreover have "fresh_id (file_ids ks) \<notin> sf_id ` set (k_files k)"
    using fresh_id_notin[of "file_ids ks"] file_ids_in[OF k'(1)] by fastforce
  ultimately have "skills_inv (change_skill (k_id k) (\<lambda>k. k\<lparr>k_files := k_files k @
      [\<lparr>sf_id = fresh_id (file_ids ks), sf_path = p, sf_content = c\<rparr>]\<rparr>) ks)"
    by (intro skills_inv_change[OF assms(2) k'(1)])
      (use ok fi p(4) fresh_id_notin[of "file_ids ks"] in \<open>auto simp: skill_ok_def\<close>)
  then show ?thesis using k'(2) ks' by simp
qed

lemma delete_skill_file_inv:
  assumes "delete_skill_file i j ks = Inr ks'" "skills_inv ks"
  shows "skills_inv ks'"
proof -
  from assms(1) obtain k where k: "k \<in> set ks" "k_id k = i" and
    ks': "ks' = change_skill (k_id k) (\<lambda>k. k\<lparr>k_files := filter (\<lambda>f. sf_id f \<noteq> j) (k_files k)\<rparr>) ks"
    by (auto simp: delete_skill_file_def list_ex_iff split: if_splits)
  show ?thesis
    unfolding ks'
    by (rule skills_inv_change[OF assms(2) k(1)])
      (use skills_invD(4)[OF assms(2) k(1)] file_ids_of[OF skills_invD(3)[OF assms(2)] k(1)]
        in \<open>auto simp: skill_ok_def distinct_map_filter\<close>)
qed

lemma upsert_skill_inv:
  assumes "upsert_skill name description instructions files ks = Inr (new, i, ks')" "skills_inv ks"
  shows "skills_inv ks'"
proof -
  let ?first = "fresh_id (file_ids ks)"
  from assms(1) obtain fs where
    n: "name_error True name = None" and d: "length description \<le> 1024" and fs: "checked_files files = Inr fs" and
    r: "(case skill_named name ks of
         Some k \<Rightarrow> ks' = change_skill (k_id k) (\<lambda>k. k\<lparr>k_description := description,
             k_instructions := instructions, k_files := number_files ?first fs\<rparr>) ks
       | None \<Rightarrow> ks' = ks @ [\<lparr>k_id = fresh_id (map k_id ks), k_name = name, k_description = description,
              k_instructions = instructions, k_files = number_files ?first fs\<rparr>])"
    by (auto simp: upsert_skill_def Let_def bind_res_eq_Inr split: option.splits if_splits)
  note nf = numbered_files_ok[OF fs, of ?first] and nn = name_error_None[OF n]
  show ?thesis
  proof (cases "skill_named name ks")
    case None
    have "skill_ok \<lparr>k_id = fresh_id (map k_id ks), k_name = name, k_description = description,
        k_instructions = instructions, k_files = number_files ?first fs\<rparr>"
      using nf nn d by (simp add: skill_ok_def)
    moreover have "set (map sf_id (number_files ?first fs)) \<inter> set (file_ids ks) = {}"
      using numbered_fresh by blast
    ultimately show ?thesis
      using r None nf(3) fresh_id_notin[of "map k_id ks"]
      by (simp, intro skills_inv_append[OF assms(2)]) (simp_all add: skill_named_None)
  next
    case (Some k)
    note k = skill_named_Some[OF Some]
    have "skills_inv (change_skill (k_id k) (\<lambda>k. k\<lparr>k_description := description,
             k_instructions := instructions, k_files := number_files ?first fs\<rparr>) ks)"
      by (rule skills_inv_change[OF assms(2)])
        (use k nf nn d numbered_fresh skills_invD(4)[OF assms(2)] in \<open>auto simp: skill_ok_def\<close>)
    then show ?thesis using r Some by simp
  qed
qed

inductive skills_step :: "skill list \<Rightarrow> skill list \<Rightarrow> bool" where
  "create_skill body ks = Inr (k, ks') \<Longrightarrow> skills_step ks ks'"
| "update_skill i body ks = Inr ks' \<Longrightarrow> skills_step ks ks'"
| "delete_skill i ks = Inr ks' \<Longrightarrow> skills_step ks ks'"
| "add_skill_file i body ks = Inr ks' \<Longrightarrow> skills_step ks ks'"
| "delete_skill_file i j ks = Inr ks' \<Longrightarrow> skills_step ks ks'"
| "upsert_skill name description instructions files ks = Inr (new, i, ks') \<Longrightarrow> skills_step ks ks'"
| "mcp_delete_skill name ks = Inr ks' \<Longrightarrow> skills_step ks ks'"

lemma skills_step_inv: "skills_step ks ks' \<Longrightarrow> skills_inv ks \<Longrightarrow> skills_inv ks'"
  by (induction rule: skills_step.induct)
    (auto intro: create_skill_inv update_skill_inv add_skill_file_inv delete_skill_file_inv upsert_skill_inv skills_inv_filter
      simp: delete_skill_def mcp_delete_skill_def bind_res_eq_Inr split: option.splits)

lemma skills_reachable_inv: "skills_step\<^sup>*\<^sup>* ks ks' \<Longrightarrow> skills_inv ks \<Longrightarrow> skills_inv ks'"
  by (induction rule: rtranclp_induct) (auto intro: skills_step_inv)

subsection \<open>Properties\<close>

text \<open>C22. Whatever requests and tools change the skills, in whatever order: ids and names stay unique, a
  name is at most 64 characters, lower case and of letters, digits and inner hyphens (up to one final
  newline), a description at most 1024, and within a skill every file has its own path, one name
  below \<open>scripts/\<close>, \<open>references/\<close> or \<open>assets/\<close>.\<close>

theorem skills_always_valid:
  assumes "skills_step\<^sup>*\<^sup>* [] ks"
  shows "distinct (map k_id ks) \<and> distinct (map k_name ks) \<and> distinct (file_ids ks) \<and>
    list_all (\<lambda>k. length (k_name k) \<le> 64 \<and> py_lower (k_name k) = k_name k \<and>
      (name_core (k_name k) \<or> name_core (butlast (k_name k)) \<and> last (k_name k) = newline) \<and>
      length (k_description k) \<le> 1024 \<and> distinct (map sf_path (k_files k)) \<and>
      list_all (\<lambda>f. \<exists>d n. sf_path f = d @ CHR ''/'' # n \<and> d \<in> {''scripts'', ''references'', ''assets''} \<and>
        n \<noteq> [] \<and> CHR ''/'' \<notin> set n) (k_files k)) ks"
proof -
  have "skills_inv ks" by (rule skills_reachable_inv[OF assms]) (simp add: skills_inv_def)
  then show ?thesis
    unfolding skills_inv_def skill_ok_def skill_name_ok_def name_matches_def skill_path_ok_def list_all_iff by blast
qed

definition sample_file :: json where
  "sample_file = JObj [(''path'', JStr ''scripts/..''), (''content'', JStr ''x'')]"

definition sample_skills :: "skill list" where
  "sample_skills = snd (snd (case upsert_skill (''a--b'' @ [newline]) [] ''use it'' (Some [sample_file]) [] of Inr r \<Rightarrow> r))"

theorem skills_always_valid_witness:
  "map k_name sample_skills = [''a--b'' @ [newline]] \<and>
   map sf_path (k_files (hd sample_skills)) = [''scripts/..''] \<and> distinct (map k_name sample_skills)"
proof -
  have v: "map k_name sample_skills = [''a--b'' @ [newline]]"
    "map sf_path (k_files (hd sample_skills)) = [''scripts/..'']"
    "case upsert_skill (''a--b'' @ [newline]) [] ''use it'' (Some [sample_file]) [] of Inl _ \<Rightarrow> False | Inr _ \<Rightarrow> True"
    by code_simp+
  then have "skills_step [] sample_skills"
    unfolding sample_skills_def by (auto split: sum.splits prod.splits intro: skills_step.intros(6))
  then have "skills_step\<^sup>*\<^sup>* [] sample_skills" by blast
  from skills_always_valid[OF this] v show ?thesis by blast
qed

end
