(* ===== verification/Settings.thy ===== *)
theory Settings
  imports Py_Text Py_Json_Dumps
begin

text \<open>
  The settings: \<open>errand/settings_registry.py\<close> and the handlers of \<open>errand/main.py\<close> that read and write
  them.  The table is a dictionary from keys to JSON values, the environment a partial function.
  Which names of time zones the system knows is a parameter, and so are the random tokens.
\<close>

type_synonym settings_table = "(string \<times> json) list"
type_synonym environment = "string \<rightharpoonup> string"

record setting_meta =
  sm_env_var :: "string option"
  sm_sensitive :: bool
  sm_default :: json
  sm_mask_always :: bool

definition meta :: "string option \<Rightarrow> bool \<Rightarrow> json \<Rightarrow> setting_meta" where
  "meta env sensitive d = \<lparr>sm_env_var = env, sm_sensitive = sensitive, sm_default = d, sm_mask_always = False\<rparr>"

definition no_model :: json where
  "no_model = JObj [(''provider_id'', JNull), (''model'', JStr [])]"

definition SETTINGS_REGISTRY :: "(string \<times> setting_meta) list" where
  "SETTINGS_REGISTRY =
     [(''system_prompt'', meta None False (JStr [])),
      (''llm_model'', meta None False no_model),
      (''task_processing_model'', meta None False no_model),
      (''transcription_model'', meta None False no_model),
      (''task_runner_log_level'', meta None False (JStr ''INFO'')),
      (''timezone'', meta None False (JStr ''UTC'')),
      (''max_turns'', meta (Some ''MAX_TURNS'') False (JInt 200)),
      (''reasoning_effort'', meta (Some ''REASONING_EFFORT'') False (JStr ''medium'')),
      (''archive_after_days'', meta None False (JInt 3)),
      (''clarification_max_rounds'', meta None False (JInt 2)),
      (''mcp_servers'', meta None False JNull),
      (''mcp_api_key'', meta None True JNull),
      (''ssh_public_key'', meta None False JNull),
      (''git_ssh_hosts'', meta None False (JArr [JStr ''github.com'', JStr ''bitbucket.org''])),
      (''skills_git_repo'', meta None False JNull),
      (''oidc_discovery_url'', meta (Some ''OIDC_DISCOVERY_URL'') False (JStr [])),
      (''oidc_client_id'', meta (Some ''OIDC_CLIENT_ID'') False (JStr [])),
      (''oidc_client_secret'', meta (Some ''OIDC_CLIENT_SECRET'') True (JStr [])),
      (''oidc_roles_claim'', meta (Some ''OIDC_ROLES_CLAIM'') False (JStr ''resource_access.errand.roles'')),
      (''litellm_mcp_servers'', meta None False (JArr [])),
      (''hindsight_url'', meta (Some ''HINDSIGHT_URL'') False (JStr [])),
      (''hindsight_bank_id'', meta (Some ''HINDSIGHT_BANK_ID'') False (JStr ''errand-tasks'')),
      (''hindsight_token'', meta (Some ''HINDSIGHT_TOKEN'') True (JStr []) \<lparr>sm_mask_always := True\<rparr>),
      (''title_generation_timeout'', meta None False (JInt 30)),
      (''task_processing_timeout'', meta None False (JInt 30)),
      (''transcription_timeout'', meta None False (JInt 30)),
      (''compaction_model'', meta (Some ''COMPACTION_MODEL'') False no_model),
      (''compaction_timeout'', meta (Some ''COMPACTION_TIMEOUT_SECONDS'') False (JInt 180)),
      (''compaction_max_tokens'', meta (Some ''COMPACTION_MAX_TOKENS'') False (JInt 4096)),
      (''max_context_tokens'', meta (Some ''MAX_CONTEXT_TOKENS'') False (JInt 150000)),
      (''cloud_service_url'', meta None False (JStr ''https://errand.cloud'')),
      (''cloud_endpoints'', meta None False (JArr [])),
      (''telemetry_enabled'', meta (Some ''TELEMETRY_ENABLED'') False (JBool True)),
      (''max_concurrent_tasks'', meta (Some ''MAX_CONCURRENT_TASKS'') False (JInt 3)),
      (''max_retry_attempts'', meta (Some ''MAX_RETRY_ATTEMPTS'') False (JInt 5)),
      (''task_log_buffer_max_entries'', meta None False (JInt 5000)),
      (''task_log_buffer_ttl_seconds'', meta None False (JInt 86400)),
      (''plugin_poll_interval_seconds'', meta None False (JInt 21600)),
      (''url_fetch_allowlist'', meta None False (JArr []))]"

definition EXCLUDED_KEYS :: "string set" where
  "EXCLUDED_KEYS = {''ssh_private_key'', ''jwt_signing_secret''}"

definition mask_sensitive_value :: "json \<Rightarrow> string" where
  "mask_sensitive_value v =
     (if \<not> json_truthy v \<or> length (py_str v) \<le> 4 then ''****'' else take 4 (py_str v) @ ''****'')"

subsection \<open>Reading\<close>

definition decoded :: "json \<Rightarrow> py_error + json" where
  "decoded raw =
     (case raw of
        JStr s \<Rightarrow> (case json_loads s of None \<Rightarrow> Inl (ValueErr ''JSONDecodeError'') | Some v \<Rightarrow> Inr v)
      | _ \<Rightarrow> Inr raw)"

definition coerce :: "json \<Rightarrow> json \<Rightarrow> py_error + json" where
  "coerce raw dflt =
     (case dflt of
        JNull \<Rightarrow> Inr raw
      | JBool _ \<Rightarrow>
          (case raw of
             JBool b \<Rightarrow> Inr raw
           | JStr s \<Rightarrow>
               (let n = py_lower (strip s) in
                if n \<in> {''true'', ''1''} then Inr (JBool True)
                else if n \<in> {''false'', ''0''} then Inr (JBool False)
                else Inl (ValueErr ''cannot coerce to bool''))
           | _ \<Rightarrow> Inl (TypeErr ''cannot coerce to bool''))
      | JInt _ \<Rightarrow>
          (case raw of
             JBool _ \<Rightarrow> Inl (TypeErr ''refusing to coerce bool to int'')
           | _ \<Rightarrow> bind_res (json_int raw) (\<lambda>n. Inr (JInt n)))
      | JStr _ \<Rightarrow> Inr (JStr (py_str raw))
      | JObj _ \<Rightarrow> bind_res (decoded raw) (\<lambda>v. case v of JObj _ \<Rightarrow> Inr v | _ \<Rightarrow> Inl (TypeErr ''expected dict''))
      | JArr _ \<Rightarrow> bind_res (decoded raw) (\<lambda>v. case v of JArr _ \<Rightarrow> Inr v | _ \<Rightarrow> Inl (TypeErr ''expected list''))
      | JFloat _ \<Rightarrow> Inr raw)"

datatype source = Env | Database | Default

definition env_value :: "environment \<Rightarrow> setting_meta \<Rightarrow> string option" where
  "env_value env m = (case Option.bind (sm_env_var m) env of Some v \<Rightarrow> if v = [] then None else Some v | None \<Rightarrow> None)"

definition or_default :: "json \<Rightarrow> source \<Rightarrow> py_error + json \<Rightarrow> json \<times> source" where
  "or_default dflt src r = (case r of Inl _ \<Rightarrow> (dflt, Default) | Inr v \<Rightarrow> (v, src))"

definition resolve_meta :: "environment \<Rightarrow> setting_meta \<Rightarrow> json option \<Rightarrow> json \<times> source" where
  "resolve_meta env m row =
     (case env_value env m of
        Some v \<Rightarrow> or_default (sm_default m) Env (coerce (JStr v) (sm_default m))
      | None \<Rightarrow>
          (case row of
             Some v \<Rightarrow> or_default (sm_default m) Database (coerce v (sm_default m))
           | None \<Rightarrow> (sm_default m, Default)))"

definition resolve_setting_value :: "environment \<Rightarrow> settings_table \<Rightarrow> string \<Rightarrow> py_error + json \<times> source" where
  "resolve_setting_value env rows key =
     (case dict_get SETTINGS_REGISTRY key of
        None \<Rightarrow> Inl (KeyErr key)
      | Some m \<Rightarrow> Inr (resolve_meta env m (dict_get rows key)))"

definition MODEL_SETTING_KEYS :: "string set" where
  "MODEL_SETTING_KEYS = {''llm_model'', ''task_processing_model'', ''transcription_model'', ''compaction_model''}"

text \<open>\<open>value.get("model") or value.get("model_id")\<close>, \<open>None\<close> where it is null or absent.\<close>

definition model_of :: "(string \<times> json) list \<Rightarrow> json" where
  "model_of d =
     (let m = json_get_or_null (JObj d) ''model'' in
      if json_truthy m then m else json_get_or_null (JObj d) ''model_id'')"

definition normalize_model_setting_value :: "json \<Rightarrow> json" where
  "normalize_model_setting_value v =
     (case v of
        JObj d \<Rightarrow>
          (let m = model_of d in
           if m = JNull then v else JObj (dict_set ''model_id'' m (dict_set ''model'' m d)))
      | _ \<Rightarrow> v)"

record resolved_setting =
  rs_value :: json
  rs_source :: source
  rs_sensitive :: bool
  rs_readonly :: bool

definition shown_value :: "string \<Rightarrow> setting_meta \<Rightarrow> json \<Rightarrow> source \<Rightarrow> json" where
  "shown_value key m v src =
     (let v = (if sm_sensitive m \<and> json_truthy v \<and> (src = Env \<or> sm_mask_always m)
               then JStr (mask_sensitive_value v) else v)
      in if key \<in> MODEL_SETTING_KEYS then normalize_model_setting_value v else v)"

definition show_setting :: "environment \<Rightarrow> settings_table \<Rightarrow> string \<times> setting_meta \<Rightarrow> string \<times> resolved_setting" where
  "show_setting env rows e =
     (case e of (key, m) \<Rightarrow>
        (case resolve_meta env m (dict_get rows key) of (v, src) \<Rightarrow>
           (key, \<lparr>rs_value = shown_value key m v src, rs_source = src, rs_sensitive = sm_sensitive m,
                  rs_readonly = (src = Env)\<rparr>)))"

definition resolve_settings :: "environment \<Rightarrow> settings_table \<Rightarrow> (string \<times> resolved_setting) list" where
  "resolve_settings env rows = map (show_setting env rows) (filter (\<lambda>e. fst e \<notin> EXCLUDED_KEYS) SETTINGS_REGISTRY)"

definition get_worker_defaults :: "environment \<Rightarrow> settings_table \<Rightarrow> py_error + string option \<times> json" where
  "get_worker_defaults env rows =
     bind_res (resolve_setting_value env rows ''max_turns'') (\<lambda>(turns, _).
     bind_res (resolve_setting_value env rows ''reasoning_effort'') (\<lambda>(effort, _).
       Inr (if turns = JNull then None else Some (py_str turns), if json_truthy effort then effort else JNull)))"

subsection \<open>Writing\<close>

definition non_negative_int :: "json \<Rightarrow> string option" where
  "non_negative_int v =
     (case v of JInt n \<Rightarrow> if n < 0 then Some ''must be a non-negative integer'' else None
      | _ \<Rightarrow> Some ''must be a non-negative integer'')"

definition positive_int :: "json \<Rightarrow> string option" where
  "positive_int v =
     (case v of JInt n \<Rightarrow> if n < 1 then Some ''must be a positive integer'' else None
      | _ \<Rightarrow> Some ''must be a positive integer'')"

text \<open>Looking for a list or an object in a set raises, in a tuple not.\<close>

definition valid_effort :: "json \<Rightarrow> py_error + string option" where
  "valid_effort v =
     (case v of
        JArr _ \<Rightarrow> Inl (TypeErr ''unhashable type'')
      | JObj _ \<Rightarrow> Inl (TypeErr ''unhashable type'')
      | _ \<Rightarrow> Inr (if v \<in> {JStr ''low'', JStr ''medium'', JStr ''high''} then None
               else Some ''must be one of: high, low, medium''))"

definition valid_log_level :: "json \<Rightarrow> string option" where
  "valid_log_level v =
     (if v \<in> {JStr ''DEBUG'', JStr ''INFO'', JStr ''WARNING'', JStr ''ERROR''} then None
      else Some ''must be one of: DEBUG, INFO, WARNING, ERROR'')"

definition valid_timezone :: "(string \<Rightarrow> bool) \<Rightarrow> json \<Rightarrow> string option" where
  "valid_timezone zone_known v =
     (case v of
        JStr s \<Rightarrow>
          if s = [] then Some ''must be an IANA time zone name''
          else if zone_known s then None else Some (''is not a known IANA time zone: '' @ repr_str s)
      | _ \<Rightarrow> Some ''must be an IANA time zone name'')"

definition problem_of :: "(string \<Rightarrow> bool) \<Rightarrow> string \<Rightarrow> json \<Rightarrow> py_error + string option" where
  "problem_of zone_known key v =
     (if key = ''plugin_poll_interval_seconds'' then Inr (non_negative_int v)
      else if key \<in> {''max_turns'', ''clarification_max_rounds''} then Inr (positive_int v)
      else if key = ''reasoning_effort'' then valid_effort v
      else if key = ''task_runner_log_level'' then Inr (valid_log_level v)
      else if key = ''timezone'' then Inr (valid_timezone zone_known v)
      else Inr None)"

definition NULL_CLEARS_KEYS :: "string set" where
  "NULL_CLEARS_KEYS = {''max_turns'', ''reasoning_effort''}"

definition env_sourced :: "environment \<Rightarrow> string \<Rightarrow> bool" where
  "env_sourced env key =
     (case dict_get SETTINGS_REGISTRY key of None \<Rightarrow> False | Some m \<Rightarrow> env_value env m \<noteq> None)"

text \<open>The mask of the stored value, sent back.\<close>

definition mask_echo :: "settings_table \<Rightarrow> string \<Rightarrow> json \<Rightarrow> bool" where
  "mask_echo rows key v =
     (case (dict_get SETTINGS_REGISTRY key, v, dict_get rows key) of
        (Some m, JStr s, Some (JStr stored)) \<Rightarrow>
          sm_mask_always m \<and> stored \<noteq> [] \<and> s = mask_sensitive_value (JStr stored)
      | _ \<Rightarrow> False)"

definition update_setting ::
    "environment \<Rightarrow> (string \<Rightarrow> bool) \<Rightarrow> string \<times> json \<Rightarrow> settings_table \<Rightarrow> py_error + settings_table" where
  "update_setting env zone_known e rows =
     (case e of (key, v) \<Rightarrow>
        if key = ''skills'' \<or> key \<in> EXCLUDED_KEYS \<or> env_sourced env key then Inr rows
        else
          (let clears = (v = JNull \<and> key \<in> NULL_CLEARS_KEYS) in
           bind_res (if clears then Inr None else problem_of zone_known key v) (\<lambda>p.
             (case p of
                Some problem \<Rightarrow> Inl (Http 422 (key @ '' '' @ problem))
              | None \<Rightarrow>
                  if mask_echo rows key v then Inr rows
                  else
                    (let v = (if key \<in> MODEL_SETTING_KEYS then normalize_model_setting_value v else v) in
                     Inr (if clears then dict_del key rows else dict_set key v rows))))))"

fun update_each ::
    "environment \<Rightarrow> (string \<Rightarrow> bool) \<Rightarrow> (string \<times> json) list \<Rightarrow> settings_table \<Rightarrow> py_error + settings_table" where
  "update_each env zone_known [] rows = Inr rows"
| "update_each env zone_known (e # es) rows =
     bind_res (update_setting env zone_known e rows) (update_each env zone_known es)"

definition oidc_keys :: "string set" where
  "oidc_keys = {''oidc_discovery_url'', ''oidc_client_id'', ''oidc_client_secret'', ''oidc_roles_claim''}"

text \<open>The table that is committed, what is returned, and whether the OIDC client is reloaded.\<close>

definition update_settings ::
    "environment \<Rightarrow> (string \<Rightarrow> bool) \<Rightarrow> (string \<times> json) list \<Rightarrow> settings_table \<Rightarrow>
     py_error + settings_table \<times> (string \<times> resolved_setting) list \<times> bool" where
  "update_settings env zone_known body rows =
     bind_res (update_each env zone_known body rows) (\<lambda>rows'.
       Inr (rows', resolve_settings env rows', list_ex (\<lambda>k. k \<in> oidc_keys) (dict_keys body)))"

definition regenerate_mcp_key :: "string \<Rightarrow> settings_table \<Rightarrow> settings_table" where
  "regenerate_mcp_key token rows = dict_set ''mcp_api_key'' (JStr token) rows"

subsection \<open>Tunables of the task manager\<close>

definition resolve_init_value :: "environment \<Rightarrow> string \<Rightarrow> py_error + json" where
  "resolve_init_value env key =
     (case dict_get SETTINGS_REGISTRY key of
        None \<Rightarrow> Inl (KeyErr key)
      | Some m \<Rightarrow>
          (case env_value env m of
             None \<Rightarrow> Inr (sm_default m)
           | Some v \<Rightarrow> (case coerce (JStr v) (sm_default m) of Inl _ \<Rightarrow> Inr (sm_default m) | Inr x \<Rightarrow> Inr x)))"

record tunables =
  tn_max_concurrent :: int
  tn_buffer_entries :: int
  tn_buffer_ttl :: int

definition at_least_one :: "json \<Rightarrow> py_error + int" where
  "at_least_one v = (case v of JInt n \<Rightarrow> Inr (max 1 n) | _ \<Rightarrow> Inl (TypeErr ''not an int''))"

definition initial_tunables :: "environment \<Rightarrow> py_error + tunables" where
  "initial_tunables env =
     bind_res (bind_res (resolve_init_value env ''max_concurrent_tasks'') at_least_one) (\<lambda>c.
     bind_res (bind_res (resolve_init_value env ''task_log_buffer_max_entries'') at_least_one) (\<lambda>e.
     bind_res (bind_res (resolve_init_value env ''task_log_buffer_ttl_seconds'') at_least_one) (\<lambda>t.
       Inr \<lparr>tn_max_concurrent = c, tn_buffer_entries = e, tn_buffer_ttl = t\<rparr>)))"

text \<open>\<open>rows\<close> is \<open>None\<close> when the database cannot be read.  An exception leaves what was set before it.\<close>

definition set_tunable ::
    "environment \<Rightarrow> settings_table \<Rightarrow> string \<Rightarrow> (int \<Rightarrow> tunables \<Rightarrow> tunables) \<Rightarrow> tunables + tunables \<Rightarrow> tunables + tunables" where
  "set_tunable env rows key f r =
     bind_res r (\<lambda>t.
       (case bind_res (resolve_setting_value env rows key) (\<lambda>(v, _). at_least_one v) of
          Inl _ \<Rightarrow> Inl t | Inr n \<Rightarrow> Inr (f n t)))"

definition update_concurrency_setting :: "environment \<Rightarrow> settings_table option \<Rightarrow> tunables \<Rightarrow> tunables" where
  "update_concurrency_setting env rows t =
     (case rows of
        None \<Rightarrow> t
      | Some r \<Rightarrow>
          (case set_tunable env r ''task_log_buffer_ttl_seconds'' (\<lambda>n t. t\<lparr>tn_buffer_ttl := n\<rparr>)
             (set_tunable env r ''task_log_buffer_max_entries'' (\<lambda>n t. t\<lparr>tn_buffer_entries := n\<rparr>)
             (set_tunable env r ''max_concurrent_tasks'' (\<lambda>n t. t\<lparr>tn_max_concurrent := n\<rparr>) (Inr t))) of
             Inl t' \<Rightarrow> t' | Inr t' \<Rightarrow> t'))"

subsection \<open>The bearer of the memory service\<close>

text \<open>\<open>ensure_hindsight_token\<close> up to its commit: what it returned already, or the token it will write,
  into the row it read or into a new one.\<close>

datatype token_plan = Returned "string option" | Insert string | Update string

definition as_token :: "json \<Rightarrow> string option" where
  "as_token v = (if json_truthy v then Some (py_str v) else None)"

definition setting_value :: "environment \<Rightarrow> settings_table \<Rightarrow> string \<Rightarrow> json" where
  "setting_value env rows key = (case resolve_setting_value env rows key of Inl _ \<Rightarrow> JNull | Inr r \<Rightarrow> fst r)"

definition read_hindsight_token :: "environment \<Rightarrow> string \<Rightarrow> settings_table \<Rightarrow> token_plan" where
  "read_hindsight_token env generated rows =
     (if \<not> json_truthy (setting_value env rows ''hindsight_url'') then Returned None
      else case as_token (setting_value env rows ''hindsight_token'') of
        Some token \<Rightarrow> Returned (Some token)
      | None \<Rightarrow> (case dict_get rows ''hindsight_token'' of Some _ \<Rightarrow> Update generated | None \<Rightarrow> Insert generated))"

text \<open>The commit, on the table as it is then: a second row of the key is refused, and the token of the
  first is taken over.\<close>

definition commit_hindsight_token ::
    "environment \<Rightarrow> token_plan \<Rightarrow> settings_table \<Rightarrow> py_error + string option \<times> settings_table" where
  "commit_hindsight_token env p rows =
     (case p of
        Returned t \<Rightarrow> Inr (t, rows)
      | Update g \<Rightarrow>
          if dict_get rows ''hindsight_token'' = None then Inl (ValueErr ''StaleDataError'')
          else Inr (Some g, dict_set ''hindsight_token'' (JStr g) rows)
      | Insert g \<Rightarrow>
          if dict_get rows ''hindsight_token'' = None then Inr (Some g, dict_set ''hindsight_token'' (JStr g) rows)
          else (case as_token (setting_value env rows ''hindsight_token'') of
              Some t \<Rightarrow> Inr (Some t, rows) | None \<Rightarrow> Inl IntegrityErr))"

subsection \<open>Every setting has the type of its default\<close>

fun kind :: "json \<Rightarrow> nat" where
  "kind JNull = 0"
| "kind (JBool _) = 1"
| "kind (JInt _) = 2"
| "kind (JFloat _) = 3"
| "kind (JStr _) = 4"
| "kind (JArr _) = 5"
| "kind (JObj _) = 6"

lemma keep_kind:
  "(case x of JArr _ \<Rightarrow> Inr x | _ \<Rightarrow> Inl e) = Inr v \<longleftrightarrow> x = v \<and> kind v = 5"
  "(case x of JObj _ \<Rightarrow> Inr x | _ \<Rightarrow> Inl e) = Inr v \<longleftrightarrow> x = v \<and> kind v = 6"
  by (cases x; auto)+

lemma coerce_kind:
  assumes "coerce raw d = Inr v" "d \<noteq> JNull" "kind d \<noteq> 3"
  shows "kind v = kind d"
proof (cases "kind d \<in> {5, 6}")
  case True
  with assms show ?thesis by (cases d) (auto simp: coerce_def bind_res_eq_Inr keep_kind)
next
  case False
  with assms show ?thesis
    by (cases d) (auto simp: coerce_def Let_def bind_res_eq_Inr split: json.splits if_splits)
qed

lemma coerce_idem: "kind v = kind d \<Longrightarrow> d \<noteq> JNull \<Longrightarrow> coerce v d = Inr v"
  by (cases d; cases v) (simp_all add: coerce_def json_int_def decoded_def py_str_def)

lemma coerce_null: "coerce v JNull = Inr v"
  by (simp add: coerce_def)

lemma coerce_twice: "coerce raw d = Inr v \<Longrightarrow> kind d \<noteq> 3 \<Longrightarrow> coerce v d = Inr v"
  using coerce_kind[of raw d v] coerce_idem[of v d] coerce_null by (cases "d = JNull") auto

lemma resolve_meta_cases:
  "resolve_meta env m row = (v, src) \<Longrightarrow>
   v = sm_default m \<and> src = Default \<or> (\<exists>raw. coerce raw (sm_default m) = Inr v) \<and> src \<noteq> Default"
  by (auto simp: resolve_meta_def or_default_def split: option.splits sum.splits)

lemma resolve_meta_kind:
  "sm_default m \<noteq> JNull \<Longrightarrow> kind (sm_default m) \<noteq> 3 \<Longrightarrow> kind (fst (resolve_meta env m row)) = kind (sm_default m)"
  using resolve_meta_cases[of env m row "fst (resolve_meta env m row)" "snd (resolve_meta env m row)"] coerce_kind by force

lemma resolve_meta_coerced:
  assumes "kind (sm_default m) \<noteq> 3"
  shows "coerce (fst (resolve_meta env m row)) (sm_default m) = Inr (fst (resolve_meta env m row))"
proof -
  let ?v = "fst (resolve_meta env m row)"
  have "?v = sm_default m \<or> (\<exists>raw. coerce raw (sm_default m) = Inr ?v)"
    using resolve_meta_cases[of env m row ?v "snd (resolve_meta env m row)"] by auto
  then show ?thesis
    using coerce_twice[OF _ assms] coerce_idem[of "sm_default m"] coerce_null by (cases "sm_default m = JNull") auto
qed

text \<open>What the registry promises of each entry.\<close>

definition entry_ok :: "string \<times> setting_meta \<Rightarrow> bool" where
  "entry_ok e = (case e of (k, m) \<Rightarrow>
     k \<noteq> ''skills'' \<and> k \<notin> EXCLUDED_KEYS \<and> kind (sm_default m) \<noteq> 3 \<and>
     (k \<in> MODEL_SETTING_KEYS = (kind (sm_default m) = 6)) \<and>
     (sm_mask_always m = (k = ''hindsight_token'')) \<and>
     (if k \<in> NULL_CLEARS_KEYS \<or> sm_mask_always m then kind (sm_default m) \<in> {2, 4} else True) \<and>
     (if sm_mask_always m then sm_default m = JStr [] else True))"

lemma registry_ok: "list_all entry_ok SETTINGS_REGISTRY" by code_simp

lemma registry_distinct: "distinct (map fst SETTINGS_REGISTRY)" by code_simp

lemma registry_entry: "(k, m) \<in> set SETTINGS_REGISTRY \<Longrightarrow> entry_ok (k, m)"
  using registry_ok by (auto simp: list_all_iff)

lemma registry_get: "(k, m) \<in> set SETTINGS_REGISTRY \<longleftrightarrow> dict_get SETTINGS_REGISTRY k = Some m"
  using registry_distinct by simp

lemma resolve_settings_alt: "resolve_settings env rows = map (show_setting env rows) SETTINGS_REGISTRY"
proof -
  have "filter (\<lambda>e. fst e \<notin> EXCLUDED_KEYS) SETTINGS_REGISTRY = SETTINGS_REGISTRY"
  proof (intro filter_True ballI)
    fix e assume "e \<in> set SETTINGS_REGISTRY"
    then show "fst e \<notin> EXCLUDED_KEYS" using registry_entry[of "fst e" "snd e"] by (simp add: entry_ok_def case_prod_beta)
  qed
  then show ?thesis by (simp add: resolve_settings_def)
qed

definition int_setting :: "string \<Rightarrow> bool" where
  "int_setting k = (case dict_get SETTINGS_REGISTRY k of Some m \<Rightarrow> kind (sm_default m) = 2 | None \<Rightarrow> False)"

lemma tunables_are_ints:
  "int_setting ''max_concurrent_tasks''" "int_setting ''task_log_buffer_max_entries''"
  "int_setting ''task_log_buffer_ttl_seconds''" "int_setting ''max_turns''"
  by code_simp+

lemma kind_int: "kind v = 2 \<longleftrightarrow> (\<exists>n. v = JInt n)"
  by (cases v) auto

lemma int_setting_resolves:
  assumes "int_setting k"
  shows "\<exists>n src. resolve_setting_value env rows k = Inr (JInt n, src)"
proof -
  from assms obtain m where m: "dict_get SETTINGS_REGISTRY k = Some m" "kind (sm_default m) = 2"
    by (auto simp: int_setting_def split: option.splits)
  then have "kind (fst (resolve_meta env m (dict_get rows k))) = 2"
    using resolve_meta_kind[of m env "dict_get rows k"] by force
  then show ?thesis using m(1) by (auto simp: resolve_setting_value_def kind_int prod_eq_iff intro!: exI[of _ "snd _"])
qed

lemma init_is_resolved:
  "resolve_init_value env k = map_sum id fst (resolve_setting_value env [] k)"
  by (auto simp: resolve_init_value_def resolve_setting_value_def resolve_meta_def or_default_def split: option.splits sum.splits)

lemma tunable_value:
  assumes "int_setting k"
  obtains n where "1 \<le> n" "bind_res (resolve_setting_value env rows k) (\<lambda>(v, _). at_least_one v) = Inr n"
  using int_setting_resolves[OF assms, of env rows] that[of "max 1 _"] by (fastforce simp: at_least_one_def)

lemma init_tunable_value:
  assumes "int_setting k"
  obtains n where "1 \<le> n" "bind_res (resolve_init_value env k) at_least_one = Inr n"
  using int_setting_resolves[OF assms, of env "[]"] that[of "max 1 _"] by (fastforce simp: init_is_resolved at_least_one_def)

definition tunables_ok :: "tunables \<Rightarrow> bool" where
  "tunables_ok t \<longleftrightarrow> 1 \<le> tn_max_concurrent t \<and> 1 \<le> tn_buffer_entries t \<and> 1 \<le> tn_buffer_ttl t"

lemma update_concurrency_ok: "tunables_ok t \<Longrightarrow> tunables_ok (update_concurrency_setting env rows t)"
proof (cases rows)
  case (Some r)
  obtain a b c where
    "1 \<le> a" "bind_res (resolve_setting_value env r ''max_concurrent_tasks'') (\<lambda>(v, _). at_least_one v) = Inr a"
    "1 \<le> b" "bind_res (resolve_setting_value env r ''task_log_buffer_max_entries'') (\<lambda>(v, _). at_least_one v) = Inr b"
    "1 \<le> c" "bind_res (resolve_setting_value env r ''task_log_buffer_ttl_seconds'') (\<lambda>(v, _). at_least_one v) = Inr c"
    using tunable_value tunables_are_ints by metis
  then show ?thesis by (simp add: Some update_concurrency_setting_def set_tunable_def tunables_ok_def)
qed (simp add: update_concurrency_setting_def)

lemma initial_tunables_ok: "\<exists>t. initial_tunables env = Inr t \<and> tunables_ok t"
proof -
  obtain a b c where
    "1 \<le> a" "bind_res (resolve_init_value env ''max_concurrent_tasks'') at_least_one = Inr a"
    "1 \<le> b" "bind_res (resolve_init_value env ''task_log_buffer_max_entries'') at_least_one = Inr b"
    "1 \<le> c" "bind_res (resolve_init_value env ''task_log_buffer_ttl_seconds'') at_least_one = Inr c"
    using init_tunable_value tunables_are_ints by metis
  then show ?thesis by (simp add: initial_tunables_def tunables_ok_def)
qed

subsection \<open>What a write leaves in a row\<close>

text \<open>The row of a key after it was written, from the row before.\<close>

definition written :: "environment \<Rightarrow> string \<Rightarrow> json \<Rightarrow> json option \<Rightarrow> json option" where
  "written env key v old =
     (if key = ''skills'' \<or> key \<in> EXCLUDED_KEYS \<or> env_sourced env key \<or>
         mask_echo (case old of None \<Rightarrow> [] | Some x \<Rightarrow> [(key, x)]) key v then old
      else if v = JNull \<and> key \<in> NULL_CLEARS_KEYS then None
      else Some (if key \<in> MODEL_SETTING_KEYS then normalize_model_setting_value v else v))"

lemma mask_echo_row: "mask_echo rows key v = mask_echo (case dict_get rows key of None \<Rightarrow> [] | Some x \<Rightarrow> [(key, x)]) key v"
  by (cases v; cases "dict_get rows key"; simp add: mask_echo_def)

lemma update_setting_row:
  assumes "update_setting env z (key, v) rows = Inr rows'"
  shows "dict_get rows' = (dict_get rows)(key := written env key v (dict_get rows key))"
proof (cases "key = ''skills'' \<or> key \<in> EXCLUDED_KEYS \<or> env_sourced env key")
  case True
  then show ?thesis using assms by (auto simp: update_setting_def written_def fun_eq_iff)
next
  case False
  note mask_echo_row[of rows key v]
  with False assms show ?thesis
    by (auto simp: update_setting_def written_def Let_def bind_res_eq_Inr fun_eq_iff split: option.splits if_splits)
qed

lemma update_setting_accepts:
  assumes "update_setting env z (key, v) rows = Inr rows'" "dict_get rows' key \<noteq> dict_get rows key"
  shows "v = JNull \<and> key \<in> NULL_CLEARS_KEYS \<or> problem_of z key v = Inr None"
  using assms by (auto simp: update_setting_def Let_def bind_res_eq_Inr split: option.splits if_splits)

lemma update_each_rows:
  assumes "update_each env z body rows = Inr rows'" "distinct (map fst body)"
  shows "dict_get rows' k =
    (case dict_get body k of None \<Rightarrow> dict_get rows k | Some v \<Rightarrow> written env k v (dict_get rows k))"
  using assms
proof (induction body arbitrary: rows)
  case (Cons e body)
  obtain key v where e: "e = (key, v)" by fastforce
  from Cons.prems(1) obtain r where r: "update_setting env z (key, v) rows = Inr r" "update_each env z body r = Inr rows'"
    by (auto simp: e bind_res_eq_Inr)
  have "dict_get body key = None" using Cons.prems(2) by (simp add: e map_of_eq_None_iff)
  with Cons.IH[OF r(2)] Cons.prems(2) update_setting_row[OF r(1)] show ?case
    by (simp add: e split: option.splits)
qed simp

lemma update_each_accepts:
  assumes "update_each env z body rows = Inr rows'" "distinct (map fst body)" "dict_get rows' k \<noteq> dict_get rows k"
  shows "\<exists>v. dict_get body k = Some v \<and> (v = JNull \<and> k \<in> NULL_CLEARS_KEYS \<or> problem_of z k v = Inr None)"
  using assms
proof (induction body arbitrary: rows)
  case (Cons e body)
  obtain key v where e: "e = (key, v)" by fastforce
  from Cons.prems(1) obtain r where r: "update_setting env z (key, v) rows = Inr r" "update_each env z body r = Inr rows'"
    by (auto simp: e bind_res_eq_Inr)
  show ?case
  proof (cases "k = key")
    case True
    have "dict_get body key = None" using Cons.prems(2) by (simp add: e map_of_eq_None_iff)
    then have "dict_get rows' k = dict_get r k"
      using update_each_rows[OF r(2)] Cons.prems(2) by (simp add: e True)
    then show ?thesis using update_setting_accepts[OF r(1)] Cons.prems(3) by (simp add: e True)
  next
    case False
    then have "dict_get r k = dict_get rows k" using update_setting_row[OF r(1)] by simp
    then show ?thesis using Cons.IH[OF r(2)] Cons.prems(2,3) False by (simp add: e)
  qed
qed simp

lemma dict_set_same: "dict_get d k = Some v \<Longrightarrow> dict_set k v d = d"
  by (induction d) (auto split: if_splits)

lemma normalize_kind: "kind (normalize_model_setting_value v) = kind v"
  by (simp add: normalize_model_setting_value_def Let_def split: json.splits)

lemma normalize_idem: "normalize_model_setting_value (normalize_model_setting_value v) = normalize_model_setting_value v"
proof (cases v)
  case (JObj d)
  define m where "m = model_of d"
  show ?thesis
  proof (cases "m = JNull")
    case True
    then show ?thesis by (simp add: normalize_model_setting_value_def JObj m_def)
  next
    case False
    let ?d = "dict_set ''model_id'' m (dict_set ''model'' m d)"
    have "model_of ?d = m"
      by (simp add: model_of_def json_get_or_null_def json_get_def)
    moreover have "dict_set ''model_id'' m (dict_set ''model'' m ?d) = ?d"
      by (simp add: dict_set_same)
    ultimately show ?thesis using False by (simp add: normalize_model_setting_value_def JObj flip: m_def)
  qed
qed (simp_all add: normalize_model_setting_value_def)

subsection \<open>Reading everything and writing it back\<close>

definition shown_body :: "environment \<Rightarrow> settings_table \<Rightarrow> (string \<times> json) list" where
  "shown_body env rows = map (\<lambda>(k, s). (k, rs_value s)) (resolve_settings env rows)"

lemma shown_body_alt:
  "shown_body env rows = map (\<lambda>(k, m). (k, case resolve_meta env m (dict_get rows k) of (v, src) \<Rightarrow> shown_value k m v src))
     SETTINGS_REGISTRY"
  by (simp add: shown_body_def resolve_settings_alt show_setting_def case_prod_beta comp_def)

lemma shown_body_keys: "map fst (shown_body env rows) = map fst SETTINGS_REGISTRY"
  by (simp add: shown_body_alt comp_def case_prod_beta)

lemma shown_body_get:
  assumes "(k, m) \<in> set SETTINGS_REGISTRY" "resolve_meta env m (dict_get rows k) = (v, src)"
  shows "dict_get (shown_body env rows) k = Some (shown_value k m v src)"
proof -
  have "(k, shown_value k m v src) \<in> set (shown_body env rows)"
    using assms by (force simp: shown_body_alt)
  moreover have "distinct (map fst (shown_body env rows))"
    using registry_distinct by (simp only: shown_body_keys)
  ultimately show ?thesis by simp
qed

text \<open>One key read and written back: the value stays.\<close>

lemma resolve_written_back:
  assumes "(k, m) \<in> set SETTINGS_REGISTRY" "resolve_meta env m row = (v, src)"
    and "if k = ''hindsight_token'' then case row of None \<Rightarrow> True | Some r \<Rightarrow> kind r = 4 else True"
  defines "w \<equiv> written env k (shown_value k m v src) row"
  shows "\<exists>src'. resolve_meta env m w = (if k \<in> MODEL_SETTING_KEYS \<and> \<not> env_sourced env k then normalize_model_setting_value v else v, src') \<and>
    (src' = src \<or> src = Default \<and> src' = Database)"
proof (cases "env_sourced env k")
  case True
  then show ?thesis using assms(2) by (simp add: w_def written_def)
next
  case False
  from registry_entry[OF assms(1)] have e: "entry_ok (k, m)" .
  from False assms(1) have ev: "env_value env m = None" by (simp add: env_sourced_def registry_get)
  then have src: "src \<noteq> Env"
    using assms(2) by (auto simp: resolve_meta_def or_default_def split: option.splits sum.splits)
  have read: "resolve_meta env m (Some x) = or_default (sm_default m) Database (coerce x (sm_default m))" for x
    by (simp add: resolve_meta_def ev)
  have v: "coerce v (sm_default m) = Inr v"
    using resolve_meta_coerced[of m env row] e assms(2) by (simp add: entry_ok_def)
  show ?thesis
  proof (cases "sm_mask_always m")
    case True
    with e have k: "k = ''hindsight_token''" "sm_default m = JStr []" "k \<notin> MODEL_SETTING_KEYS" "k \<notin> NULL_CLEARS_KEYS"
      by (auto simp: entry_ok_def MODEL_SETTING_KEYS_def NULL_CLEARS_KEYS_def)
    show ?thesis
    proof (cases row)
      case None
      then have "v = JStr []" "src = Default" using assms(2) ev k by (simp_all add: resolve_meta_def)
      moreover have "w = Some (JStr [])"
        using calculation False e k assms(1)
        by (simp add: w_def written_def None mask_echo_def shown_value_def entry_ok_def json_truthy_def registry_get)
      ultimately show ?thesis using read k by (simp add: or_default_def coerce_def py_str_def)
    next
      case (Some r)
      with assms(3) k obtain s where r: "r = JStr s" by (cases r) auto
      then have v': "v = JStr s" "src = Database"
        using assms(2) read[of r] k by (simp_all add: Some or_default_def coerce_def py_str_def)
      have "w = row"
        using e k(1,3,4) False assms(1) True
        by (cases "s = []") (simp_all add: w_def written_def Some r v' shown_value_def registry_get mask_echo_def
          entry_ok_def json_truthy_def)
      then show ?thesis using assms(2) k by simp
    qed
  next
    case nm: False
    have sh: "shown_value k m v src = (if k \<in> MODEL_SETTING_KEYS then normalize_model_setting_value v else v)"
      using nm src by (simp add: shown_value_def)
    let ?s = "shown_value k m v src"
    have null: "?s = JNull \<Longrightarrow> k \<notin> NULL_CLEARS_KEYS"
    proof
      assume "?s = JNull" "k \<in> NULL_CLEARS_KEYS"
      then have "kind (sm_default m) \<in> {2, 4}" "kind v = 0"
        using e sh normalize_kind[of v] by (auto simp: entry_ok_def split: if_splits)
      then show False
        using resolve_meta_kind[of m env row] assms(2) e by (cases "sm_default m = JNull") (auto simp: entry_ok_def)
    qed
    have "\<not> mask_echo d k ?s" for d
      using nm assms(1) by (simp add: mask_echo_def registry_get split: json.splits option.splits)
    then have w: "w = Some ?s"
      using False e null by (auto simp: w_def written_def entry_ok_def sh normalize_idem)
    have "coerce ?s (sm_default m) = Inr ?s"
    proof (cases "k \<in> MODEL_SETTING_KEYS")
      case True
      then have d: "kind (sm_default m) = 6" using e by (simp add: entry_ok_def)
      then have "kind v = 6" using resolve_meta_kind[of m env row] assms(2) by force
      then show ?thesis using True d by (intro coerce_idem) (auto simp: sh normalize_kind)
    qed (simp add: sh v)
    moreover have "src = Database \<or> src = Default" using src by (cases src) auto
    ultimately show ?thesis using False by (auto simp: w read or_default_def sh)
  qed
qed

lemma model_not_secret: "list_all (\<lambda>(k, m). if k \<in> MODEL_SETTING_KEYS then \<not> sm_sensitive m \<and> \<not> sm_mask_always m else True) SETTINGS_REGISTRY"
  by code_simp

lemma shown_twice:
  assumes "(k, m) \<in> set SETTINGS_REGISTRY" "resolve_meta env m row = (v, src)"
    and "if k = ''hindsight_token'' then case row of None \<Rightarrow> True | Some r \<Rightarrow> kind r = 4 else True"
  shows "(case resolve_meta env m (written env k (shown_value k m v src) row) of (v', src') \<Rightarrow> shown_value k m v' src') =
    shown_value k m v src"
proof -
  from resolve_written_back[OF assms] obtain src' where r:
    "resolve_meta env m (written env k (shown_value k m v src) row) =
      (if k \<in> MODEL_SETTING_KEYS \<and> \<not> env_sourced env k then normalize_model_setting_value v else v, src')"
    "src' = src \<or> src = Default \<and> src' = Database" by blast
  have mask: "(src' = Env) = (src = Env)" using r(2) by auto
  have "k \<in> MODEL_SETTING_KEYS \<Longrightarrow> \<not> (sm_sensitive m \<and> json_truthy x \<and> (s = Env \<or> sm_mask_always m))" for x s
    using assms(1) model_not_secret by (auto simp: list_all_iff)
  then show ?thesis
    unfolding r(1) by (cases "k \<in> MODEL_SETTING_KEYS") (auto simp: shown_value_def Let_def normalize_idem mask)
qed

text \<open>What the client sends when it saves the page it was shown, and what is stored then.\<close>

lemma shown_body_written:
  assumes "update_each env z (shown_body env rows) rows = Inr rows'"
    and "(k, m) \<in> set SETTINGS_REGISTRY" "resolve_meta env m (dict_get rows k) = (v, src)"
  shows "dict_get rows' k = written env k (shown_value k m v src) (dict_get rows k)"
  using update_each_rows[OF assms(1), of k] shown_body_get[OF assms(2,3)] registry_distinct
  by (simp add: shown_body_keys)

lemma shown_body_stable:
  assumes "update_each env z (shown_body env rows) rows = Inr rows'"
    and "case dict_get rows ''hindsight_token'' of None \<Rightarrow> True | Some r \<Rightarrow> kind r = 4"
  shows "shown_body env rows' = shown_body env rows"
proof -
  have "(case resolve_meta env m (dict_get rows' k) of (v, src) \<Rightarrow> shown_value k m v src) =
      (case resolve_meta env m (dict_get rows k) of (v, src) \<Rightarrow> shown_value k m v src)"
    if "(k, m) \<in> set SETTINGS_REGISTRY" for k m
  proof -
    obtain v src where r: "resolve_meta env m (dict_get rows k) = (v, src)" by fastforce
    show ?thesis
      using shown_twice[OF that r] assms(2) shown_body_written[OF assms(1) that r] r by simp
  qed
  then show ?thesis by (auto simp: shown_body_alt)
qed


subsection \<open>Replicas that boot together\<close>

datatype replica = Booting | Planned token_plan | Finished "string option" | Failed py_error

inductive boot_step ::
    "environment \<Rightarrow> (nat \<Rightarrow> string) \<Rightarrow> settings_table \<times> (nat \<Rightarrow> replica) \<Rightarrow> settings_table \<times> (nat \<Rightarrow> replica) \<Rightarrow> bool"
  for env gen where
  reads: "r i = Booting \<Longrightarrow> boot_step env gen (rows, r) (rows, r(i := Planned (read_hindsight_token env (gen i) rows)))"
| commits: "r i = Planned p \<Longrightarrow> commit_hindsight_token env p rows = Inr (t, rows') \<Longrightarrow>
    boot_step env gen (rows, r) (rows', r(i := Finished t))"
| fails: "r i = Planned p \<Longrightarrow> commit_hindsight_token env p rows = Inl e \<Longrightarrow>
    boot_step env gen (rows, r) (rows, r(i := Failed e))"

definition boot_ok :: "environment \<Rightarrow> (nat \<Rightarrow> string) \<Rightarrow> settings_table \<times> (nat \<Rightarrow> replica) \<Rightarrow> bool" where
  "boot_ok env gen s \<longleftrightarrow> (case s of (rows, r) \<Rightarrow>
     json_truthy (setting_value env rows ''hindsight_url'') \<and>
     (case dict_get rows ''hindsight_token'' of
        None \<Rightarrow> \<forall>i. r i = Booting \<or> r i = Planned (Insert (gen i))
      | Some v \<Rightarrow> \<exists>t. v = JStr t \<and> t \<noteq> [] \<and>
          (\<forall>i. r i = Booting \<or> r i = Planned (Insert (gen i)) \<or> r i = Planned (Returned (Some t)) \<or> r i = Finished (Some t))))"

lemma token_setting:
  "env ''HINDSIGHT_TOKEN'' = None \<Longrightarrow> setting_value env rows ''hindsight_token'' =
    (case dict_get rows ''hindsight_token'' of None \<Rightarrow> JStr [] | Some v \<Rightarrow> JStr (py_str v))"
proof -
  have m: "dict_get SETTINGS_REGISTRY ''hindsight_token'' =
      Some (meta (Some ''HINDSIGHT_TOKEN'') True (JStr []) \<lparr>sm_mask_always := True\<rparr>)" by code_simp
  assume "env ''HINDSIGHT_TOKEN'' = None"
  then show ?thesis
    by (simp add: setting_value_def resolve_setting_value_def m resolve_meta_def env_value_def meta_def or_default_def
      coerce_def split: option.splits)
qed

lemma url_setting:
  "setting_value env (dict_set ''hindsight_token'' v rows) ''hindsight_url'' = setting_value env rows ''hindsight_url''"
  by (simp add: setting_value_def resolve_setting_value_def split: option.splits)

lemma as_token_str [simp]: "as_token (JStr t) = (if t = [] then None else Some t)"
  by (simp add: as_token_def json_truthy_def py_str_def)

lemma boot_step_ok:
  assumes "boot_step env gen s s'" "env ''HINDSIGHT_TOKEN'' = None" "\<And>i. gen i \<noteq> []" "boot_ok env gen s"
  shows "boot_ok env gen s'"
  using assms(1,4)
proof cases
  case (reads r i rows)
  then show ?thesis
    using assms(2,4) by (auto simp: boot_ok_def read_hindsight_token_def token_setting py_str_def split: option.splits)
next
  case (commits r i p rows t rows')
  show ?thesis
  proof (cases "dict_get rows ''hindsight_token''")
    case None
    then have "p = Insert (gen i)" using assms(4) commits(1,3) None by (auto simp: boot_ok_def dest!: spec[of _ i])
    then have "t = Some (gen i)" "rows' = dict_set ''hindsight_token'' (JStr (gen i)) rows"
      using commits(4) None by (simp_all add: commit_hindsight_token_def)
    then show ?thesis
      using None assms(3,4) commits(1,2) by (auto simp: boot_ok_def url_setting)
  next
    case (Some v)
    then obtain u where u: "v = JStr u" "u \<noteq> []" "p = Insert (gen i) \<or> p = Returned (Some u)"
      using assms(4) commits(1,3) Some by (auto simp: boot_ok_def dest!: spec[of _ i])
    then have "t = Some u" "rows' = rows"
      using commits(4) Some assms(2) by (auto simp: commit_hindsight_token_def token_setting py_str_def)
    then show ?thesis using u Some assms(4) commits(1,2) by (auto simp: boot_ok_def)
  qed
next
  case (fails r i p rows e)
  have False
  proof (cases "dict_get rows ''hindsight_token''")
    case None
    then have "p = Insert (gen i)" using assms(4) fails(1,3) None by (auto simp: boot_ok_def dest!: spec[of _ i])
    then show False using fails(4) None by (simp add: commit_hindsight_token_def)
  next
    case (Some v)
    then obtain u where "v = JStr u" "u \<noteq> []" "p = Insert (gen i) \<or> p = Returned (Some u)"
      using assms(4) fails(1,3) Some by (auto simp: boot_ok_def dest!: spec[of _ i])
    then show False using fails(4) Some assms(2) by (auto simp: commit_hindsight_token_def token_setting py_str_def)
  qed
  then show ?thesis ..
qed

lemma boot_reachable_ok:
  assumes "(boot_step env gen)\<^sup>*\<^sup>* s s'" "env ''HINDSIGHT_TOKEN'' = None" "\<And>i. gen i \<noteq> []" "boot_ok env gen s"
  shows "boot_ok env gen s'"
  using assms by (induction rule: rtranclp_induct) (auto intro: boot_step_ok)

lemma token_meta: "\<exists>m. dict_get SETTINGS_REGISTRY ''hindsight_token'' = Some m \<and> sm_mask_always m"
proof -
  have "dict_get SETTINGS_REGISTRY ''hindsight_token'' =
      Some (meta (Some ''HINDSIGHT_TOKEN'') True (JStr []) \<lparr>sm_mask_always := True\<rparr>)" by code_simp
  then show ?thesis by simp
qed

text \<open>The secrets the environment can supply are the bearer and the OIDC secret.\<close>

lemma secret_entries:
  "list_all (\<lambda>(k, m).
     (k = ''hindsight_token'') = (sm_env_var m = Some ''HINDSIGHT_TOKEN'') \<and>
     (if sm_env_var m \<in> {Some ''HINDSIGHT_TOKEN'', Some ''OIDC_CLIENT_SECRET''}
      then sm_sensitive m \<and> sm_default m = JStr [] \<and> k \<notin> MODEL_SETTING_KEYS \<and>
        (sm_mask_always m = (sm_env_var m = Some ''HINDSIGHT_TOKEN'')) else True)) SETTINGS_REGISTRY"
  by code_simp

lemma secret_entry:
  assumes "(k, m) \<in> set SETTINGS_REGISTRY"
  shows "(k = ''hindsight_token'') = (sm_env_var m = Some ''HINDSIGHT_TOKEN'')"
    and "sm_env_var m \<in> {Some ''HINDSIGHT_TOKEN'', Some ''OIDC_CLIENT_SECRET''} \<Longrightarrow>
      sm_sensitive m \<and> sm_default m = JStr [] \<and> k \<notin> MODEL_SETTING_KEYS \<and>
      (sm_mask_always m = (sm_env_var m = Some ''HINDSIGHT_TOKEN''))"
  using bspec[OF secret_entries[unfolded list_all_iff] assms] by (simp_all split: if_splits)

subsection \<open>Properties\<close>

text \<open>Whatever the environment and the database hold, every setting resolves, to a value of the type
  of its default; and the task manager's limits are at least one from its start on and after every
  poll, even when the database cannot be read.\<close>

theorem settings_always_typed:
  "list_all (\<lambda>(key, m). case resolve_setting_value env rows key of Inl _ \<Rightarrow> False
     | Inr (v, src) \<Rightarrow> sm_default m = JNull \<or> kind v = kind (sm_default m)) SETTINGS_REGISTRY \<and>
   (case initial_tunables env of Inl _ \<Rightarrow> False
    | Inr t \<Rightarrow> list_all (\<lambda>t'. 1 \<le> tn_max_concurrent t' \<and> 1 \<le> tn_buffer_entries t' \<and> 1 \<le> tn_buffer_ttl t')
        [t, fold (update_concurrency_setting env) polls t])"
proof -
  have "tunables_ok t \<Longrightarrow> tunables_ok (fold (update_concurrency_setting env) polls t)" for t
    by (induction polls arbitrary: t) (auto intro: update_concurrency_ok)
  moreover have "case resolve_setting_value env rows key of Inl _ \<Rightarrow> False
      | Inr (v, src) \<Rightarrow> sm_default m = JNull \<or> kind v = kind (sm_default m)"
    if "(key, m) \<in> set SETTINGS_REGISTRY" for key m
    using registry_entry[OF that] resolve_meta_kind[of m env "dict_get rows key"] that
    by (cases "sm_default m = JNull") (auto simp: resolve_setting_value_def registry_get entry_ok_def split: prod.splits)
  ultimately show ?thesis
    using initial_tunables_ok[of env] by (auto simp: list_all_iff tunables_ok_def)
qed

text \<open>Saving the page of settings unchanged is harmless: when the write of everything that a read
  returned is accepted, a new read returns the same values, and the value of every key that is no
  model choice, the masked bearer included, is what it was; provided the stored bearer is a string.\<close>

theorem settings_page_roundtrip:
  assumes "update_settings env zone_known (map (\<lambda>(k, s). (k, rs_value s)) (resolve_settings env rows)) rows =
      Inr (rows', shown, reload)"
    and "case dict_get rows ''hindsight_token'' of Some (JStr s) \<Rightarrow> True | None \<Rightarrow> True | _ \<Rightarrow> False"
  shows "map (\<lambda>(k, s). (k, rs_value s)) shown = map (\<lambda>(k, s). (k, rs_value s)) (resolve_settings env rows) \<and>
    (\<forall>k. k \<notin> MODEL_SETTING_KEYS \<longrightarrow> setting_value env rows' k = setting_value env rows k)"
proof -
  from assms(1) have u: "update_each env zone_known (shown_body env rows) rows = Inr rows'" "shown = resolve_settings env rows'"
    by (auto simp: update_settings_def bind_res_eq_Inr shown_body_def)
  have t: "case dict_get rows ''hindsight_token'' of None \<Rightarrow> True | Some r \<Rightarrow> kind r = 4"
    using assms(2) by (auto split: option.splits json.splits)
  have "setting_value env rows' k = setting_value env rows k" if "k \<notin> MODEL_SETTING_KEYS" for k
  proof (cases "dict_get SETTINGS_REGISTRY k")
    case (Some m)
    then have m: "(k, m) \<in> set SETTINGS_REGISTRY" by (simp add: registry_get)
    obtain v src where r: "resolve_meta env m (dict_get rows k) = (v, src)" by fastforce
    have pre: "if k = ''hindsight_token'' then case dict_get rows k of None \<Rightarrow> True | Some r \<Rightarrow> kind r = 4 else True"
      using t by simp
    show ?thesis
      using resolve_written_back[OF m r pre] that shown_body_written[OF u(1) m r] r Some
      by (auto simp: setting_value_def resolve_setting_value_def)
  qed (simp add: setting_value_def resolve_setting_value_def)
  then show ?thesis using shown_body_stable[OF u(1) t] u(2) by (simp add: shown_body_def)
qed


definition sample_settings :: settings_table where
  "sample_settings = [(''hindsight_token'', JStr ''0123456789''), (''max_turns'', JStr ''50''), (''other'', JInt 1),
     (''llm_model'', JObj [(''provider_id'', JStr ''p''), (''model_id'', JStr ''m'')])]"

definition sample_env :: environment where
  "sample_env n = (if n = ''MAX_RETRY_ATTEMPTS'' then Some ''7'' else if n = ''HINDSIGHT_URL'' then Some ''http://h'' else None)"

definition saved_page :: "settings_table \<times> (string \<times> resolved_setting) list \<times> bool" where
  "saved_page = (case update_settings sample_env (\<lambda>z. z = ''UTC'')
     (map (\<lambda>(k, s). (k, rs_value s)) (resolve_settings sample_env sample_settings)) sample_settings of Inr r \<Rightarrow> r)"

theorem settings_page_roundtrip_witness:
  "length (fst saved_page) = 38 \<and> setting_value sample_env (fst saved_page) ''hindsight_token'' = JStr ''0123456789'' \<and>
   map_option rs_value (map_of (fst (snd saved_page)) ''hindsight_token'') = Some (JStr ''0123****'')"
proof -
  have c: "(case update_settings sample_env (\<lambda>z. z = ''UTC'')
      (map (\<lambda>(k, s). (k, rs_value s)) (resolve_settings sample_env sample_settings)) sample_settings of
        Inr (rows', shown, reload) \<Rightarrow> length rows' = 38 \<and> map_option rs_value (map_of shown ''hindsight_token'') = Some (JStr ''0123****'')
      | Inl _ \<Rightarrow> False) \<and> (case dict_get sample_settings ''hindsight_token'' of Some (JStr s) \<Rightarrow> True | None \<Rightarrow> True | _ \<Rightarrow> False) \<and>
      ''hindsight_token'' \<notin> MODEL_SETTING_KEYS \<and> setting_value sample_env sample_settings ''hindsight_token'' = JStr ''0123456789''"
    by code_simp
  then obtain rows' shown reload where r: "update_settings sample_env (\<lambda>z. z = ''UTC'')
      (map (\<lambda>(k, s). (k, rs_value s)) (resolve_settings sample_env sample_settings)) sample_settings = Inr (rows', shown, reload)"
    by (auto split: sum.splits)
  then have s: "saved_page = (rows', shown, reload)" by (simp add: saved_page_def)
  have "length rows' = 38" "map_option rs_value (map_of shown ''hindsight_token'') = Some (JStr ''0123****'')"
    using c unfolding r by simp_all
  then show ?thesis using c settings_page_roundtrip[OF r] unfolding s by simp
qed

definition admits :: "(string \<Rightarrow> bool) \<Rightarrow> string \<Rightarrow> json option \<Rightarrow> bool" where
  "admits zone_known k v \<longleftrightarrow>
     (case v of
        None \<Rightarrow> k = ''max_turns'' \<or> k = ''reasoning_effort''
      | Some x \<Rightarrow>
          (k = ''max_turns'' \<or> k = ''clarification_max_rounds'' \<longrightarrow> (\<exists>n \<ge> 1. x = JInt n)) \<and>
          (k = ''plugin_poll_interval_seconds'' \<longrightarrow> (\<exists>n \<ge> 0. x = JInt n)) \<and>
          (k = ''reasoning_effort'' \<longrightarrow> (\<exists>s. x = JStr s \<and> s \<in> {''low'', ''medium'', ''high''})) \<and>
          (k = ''task_runner_log_level'' \<longrightarrow> (\<exists>s. x = JStr s \<and> s \<in> {''DEBUG'', ''INFO'', ''WARNING'', ''ERROR''})) \<and>
          (k = ''timezone'' \<longrightarrow> (\<exists>s. x = JStr s \<and> s \<noteq> [] \<and> zone_known s)))"

lemma admits_written:
  assumes "v = JNull \<and> k \<in> NULL_CLEARS_KEYS \<or> problem_of z k v = Inr None" "written env k v old \<noteq> old"
  shows "admits z k (written env k v old)"
proof (cases "v = JNull \<and> k \<in> NULL_CLEARS_KEYS")
  case True
  with assms(2) have "written env k v old = None" by (auto simp: written_def split: if_splits)
  with True show ?thesis by (auto simp: admits_def NULL_CLEARS_KEYS_def)
next
  case False
  with assms have w: "written env k v old = Some (if k \<in> MODEL_SETTING_KEYS then normalize_model_setting_value v else v)"
    by (auto simp: written_def split: if_splits)
  show ?thesis
  proof (cases "k \<in> MODEL_SETTING_KEYS")
    case True
    then show ?thesis by (auto simp: w admits_def MODEL_SETTING_KEYS_def)
  next
    case False
    have "problem_of z k v = Inr None" using assms(1) \<open>\<not> (v = JNull \<and> k \<in> NULL_CLEARS_KEYS)\<close> by blast
    then show ?thesis
      using False unfolding w admits_def problem_of_def
      by (auto simp: positive_int_def non_negative_int_def valid_effort_def valid_log_level_def valid_timezone_def
        split: if_splits json.splits)
  qed
qed

text \<open>What an accepted write can change: never a key the environment supplies, an excluded key, the
  skills or a key that was not sent, and never the bearer when what was sent is the mask of the one
  stored; and a value that changes is one the key admits: a positive number of turns and of rounds, a
  non-negative interval, a known effort, log level and time zone, no row at all only where null clears.\<close>

theorem update_settings_guarded:
  assumes "update_settings env zone_known body rows = Inr (rows', shown, reload)" "distinct (map fst body)"
  shows "(if k = ''skills'' \<or> k \<in> EXCLUDED_KEYS \<or> env_sourced env k \<or> k \<notin> fst ` set body then dict_get rows' k = dict_get rows k else True) \<and>
    (dict_get rows' k = dict_get rows k \<or> admits zone_known k (dict_get rows' k)) \<and>
    (\<forall>t. dict_get rows ''hindsight_token'' = Some (JStr t) \<longrightarrow> t \<noteq> [] \<longrightarrow>
       dict_get body ''hindsight_token'' = Some (JStr (if length t \<le> 4 then ''****'' else take 4 t @ ''****'')) \<longrightarrow>
       dict_get rows' ''hindsight_token'' = Some (JStr t))"
proof -
  from assms(1) have u: "update_each env zone_known body rows = Inr rows'"
    by (auto simp: update_settings_def bind_res_eq_Inr)
  note row = update_each_rows[OF u assms(2)]
  have "dict_get rows' k = dict_get rows k \<or> admits zone_known k (dict_get rows' k)"
    using update_each_accepts[OF u assms(2), of k] row[of k] admits_written by (cases "dict_get rows' k = dict_get rows k") force+
  moreover have "dict_get rows' ''hindsight_token'' = Some (JStr t)"
    if "dict_get rows ''hindsight_token'' = Some (JStr t)" "t \<noteq> []"
      "dict_get body ''hindsight_token'' = Some (JStr (if length t \<le> 4 then ''****'' else take 4 t @ ''****''))" for t
  proof -
    obtain m where "dict_get SETTINGS_REGISTRY ''hindsight_token'' = Some m" "sm_mask_always m" using token_meta by blast
    then show ?thesis
      using row[of "''hindsight_token''"] that
      by (simp add: written_def mask_echo_def mask_sensitive_value_def json_truthy_def py_str_def)
  qed
  moreover have "k \<notin> fst ` set body \<Longrightarrow> dict_get body k = None" by (simp add: map_of_eq_None_iff)
  ultimately show ?thesis using row[of k] by (auto simp: written_def split: option.splits)
qed

theorem update_settings_guarded_witness:
  "case update_settings sample_env (\<lambda>z. True)
     [(''max_turns'', JNull), (''hindsight_token'', JStr ''0123****''), (''hindsight_url'', JStr ''x'')] sample_settings of
     Inl _ \<Rightarrow> False
   | Inr (rows, _, _) \<Rightarrow> dict_get rows ''max_turns'' = None \<and> dict_get rows ''hindsight_url'' = None \<and>
       dict_get rows ''hindsight_token'' = Some (JStr ''0123456789'')"
proof -
  have c: "(case update_settings sample_env (\<lambda>z. True)
     [(''max_turns'', JNull), (''hindsight_token'', JStr ''0123****''), (''hindsight_url'', JStr ''x'')] sample_settings of
     Inl _ \<Rightarrow> False | Inr (rows, _, _) \<Rightarrow> dict_get rows ''max_turns'' = None) \<and> env_sourced sample_env ''hindsight_url'' \<and>
     dict_get sample_settings ''hindsight_url'' = None \<and> dict_get sample_settings ''hindsight_token'' = Some (JStr ''0123456789'')"
    by code_simp
  then obtain rows x y where r: "update_settings sample_env (\<lambda>z. True)
     [(''max_turns'', JNull), (''hindsight_token'', JStr ''0123****''), (''hindsight_url'', JStr ''x'')] sample_settings = Inr (rows, x, y)"
    by (auto split: sum.splits)
  show ?thesis
    using c update_settings_guarded[OF r, where k = "''hindsight_url''"] unfolding r by simp
qed


definition token_page :: "string \<Rightarrow> settings_table" where
  "token_page t = [(''hindsight_token'', JStr t)]"


text \<open>Replicas that boot together into a database without a bearer agree: in whatever order they read
  and commit, none fails, and every one that has finished has the bearer the database holds, provided
  the environment supplies none and every replica draws a non-empty token.\<close>

theorem hindsight_replicas_agree:
  assumes "(boot_step env gen)\<^sup>*\<^sup>* (rows0, \<lambda>_. Booting) (rows, r)"
    and "env ''HINDSIGHT_TOKEN'' = None" "\<And>i. gen i \<noteq> []"
    and "dict_get rows0 ''hindsight_token'' = None" "json_truthy (setting_value env rows0 ''hindsight_url'')"
  shows "(\<forall>e. r i \<noteq> Failed e) \<and>
    (\<forall>a. r i = Finished a \<longrightarrow> (\<exists>t. a = Some t \<and> t \<noteq> [] \<and> dict_get rows ''hindsight_token'' = Some (JStr t)))"
proof -
  have "boot_ok env gen (rows, r)"
    by (rule boot_reachable_ok[OF assms(1-3)]) (use assms(4,5) in \<open>simp add: boot_ok_def\<close>)
  then show ?thesis by (auto simp: boot_ok_def split: option.splits dest!: spec[of _ i])
qed

definition two_tokens :: "nat \<Rightarrow> string" where "two_tokens i = (if i = 0 then ''aa'' else ''bb'')"

definition booted :: "settings_table \<Rightarrow> settings_table \<times> (nat \<Rightarrow> replica)" where
  "booted rows = (let
      p0 = read_hindsight_token sample_env (two_tokens 0) rows; p1 = read_hindsight_token sample_env (two_tokens 1) rows;
      (t0, rows1) = (case commit_hindsight_token sample_env p0 rows of Inr x \<Rightarrow> x);
      (t1, rows2) = (case commit_hindsight_token sample_env p1 rows1 of Inr x \<Rightarrow> x)
    in (rows2, (\<lambda>_. Booting)(0 := Finished t0, 1 := Finished t1)))"

lemma boot_two:
  assumes "commit_hindsight_token env (read_hindsight_token env (gen 0) rows) rows = Inr (t0, rows1)"
    and "commit_hindsight_token env (read_hindsight_token env (gen 1) rows) rows1 = Inr (t1, rows2)"
  shows "(boot_step env gen)\<^sup>*\<^sup>* (rows, \<lambda>_. Booting) (rows2, (\<lambda>_. Booting)(0 := Finished t0, 1 := Finished t1))"
proof -
  let ?p = "\<lambda>i. Planned (read_hindsight_token env (gen i) rows)" and ?r = "(\<lambda>_. Booting) :: nat \<Rightarrow> replica"
  have "boot_step env gen (rows, ?r) (rows, ?r(0 := ?p 0))" by (rule boot_step.reads) simp
  moreover have "boot_step env gen (rows, ?r(0 := ?p 0)) (rows, (?r(0 := ?p 0))(1 := ?p 1))" by (rule boot_step.reads) simp
  moreover have "boot_step env gen (rows, (?r(0 := ?p 0))(1 := ?p 1)) (rows1, ((?r(0 := ?p 0))(1 := ?p 1))(0 := Finished t0))"
    by (rule boot_step.commits) (use assms in simp_all)
  moreover have "boot_step env gen (rows1, ((?r(0 := ?p 0))(1 := ?p 1))(0 := Finished t0))
      (rows2, (((?r(0 := ?p 0))(1 := ?p 1))(0 := Finished t0))(1 := Finished t1))"
    by (rule boot_step.commits) (use assms in simp_all)
  moreover have "(((?r(0 := ?p 0))(1 := ?p 1))(0 := Finished t0))(1 := Finished t1) = ?r(0 := Finished t0, 1 := Finished t1)"
    by (simp add: fun_eq_iff)
  ultimately show ?thesis by (metis (no_types, lifting) rtranclp.rtrancl_into_rtrancl rtranclp.rtrancl_refl)
qed

theorem hindsight_replicas_agree_witness:
  "snd (booted []) 0 = Finished (Some ''aa'') \<and> snd (booted []) 1 = Finished (Some ''aa'') \<and>
   dict_get (fst (booted [])) ''hindsight_token'' = Some (JStr ''aa'')"
proof -
  have c: "commit_hindsight_token sample_env (read_hindsight_token sample_env (two_tokens 0) []) [] =
      Inr (Some ''aa'', token_page ''aa'')"
    "commit_hindsight_token sample_env (read_hindsight_token sample_env (two_tokens 1) []) (token_page ''aa'') =
      Inr (Some ''aa'', token_page ''aa'')"
    "dict_get ([] :: settings_table) ''hindsight_token'' = None" "json_truthy (setting_value sample_env [] ''hindsight_url'')"
    by code_simp+
  have b: "booted [] = (token_page ''aa'', (\<lambda>_. Booting)(0 := Finished (Some ''aa''), 1 := Finished (Some ''aa'')))"
    by (simp add: booted_def c(1,2) del: One_nat_def)
  show ?thesis
    using hindsight_replicas_agree[OF boot_two[where gen = two_tokens, OF c(1,2)] _ _ c(3,4), of 0] unfolding b
    by (simp add: sample_env_def two_tokens_def token_page_def)
qed

text \<open>With a row that is there and empty, which saving the page of settings leaves, both replicas write
  and the first goes on with a bearer the database no longer holds.\<close>

lemma empty_row_disagrees:
  "snd (booted (token_page [])) 0 = Finished (Some ''aa'') \<and> snd (booted (token_page [])) 1 = Finished (Some ''bb'')"
proof -
  have "commit_hindsight_token sample_env (read_hindsight_token sample_env (two_tokens 0) (token_page [])) (token_page []) =
      Inr (Some ''aa'', token_page ''aa'')"
    "commit_hindsight_token sample_env (read_hindsight_token sample_env (two_tokens 1) (token_page [])) (token_page ''aa'') =
      Inr (Some ''bb'', token_page ''bb'')" by code_simp+
  then show ?thesis by (simp add: booted_def del: One_nat_def)
qed

lemma saving_leaves_empty_row:
  "case update_settings sample_env (\<lambda>_. True) (map (\<lambda>(k, s). (k, rs_value s)) (resolve_settings sample_env [])) [] of
     Inr (rows, _, _) \<Rightarrow> dict_get rows ''hindsight_token'' = Some (JStr []) | Inl _ \<Rightarrow> False"
  by code_simp

text \<open>A bearer stored as a number is overwritten by its mask when the page is saved.\<close>

lemma number_bearer_lost:
  "case update_settings sample_env (\<lambda>_. True)
     (map (\<lambda>(k, s). (k, rs_value s)) (resolve_settings sample_env [(''hindsight_token'', JInt 12345678)]))
     [(''hindsight_token'', JInt 12345678)] of
     Inr (rows, _, _) \<Rightarrow> dict_get rows ''hindsight_token'' = Some (JStr ''1234****'') | Inl _ \<Rightarrow> False"
  by code_simp

end
