(* ===== verification/Profiles.thy ===== *)
theory Profiles
  imports Skills Settings
begin

text \<open>
  Task profiles: the table \<open>task_profiles\<close> of \<open>errand/models.py\<close> (its timestamps left out), the handlers of
  \<open>errand/main.py\<close> and the evaluation tools of \<open>errand/mcp_server.py\<close> that change it, and what
  \<open>errand/task_manager.py\<close> makes of a profile's shared workspace.  A JSON body is any object.
\<close>

record profile =
  p_id :: nat
  p_name :: string
  p_description :: "string option"
  p_match_rules :: "string option"
  p_model :: json
  p_system_prompt :: "string option"
  p_max_turns :: "int option"
  p_reasoning_effort :: "string option"
  p_llm_timeout :: "int option"
  p_mcp_servers :: json
  p_litellm_mcp_servers :: json
  p_skill_ids :: json
  p_include_git_skills :: bool
  p_enabled_plugins :: "string list option"
  p_workspace_enabled :: bool
  p_workspace_subpath :: "string option"

definition profile_by_id :: "nat \<Rightarrow> profile list \<Rightarrow> profile option" where
  "profile_by_id i ps = find (\<lambda>p. p_id p = i) ps"

definition profile_named :: "string \<Rightarrow> profile list \<Rightarrow> profile option" where
  "profile_named n ps = find (\<lambda>p. p_name p = n) ps"

definition put_profile :: "profile \<Rightarrow> profile list \<Rightarrow> profile list" where
  "put_profile p ps = map (\<lambda>q. if p_id q = p_id p then p else q) ps"

subsection \<open>Validation\<close>

definition refuse :: "string \<Rightarrow> py_error + 'a" where
  "refuse m = Inl (Http 422 m)"

fun check_plugins :: "json list \<Rightarrow> py_error + string list" where
  "check_plugins [] = Inr []"
| "check_plugins (x # xs) =
     (case x of
        JStr s \<Rightarrow> if parse_uuid s = None then refuse (''invalid UUID in enabled_plugins: '' @ s)
          else bind_res (check_plugins xs) (\<lambda>ys. Inr (s # ys))
      | _ \<Rightarrow> refuse ''enabled_plugins entries must be UUID strings'')"

definition validate_enabled_plugins :: "json \<Rightarrow> py_error + string list option" where
  "validate_enabled_plugins v =
     (case v of
        JNull \<Rightarrow> Inr None
      | JArr xs \<Rightarrow> bind_res (check_plugins xs) (\<lambda>ys. Inr (Some ys))
      | _ \<Rightarrow> refuse ''enabled_plugins must be a list of UUID strings or null'')"

definition validate_llm_timeout :: "json \<Rightarrow> py_error + int option" where
  "validate_llm_timeout v =
     (case v of
        JNull \<Rightarrow> Inr None
      | JInt n \<Rightarrow> if n < 1 then refuse ''llm_timeout must be a positive integer or null'' else Inr (Some n)
      | _ \<Rightarrow> refuse ''llm_timeout must be a positive integer or null'')"

definition null_char :: char where "null_char = char_of (0 :: nat)"

definition path_segments :: "string \<Rightarrow> string list" where
  "path_segments s = filter (\<lambda>x. x \<noteq> [] \<and> x \<noteq> ''.'') (split_char CHR ''/'' s)"

definition validate_workspace_subpath :: "json \<Rightarrow> py_error + string option" where
  "validate_workspace_subpath v =
     (case v of
        JNull \<Rightarrow> Inr None
      | JStr s \<Rightarrow>
          (let stripped = strip s; normalized = map (\<lambda>c. if c = backslash then CHR ''/'' else c) stripped;
               segments = path_segments normalized
           in if stripped = [] then Inr None
              else if null_char \<in> set stripped then refuse ''shared_workspace_subpath must not contain null bytes''
              else if starts_with normalized ''/'' then
                refuse (''shared_workspace_subpath must be a relative path (no leading '' @ [apostrophe] @ ''/'' @ [apostrophe] @ '')'')
              else if ''..'' \<in> set segments then refuse (''shared_workspace_subpath must not contain '' @ [apostrophe] @ ''..'' @ [apostrophe] @ '' traversal'')
              else Inr (Some (join ''/'' segments)))
      | _ \<Rightarrow> refuse ''shared_workspace_subpath must be a relative path string or null'')"

definition validate_workspace_enabled :: "json \<Rightarrow> py_error + bool" where
  "validate_workspace_enabled v =
     (case v of JNull \<Rightarrow> Inr False | JBool b \<Rightarrow> Inr b | _ \<Rightarrow> refuse ''shared_workspace_enabled must be a boolean'')"

definition check_effort :: "json \<Rightarrow> py_error + string option" where
  "check_effort v =
     (if v = JNull then Inr None
      else bind_res (valid_effort v) (\<lambda>problem.
        (case (problem, v) of
           (None, JStr s) \<Rightarrow> Inr (Some s)
         | _ \<Rightarrow> refuse (''Invalid reasoning_effort '' @ [apostrophe] @ py_str v @ [apostrophe] @
             ''. Must be one of: high, low, medium''))))"

text \<open>\<open>(value or "").strip()\<close>, which a name must not be empty after.\<close>

definition check_profile_name :: "json \<Rightarrow> py_error + string" where
  "check_profile_name v =
     bind_res (if json_truthy v then (case v of JStr s \<Rightarrow> Inr (strip s) | _ \<Rightarrow> Inl (AttributeErr ''strip'')) else Inr [])
       (\<lambda>n. if n = [] then refuse ''Name is required'' else Inr n)"

definition profile_name_taken :: "string \<Rightarrow> py_error" where
  "profile_name_taken n = Http 409 (''Task profile with name '' @ [apostrophe] @ n @ [apostrophe] @ '' already exists'')"

text \<open>What the driver takes for a nullable text and a nullable integer column.\<close>

definition null_text :: "json \<Rightarrow> py_error + string option" where
  "null_text v = (case v of JNull \<Rightarrow> Inr None | JStr s \<Rightarrow> Inr (Some s) | _ \<Rightarrow> Inl (TypeErr ''expected str''))"

definition in_int32 :: "int \<Rightarrow> bool" where "in_int32 n = (- (2 ^ 31) \<le> n \<and> n < 2 ^ 31)"

definition null_int :: "json \<Rightarrow> py_error + int option" where
  "null_int v =
     (case v of
        JNull \<Rightarrow> Inr None
      | JInt n \<Rightarrow> if in_int32 n then Inr (Some n) else Inl (ValueErr ''value out of int32 range'')
      | JBool b \<Rightarrow> Inr (Some (if b then 1 else 0))
      | _ \<Rightarrow> Inl (TypeErr ''an integer is required''))"

definition stored_timeout :: "int option \<Rightarrow> py_error + int option" where
  "stored_timeout t = (case t of None \<Rightarrow> Inr None | Some n \<Rightarrow> null_int (JInt n))"

subsection \<open>The handlers\<close>

definition body_or_null :: "(string \<times> json) list \<Rightarrow> string \<Rightarrow> json" where
  "body_or_null body k = (case dict_get body k of None \<Rightarrow> JNull | Some v \<Rightarrow> v)"

definition list_task_profiles :: "profile list \<Rightarrow> profile list" where
  "list_task_profiles ps = sort_key p_name ps"

definition create_task_profile :: "nat \<Rightarrow> (string \<times> json) list \<Rightarrow> profile list \<Rightarrow> py_error + profile \<times> profile list" where
  "create_task_profile i body ps =
     bind_res (check_profile_name (body_or_null body ''name'')) (\<lambda>name.
     bind_res (check_effort (body_or_null body ''reasoning_effort'')) (\<lambda>effort.
     bind_res (validate_llm_timeout (body_or_null body ''llm_timeout'')) (\<lambda>timeout.
     bind_res (validate_workspace_enabled (body_or_null body ''shared_workspace_enabled'')) (\<lambda>enabled.
     bind_res (validate_workspace_subpath (body_or_null body ''shared_workspace_subpath'')) (\<lambda>subpath.
       if profile_named name ps \<noteq> None then Inl (profile_name_taken name)
       else
         bind_res (validate_enabled_plugins (body_or_null body ''enabled_plugins'')) (\<lambda>plugins.
         bind_res (null_text (body_or_null body ''description'')) (\<lambda>description.
         bind_res (null_text (body_or_null body ''match_rules'')) (\<lambda>rules.
         bind_res (null_text (body_or_null body ''system_prompt'')) (\<lambda>prompt.
         bind_res (null_int (body_or_null body ''max_turns'')) (\<lambda>turns.
         bind_res (stored_timeout timeout) (\<lambda>timeout.
           (let p = \<lparr>p_id = i, p_name = name, p_description = description, p_match_rules = rules,
              p_model = normalize_model_setting_value (body_or_null body ''model''), p_system_prompt = prompt,
              p_max_turns = turns, p_reasoning_effort = effort, p_llm_timeout = timeout,
              p_mcp_servers = body_or_null body ''mcp_servers'',
              p_litellm_mcp_servers = body_or_null body ''litellm_mcp_servers'',
              p_skill_ids = body_or_null body ''skill_ids'',
              p_include_git_skills = (body_or_null body ''include_git_skills'' \<noteq> JBool False),
              p_enabled_plugins = plugins, p_workspace_enabled = enabled, p_workspace_subpath = subpath\<rparr>
            in Inr (p, ps @ [p])))))))))))))"

definition get_task_profile :: "nat \<Rightarrow> profile list \<Rightarrow> py_error + profile" where
  "get_task_profile i ps = (case profile_by_id i ps of None \<Rightarrow> Inl (Http 404 ''Task profile not found'') | Some p \<Rightarrow> Inr p)"

text \<open>A field of the body that was sent is checked and assigned.\<close>

definition assign ::
    "(string \<times> json) list \<Rightarrow> string \<Rightarrow> (json \<Rightarrow> py_error + 'a) \<Rightarrow> ('a \<Rightarrow> profile \<Rightarrow> profile) \<Rightarrow> profile \<Rightarrow> py_error + profile" where
  "assign body k conv upd p =
     (case dict_get body k of None \<Rightarrow> Inr p | Some v \<Rightarrow> bind_res (conv v) (\<lambda>x. Inr (upd x p)))"

definition new_profile_name :: "profile list \<Rightarrow> profile \<Rightarrow> json \<Rightarrow> py_error + string" where
  "new_profile_name ps p v =
     bind_res (check_profile_name v) (\<lambda>n.
       if n \<noteq> p_name p \<and> profile_named n ps \<noteq> None then Inl (profile_name_taken n) else Inr n)"

definition check_git_skills :: "json \<Rightarrow> py_error + bool" where
  "check_git_skills v =
     (case v of JNull \<Rightarrow> Inr True | JBool b \<Rightarrow> Inr b | _ \<Rightarrow> refuse ''include_git_skills must be a boolean'')"

definition assign_checked :: "(string \<times> json) list \<Rightarrow> profile list \<Rightarrow> profile \<Rightarrow> py_error + profile" where
  "assign_checked body ps p =
     bind_res (assign body ''name'' (new_profile_name ps p) (\<lambda>x p. p\<lparr>p_name := x\<rparr>) p) (\<lambda>p.
     bind_res (assign body ''reasoning_effort'' check_effort (\<lambda>x p. p\<lparr>p_reasoning_effort := x\<rparr>) p) (\<lambda>p.
     bind_res (assign body ''include_git_skills'' check_git_skills (\<lambda>x p. p\<lparr>p_include_git_skills := x\<rparr>) p) (\<lambda>p.
     bind_res (assign body ''enabled_plugins'' validate_enabled_plugins (\<lambda>x p. p\<lparr>p_enabled_plugins := x\<rparr>) p) (\<lambda>p.
     bind_res (assign body ''llm_timeout'' validate_llm_timeout (\<lambda>x p. p\<lparr>p_llm_timeout := x\<rparr>) p) (\<lambda>p.
     bind_res (assign body ''shared_workspace_enabled'' validate_workspace_enabled (\<lambda>x p. p\<lparr>p_workspace_enabled := x\<rparr>) p) (\<lambda>p.
       assign body ''shared_workspace_subpath'' validate_workspace_subpath (\<lambda>x p. p\<lparr>p_workspace_subpath := x\<rparr>) p))))))"

text \<open>The fields assigned as they are; what the driver refuses at the commit is refused here.\<close>

definition assign_plain :: "(string \<times> json) list \<Rightarrow> profile \<Rightarrow> py_error + profile" where
  "assign_plain body p =
     bind_res (assign body ''description'' null_text (\<lambda>x p. p\<lparr>p_description := x\<rparr>) p) (\<lambda>p.
     bind_res (assign body ''match_rules'' null_text (\<lambda>x p. p\<lparr>p_match_rules := x\<rparr>) p) (\<lambda>p.
     bind_res (assign body ''model'' Inr (\<lambda>x p. p\<lparr>p_model := normalize_model_setting_value x\<rparr>) p) (\<lambda>p.
     bind_res (assign body ''system_prompt'' null_text (\<lambda>x p. p\<lparr>p_system_prompt := x\<rparr>) p) (\<lambda>p.
     bind_res (assign body ''max_turns'' null_int (\<lambda>x p. p\<lparr>p_max_turns := x\<rparr>) p) (\<lambda>p.
     bind_res (assign body ''mcp_servers'' Inr (\<lambda>x p. p\<lparr>p_mcp_servers := x\<rparr>) p) (\<lambda>p.
     bind_res (assign body ''litellm_mcp_servers'' Inr (\<lambda>x p. p\<lparr>p_litellm_mcp_servers := x\<rparr>) p) (\<lambda>p.
     bind_res (assign body ''skill_ids'' Inr (\<lambda>x p. p\<lparr>p_skill_ids := x\<rparr>) p) (\<lambda>p.
     bind_res (stored_timeout (p_llm_timeout p)) (\<lambda>_. Inr p)))))))))"

definition update_task_profile :: "nat \<Rightarrow> (string \<times> json) list \<Rightarrow> profile list \<Rightarrow> py_error + profile \<times> profile list" where
  "update_task_profile i body ps =
     bind_res (get_task_profile i ps) (\<lambda>p. bind_res (assign_checked body ps p) (\<lambda>p. bind_res (assign_plain body p) (\<lambda>p.
       Inr (p, put_profile p ps))))"

definition delete_task_profile_by_id :: "nat \<Rightarrow> profile list \<Rightarrow> py_error + profile list" where
  "delete_task_profile_by_id i ps = bind_res (get_task_profile i ps) (\<lambda>_. Inr (filter (\<lambda>p. p_id p \<noteq> i) ps))"

subsection \<open>The evaluation tools\<close>

definition eval_prefix :: string where "eval_prefix = ''eval--''"

text \<open>\<open>{**(src.model or {}), "model": model}\<close>\<close>

definition with_model :: "json \<Rightarrow> string \<Rightarrow> py_error + json" where
  "with_model m name =
     (if \<not> json_truthy m then Inr (JObj [(''model'', JStr name)])
      else case m of JObj d \<Rightarrow> Inr (JObj (dict_set ''model'' (JStr name) d)) | _ \<Rightarrow> Inl (TypeErr ''not a mapping''))"

text \<open>Refused with a message, failed with an exception, or the profile, whether it was there already, and
  the table.  The existence check is repeated when the commit finds the name taken.\<close>

datatype 'a tool = Refused string | Crashed py_error | Ok 'a

definition clone_task_profile ::
    "nat \<Rightarrow> string \<Rightarrow> string \<Rightarrow> string option \<Rightarrow> int option \<Rightarrow> int option \<Rightarrow> profile list \<Rightarrow>
     (profile \<times> bool \<times> profile list) tool" where
  "clone_task_profile i source new_name model timeout turns ps =
     (if \<not> starts_with new_name eval_prefix then Refused (''clone names must start with '' @ [apostrophe] @ eval_prefix @ [apostrophe])
      else case profile_named new_name ps of
        Some p \<Rightarrow> Ok (p, True, ps)
      | None \<Rightarrow>
          (case profile_named source ps of
             None \<Rightarrow> Refused (''source profile '' @ [apostrophe] @ source @ [apostrophe] @ '' not found'')
           | Some src \<Rightarrow>
               (case bind_res (case model of None \<Rightarrow> Inr (p_model src) | Some m \<Rightarrow> with_model (p_model src) m) (\<lambda>m.
                  bind_res (case timeout of None \<Rightarrow> Inr (p_llm_timeout src) | Some t \<Rightarrow> null_int (JInt t)) (\<lambda>t.
                  bind_res (case turns of None \<Rightarrow> Inr (p_max_turns src) | Some n \<Rightarrow> null_int (JInt n)) (\<lambda>n.
                    Inr (src\<lparr>p_id := i, p_name := new_name, p_model := m, p_llm_timeout := t, p_max_turns := n\<rparr>)))) of
                  Inl e \<Rightarrow> Crashed e
                | Inr p \<Rightarrow> Ok (p, False, ps @ [p]))))"

definition delete_eval_profile :: "string \<Rightarrow> profile list \<Rightarrow> (bool \<times> profile list) tool" where
  "delete_eval_profile name ps =
     (if \<not> starts_with name eval_prefix then Refused (''delete is restricted to '' @ [apostrophe] @ eval_prefix @ [apostrophe] @ '' profiles'')
      else case profile_named name ps of
        None \<Rightarrow> Ok (False, ps)
      | Some p \<Rightarrow> Ok (True, filter (\<lambda>q. p_id q \<noteq> p_id p) ps))"

subsection \<open>The shared workspace of a run\<close>

record workspace_mount =
  wm_container_path :: string
  wm_pvc_claim :: "string option"
  wm_host_path :: "string option"
  wm_subpath :: "string option"

definition env_or :: "environment \<Rightarrow> string \<Rightarrow> string \<Rightarrow> string" where
  "env_or env k d = (case env k of None \<Rightarrow> d | Some v \<Rightarrow> v)"

definition os_path_join :: "string \<Rightarrow> string \<Rightarrow> string" where
  "os_path_join a b =
     (if starts_with b ''/'' then b else if a = [] \<or> last a = CHR ''/'' then a @ b else a @ ''/'' @ b)"

text \<open>The mounts, and whether the profile asked for a workspace the deployment cannot give.\<close>

definition resolve_workspace_mounts :: "environment \<Rightarrow> bool \<Rightarrow> string option \<Rightarrow> workspace_mount list option \<times> bool" where
  "resolve_workspace_mounts env enabled wanted =
     (if \<not> enabled then (None, False)
      else if py_lower (strip (env_or env ''WORKSPACE_ENABLED'' [])) \<notin> {''1'', ''true'', ''yes''} then (None, True)
      else
        (let container = env_or env ''WORKSPACE_CONTAINER_PATH'' ''/shared'';
             subpath = (if truthy wanted then wanted else None);
             runtime = py_lower (strip (env_or env ''CONTAINER_RUNTIME'' ''docker''));
             claim = strip (env_or env ''WORKSPACE_PVC_CLAIM'' []);
             host_base = strip (env_or env ''WORKSPACE_HOST_PATH'' []);
             volume = strip (env_or env ''WORKSPACE_VOLUME'' [])
         in if runtime = ''kubernetes'' then
              (if claim = [] then (None, True)
               else (Some [\<lparr>wm_container_path = container, wm_pvc_claim = Some claim, wm_host_path = None, wm_subpath = subpath\<rparr>], False))
            else if host_base \<noteq> [] then
              (Some [\<lparr>wm_container_path = container, wm_pvc_claim = None,
                 wm_host_path = Some (case subpath of Some s \<Rightarrow> os_path_join host_base s | None \<Rightarrow> host_base),
                 wm_subpath = None\<rparr>], False)
            else if volume \<noteq> [] \<and> runtime = ''docker'' then
              (if subpath \<noteq> None then (None, True)
               else (Some [\<lparr>wm_container_path = container, wm_pvc_claim = None, wm_host_path = Some volume, wm_subpath = None\<rparr>], False))
            else (None, True)))"

subsection \<open>The invariant of the table\<close>

text \<open>A path below the base: no empty segment, none that is a dot or two.\<close>

definition clean_path :: "string \<Rightarrow> bool" where
  "clean_path s = (s = [] \<or> list_all (\<lambda>x. x \<noteq> [] \<and> x \<noteq> ''.'' \<and> x \<noteq> ''..'') (split_char CHR ''/'' s))"

definition profile_ok :: "profile \<Rightarrow> bool" where
  "profile_ok p \<longleftrightarrow> p_name p \<noteq> [] \<and>
     (case p_reasoning_effort p of None \<Rightarrow> True | Some e \<Rightarrow> e \<in> {''low'', ''medium'', ''high''}) \<and>
     (case p_workspace_subpath p of None \<Rightarrow> True | Some s \<Rightarrow> clean_path s \<and> null_char \<notin> set s) \<and>
     (case p_enabled_plugins p of None \<Rightarrow> True | Some us \<Rightarrow> list_all (\<lambda>u. parse_uuid u \<noteq> None) us)"

definition profiles_inv :: "profile list \<Rightarrow> bool" where
  "profiles_inv ps \<longleftrightarrow> distinct (map p_id ps) \<and> distinct (map p_name ps) \<and> list_all profile_ok ps"

lemma split_char_parts: "x \<in> set (split_char c s) \<Longrightarrow> c \<notin> set x \<and> (\<forall>y \<in> set x. y \<in> set s)"
proof (induction s arbitrary: x)
  case (Cons a s)
  obtain w ws where w: "split_char c s = w # ws" by (cases "split_char c s") auto
  have "c \<notin> set w \<and> (\<forall>y \<in> set w. y \<in> set s)" by (rule Cons.IH) (simp add: w)
  then show ?case using Cons.IH[of x] Cons.prems by (auto simp: w split: if_splits)
qed simp

lemma split_join:
  "\<forall>x \<in> set xs. c \<notin> set x \<Longrightarrow> xs \<noteq> [] \<Longrightarrow> split_char c (join [c] xs) = xs"
proof (induction xs)
  case (Cons x xs)
  then show ?case by (cases xs) (simp_all add: split_char_free split_char_line)
qed simp

lemma join_chars: "y \<in> set (join [c] xs) \<Longrightarrow> y = c \<or> (\<exists>x \<in> set xs. y \<in> set x)"
  by (induction xs) (auto simp: join_Cons split: if_splits)

lemma subpath_clean:
  assumes "validate_workspace_subpath v = Inr (Some s)"
  shows "clean_path s \<and> null_char \<notin> set s"
proof -
  from assms obtain r where r: "v = JStr r" by (cases v) (auto simp: validate_workspace_subpath_def refuse_def)
  define n where "n = map (\<lambda>c. if c = backslash then CHR ''/'' else c) (strip r)"
  from assms have s: "s = join ''/'' (path_segments n)" "''..'' \<notin> set (path_segments n)" "null_char \<notin> set (strip r)"
    unfolding r validate_workspace_subpath_def Let_def json.case n_def[symmetric] by (auto simp: refuse_def split: if_splits)
  have sub: "set (path_segments n) \<subseteq> set (split_char CHR ''/'' n)" by (auto simp: path_segments_def)
  have "CHR ''/'' \<noteq> null_char" by code_simp
  then have "null_char \<notin> set n" using s(3) by (auto simp: n_def)
  have "null_char \<notin> set s"
  proof
    assume "null_char \<in> set s"
    then obtain x where "x \<in> set (path_segments n)" "null_char \<in> set x"
      using join_chars[of null_char "CHR ''/''" "path_segments n"] \<open>CHR ''/'' \<noteq> null_char\<close> unfolding s(1) by auto
    then show False using sub split_char_parts[of x "CHR ''/''" n] \<open>null_char \<notin> set n\<close> by auto
  qed
  moreover have "clean_path s"
  proof (cases "path_segments n = []")
    case False
    have "split_char CHR ''/'' s = path_segments n"
      unfolding s(1) using sub split_char_parts False by (intro split_join) blast+
    then show ?thesis using s(2) by (auto simp: clean_path_def list_all_iff path_segments_def)
  qed (simp add: s(1) clean_path_def)
  ultimately show ?thesis by blast
qed

lemma plugins_are_uuids: "check_plugins xs = Inr ys \<Longrightarrow> list_all (\<lambda>u. parse_uuid u \<noteq> None) ys"
  by (induction xs arbitrary: ys) (auto simp: bind_res_eq_Inr refuse_def split: json.splits if_splits)

lemma valid_plugins: "validate_enabled_plugins v = Inr (Some ys) \<Longrightarrow> list_all (\<lambda>u. parse_uuid u \<noteq> None) ys"
  by (auto simp: validate_enabled_plugins_def bind_res_eq_Inr refuse_def dest!: plugins_are_uuids split: json.splits)

lemma valid_effort_stored: "check_effort v = Inr (Some e) \<Longrightarrow> e \<in> {''low'', ''medium'', ''high''}"
  by (auto simp: check_effort_def valid_effort_def bind_res_eq_Inr refuse_def split: json.splits if_splits option.splits)

lemma name_not_empty: "check_profile_name v = Inr n \<Longrightarrow> n \<noteq> []"
  by (auto simp: check_profile_name_def bind_res_eq_Inr refuse_def split: if_splits)

lemma profile_named_None: "profile_named n ps = None \<longleftrightarrow> n \<notin> p_name ` set ps"
  by (auto simp: profile_named_def find_None_iff)

lemma profile_named_Some: "profile_named n ps = Some p \<Longrightarrow> p \<in> set ps \<and> p_name p = n"
  by (auto simp: profile_named_def find_Some_iff)

lemma profile_by_id_Some: "profile_by_id i ps = Some p \<Longrightarrow> p \<in> set ps \<and> p_id p = i"
  by (auto simp: profile_by_id_def find_Some_iff)

lemma assign_Inr: "assign body k conv upd p = Inr q \<Longrightarrow> q = p \<or> (\<exists>v x. conv v = Inr x \<and> q = upd x p)"
  by (auto simp: assign_def bind_res_eq_Inr split: option.splits)

subsection \<open>Every operation keeps it\<close>

lemma bind_InrE: "bind_res r f = Inr y \<Longrightarrow> (\<And>x. r = Inr x \<Longrightarrow> f x = Inr y \<Longrightarrow> P) \<Longrightarrow> P"
  by (auto simp: bind_res_eq_Inr)

lemma create_profile_shape:
  assumes "create_task_profile i body ps = Inr (p, ps')"
  shows "ps' = ps @ [p] \<and> p_id p = i \<and> profile_named (p_name p) ps = None \<and>
    (\<exists>v. check_profile_name v = Inr (p_name p)) \<and> (\<exists>v. check_effort v = Inr (p_reasoning_effort p)) \<and>
    (\<exists>v. validate_workspace_subpath v = Inr (p_workspace_subpath p)) \<and>
    (\<exists>v. validate_enabled_plugins v = Inr (p_enabled_plugins p))"
  using assms unfolding create_task_profile_def Let_def
  by (auto simp: bind_res_eq_Inr split: if_splits)

definition same_row :: "profile \<Rightarrow> profile \<Rightarrow> bool" where
  "same_row p q \<longleftrightarrow> p_id q = p_id p \<and> p_name q = p_name p \<and> (profile_ok p \<longrightarrow> profile_ok q)"

lemma same_row_trans: "same_row p q \<Longrightarrow> same_row q r \<Longrightarrow> same_row p r"
  by (simp add: same_row_def)

lemma assign_same_row:
  assumes "assign body k conv upd p = Inr q" "\<And>v x. conv v = Inr x \<Longrightarrow> same_row p (upd x p)"
  shows "same_row p q"
  using assign_Inr[OF assms(1)] assms(2) by (auto simp: same_row_def)

lemma assign_then:
  assumes "bind_res (assign body k conv upd p) f = Inr q" "\<And>v x. conv v = Inr x \<Longrightarrow> same_row p (upd x p)"
    and "\<And>p'. f p' = Inr q \<Longrightarrow> same_row p' q"
  shows "same_row p q"
proof -
  from assms(1) obtain p' where p: "assign body k conv upd p = Inr p'" "f p' = Inr q" by (auto simp: bind_res_eq_Inr)
  have "same_row p p'" using p(1) by (rule assign_same_row) (rule assms(2))
  then show ?thesis using assms(3)[OF p(2)] by (rule same_row_trans)
qed

lemma plain_same:
  "same_row p (p\<lparr>p_description := x\<rparr>)" "same_row p (p\<lparr>p_match_rules := x\<rparr>)" "same_row p (p\<lparr>p_model := y\<rparr>)"
  "same_row p (p\<lparr>p_system_prompt := x\<rparr>)" "same_row p (p\<lparr>p_max_turns := n\<rparr>)" "same_row p (p\<lparr>p_mcp_servers := y\<rparr>)"
  "same_row p (p\<lparr>p_litellm_mcp_servers := y\<rparr>)" "same_row p (p\<lparr>p_skill_ids := y\<rparr>)" "same_row p p"
  by (simp_all add: same_row_def profile_ok_def)

lemma assign_plain_same: "assign_plain body p = Inr q \<Longrightarrow> same_row p q"
  unfolding assign_plain_def by (elim assign_then) (auto simp: bind_res_eq_Inr intro: plain_same)

lemma effort_same: "check_effort v = Inr x \<Longrightarrow> same_row p (p\<lparr>p_reasoning_effort := x\<rparr>)"
  using valid_effort_stored[of v] by (cases x) (auto simp: same_row_def profile_ok_def)

lemma plugins_same: "validate_enabled_plugins v = Inr x \<Longrightarrow> same_row p (p\<lparr>p_enabled_plugins := x\<rparr>)"
  using valid_plugins[of v] by (cases x) (auto simp: same_row_def profile_ok_def)

lemma subpath_same: "validate_workspace_subpath v = Inr x \<Longrightarrow> same_row p (p\<lparr>p_workspace_subpath := x\<rparr>)"
  using subpath_clean[of v] by (cases x) (auto simp: same_row_def profile_ok_def)

lemma other_same: "same_row p (p\<lparr>p_include_git_skills := g\<rparr>)" "same_row p (p\<lparr>p_llm_timeout := t\<rparr>)"
  "same_row p (p\<lparr>p_workspace_enabled := w\<rparr>)"
  by (simp_all add: same_row_def profile_ok_def)

lemma profiles_inv_append:
  assumes "profiles_inv ps" "p_id p \<notin> p_id ` set ps" "p_name p \<notin> p_name ` set ps" "profile_ok p"
  shows "profiles_inv (ps @ [p])"
  using assms by (auto simp: profiles_inv_def)

lemma profiles_inv_filter: "profiles_inv ps \<Longrightarrow> profiles_inv (filter P ps)"
  by (auto simp: profiles_inv_def list_all_iff distinct_map_filter)

lemma profiles_inv_put:
  assumes "profiles_inv ps" "p \<in> set ps" "p_id q = p_id p" "profile_ok q"
    and "p_name q = p_name p \<or> p_name q \<notin> p_name ` set ps"
  shows "profiles_inv (put_profile q ps)"
proof -
  let ?f = "\<lambda>x. if p_id x = p_id q then q else x"
  have same: "x = p" if "x \<in> set ps" "p_id x = p_id p" for x
    using assms(1,2) that by (auto simp: profiles_inv_def distinct_map dest: inj_onD)
  have f: "?f x = (if x = p then q else x)" if "x \<in> set ps" for x using same[OF that] assms(3) by auto
  have inj: "inj_on p_name (set ps)" using assms(1) by (simp add: profiles_inv_def distinct_map)
  have "inj_on (\<lambda>x. p_name (?f x)) (set ps)"
  proof (rule inj_onI)
    fix x y assume xy: "x \<in> set ps" "y \<in> set ps" "p_name (?f x) = p_name (?f y)"
    then have e: "p_name (if x = p then q else x) = p_name (if y = p then q else y)" by (simp only: f)
    have other: "p_name q \<noteq> p_name z" if "z \<in> set ps" "z \<noteq> p" for z
    proof
      assume z: "p_name q = p_name z"
      then have "p_name z = p_name p" using assms(5) that(1) by auto
      then show False using inj_onD[OF inj, of z p] that assms(2) by simp
    qed
    show "x = y"
    proof (cases "x = p \<or> y = p")
      case True
      then show ?thesis using e other[of x] other[of y] xy(1,2) by (auto split: if_splits)
    next
      case False
      then show ?thesis using e inj_onD[OF inj, of x y] xy(1,2) by simp
    qed
  qed
  moreover have ids: "map p_id (put_profile q ps) = map p_id ps" by (auto simp: put_profile_def)
  moreover have "distinct ps" using assms(1) by (auto simp: profiles_inv_def distinct_map)
  ultimately show ?thesis
    using assms(1,4) unfolding profiles_inv_def ids
    by (auto simp: put_profile_def distinct_map list_all_iff comp_def)
qed

inductive profile_step :: "profile list \<Rightarrow> profile list \<Rightarrow> bool" where
  "i \<notin> p_id ` set ps \<Longrightarrow> create_task_profile i body ps = Inr (p, ps') \<Longrightarrow> profile_step ps ps'"
| "update_task_profile i body ps = Inr (p, ps') \<Longrightarrow> profile_step ps ps'"
| "delete_task_profile_by_id i ps = Inr ps' \<Longrightarrow> profile_step ps ps'"
| "i \<notin> p_id ` set ps \<Longrightarrow> clone_task_profile i source name model timeout turns ps = Ok (p, reused, ps') \<Longrightarrow> profile_step ps ps'"
| "delete_eval_profile name ps = Ok (d, ps') \<Longrightarrow> profile_step ps ps'"

lemma update_profile_keeps:
  assumes "update_task_profile i body ps = Inr (q, ps')" "profiles_inv ps"
  shows "profiles_inv ps'"
proof -
  from assms(1) obtain p r where p: "profile_by_id i ps = Some p" "assign_checked body ps p = Inr r" "assign_plain body r = Inr q"
    "ps' = put_profile q ps"
    by (auto simp: update_task_profile_def get_task_profile_def bind_res_eq_Inr split: option.splits)
  from p(2) obtain n where n: "assign body ''name'' (new_profile_name ps p) (\<lambda>x p. p\<lparr>p_name := x\<rparr>) p = Inr n" "same_row n r"
    unfolding assign_checked_def
    by (rule bind_InrE) (rule that, assumption, elim assign_then,
      auto elim!: assign_same_row intro: effort_same plugins_same subpath_same other_same)
  have in_ps: "p \<in> set ps" using profile_by_id_Some[OF p(1)] ..
  then have "profile_ok p" using assms(2) by (simp add: profiles_inv_def list_all_iff)
  then have "profile_ok n \<and> p_id n = p_id p \<and> (p_name n = p_name p \<or> p_name n \<notin> p_name ` set ps)"
    using assign_Inr[OF n(1)] name_not_empty
    by (auto simp: new_profile_name_def bind_res_eq_Inr profile_named_None profile_ok_def split: if_splits)
  moreover have "same_row n q" using n(2) assign_plain_same[OF p(3)] by (rule same_row_trans)
  ultimately have "profile_ok q" "p_id q = p_id p" "p_name q = p_name p \<or> p_name q \<notin> p_name ` set ps"
    by (auto simp: same_row_def)
  then show ?thesis unfolding p(4) by (intro profiles_inv_put[OF assms(2) in_ps])
qed

lemma fresh_profile_ok:
  assumes "check_profile_name vn = Inr (p_name p)" "check_effort ve = Inr (p_reasoning_effort p)"
    "validate_workspace_subpath vw = Inr (p_workspace_subpath p)" "validate_enabled_plugins vp = Inr (p_enabled_plugins p)"
  shows "profile_ok p"
proof -
  have "profile_ok (p\<lparr>p_reasoning_effort := None, p_workspace_subpath := None, p_enabled_plugins := None\<rparr>)"
    using name_not_empty[OF assms(1)] by (simp add: profile_ok_def)
  then have "profile_ok (p\<lparr>p_workspace_subpath := None, p_enabled_plugins := None, p_reasoning_effort := p_reasoning_effort p\<rparr>)"
    using effort_same[OF assms(2)] by (fastforce simp: same_row_def)
  then have "profile_ok (p\<lparr>p_enabled_plugins := None, p_workspace_subpath := p_workspace_subpath p\<rparr>)"
    using subpath_same[OF assms(3)] by (fastforce simp: same_row_def)
  then show ?thesis using plugins_same[OF assms(4)] by (fastforce simp: same_row_def)
qed

lemma profile_step_inv: "profile_step ps ps' \<Longrightarrow> profiles_inv ps \<Longrightarrow> profiles_inv ps'"
proof (induction rule: profile_step.induct)
  case (1 i ps body p ps')
  from create_profile_shape[OF 1(2)] have s: "ps' = ps @ [p]" "p_id p = i" "p_name p \<notin> p_name ` set ps" "profile_ok p"
    using fresh_profile_ok by (auto simp: profile_named_None)
  then show ?case using 1 by (auto intro: profiles_inv_append)
next
  case (2 i body ps q ps')
  then show ?case by (rule update_profile_keeps)
next
  case (3 i ps ps')
  then show ?case by (auto simp: delete_task_profile_by_id_def bind_res_eq_Inr intro: profiles_inv_filter)
next
  case (4 i ps source name model timeout turns p reused ps')
  from 4(2) consider "ps' = ps" | src where "profile_named source ps = Some src" "profile_named name ps = None"
      "starts_with name eval_prefix" "p_id p = i" "p_name p = name" "ps' = ps @ [p]"
      "p_reasoning_effort p = p_reasoning_effort src" "p_workspace_subpath p = p_workspace_subpath src"
      "p_enabled_plugins p = p_enabled_plugins src"
    by (auto simp: clone_task_profile_def bind_res_eq_Inr split: if_splits option.splits sum.splits)
  then show ?case
  proof cases
    case 2
    have "profile_ok src" using 4(3) profile_named_Some[OF 2(1)] by (auto simp: profiles_inv_def list_all_iff)
    moreover have "name \<noteq> []" using 2(3) by (auto simp: eval_prefix_def starts_with_def)
    ultimately have "profile_ok p" using 2(5,7-9) by (simp add: profile_ok_def)
    then show ?thesis using 4(1,3) 2 by (auto intro!: profiles_inv_append simp: profile_named_None)
  qed (use 4(3) in simp)
next
  case (5 name ps d ps')
  then show ?case by (auto simp: delete_eval_profile_def intro: profiles_inv_filter split: if_splits option.splits)
qed

lemma profiles_reachable_inv: "profile_step\<^sup>*\<^sup>* ps ps' \<Longrightarrow> profiles_inv ps \<Longrightarrow> profiles_inv ps'"
  by (induction rule: rtranclp_induct) (auto intro: profile_step_inv)

lemma join_split: "join [c] (split_char c s) = s"
proof (induction s)
  case (Cons a s)
  obtain w ws where w: "split_char c s = w # ws" by (cases "split_char c s") auto
  with Cons show ?case by (cases ws) (auto simp: join_Cons)
qed simp

lemma clean_path_segments:
  "clean_path s \<Longrightarrow> s \<noteq> [] \<Longrightarrow> \<exists>segs. segs \<noteq> [] \<and>
    list_all (\<lambda>s. s \<noteq> [] \<and> s \<noteq> ''.'' \<and> s \<noteq> ''..'' \<and> CHR ''/'' \<notin> set s) segs \<and> s = join ''/'' segs"
  using split_char_parts[of _ "CHR ''/''" s]
  by (intro exI[of _ "split_char CHR ''/'' s"]) (auto simp: clean_path_def list_all_iff join_split)

lemma clean_path_relative: "clean_path s \<Longrightarrow> \<not> starts_with s ''/''"
  by (cases s) (auto simp: clean_path_def starts_with_def split: list.splits)

subsection \<open>Properties\<close>


definition sample_body :: "(string \<times> json) list" where
  "sample_body = [(''name'', JStr '' dev ''), (''shared_workspace_enabled'', JBool True),
     (''shared_workspace_subpath'', JStr '' team//./a ''), (''reasoning_effort'', JStr ''low'')]"

definition sample_profile :: profile where
  "sample_profile = fst (case create_task_profile 1 sample_body [] of Inr r \<Rightarrow> r)"

lemma sample_profiles_reachable: "profile_step\<^sup>*\<^sup>* [] [sample_profile]"
proof -
  have "(case create_task_profile 1 sample_body [] of Inr (p, ps) \<Rightarrow> ps = [p] | Inl _ \<Rightarrow> False)" by code_simp
  then have "create_task_profile 1 sample_body [] = Inr (sample_profile, [sample_profile])"
    by (auto simp: sample_profile_def split: sum.splits)
  then have "profile_step [] [sample_profile]" by (rule profile_step.intros(1)[rotated]) simp
  then show ?thesis by blast
qed


text \<open>C28. The workspace of a run stays where the profile confines it: for every profile the operations can
  store, what is mounted is either the claim with exactly the path of the profile, or a directory of the
  host that is the base followed by segments none of which is a dot or two; a path is never dropped,
  and nothing is mounted when the profile or the deployment does not enable it.\<close>

theorem workspace_stays_confined:
  assumes "profile_step\<^sup>*\<^sup>* [] ps" "p \<in> set ps"
  shows "case resolve_workspace_mounts env (p_workspace_enabled p) (p_workspace_subpath p) of
      (None, unavailable) \<Rightarrow> unavailable = p_workspace_enabled p
    | (Some ms, unavailable) \<Rightarrow> p_workspace_enabled p \<and> \<not> unavailable \<and> (\<exists>m. ms = [m] \<and>
        (case wm_pvc_claim m of
           Some claim \<Rightarrow> wm_host_path m = None \<and> wm_subpath m = (if truthy (p_workspace_subpath p) then p_workspace_subpath p else None)
         | None \<Rightarrow> (\<exists>base. base \<noteq> [] \<and> wm_subpath m = None \<and>
             (if truthy (p_workspace_subpath p)
              then base = strip (env_or env ''WORKSPACE_HOST_PATH'' []) \<and>
                wm_host_path m = Some (base @ (if last base = CHR ''/'' then [] else ''/'') @ the (p_workspace_subpath p)) \<and>
                (\<exists>segs. segs \<noteq> [] \<and> list_all (\<lambda>s. s \<noteq> [] \<and> s \<noteq> ''.'' \<and> s \<noteq> ''..'' \<and> CHR ''/'' \<notin> set s) segs \<and>
                  the (p_workspace_subpath p) = join ''/'' segs)
              else wm_host_path m = Some base))))"
proof -
  have "profiles_inv ps" by (rule profiles_reachable_inv[OF assms(1)]) (simp add: profiles_inv_def)
  then have ok: "profile_ok p" using assms(2) by (simp add: profiles_inv_def list_all_iff)
  show ?thesis
  proof (cases "truthy (p_workspace_subpath p)")
    case True
    then obtain s where s: "p_workspace_subpath p = Some s" "s \<noteq> []" by (auto simp: truthy_def split: option.splits)
    with ok have c: "clean_path s" by (simp add: profile_ok_def)
    define Q where "Q = (\<exists>segs. segs \<noteq> [] \<and> list_all (\<lambda>s. s \<noteq> [] \<and> s \<noteq> ''.'' \<and> s \<noteq> ''..'' \<and> CHR ''/'' \<notin> set s) segs \<and> s = join ''/'' segs)"
    have Q unfolding Q_def by (rule clean_path_segments[OF c s(2)])
    moreover have "os_path_join base s = base @ (if last base = CHR ''/'' then [] else ''/'') @ s" if "base \<noteq> []" for base
      using that clean_path_relative[OF c] by (simp add: os_path_join_def)
    ultimately show ?thesis
      using True unfolding s(1) option.sel Q_def[symmetric] resolve_workspace_mounts_def Let_def by simp
  next
    case False
    then show ?thesis unfolding resolve_workspace_mounts_def Let_def by simp
  qed
qed

definition sample_workspace_env :: environment where
  "sample_workspace_env n = (if n = ''WORKSPACE_ENABLED'' then Some '' True '' else if n = ''WORKSPACE_HOST_PATH'' then Some ''/data'' else None)"

theorem workspace_stays_confined_witness:
  "map_option (map wm_host_path) (fst (resolve_workspace_mounts sample_workspace_env (p_workspace_enabled sample_profile)
     (p_workspace_subpath sample_profile))) = Some [Some (''/data'' @ ''/'' @ ''team/a'')]"
proof -
  have v: "p_workspace_subpath sample_profile = Some ''team/a''" "strip (env_or sample_workspace_env ''WORKSPACE_HOST_PATH'' []) = ''/data''"
    "(case resolve_workspace_mounts sample_workspace_env (p_workspace_enabled sample_profile) (p_workspace_subpath sample_profile) of
       (Some [m], _) \<Rightarrow> wm_pvc_claim m = None | _ \<Rightarrow> False)" by code_simp+
  then obtain m u where r: "resolve_workspace_mounts sample_workspace_env (p_workspace_enabled sample_profile) (p_workspace_subpath sample_profile) = (Some [m], u)"
    "wm_pvc_claim m = None" by (auto split: prod.splits option.splits list.splits)
  show ?thesis
    using workspace_stays_confined[OF sample_profiles_reachable, of sample_profile sample_workspace_env] v(1,2) unfolding r(1)
    by (auto simp: r(2) truthy_def)
qed

text \<open>The tool that clones a profile takes any timeout, the handlers only a positive one.\<close>

lemma clone_takes_any_timeout:
  "case clone_task_profile 2 ''dev'' ''eval--dev'' None (Some (- 5)) None [sample_profile] of
     Ok (p, _, _) \<Rightarrow> p_llm_timeout p = Some (- 5) | _ \<Rightarrow> False"
  "case update_task_profile 1 [(''llm_timeout'', JInt (- 5))] [sample_profile] of Inl e \<Rightarrow> True | Inr _ \<Rightarrow> False"
  by code_simp+

end
