(* ===== verification/Eval_Runs.thy ===== *)
theory Eval_Runs
  imports Profiles
begin

text \<open>
  Evaluation runs: the tools of \<open>errand/mcp_server.py\<close> over \<open>eval_runs\<close> and \<open>eval_results\<close>.  A run is
  started, takes one result for each cell (workload, model, repetition) and is finished.  Recording checks
  the run in one statement and inserts in another (\<open>record_check\<close>, \<open>record_insert\<close>).
\<close>

record eval_run =
  er_id :: nat
  er_mode :: string
  er_started_at :: time
  er_finished_at :: "time option"
  er_corpus_version :: string
  er_errand_version :: string
  er_judge_model :: string
  er_driver_host :: "string option"
  er_notes :: "string option"

record eval_cell =
  ec_workload :: string
  ec_model :: string
  ec_rep :: int

record eval_result =
  ev_id :: nat
  ev_run_id :: nat
  ev_cell :: eval_cell
  ev_task_id :: "nat option"
  ev_verdict :: string
  ev_score :: "string option"            \<comment> \<open>a number, as its literal\<close>
  ev_turns :: "int option"
  ev_recoveries :: "int option"
  ev_error_events :: "int option"
  ev_wall_seconds :: "string option"
  ev_judge_output :: json

record eval_db =
  ed_runs :: "eval_run list"
  ed_results :: "eval_result list"

definition VALID_VERDICTS :: "string list" where
  "VALID_VERDICTS = [''pass'', ''fail'', ''infra_failure'']"

definition quoted :: "string \<Rightarrow> string" where "quoted s = [apostrophe] @ s @ [apostrophe]"

definition run_by_id :: "nat \<Rightarrow> eval_db \<Rightarrow> eval_run option" where
  "run_by_id i db = find (\<lambda>r. er_id r = i) (ed_runs db)"

definition start_eval_run ::
    "time \<Rightarrow> string \<Rightarrow> nat \<Rightarrow> string \<Rightarrow> string \<Rightarrow> string \<Rightarrow> string option \<Rightarrow> string option \<Rightarrow> eval_db \<Rightarrow> (nat \<times> eval_db) tool" where
  "start_eval_run now version i mode corpus judge host notes db =
     (if mode \<noteq> ''live'' \<and> mode \<noteq> ''retro'' then Refused (''mode must be '' @ quoted ''live'' @ '' or '' @ quoted ''retro'')
      else Ok (i, db\<lparr>ed_runs := ed_runs db @
        [\<lparr>er_id = i, er_mode = mode, er_started_at = now, er_finished_at = None, er_corpus_version = corpus,
          er_errand_version = version, er_judge_model = judge, er_driver_host = host, er_notes = notes\<rparr>]\<rparr>))"

definition invalid_run_id :: "string \<Rightarrow> string" where
  "invalid_run_id s = ''invalid run_id '' @ quoted s"

text \<open>The ids of the run and the task, once the arguments and the run have been checked.\<close>

definition record_check :: "string \<Rightarrow> string \<Rightarrow> string option \<Rightarrow> eval_db \<Rightarrow> (nat \<times> nat option) tool" where
  "record_check run_id verdict task_id db =
     (if verdict \<notin> set VALID_VERDICTS then Refused (''verdict must be one of ['' @ join '', '' (map quoted VALID_VERDICTS) @ '']'')
      else case parse_uuid run_id of
        None \<Rightarrow> Refused (invalid_run_id run_id)
      | Some i \<Rightarrow>
          (let task = (if truthy task_id then parse_uuid (the task_id) else None) in
           if truthy task_id \<and> task = None then Refused (''invalid task_id '' @ quoted (the task_id))
           else case run_by_id i db of
             None \<Rightarrow> Refused ''unknown run_id''
           | Some r \<Rightarrow>
               if er_finished_at r \<noteq> None then Refused ''run is finished; cannot record more results'' else Ok (i, task)))"

text \<open>The insert and its commit: the unique constraint over the cell, then the foreign keys.\<close>

definition record_insert :: "(nat \<Rightarrow> bool) \<Rightarrow> eval_result \<Rightarrow> eval_db \<Rightarrow> eval_db tool" where
  "record_insert task_exists r db =
     (if \<exists>q \<in> set (ed_results db). ev_run_id q = ev_run_id r \<and> ev_cell q = ev_cell r
      then Refused ''duplicate result for (run, workload, model, rep)''
      else if run_by_id (ev_run_id r) db = None \<or> (case ev_task_id r of None \<Rightarrow> False | Some t \<Rightarrow> \<not> task_exists t)
      then Refused ''integrity error recording result''
      else Ok (db\<lparr>ed_results := ed_results db @ [r]\<rparr>))"

definition record_eval_result ::
    "(nat \<Rightarrow> bool) \<Rightarrow> string \<Rightarrow> string option \<Rightarrow> eval_result \<Rightarrow> eval_db \<Rightarrow> eval_db tool" where
  "record_eval_result task_exists run_id task_id r db =
     (case record_check run_id (ev_verdict r) task_id db of
        Ok (i, task) \<Rightarrow> record_insert task_exists (r\<lparr>ev_run_id := i, ev_task_id := task\<rparr>) db
      | Refused m \<Rightarrow> Refused m | Crashed e \<Rightarrow> Crashed e)"

definition finish_eval_run :: "time \<Rightarrow> string \<Rightarrow> string option \<Rightarrow> eval_db \<Rightarrow> eval_db tool" where
  "finish_eval_run now run_id notes db =
     (case parse_uuid run_id of
        None \<Rightarrow> Refused (invalid_run_id run_id)
      | Some i \<Rightarrow>
          (case run_by_id i db of
             None \<Rightarrow> Refused ''unknown run_id''
           | Some r \<Rightarrow>
               if er_finished_at r \<noteq> None then Refused ''run is already finished''
               else Ok (db\<lparr>ed_runs := map (\<lambda>q. if er_id q = i
                   then q\<lparr>er_finished_at := Some now,
                     er_notes := (if truthy notes then Some (if truthy (er_notes q) then the (er_notes q) @ [newline] @ the notes else the notes)
                       else er_notes q)\<rparr> else q) (ed_runs db)\<rparr>)))"

definition get_eval_run :: "string \<Rightarrow> eval_db \<Rightarrow> (eval_run \<times> eval_result list) tool" where
  "get_eval_run run_id db =
     (case parse_uuid run_id of
        None \<Rightarrow> Refused (invalid_run_id run_id)
      | Some i \<Rightarrow>
          (case run_by_id i db of
             None \<Rightarrow> Refused ''unknown run_id''
           | Some r \<Rightarrow> Ok (r, filter (\<lambda>q. ev_run_id q = i) (ed_results db))))"

subsection \<open>Requests that interleave\<close>

text \<open>An insert may come at any time after the check it follows.\<close>

inductive eval_step :: "eval_db \<Rightarrow> eval_db \<Rightarrow> bool" where
  "i \<notin> er_id ` set (ed_runs db) \<Longrightarrow> start_eval_run now version i mode corpus judge host notes db = Ok (i, db') \<Longrightarrow> eval_step db db'"
| "ev_verdict r \<in> set VALID_VERDICTS \<Longrightarrow> record_insert task_exists r db = Ok db' \<Longrightarrow> eval_step db db'"
| "finish_eval_run now run_id notes db = Ok db' \<Longrightarrow> eval_step db db'"

definition eval_inv :: "eval_db \<Rightarrow> bool" where
  "eval_inv db \<longleftrightarrow> distinct (map er_id (ed_runs db)) \<and>
     distinct (map (\<lambda>q. (ev_run_id q, ev_cell q)) (ed_results db)) \<and>
     list_all (\<lambda>q. ev_run_id q \<in> er_id ` set (ed_runs db) \<and> ev_verdict q \<in> set VALID_VERDICTS) (ed_results db) \<and>
     list_all (\<lambda>r. er_mode r \<in> {''live'', ''retro''}) (ed_runs db)"

lemma run_by_id_Some: "run_by_id i db = Some r \<Longrightarrow> r \<in> set (ed_runs db) \<and> er_id r = i"
  by (auto simp: run_by_id_def find_Some_iff)

lemma eval_step_inv: "eval_step db db' \<Longrightarrow> eval_inv db \<Longrightarrow> eval_inv db'"
proof (induction rule: eval_step.induct)
  case (1 i db now version mode corpus judge host added db')
  then show ?case by (auto simp: start_eval_run_def eval_inv_def list_all_iff split: if_splits)
next
  case (2 r task_exists db db')
  then have "run_by_id (ev_run_id r) db \<noteq> None" "(ev_run_id r, ev_cell r) \<notin> (\<lambda>q. (ev_run_id q, ev_cell q)) ` set (ed_results db)"
    "db' = db\<lparr>ed_results := ed_results db @ [r]\<rparr>"
    by (auto simp: record_insert_def split: if_splits)
  moreover from this(1) have "ev_run_id r \<in> er_id ` set (ed_runs db)" by (metis run_by_id_Some image_eqI not_None_eq)
  ultimately show ?case using 2(1,3) by (auto simp: eval_inv_def)
next
  case (3 now run_id added db db')
  then obtain i f where db': "db' = db\<lparr>ed_runs := map (\<lambda>q. if er_id q = i then f q else q) (ed_runs db)\<rparr>"
    and f: "\<And>q. er_id (f q) = er_id q \<and> er_mode (f q) = er_mode q"
    by (auto simp: finish_eval_run_def split: option.splits if_splits)
  have ids: "map er_id (ed_runs db') = map er_id (ed_runs db)" using f by (auto simp: db')
  then have "er_id ` set (ed_runs db') = er_id ` set (ed_runs db)" by (metis list.set_map)
  moreover have "ed_results db' = ed_results db" "list_all (\<lambda>r. er_mode r \<in> {''live'', ''retro''}) (ed_runs db')"
    using 3(2) f by (auto simp: eval_inv_def db' list_all_iff)
  ultimately show ?case using 3(2) by (simp add: eval_inv_def ids)
qed

lemma eval_reachable_inv: "eval_step\<^sup>*\<^sup>* db db' \<Longrightarrow> eval_inv db \<Longrightarrow> eval_inv db'"
  by (induction rule: rtranclp_induct) (auto intro: eval_step_inv)

definition no_evals :: eval_db where "no_evals = \<lparr>ed_runs = [], ed_results = []\<rparr>"


definition sample_result :: eval_result where
  "sample_result = \<lparr>ev_id = 1, ev_run_id = 0, ev_cell = \<lparr>ec_workload = ''w'', ec_model = ''m'', ec_rep = 1\<rparr>, ev_task_id = None,
     ev_verdict = ''pass'', ev_score = None, ev_turns = None, ev_recoveries = None, ev_error_events = None,
     ev_wall_seconds = None, ev_judge_output = JNull\<rparr>"

definition one_run :: eval_db where
  "one_run = (case start_eval_run 0 ''1.0'' 1 ''live'' ''c'' ''j'' None None no_evals of Ok (_, db) \<Rightarrow> db)"

definition run_one :: string where "run_one = ''00000000-0000-0000-0000-000000000001''"


text \<open>The check and the insert are two statements: a run that is finished between them still takes the
  result.\<close>

lemma finished_run_takes_result:
  "(case record_check run_one ''pass'' None one_run of Ok (i, _) \<Rightarrow> i = 1 | _ \<Rightarrow> False) \<and>
   (case finish_eval_run 9 run_one None one_run of
      Ok db \<Rightarrow> (case record_insert (\<lambda>_. True) (sample_result\<lparr>ev_run_id := 1\<rparr>) db of
        Ok db' \<Rightarrow> map er_finished_at (ed_runs db') = [Some 9] \<and> length (ed_results db') = 1 | _ \<Rightarrow> False)
    | _ \<Rightarrow> False)"
  by code_simp

end
