(* ===== verification/Triggers.thy ===== *)
theory Triggers
  imports Profiles
begin

text \<open>
  Webhook triggers: the table \<open>webhook_triggers\<close> of \<open>errand/models.py\<close> (its timestamps left out) and
  the handlers of \<open>errand/webhook_trigger_routes.py\<close>.  The registration of a trigger with the cloud
  service, which follows a commit and whose failures are only logged, is left out.  A null in the
  column of filters or actions is read as an empty object.
\<close>

record trigger =
  w_id :: nat
  w_name :: string
  w_enabled :: bool
  w_source :: string
  w_profile_id :: "nat option"
  w_filters :: "(string \<times> json) list"
  w_actions :: "(string \<times> json) list"
  w_task_prompt :: "string option"
  w_secret :: "string option"

subsection \<open>Validation\<close>

definition VALID_SOURCES :: "string list" where "VALID_SOURCES = [''jira'', ''github'']"

definition VALID_FILTER_KEYS :: "string list" where
  "VALID_FILTER_KEYS = [''event_types'', ''issue_types'', ''labels'', ''projects'']"

text \<open>The actions with the type of each: \<open>str\<close> or, where \<open>True\<close>, \<open>bool\<close>.\<close>

definition ACTION_TYPES :: "(string \<times> bool) list" where
  "ACTION_TYPES =
     [(''assign_to'', False), (''add_comment'', True), (''add_label'', False), (''transition_on_complete'', False),
      (''comment_output'', True)]"

definition GITHUB_VALID_FILTER_KEYS :: "string list" where
  "GITHUB_VALID_FILTER_KEYS = [''project_node_id'', ''trigger_column'', ''content_types'']"

definition GITHUB_REQUIRED_FILTER_KEYS :: "string list" where
  "GITHUB_REQUIRED_FILTER_KEYS = [''project_node_id'', ''trigger_column'']"

definition GITHUB_VALID_CONTENT_TYPES :: "string list" where
  "GITHUB_VALID_CONTENT_TYPES = [''Issue'', ''PullRequest'', ''DraftIssue'']"

definition GITHUB_VALID_ACTION_KEYS :: "string list" where
  "GITHUB_VALID_ACTION_KEYS =
     [''add_comment'', ''comment_output'', ''column_on_running'', ''column_on_complete'', ''copilot_review'',
      ''review_profile_id'', ''project_field_id'', ''column_options'']"

definition sq :: "string \<Rightarrow> string" where "sq s = [apostrophe] @ s @ [apostrophe]"

definition is_str :: "json \<Rightarrow> bool" where "is_str v = (case v of JStr _ \<Rightarrow> True | _ \<Rightarrow> False)"
definition is_bool :: "json \<Rightarrow> bool" where "is_bool v = (case v of JBool _ \<Rightarrow> True | _ \<Rightarrow> False)"

definition str_list :: "json \<Rightarrow> bool" where
  "str_list v = (case v of JArr xs \<Rightarrow> list_all is_str xs | _ \<Rightarrow> False)"

definition strings_of :: "json \<Rightarrow> string list" where
  "strings_of v = (case v of JArr xs \<Rightarrow> concat (map (\<lambda>x. case x of JStr s \<Rightarrow> [s] | _ \<Rightarrow> []) xs) | _ \<Rightarrow> [])"

text \<open>The first failing check answers; \<open>check c m\<close> refuses with 422 unless \<open>c\<close>.\<close>

definition check :: "bool \<Rightarrow> string \<Rightarrow> py_error + unit" where
  "check c m = (if c then Inr () else refuse m)"

definition and_then :: "py_error + unit \<Rightarrow> py_error + 'a \<Rightarrow> py_error + 'a" where
  "and_then a b = bind_res a (\<lambda>_. b)"

fun check_all :: "(py_error + unit) list \<Rightarrow> py_error + unit" where
  "check_all [] = Inr ()"
| "check_all (c # cs) = and_then c (check_all cs)"

definition unknown_keys :: "string list \<Rightarrow> (string \<times> json) list \<Rightarrow> string list" where
  "unknown_keys valid d = sort (filter (\<lambda>k. k \<notin> set valid) (remdups (map fst d)))"

definition known_keys :: "string \<Rightarrow> string list \<Rightarrow> (string \<times> json) list \<Rightarrow> py_error + unit" where
  "known_keys what valid d =
     check (unknown_keys valid d = []) (''Unknown '' @ what @ '' key(s): '' @ join '', '' (unknown_keys valid d))"

definition validate_filters :: "(string \<times> json) list \<Rightarrow> py_error + unit" where
  "validate_filters d =
     check_all (known_keys ''filter'' VALID_FILTER_KEYS d #
       map (\<lambda>(k, v). check (str_list v) (''Filter '' @ sq k @ '' must be an array of strings'')) d)"

definition validate_actions :: "(string \<times> json) list \<Rightarrow> py_error + unit" where
  "validate_actions d =
     check_all (known_keys ''action'' (map fst ACTION_TYPES) d #
       map (\<lambda>(k, v). case map_of ACTION_TYPES k of
           None \<Rightarrow> Inr ()
         | Some b \<Rightarrow> check (if b then is_bool v else is_str v)
             (''Action '' @ sq k @ '' must be a '' @ (if b then ''bool'' else ''str''))) d)"

text \<open>The required keys are a set in the code, walked here in the order they are written.\<close>

definition validate_github_filters :: "(string \<times> json) list \<Rightarrow> py_error + unit" where
  "validate_github_filters d =
     check_all (known_keys ''filter'' GITHUB_VALID_FILTER_KEYS d #
       concat (map (\<lambda>k.
         [check (dict_get d k \<noteq> None) (''Missing required filter key: '' @ k),
          check (case dict_get d k of Some v \<Rightarrow> is_str v | None \<Rightarrow> False) (''Filter '' @ sq k @ '' must be a string'')])
         GITHUB_REQUIRED_FILTER_KEYS) @
       (case dict_get d ''content_types'' of
          None \<Rightarrow> []
        | Some v \<Rightarrow>
            [check (str_list v) (''Filter '' @ sq ''content_types'' @ '' must be an array of strings''),
             check (set (strings_of v) \<subseteq> set GITHUB_VALID_CONTENT_TYPES)
               (''Invalid content_types: '' @
                join '', '' (sort (filter (\<lambda>x. x \<notin> set GITHUB_VALID_CONTENT_TYPES) (remdups (strings_of v)))) @
                ''. Valid values: '' @ join '', '' (sort GITHUB_VALID_CONTENT_TYPES))]))"

text \<open>\<open>uuid.UUID\<close> of a decoded value: a null is not caught, anything else that is no string is.\<close>

definition parse_uuid_value :: "json \<Rightarrow> string \<Rightarrow> py_error + nat" where
  "parse_uuid_value v label =
     (case v of
        JStr s \<Rightarrow> (case parse_uuid s of None \<Rightarrow> refuse (''Invalid '' @ label @ '': '' @ s) | Some i \<Rightarrow> Inr i)
      | JNull \<Rightarrow> Inl (TypeErr ''one of the hex, bytes, bytes_le, fields, or int arguments must be given'')
      | _ \<Rightarrow> refuse (''Invalid '' @ label @ '': '' @ py_str v))"

definition check_value :: "(string \<times> json) list \<Rightarrow> string \<Rightarrow> (json \<Rightarrow> bool) \<Rightarrow> string \<Rightarrow> py_error + unit" where
  "check_value d k ok what =
     (case dict_get d k of
        None \<Rightarrow> Inr ()
      | Some v \<Rightarrow> check (ok v) (''Action '' @ sq k @ '' must be a '' @ what))"

definition option_names :: "json \<Rightarrow> string list" where
  "option_names v = (case v of JObj o1 \<Rightarrow> map fst o1 | _ \<Rightarrow> [])"

definition check_column :: "(string \<times> json) list \<Rightarrow> json \<Rightarrow> string \<Rightarrow> py_error + unit" where
  "check_column d opts k =
     (case dict_get d k of
        Some (JStr c) \<Rightarrow>
          check (c = [] \<or> c \<in> set (option_names opts))
            (''Action '' @ sq k @ '' value '' @ sq c @ '' not found in column_options'')
      | _ \<Rightarrow> Inr ())"

definition validate_github_actions :: "(string \<times> json) list \<Rightarrow> py_error + unit" where
  "validate_github_actions d =
     check_all (
       [known_keys ''action'' GITHUB_VALID_ACTION_KEYS d] @
       map (\<lambda>k. check_value d k is_bool ''bool'') [''add_comment'', ''comment_output'', ''copilot_review''] @
       map (\<lambda>k. check_value d k is_str ''str'') [''column_on_running'', ''column_on_complete''] @
       [case dict_get d ''review_profile_id'' of
          None \<Rightarrow> Inr ()
        | Some v \<Rightarrow> bind_res (parse_uuid_value v ''review_profile_id'') (\<lambda>_. Inr ()),
        check_value d ''column_options'' (\<lambda>v. case v of JObj _ \<Rightarrow> True | _ \<Rightarrow> False) ''dict'',
        check_value d ''column_options'' (\<lambda>v. case v of JObj o1 \<Rightarrow> list_all (is_str \<circ> snd) o1 | _ \<Rightarrow> True) ''dict[str, str]'',
        check_value d ''project_field_id'' is_str ''str''] @
       (case dict_get d ''column_options'' of
          None \<Rightarrow> []
        | Some opts \<Rightarrow> map (check_column d opts) [''column_on_running'', ''column_on_complete'']))"

definition truthy_at :: "(string \<times> json) list \<Rightarrow> string \<Rightarrow> bool" where
  "truthy_at d k = (case dict_get d k of None \<Rightarrow> False | Some v \<Rightarrow> json_truthy v)"

text \<open>\<open>has_profile\<close> tells the rows of \<open>task_profiles\<close>.\<close>

definition validate_github_review_profile :: "(nat \<Rightarrow> bool) \<Rightarrow> (string \<times> json) list \<Rightarrow> py_error + unit" where
  "validate_github_review_profile has_profile d =
     (case dict_get d ''review_profile_id'' of
        None \<Rightarrow> Inr ()
      | Some v \<Rightarrow>
          if \<not> json_truthy v then Inr ()
          else bind_res (parse_uuid_value v ''review_profile_id'') (\<lambda>i.
            check (has_profile i) (''TaskProfile not found: '' @ py_str v)))"

definition ensure_column :: "(string \<times> json) list \<Rightarrow> json \<Rightarrow> string \<Rightarrow> py_error + unit" where
  "ensure_column d opts k =
     (case dict_get d k of
        Some (JStr c) \<Rightarrow>
          check (c = [] \<or> c \<in> set (option_names opts))
            (''Column '' @ sq c @ '' not found in project. Available: '' @ py_repr (JArr (map JStr (option_names opts))))
      | _ \<Rightarrow> Inr ())"

definition ensure_github_column_options :: "(string \<times> json) list \<Rightarrow> py_error + unit" where
  "ensure_github_column_options d =
     (if \<not> truthy_at d ''column_on_running'' \<and> \<not> truthy_at d ''column_on_complete'' then Inr ()
      else if truthy_at d ''column_options'' \<and> truthy_at d ''project_field_id'' then
        check_all (map (ensure_column d (the (dict_get d ''column_options''))) [''column_on_running'', ''column_on_complete''])
      else refuse (''column_on_running or column_on_complete requires column_options. '' @
        ''Use the project introspection endpoint first to discover column options.''))"

subsection \<open>The handlers\<close>

definition trigger_by_id :: "nat \<Rightarrow> trigger list \<Rightarrow> trigger option" where
  "trigger_by_id i ts = find (\<lambda>t. w_id t = i) ts"

text \<open>Unique names, profiles that exist and columns that are not null, at a commit.\<close>

definition trigger_conflict :: py_error where
  "trigger_conflict = Http 409 ''A trigger with this name already exists''"

definition profile_ok_at :: "(nat \<Rightarrow> bool) \<Rightarrow> nat option \<Rightarrow> bool" where
  "profile_ok_at has_profile p = (case p of None \<Rightarrow> True | Some i \<Rightarrow> has_profile i)"

definition parse_profile_id :: "string option \<Rightarrow> py_error + nat option" where
  "parse_profile_id v =
     (if truthy v then bind_res (parse_uuid_value (JStr (the v)) ''profile_id'') (\<lambda>i. Inr (Some i)) else Inr None)"

definition invalid_source :: "string \<Rightarrow> py_error + 'a" where
  "invalid_source s = refuse (''Invalid source '' @ sq s @ ''. Must be one of: github, jira'')"

record trigger_create =
  tc_name :: string
  tc_source :: string
  tc_enabled :: bool
  tc_profile_id :: "string option"
  tc_filters :: "(string \<times> json) list"
  tc_actions :: "(string \<times> json) list"
  tc_task_prompt :: "string option"

definition validate_for :: "(nat \<Rightarrow> bool) \<Rightarrow> string \<Rightarrow> (string \<times> json) list \<Rightarrow> (string \<times> json) list \<Rightarrow> py_error + unit" where
  "validate_for has_profile source filters actions =
     (if source = ''github'' then
        check_all [validate_github_filters filters, validate_github_actions actions,
          validate_github_review_profile has_profile actions, ensure_github_column_options actions]
      else check_all [validate_filters filters, validate_actions actions])"

text \<open>\<open>secret\<close> is the encrypted form of the secret the server draws.\<close>

definition create_trigger ::
    "(nat \<Rightarrow> bool) \<Rightarrow> nat \<Rightarrow> string \<Rightarrow> trigger_create \<Rightarrow> trigger list \<Rightarrow> py_error + trigger \<times> trigger list" where
  "create_trigger has_profile i secret b ts =
     (if tc_source b \<notin> set VALID_SOURCES then invalid_source (tc_source b)
      else and_then (validate_for has_profile (tc_source b) (tc_filters b) (tc_actions b))
        (bind_res (parse_profile_id (tc_profile_id b)) (\<lambda>p.
          if tc_name b \<in> w_name ` set ts \<or> \<not> profile_ok_at has_profile p then Inl trigger_conflict
          else
            (let t = \<lparr>w_id = i, w_name = tc_name b, w_enabled = tc_enabled b, w_source = tc_source b, w_profile_id = p,
               w_filters = tc_filters b, w_actions = tc_actions b, w_task_prompt = tc_task_prompt b,
               w_secret = Some secret\<rparr>
             in Inr (t, ts @ [t])))))"

text \<open>A field that was not sent is \<open>None\<close>, one that was sent as null is \<open>Some None\<close>.\<close>

record trigger_update =
  tu_name :: "string option option"
  tu_source :: "string option option"
  tu_enabled :: "bool option option"
  tu_profile_id :: "string option option"
  tu_filters :: "(string \<times> json) list option option"
  tu_actions :: "(string \<times> json) list option option"
  tu_task_prompt :: "string option option"

definition sent_value :: "'a option option \<Rightarrow> 'a option" where "sent_value v = (case v of Some (Some x) \<Rightarrow> Some x | _ \<Rightarrow> None)"

definition get_trigger :: "string \<Rightarrow> trigger list \<Rightarrow> py_error + trigger" where
  "get_trigger trigger_id ts =
     bind_res (parse_uuid_value (JStr trigger_id) ''trigger ID'') (\<lambda>i.
       case trigger_by_id i ts of None \<Rightarrow> Inl (Http 404 ''Trigger not found'') | Some t \<Rightarrow> Inr t)"

definition list_triggers :: "trigger list \<Rightarrow> trigger list" where "list_triggers ts = ts"

definition validate_update :: "(nat \<Rightarrow> bool) \<Rightarrow> trigger_update \<Rightarrow> trigger \<Rightarrow> py_error + unit" where
  "validate_update has_profile u t =
     (let source = (case sent_value (tu_source u) of Some s \<Rightarrow> s | None \<Rightarrow> w_source t);
          changed = (source \<noteq> w_source t);
          filters = (case sent_value (tu_filters u) of Some d \<Rightarrow> d | None \<Rightarrow> w_filters t);
          actions = (case sent_value (tu_actions u) of Some d \<Rightarrow> d | None \<Rightarrow> w_actions t);
          f = (sent_value (tu_filters u) \<noteq> None);
          a = (sent_value (tu_actions u) \<noteq> None)
      in if source = ''github'' then
           check_all ((if f \<or> changed then [validate_github_filters filters] else []) @
             (if a \<or> changed then
                [validate_github_actions actions, validate_github_review_profile has_profile actions,
                 ensure_github_column_options actions] else []))
         else check_all ((if f then [validate_filters filters] else []) @ (if a then [validate_actions actions] else [])))"

text \<open>The actions of a validated GitHub trigger are set again (\<open>body.actions = ...\<close>), also when they were
  sent as null, so a null only reaches the column otherwise.\<close>

definition new_actions :: "trigger_update \<Rightarrow> trigger \<Rightarrow> (string \<times> json) list" where
  "new_actions u t =
     (let source = (case sent_value (tu_source u) of Some s \<Rightarrow> s | None \<Rightarrow> w_source t)
      in case tu_actions u of
           None \<Rightarrow> w_actions t
         | Some (Some d) \<Rightarrow> d
         | Some None \<Rightarrow> if source = ''github'' \<and> source \<noteq> w_source t then w_actions t else [])"

definition updated_trigger :: "trigger_update \<Rightarrow> nat option \<Rightarrow> trigger \<Rightarrow> trigger" where
  "updated_trigger u p t =
     t\<lparr>w_name := (case sent_value (tu_name u) of Some n \<Rightarrow> n | None \<Rightarrow> w_name t),
       w_source := (case sent_value (tu_source u) of Some s \<Rightarrow> s | None \<Rightarrow> w_source t),
       w_enabled := (case sent_value (tu_enabled u) of Some b \<Rightarrow> b | None \<Rightarrow> w_enabled t),
       w_profile_id := (if tu_profile_id u = None then w_profile_id t else p),
       w_filters := (case tu_filters u of None \<Rightarrow> w_filters t | Some None \<Rightarrow> [] | Some (Some d) \<Rightarrow> d),
       w_actions := new_actions u t,
       w_task_prompt := (case tu_task_prompt u of None \<Rightarrow> w_task_prompt t | Some v \<Rightarrow> v)\<rparr>"

definition update_trigger ::
    "(nat \<Rightarrow> bool) \<Rightarrow> string \<Rightarrow> trigger_update \<Rightarrow> trigger list \<Rightarrow> py_error + trigger \<times> trigger list" where
  "update_trigger has_profile trigger_id u ts =
     bind_res (get_trigger trigger_id ts) (\<lambda>t.
       and_then (case sent_value (tu_source u) of
           Some s \<Rightarrow> if s \<in> set VALID_SOURCES then Inr () else invalid_source s | None \<Rightarrow> Inr ())
        (and_then (validate_update has_profile u t)
          (bind_res (case tu_profile_id u of Some v \<Rightarrow> parse_profile_id v | None \<Rightarrow> Inr None) (\<lambda>p.
            (let n = updated_trigger u p t in
             if tu_name u = Some None \<or> tu_source u = Some None \<or> tu_enabled u = Some None \<or>
                 (\<exists>q \<in> set ts. w_id q \<noteq> w_id t \<and> w_name q = w_name n) \<or>
                 (tu_profile_id u \<noteq> None \<and> \<not> profile_ok_at has_profile p)
             then Inl trigger_conflict
             else Inr (n, map (\<lambda>q. if w_id q = w_id t then n else q) ts))))))"

definition delete_trigger :: "string \<Rightarrow> trigger list \<Rightarrow> py_error + trigger list" where
  "delete_trigger trigger_id ts =
     bind_res (get_trigger trigger_id ts) (\<lambda>t. Inr (filter (\<lambda>q. w_id q \<noteq> w_id t) ts))"

subsection \<open>Columns of the triggers in the table\<close>

text \<open>A trigger for GitHub that moves an item names a column the options resolve, and the field of the project.\<close>

definition column_resolves :: "(string \<times> json) list \<Rightarrow> string \<Rightarrow> bool" where
  "column_resolves d k =
     (if truthy_at d k then
        (case (dict_get d k, dict_get d ''column_options'', dict_get d ''project_field_id'') of
           (Some (JStr c), Some opts, Some (JStr _)) \<Rightarrow> (case json_get opts c of Some v \<Rightarrow> is_str v | None \<Rightarrow> False)
         | _ \<Rightarrow> False)
      else True)"

definition columns_resolve :: "(string \<times> json) list \<Rightarrow> bool" where
  "columns_resolve d \<longleftrightarrow> column_resolves d ''column_on_running'' \<and> column_resolves d ''column_on_complete''"

lemma column_resolvesD:
  "column_resolves d k \<Longrightarrow> truthy_at d k \<Longrightarrow>
   \<exists>c opts f v. dict_get d k = Some (JStr c) \<and> dict_get d ''column_options'' = Some opts \<and>
     dict_get d ''project_field_id'' = Some (JStr f) \<and> json_get opts c = Some (JStr v)"
proof -
  assume a: "column_resolves d k" "truthy_at d k"
  then obtain v opts f where "dict_get d k = Some v" "dict_get d ''column_options'' = Some opts" "dict_get d ''project_field_id'' = Some f"
    by (cases "dict_get d k"; cases "dict_get d ''column_options''"; cases "dict_get d ''project_field_id''")
      (simp_all add: column_resolves_def split: json.split_asm)
  with a show ?thesis
    by (cases v; cases f; simp add: column_resolves_def is_str_def split: option.split_asm json.split_asm)
qed

lemma and_then_Inr [simp]: "and_then a b = Inr y \<longleftrightarrow> a = Inr () \<and> b = Inr y"
  by (cases a) (simp_all add: and_then_def)

lemma check_all_Inr [simp]: "check_all cs = Inr u \<longleftrightarrow> list_all (\<lambda>c. c = Inr ()) cs"
  by (induction cs) auto

lemma check_Inr [simp]: "check c m = Inr u \<longleftrightarrow> c"
  by (simp add: check_def refuse_def)

lemma column_valid:
  assumes "validate_github_actions d = Inr ()" "ensure_github_column_options d = Inr ()"
    and "k = ''column_on_running'' \<or> k = ''column_on_complete''"
  shows "column_resolves d k"
proof (cases "truthy_at d k")
  case True
  then obtain v where v: "dict_get d k = Some v" "json_truthy v" by (auto simp: truthy_at_def split: option.splits)
  have "check_value d k is_str ''str'' = Inr ()" using assms(1,3) by (auto simp: validate_github_actions_def)
  then obtain c where c: "v = JStr c" "c \<noteq> []" using v by (auto simp: check_value_def is_str_def json_truthy_def split: json.splits)
  have en: "truthy_at d ''column_options''" "truthy_at d ''project_field_id''"
    "ensure_column d (the (dict_get d ''column_options'')) k = Inr ()"
    using assms(2,3) True by (auto simp: ensure_github_column_options_def refuse_def split: if_splits)
  then obtain opts f where o: "dict_get d ''column_options'' = Some opts" "dict_get d ''project_field_id'' = Some f"
    by (auto simp: truthy_at_def split: option.splits)
  have sh: "check_value d ''column_options'' (\<lambda>v. case v of JObj _ \<Rightarrow> True | _ \<Rightarrow> False) ''dict'' = Inr ()"
    "check_value d ''column_options'' (\<lambda>v. case v of JObj o1 \<Rightarrow> list_all (is_str \<circ> snd) o1 | _ \<Rightarrow> True) ''dict[str, str]'' = Inr ()"
    "check_value d ''project_field_id'' is_str ''str'' = Inr ()"
    using assms(1) by (auto simp: validate_github_actions_def)
  then obtain o1 where o1: "opts = JObj o1" "list_all (is_str \<circ> snd) o1" using o by (auto simp: check_value_def split: json.splits)
  obtain s where s: "f = JStr s" using sh(3) o by (auto simp: check_value_def is_str_def split: json.splits)
  have "c \<in> fst ` set o1" using en(3) v c o o1 by (simp add: ensure_column_def option_names_def)
  then obtain w where w: "map_of o1 c = Some w" by (metis map_of_eq_None_iff not_None_eq)
  then have "is_str w" using o1(2) map_of_SomeD[of o1 c w] by (force simp: list_all_iff)
  then show ?thesis using v c o o1 s w True by (simp add: column_resolves_def json_get_def)
qed (simp add: column_resolves_def)

lemma columns_valid:
  "validate_github_actions d = Inr () \<Longrightarrow> ensure_github_column_options d = Inr () \<Longrightarrow> columns_resolve d"
  by (simp add: columns_resolve_def column_valid)

lemma columns_resolve_Nil [simp]: "columns_resolve []"
  by (simp add: columns_resolve_def column_resolves_def truthy_at_def)

inductive trigger_step :: "trigger list \<Rightarrow> trigger list \<Rightarrow> bool" where
  create: "i \<notin> w_id ` set ts \<Longrightarrow> create_trigger has_profile i secret b ts = Inr (t, ts') \<Longrightarrow> trigger_step ts ts'"
| update: "update_trigger has_profile trigger_id u ts = Inr (t, ts') \<Longrightarrow> trigger_step ts ts'"
| delete: "delete_trigger trigger_id ts = Inr ts' \<Longrightarrow> trigger_step ts ts'"

definition trigger_ok :: "trigger \<Rightarrow> bool" where
  "trigger_ok t \<longleftrightarrow> w_source t \<in> set VALID_SOURCES \<and> (w_source t = ''github'' \<longrightarrow> columns_resolve (w_actions t))"

definition trigger_inv :: "trigger list \<Rightarrow> bool" where
  "trigger_inv ts \<longleftrightarrow> distinct (map w_id ts) \<and> distinct (map w_name ts) \<and> list_all trigger_ok ts"

lemma create_ok:
  assumes "create_trigger has_profile i secret b ts = Inr (t, ts')"
  shows "ts' = ts @ [t] \<and> w_id t = i \<and> w_name t \<notin> w_name ` set ts \<and> trigger_ok t"
proof -
  have c: "tc_source b \<in> set VALID_SOURCES" "validate_for has_profile (tc_source b) (tc_filters b) (tc_actions b) = Inr ()"
    "ts' = ts @ [t]" "w_id t = i" "w_name t = tc_name b" "tc_name b \<notin> w_name ` set ts" "w_source t = tc_source b"
    "w_actions t = tc_actions b"
    using assms by (auto simp: create_trigger_def invalid_source_def refuse_def Let_def elim!: bind_InrE split: if_splits)
  then show ?thesis by (auto simp: trigger_ok_def validate_for_def intro: columns_valid)
qed

lemma update_ok:
  assumes "update_trigger has_profile trigger_id u ts = Inr (t', ts')" "list_all trigger_ok ts"
  obtains t where "t \<in> set ts" "ts' = map (\<lambda>q. if w_id q = w_id t then t' else q) ts" "w_id t' = w_id t" "trigger_ok t'"
    "\<forall>q\<in>set ts. w_id q = w_id t \<or> w_name q \<noteq> w_name t'"
proof -
  obtain t where g: "get_trigger trigger_id ts = Inr t" using assms(1) by (auto simp: update_trigger_def elim!: bind_InrE)
  then have t: "t \<in> set ts" by (auto simp: get_trigger_def trigger_by_id_def find_Some_iff elim!: bind_InrE split: option.splits)
  obtain p where u: "(case sent_value (tu_source u) of
           Some s \<Rightarrow> if s \<in> set VALID_SOURCES then Inr () else invalid_source s | None \<Rightarrow> Inr ()) = Inr ()"
    "validate_update has_profile u t = Inr ()" "t' = updated_trigger u p t" "ts' = map (\<lambda>q. if w_id q = w_id t then t' else q) ts"
    "\<forall>q\<in>set ts. w_id q = w_id t \<or> w_name q \<noteq> w_name t'"
    using assms(1) by (auto simp: update_trigger_def g Let_def elim!: bind_InrE split: if_splits)
  have ok: "trigger_ok t" using assms(2) t by (simp add: list_all_iff)
  have s: "w_source t' = (case sent_value (tu_source u) of Some s \<Rightarrow> s | None \<Rightarrow> w_source t)" "w_actions t' = new_actions u t"
    "w_id t' = w_id t" by (simp_all add: u(3) updated_trigger_def)
  have "w_source t' \<in> set VALID_SOURCES"
    using u(1) ok by (auto simp: s trigger_ok_def invalid_source_def refuse_def split: option.splits if_splits)
  moreover have "columns_resolve (w_actions t')" if git: "w_source t' = ''github''"
  proof -
    define a where "a = (case sent_value (tu_actions u) of Some d \<Rightarrow> d | None \<Rightarrow> w_actions t)"
    have "columns_resolve a"
    proof (cases "sent_value (tu_actions u) \<noteq> None \<or> w_source t' \<noteq> w_source t")
      case True
      then have "validate_github_actions a = Inr ()" "ensure_github_column_options a = Inr ()"
        using u(2) git by (auto simp: validate_update_def Let_def s a_def simp del: split_paired_All)
      then show ?thesis by (rule columns_valid)
    next
      case False
      then show ?thesis using ok git by (auto simp: a_def trigger_ok_def)
    qed
    then show ?thesis by (auto simp: s(2) new_actions_def a_def sent_value_def Let_def split: option.splits)
  qed
  ultimately show ?thesis using that[OF t u(4) s(3)] u(5) by (simp add: trigger_ok_def)
qed

lemma distinct_replace:
  "distinct (map g ts) \<Longrightarrow> distinct (map f ts) \<Longrightarrow> \<forall>q\<in>set ts. g q = i \<or> f q \<noteq> f n \<Longrightarrow>
   distinct (map (\<lambda>q. if g q = i then f n else f q) ts)"
  by (induction ts) (auto split: if_splits, (metis imageI)+)

lemma trigger_step_inv: "trigger_step ts ts' \<Longrightarrow> trigger_inv ts \<Longrightarrow> trigger_inv ts'"
proof (induction rule: trigger_step.induct)
  case (create i ts has_profile secret b t ts')
  then show ?case using create_ok[OF create(2)] by (auto simp: trigger_inv_def)
next
  case (update has_profile trigger_id u ts t' ts')
  from update(2) have inv: "distinct (map w_id ts)" "distinct (map w_name ts)" "list_all trigger_ok ts" by (simp_all add: trigger_inv_def)
  obtain t where t: "t \<in> set ts" "ts' = map (\<lambda>q. if w_id q = w_id t then t' else q) ts" "w_id t' = w_id t" "trigger_ok t'"
    "\<forall>q\<in>set ts. w_id q = w_id t \<or> w_name q \<noteq> w_name t'" by (rule update_ok[OF update(1) inv(3)])
  have ids: "map w_id ts' = map w_id ts" by (simp add: t(2,3))
  have "map w_name ts' = map (\<lambda>q. if w_id q = w_id t then w_name t' else w_name q) ts" by (simp add: t(2))
  then have "distinct (map w_name ts')" using distinct_replace[OF inv(1,2) t(5)] by simp
  moreover have "list_all trigger_ok ts'" using inv(3) t(4) by (auto simp: t(2) list_all_iff)
  ultimately show ?case using ids inv(1) by (simp add: trigger_inv_def)
next
  case (delete trigger_id ts ts')
  from delete(1) obtain t :: trigger where "ts' = filter (\<lambda>q. w_id q \<noteq> w_id t) ts"
    by (auto simp: delete_trigger_def elim!: bind_InrE)
  then show ?case using delete(2) by (auto simp: trigger_inv_def distinct_map_filter list_all_iff)
qed

lemma trigger_reachable_inv: "trigger_step\<^sup>*\<^sup>* [] ts \<Longrightarrow> trigger_inv ts"
  by (induction rule: rtranclp_induct) (simp add: trigger_inv_def, rule trigger_step_inv)

end
