(* ===== verification/Skill_Sources.thy ===== *)
theory Skill_Sources
  imports Skills
begin

text \<open>
  Where the skills of a task come from (\<open>errand/task_manager.py\<close>): the database, the plugins, a git
  clone and the sets baked into the image; how they are merged, filtered by the task's profile,
  listed in the prompt and packed for the container.  A directory is a tree of decoded files.
\<close>

record agent_skill =
  g_id :: "string option"
  g_name :: string
  g_description :: string
  g_instructions :: string
  g_files :: "(string \<times> string) list"
  g_plugin :: string                      \<comment> \<open>\<open>_plugin_name\<close>, empty when absent\<close>
  g_exempt :: bool                        \<comment> \<open>\<open>_exempt_from_profile_filter\<close>\<close>

subsection \<open>Parsing a directory\<close>

datatype node = File string | Dir "(string \<times> node) list"

definition dashes :: string where "dashes = ''---''"

text \<open>\<open>content.split("---", 2)\<close>, when it has three parts.\<close>

definition split_dashes :: "string \<Rightarrow> (string \<times> string \<times> string) option" where
  "split_dashes s =
     (case find_str dashes s of
        None \<Rightarrow> None
      | Some i \<Rightarrow>
          (let r = drop (i + 3) s in
           case find_str dashes r of None \<Rightarrow> None | Some j \<Rightarrow> Some (take i s, take j r, drop (j + 3) r)))"

definition front_line :: "string \<Rightarrow> string \<times> string \<Rightarrow> string \<times> string" where
  "front_line line0 nd =
     (let line = strip line0 in
      if starts_with line ''name:'' then (strip (drop 5 line), snd nd)
      else if starts_with line ''description:'' then (fst nd, strip (drop 12 line))
      else nd)"

text \<open>Name, description and instructions of a \<open>SKILL.md\<close>.\<close>

definition parse_skill_md :: "string \<Rightarrow> string \<Rightarrow> string \<times> string \<times> string" where
  "parse_skill_md entry content =
     (if starts_with content dashes then
        (case split_dashes content of
           None \<Rightarrow> (entry, [], content)
         | Some (_, front, rest) \<Rightarrow>
             (case fold front_line (split_char newline (strip front)) (entry, []) of (n, d) \<Rightarrow> (n, d, strip rest)))
      else (entry, [], content))"

definition skill_files_in :: "(string \<times> node) list \<Rightarrow> (string \<times> string) list" where
  "skill_files_in es =
     concat (map (\<lambda>dep. case dict_get es dep of Some (File c) \<Rightarrow> [(dep, c)] | _ \<Rightarrow> []) [''requirements.txt'', ''package.json'']) @
     concat (map (\<lambda>sub. case dict_get es sub of
         Some (Dir fs) \<Rightarrow> concat (map (\<lambda>(n, f). case f of File c \<Rightarrow> [(sub @ ''/'' @ n, c)] | _ \<Rightarrow> []) (sort_key fst fs))
       | _ \<Rightarrow> []) [''scripts'', ''references'', ''assets''])"

definition parse_skill_dir :: "string \<times> node \<Rightarrow> agent_skill list" where
  "parse_skill_dir e =
     (case e of
        (entry, Dir es) \<Rightarrow>
          (case dict_get es ''SKILL.md'' of
             Some (File content) \<Rightarrow>
               (case parse_skill_md entry content of (n, d, x) \<Rightarrow>
                  [\<lparr>g_id = None, g_name = n, g_description = d, g_instructions = x, g_files = skill_files_in es,
                    g_plugin = [], g_exempt = False\<rparr>])
           | _ \<Rightarrow> [])
      | _ \<Rightarrow> [])"

definition parse_skills_from_directory :: "node option \<Rightarrow> agent_skill list" where
  "parse_skills_from_directory base =
     (case base of Some (Dir es) \<Rightarrow> concat (map parse_skill_dir (sort_key fst es)) | _ \<Rightarrow> [])"

subsection \<open>Merging\<close>

type_synonym conflicts = "(string \<times> (string \<times> string) list) list"

record merging =
  mg_seen :: "(string \<times> string) list"
  mg_merged :: "agent_skill list"
  mg_conflicts :: conflicts

definition keep_skill :: "string \<Rightarrow> agent_skill \<Rightarrow> merging \<Rightarrow> merging" where
  "keep_skill origin k m = m\<lparr>mg_merged := mg_merged m @ [k], mg_seen := dict_set (g_name k) origin (mg_seen m)\<rparr>"

definition merge_plugin_skill :: "agent_skill \<Rightarrow> merging \<Rightarrow> merging" where
  "merge_plugin_skill k m =
     (case dict_get (mg_seen m) (g_name k) of
        Some origin \<Rightarrow>
          if g_plugin k = [] then m
          else m\<lparr>mg_conflicts := dict_set (g_plugin k)
            ((case dict_get (mg_conflicts m) (g_plugin k) of None \<Rightarrow> [] | Some cs \<Rightarrow> cs) @ [(g_name k, origin)]) (mg_conflicts m)\<rparr>
      | None \<Rightarrow> keep_skill (if g_plugin k = [] then ''plugin'' else ''plugin:'' @ g_plugin k) k m)"

definition merge_skill :: "string \<Rightarrow> agent_skill \<Rightarrow> merging \<Rightarrow> merging" where
  "merge_skill origin k m =
     (case dict_get (mg_seen m) (g_name k) of Some _ \<Rightarrow> m | None \<Rightarrow> keep_skill origin k m)"

definition merge_skills_with_plugins ::
    "agent_skill list \<Rightarrow> agent_skill list \<Rightarrow> agent_skill list \<Rightarrow> agent_skill list \<Rightarrow> agent_skill list \<times> conflicts" where
  "merge_skills_with_plugins db git sys plug =
     (let m0 = \<lparr>mg_seen = fold (\<lambda>k. dict_set (g_name k) ''db'') db [], mg_merged = db, mg_conflicts = []\<rparr>;
          m = fold (merge_skill ''system'') sys (fold (merge_skill ''git'') git (fold merge_plugin_skill plug m0))
      in (mg_merged m, mg_conflicts m))"

definition merge_skills :: "agent_skill list \<Rightarrow> agent_skill list \<Rightarrow> agent_skill list \<Rightarrow> agent_skill list" where
  "merge_skills db git sys = fst (merge_skills_with_plugins db git sys [])"

subsection \<open>The profile's filter\<close>

definition profile_skill_filter :: "string list option \<Rightarrow> bool \<Rightarrow> agent_skill list \<Rightarrow> agent_skill list" where
  "profile_skill_filter allowed include_external ks =
     (case allowed of
        None \<Rightarrow> ks
      | Some chosen \<Rightarrow>
          filter (\<lambda>k. truthy (g_id k) \<and> the (g_id k) \<in> set chosen) ks @
          filter (\<lambda>k. \<not> truthy (g_id k) \<and> (include_external \<or> g_exempt k)) ks)"

subsection \<open>The system skills\<close>

record skill_context =
  x_google_workspace_enabled :: bool
  x_cloud_storage_injected :: bool
  x_hindsight_url :: string
  x_shared_workspace_enabled :: bool

text \<open>The path of each entry of the registry, its condition and whether it is exempt.\<close>

definition SYSTEM_SKILL_REGISTRY :: "(string \<times> (skill_context \<Rightarrow> bool) \<times> bool) list" where
  "SYSTEM_SKILL_REGISTRY =
     [(''gws'', x_google_workspace_enabled, False),
      (''cloud-storage'', x_cloud_storage_injected, True),
      (''hindsight'', \<lambda>c. x_hindsight_url c \<noteq> [], True),
      (''repo-context'', \<lambda>_. True, True),
      (''binary-files'', \<lambda>_. True, True),
      (''shared-workspace'', x_shared_workspace_enabled, True)]"

text \<open>\<open>load\<close> reads a skill set from the image (memoized by the code).\<close>

definition load_system_skills_from_registry :: "(string \<Rightarrow> agent_skill list) \<Rightarrow> skill_context \<Rightarrow> agent_skill list" where
  "load_system_skills_from_registry load c =
     concat (map (\<lambda>(path, condition, exempt).
       if \<not> condition c then []
       else map (\<lambda>k. if exempt then k\<lparr>g_exempt := True\<rparr> else k) (load path)) SYSTEM_SKILL_REGISTRY)"

subsection \<open>The archive and the prompt\<close>

definition skill_md :: "agent_skill \<Rightarrow> string" where
  "skill_md k = dashes @ [newline] @ ''name: '' @ g_name k @ [newline] @ ''description: '' @ g_description k @ [newline] @
     dashes @ [newline, newline] @ g_instructions k"

definition build_skills_archive :: "agent_skill list \<Rightarrow> (string \<times> string) list option" where
  "build_skills_archive ks =
     (if ks = [] then None
      else Some (concat (map (\<lambda>k. (''skills/'' @ g_name k @ ''/SKILL.md'', skill_md k) #
        map (\<lambda>(p, c). (''skills/'' @ g_name k @ ''/'' @ p, c)) (g_files k)) ks)))"

definition build_skill_manifest :: "agent_skill list \<Rightarrow> string" where
  "build_skill_manifest ks =
     join [newline]
       ([[newline, newline] @ ''## Skills'' @ [newline],
         ''Available skills are installed at /workspace/skills/. Each skill directory contains a SKILL.md file with full instructions, and may include scripts/, references/, and assets/ subdirectories.'' @ [newline],
         ''| Skill | Description |'', ''|-------|-------------|''] @
        map (\<lambda>k. ''| '' @ g_name k @ '' | '' @ g_description k @ '' |'') ks @
        [[], ''If a skill is relevant to your task, read its SKILL.md file to load the full instructions before proceeding.''])"

definition generate_ssh_config :: "string list \<Rightarrow> string" where
  "generate_ssh_config hosts =
     (if hosts = [] then []
      else join [newline, newline] (map (\<lambda>h. ''Host '' @ h @ [newline] @ ''    IdentityFile ~/.ssh/id_rsa.agent'' @ [newline] @
        ''    User git'' @ [newline] @ ''    StrictHostKeyChecking accept-new'') hosts) @ [newline])"

text \<open>The rows the task manager reads.\<close>

definition db_skill :: "(nat \<Rightarrow> string) \<Rightarrow> skill \<Rightarrow> agent_skill" where
  "db_skill show_uuid k =
     \<lparr>g_id = Some (show_uuid (k_id k)), g_name = k_name k, g_description = k_description k,
      g_instructions = k_instructions k, g_files = map (\<lambda>f. (sf_path f, sf_content f)) (k_files k),
      g_plugin = [], g_exempt = False\<rparr>"

subsection \<open>Merging keeps the first skill of each name\<close>

text \<open>The skills of a list whose name is not used before them.\<close>

fun fresh_named :: "string set \<Rightarrow> agent_skill list \<Rightarrow> agent_skill list" where
  "fresh_named used [] = []"
| "fresh_named used (k # ks) =
     (if g_name k \<in> used then fresh_named used ks else k # fresh_named (insert (g_name k) used) ks)"

lemma fresh_named_append:
  "fresh_named used (a @ b) = fresh_named used a @ fresh_named (used \<union> g_name ` set a) b"
  by (induction a arbitrary: used) (auto simp: insert_absorb)

lemma fresh_named_names: "g_name ` set (fresh_named used ks) = g_name ` set ks - used"
  by (induction ks arbitrary: used) auto

lemma fresh_named_distinct: "distinct (map g_name (fresh_named used ks))"
  by (induction ks arbitrary: used) (auto simp: fresh_named_names)

lemma find_fresh_named:
  "n \<notin> used \<Longrightarrow> find (\<lambda>k. g_name k = n) (fresh_named used ks) = find (\<lambda>k. g_name k = n) ks"
  by (induction ks arbitrary: used) auto

definition merging_ok :: "merging \<Rightarrow> bool" where
  "merging_ok m \<longleftrightarrow> (\<forall>s. dict_get (mg_seen m) s = None \<longleftrightarrow> s \<notin> g_name ` set (mg_merged m))"

lemma merging_ok_keep: "merging_ok m \<Longrightarrow> merging_ok (keep_skill o1 k m)"
  by (simp add: merging_ok_def keep_skill_def)

lemma merging_ok_cong: "mg_seen m' = mg_seen m \<Longrightarrow> mg_merged m' = mg_merged m \<Longrightarrow> merging_ok m' = merging_ok m"
  by (simp add: merging_ok_def)

lemma merge_skill_step:
  assumes "merging_ok m"
  shows "merging_ok (merge_skill o1 k m)" "merging_ok (merge_plugin_skill k m)"
    "mg_merged (merge_skill o1 k m) = mg_merged m @ fresh_named (g_name ` set (mg_merged m)) [k]"
    "mg_merged (merge_plugin_skill k m) = mg_merged m @ fresh_named (g_name ` set (mg_merged m)) [k]"
proof -
  have k: "dict_get (mg_seen m) (g_name k) = None \<longleftrightarrow> g_name k \<notin> g_name ` set (mg_merged m)"
    using assms unfolding merging_ok_def by blast
  have "merging_ok (merge_skill o1 k m) \<and> merging_ok (merge_plugin_skill k m) \<and>
    mg_merged (merge_skill o1 k m) = mg_merged m @ fresh_named (g_name ` set (mg_merged m)) [k] \<and>
    mg_merged (merge_plugin_skill k m) = mg_merged m @ fresh_named (g_name ` set (mg_merged m)) [k]"
  proof (cases "dict_get (mg_seen m) (g_name k)")
    case None
    moreover from None k have "g_name k \<notin> g_name ` set (mg_merged m)" by simp
    moreover have "mg_merged (keep_skill x k m) = mg_merged m @ [k]" for x by (simp add: keep_skill_def)
    ultimately show ?thesis
      using merging_ok_keep[OF assms] by (simp add: merge_skill_def merge_plugin_skill_def)
  next
    case (Some other)
    moreover from Some k have "g_name k \<in> g_name ` set (mg_merged m)" by simp
    moreover have "mg_seen (merge_plugin_skill k m) = mg_seen m" "mg_merged (merge_plugin_skill k m) = mg_merged m"
      using Some by (simp_all add: merge_plugin_skill_def)
    ultimately show ?thesis
      using assms merging_ok_cong[of "merge_plugin_skill k m" m] by (simp add: merge_skill_def)
  qed
  then show "merging_ok (merge_skill o1 k m)" "merging_ok (merge_plugin_skill k m)"
    "mg_merged (merge_skill o1 k m) = mg_merged m @ fresh_named (g_name ` set (mg_merged m)) [k]"
    "mg_merged (merge_plugin_skill k m) = mg_merged m @ fresh_named (g_name ` set (mg_merged m)) [k]" by blast+
qed

lemma fold_merge:
  assumes "\<And>k m. merging_ok m \<Longrightarrow> merging_ok (step k m) \<and> mg_merged (step k m) = mg_merged m @ fresh_named (g_name ` set (mg_merged m)) [k]"
    and "merging_ok m"
  shows "merging_ok (fold step ks m) \<and> mg_merged (fold step ks m) = mg_merged m @ fresh_named (g_name ` set (mg_merged m)) ks"
  using assms(2)
proof (induction ks arbitrary: m)
  case (Cons k ks)
  note s = assms(1)[OF Cons.prems, of k]
  from Cons.IH[of "step k m"] s show ?case
    by (cases "g_name k \<in> g_name ` set (mg_merged m)") (simp_all add: insert_absorb)
qed simp

definition merge_start :: "agent_skill list \<Rightarrow> merging" where
  "merge_start db = \<lparr>mg_seen = fold (\<lambda>k. dict_set (g_name k) ''db'') db [], mg_merged = db, mg_conflicts = []\<rparr>"

lemma merge_start_seen:
  "dict_get (mg_seen (merge_start db)) s = (if s \<in> g_name ` set db then Some ''db'' else None)"
proof -
  have "dict_get (fold (\<lambda>k. dict_set (g_name k) ''db'') ks d) s = (if s \<in> g_name ` set ks then Some ''db'' else dict_get d s)"
    for ks :: "agent_skill list" and d by (induction ks arbitrary: d) auto
  then show ?thesis by (simp add: merge_start_def)
qed

lemma merge_run:
  assumes "merging_ok m" "step = merge_skill o1 \<or> step = merge_plugin_skill" "mg_merged m = db @ fresh_named (g_name ` set db) xs"
  shows "merging_ok (fold step ks m)" "mg_merged (fold step ks m) = db @ fresh_named (g_name ` set db) (xs @ ks)"
proof -
  have "merging_ok (step k m) \<and> mg_merged (step k m) = mg_merged m @ fresh_named (g_name ` set (mg_merged m)) [k]"
    if "merging_ok m" for k m using assms(2) merge_skill_step[OF that] by auto
  note f = fold_merge[where step = step, OF this assms(1), of ks]
  have "g_name ` set (mg_merged m) = g_name ` set db \<union> g_name ` set xs"
    unfolding assms(3) by (auto simp: image_Un fresh_named_names)
  then show "merging_ok (fold step ks m)" "mg_merged (fold step ks m) = db @ fresh_named (g_name ` set db) (xs @ ks)"
    using f assms(3) by (simp_all add: fresh_named_append)
qed

lemma merged_eq:
  "fst (merge_skills_with_plugins db git sys plug) = db @ fresh_named (g_name ` set db) (plug @ git @ sys)"
proof -
  have "merging_ok (merge_start db)" by (simp add: merging_ok_def merge_start_seen, simp add: merge_start_def)
  note p = merge_run[where step = merge_plugin_skill and db = db and xs = "[]" and ks = plug, OF this]
  have p': "merging_ok (fold merge_plugin_skill plug (merge_start db))"
    "mg_merged (fold merge_plugin_skill plug (merge_start db)) = db @ fresh_named (g_name ` set db) plug"
    using p by (simp_all add: merge_start_def)
  note g = merge_run[where step = "merge_skill ''git''" and ks = git, OF p'(1) disjI1[OF refl] p'(2)]
  note s = merge_run[where step = "merge_skill ''system''" and ks = sys, OF g(1) disjI1[OF refl] g(2)]
  show ?thesis
    using s(2) by (simp add: merge_skills_with_plugins_def Let_def merge_start_def[symmetric])
qed

subsection \<open>Conflicts\<close>

definition plugin_origin :: "agent_skill \<Rightarrow> string" where
  "plugin_origin k = (if g_plugin k = [] then ''plugin'' else ''plugin:'' @ g_plugin k)"

text \<open>Who holds a name after the database and the plugin skills \<open>a\<close>.\<close>

definition holder :: "agent_skill list \<Rightarrow> agent_skill list \<Rightarrow> string \<Rightarrow> string option" where
  "holder db a s = (if s \<in> g_name ` set db then Some ''db'' else map_option plugin_origin (find (\<lambda>k. g_name k = s) a))"

definition reported :: "conflicts \<Rightarrow> string \<Rightarrow> string \<Rightarrow> string \<Rightarrow> bool" where
  "reported c p s other \<longleftrightarrow> (\<exists>cs. dict_get c p = Some cs \<and> (s, other) \<in> set cs)"

lemma find_snoc: "find P (xs @ [x]) = (case find P xs of Some y \<Rightarrow> Some y | None \<Rightarrow> if P x then Some x else None)"
  by (induction xs) auto

lemma plugin_step_seen:
  "dict_get (mg_seen (merge_plugin_skill k m)) s =
     (case dict_get (mg_seen m) s of Some x \<Rightarrow> Some x | None \<Rightarrow> if g_name k = s then Some (plugin_origin k) else None)"
  by (auto simp: merge_plugin_skill_def keep_skill_def plugin_origin_def split: option.splits)

lemma plugin_step_reported:
  "reported (mg_conflicts (merge_plugin_skill k m)) p s other \<longleftrightarrow>
     reported (mg_conflicts m) p s other \<or> p \<noteq> [] \<and> g_plugin k = p \<and> g_name k = s \<and> dict_get (mg_seen m) s = Some other"
  by (auto simp: merge_plugin_skill_def keep_skill_def reported_def split: option.splits)

lemma plugin_fold_seen:
  "dict_get (mg_seen (fold merge_plugin_skill a (merge_start db))) s = holder db a s"
proof (induction a rule: rev_induct)
  case (snoc k a)
  then show ?case by (auto simp: plugin_step_seen holder_def find_snoc split: option.splits)
qed (simp add: merge_start_seen holder_def)

lemma ex_split_snoc:
  "(\<exists>a1 k' a2. a @ [k] = a1 @ k' # a2 \<and> P a1 k') \<longleftrightarrow> (\<exists>a1 k' a2. a = a1 @ k' # a2 \<and> P a1 k') \<or> P a k"
proof
  assume "\<exists>a1 k' a2. a @ [k] = a1 @ k' # a2 \<and> P a1 k'"
  then obtain a1 k' a2 where x: "a @ [k] = a1 @ k' # a2" "P a1 k'" by blast
  then show "(\<exists>a1 k' a2. a = a1 @ k' # a2 \<and> P a1 k') \<or> P a k" by (cases a2 rule: rev_cases) auto
next
  assume "(\<exists>a1 k' a2. a = a1 @ k' # a2 \<and> P a1 k') \<or> P a k"
  then show "\<exists>a1 k' a2. a @ [k] = a1 @ k' # a2 \<and> P a1 k'"
  proof
    assume "\<exists>a1 k' a2. a = a1 @ k' # a2 \<and> P a1 k'"
    then obtain a1 k' a2 where "a = a1 @ k' # a2" "P a1 k'" by blast
    then show ?thesis by (intro exI[of _ a1] exI[of _ k'] exI[of _ "a2 @ [k]"]) simp
  qed blast
qed

lemma plugin_fold_reported:
  "reported (mg_conflicts (fold merge_plugin_skill a (merge_start db))) p s other \<longleftrightarrow>
     p \<noteq> [] \<and> (\<exists>a1 k a2. a = a1 @ k # a2 \<and> g_plugin k = p \<and> g_name k = s \<and> holder db a1 s = Some other)"
proof (induction a rule: rev_induct)
  case (snoc k a)
  have "reported (mg_conflicts (fold merge_plugin_skill (a @ [k]) (merge_start db))) p s other \<longleftrightarrow>
      p \<noteq> [] \<and> ((\<exists>a1 k' a2. a = a1 @ k' # a2 \<and> g_plugin k' = p \<and> g_name k' = s \<and> holder db a1 s = Some other) \<or>
        g_plugin k = p \<and> g_name k = s \<and> holder db a s = Some other)"
    using snoc.IH by (auto simp: plugin_step_reported plugin_fold_seen)
  then show ?case
    unfolding ex_split_snoc[of a k "\<lambda>a1 k'. g_plugin k' = p \<and> g_name k' = s \<and> holder db a1 s = Some other"] .
qed (simp add: reported_def merge_start_def)

lemma merge_skill_conflicts: "mg_conflicts (fold (merge_skill o1) ks m) = mg_conflicts m"
  by (induction ks arbitrary: m) (auto simp: merge_skill_def keep_skill_def split: option.splits)

subsection \<open>Properties\<close>

text \<open>C23. Merging the sources keeps, for every name, the first skill that has it in the order database,
  plugins, git, system, and each kept skill once; and a conflict is reported for a plugin exactly
  when one of its skills finds its name held by the database or by a plugin before it, with that
  holder.\<close>

theorem merge_skills_precedence:
  assumes "merge_skills_with_plugins db git sys plug = (merged, conflicts)"
  shows "find (\<lambda>k. g_name k = n) merged = find (\<lambda>k. g_name k = n) (db @ plug @ git @ sys) \<and>
    (distinct (map g_name db) \<longrightarrow> distinct (map g_name merged)) \<and>
    (reported conflicts p n other \<longleftrightarrow>
       p \<noteq> [] \<and> (\<exists>a k b. plug = a @ k # b \<and> g_plugin k = p \<and> g_name k = n \<and> holder db a n = Some other))"
proof -
  have m: "merged = db @ fresh_named (g_name ` set db) (plug @ git @ sys)"
    using merged_eq[of db git sys plug] assms by simp
  have fa: "find P (xs @ ys) = (case find P xs of Some y \<Rightarrow> Some y | None \<Rightarrow> find P ys)" for P :: "agent_skill \<Rightarrow> bool" and xs ys
    by (induction xs) auto
  have "find (\<lambda>k. g_name k = n) merged = find (\<lambda>k. g_name k = n) (db @ plug @ git @ sys)"
  proof (cases "find (\<lambda>k. g_name k = n) db")
    case None
    then have "n \<notin> g_name ` set db" by (auto simp: find_None_iff)
    from find_fresh_named[OF this] None show ?thesis unfolding m by (simp only: fa[of _ db])
  qed (simp add: m fa[of _ db])
  moreover have "distinct (map g_name db) \<longrightarrow> distinct (map g_name merged)"
    unfolding m by (auto simp: fresh_named_distinct fresh_named_names)
  moreover have "conflicts = mg_conflicts (fold merge_plugin_skill plug (merge_start db))"
    using assms by (auto simp: merge_skills_with_plugins_def Let_def merge_start_def merge_skill_conflicts)
  ultimately show ?thesis using plugin_fold_reported by simp
qed

definition plain_skill :: "string option \<Rightarrow> string \<Rightarrow> string \<Rightarrow> bool \<Rightarrow> agent_skill" where
  "plain_skill i n plugin exempt =
     \<lparr>g_id = i, g_name = n, g_description = ''d'', g_instructions = ''x'', g_files = [], g_plugin = plugin, g_exempt = exempt\<rparr>"

theorem merge_skills_precedence_witness:
  "reported (snd (merge_skills_with_plugins [plain_skill (Some ''1'') ''a'' [] False] []
       [plain_skill None ''b'' [] True] [plain_skill None ''b'' ''p'' False, plain_skill None ''b'' ''q'' False])) ''q'' ''b'' ''plugin:p'' \<and>
   find (\<lambda>k. g_name k = ''b'') (fst (merge_skills_with_plugins [plain_skill (Some ''1'') ''a'' [] False] []
       [plain_skill None ''b'' [] True] [plain_skill None ''b'' ''p'' False, plain_skill None ''b'' ''q'' False])) =
     Some (plain_skill None ''b'' ''p'' False)"
proof -
  let ?db = "[plain_skill (Some ''1'') ''a'' [] False]" and ?sys = "[plain_skill None ''b'' [] True]"
  let ?plug = "[plain_skill None ''b'' ''p'' False, plain_skill None ''b'' ''q'' False]"
  note spec = merge_skills_precedence[of ?db "[]" ?sys ?plug, OF surjective_pairing]
  have "find (\<lambda>k. g_name k = ''b'') (?db @ ?plug @ [] @ ?sys) = Some (plain_skill None ''b'' ''p'' False)" by code_simp
  moreover have "\<exists>a k b. ?plug = a @ k # b \<and> g_plugin k = ''q'' \<and> g_name k = ''b'' \<and> holder ?db a ''b'' = Some ''plugin:p''"
  proof (intro exI conjI)
    show "?plug = [plain_skill None ''b'' ''p'' False] @ plain_skill None ''b'' ''q'' False # []" by simp
    show "holder ?db [plain_skill None ''b'' ''p'' False] ''b'' = Some ''plugin:p''" by code_simp
  qed (simp_all add: plain_skill_def)
  ultimately show ?thesis using spec[of "''b''" "''q''" "''plugin:p''"] by simp
qed

text \<open>A database skill that the profile leaves out still hides a skill of its name from every other
  source, the exempt ones included: no skill of that name reaches the task.\<close>

theorem excluded_skill_hides_baseline:
  assumes "k \<in> set db" "g_name k = n" "distinct (map g_name db)" "truthy (g_id k)" "the (g_id k) \<notin> set chosen"
  shows "n \<notin> g_name ` set (profile_skill_filter (Some chosen) ext (fst (merge_skills_with_plugins db git sys plug)))"
proof -
  have "l = k" if "l \<in> set (fst (merge_skills_with_plugins db git sys plug))" "g_name l = n" for l
    using that assms(1,2,3) unfolding merged_eq set_append
    by (metis (no_types, lifting) DiffE UnE distinct_map fresh_named_names imageI inj_onD)
  then show ?thesis using assms(4,5) by (auto simp: profile_skill_filter_def)
qed

subsection \<open>Writing and reading a skill\<close>

lemma find_str_skip:
  assumes "c \<notin> set p" "p \<noteq> []"
  shows "find_str p (a @ c # b) =
    (case find_str p a of Some i \<Rightarrow> Some i | None \<Rightarrow> map_option (\<lambda>j. Suc (length a + j)) (find_str p b))"
proof (induction a)
  case Nil
  have "\<not> starts_with (c # b) p" using assms by (cases p) (auto simp: starts_with_def)
  then show ?case using assms(2) by simp
next
  case (Cons x a)
  have sw: "starts_with (x # a @ c # b) p = starts_with (x # a) p"
  proof
    assume "starts_with (x # a @ c # b) p"
    then obtain r where r: "(x # a) @ c # b = p @ r" by (auto simp: starts_with_prefix prefix_def)
    then show "starts_with (x # a) p"
      using assms(1) by (auto simp: starts_with_prefix prefix_def append_eq_append_conv2 Cons_eq_append_conv)
  next
    assume "starts_with (x # a) p"
    then show "starts_with (x # a @ c # b) p" by (metis append_Cons prefix_prefix starts_with_prefix)
  qed
  show ?case
    using Cons.IH sw by (auto simp: option.map_comp comp_def split: option.splits)
qed

lemma find_str_prefix: "p \<noteq> [] \<Longrightarrow> find_str p (p @ r) = Some 0"
proof -
  have "starts_with (p @ r) p" by (simp add: starts_with_def)
  then show "p \<noteq> [] \<Longrightarrow> find_str p (p @ r) = Some 0" by (cases "p @ r") simp_all
qed

lemma find_str_at: "find_str p s = None \<Longrightarrow> p \<noteq> [] \<Longrightarrow> c \<notin> set p \<Longrightarrow> find_str p (s @ c # p @ r) = Some (Suc (length s))"
  by (simp add: find_str_skip find_str_prefix)

text \<open>A value that survives the front matter: no line break, no outer space, no triple dash.\<close>

definition front_value :: "string \<Rightarrow> bool" where
  "front_value s \<longleftrightarrow> newline \<notin> set s \<and> strip s = s \<and> \<not> contains_str s dashes"

lemma strip_outer:
  assumes "s = [] \<or> \<not> is_space (hd s) \<and> \<not> is_space (last s)"
  shows "strip s = s"
proof -
  have "lstrip s = s" using assms by (auto simp: lstrip_def dropWhile_eq_self_iff)
  moreover have "dropWhile is_space (rev s) = rev s" using assms by (auto simp: dropWhile_eq_self_iff hd_rev)
  ultimately show ?thesis by (simp add: strip_def rstrip_def)
qed

lemma dropWhile_full: "length xs \<le> length (dropWhile P xs) \<Longrightarrow> dropWhile P xs = xs"
  by (metis append_Nil le_add_same_cancel2 length_append length_greater_0_conv not_le takeWhile_dropWhile_id zero_less_iff_neq_zero
      add_le_same_cancel2 le_zero_eq length_0_conv)

lemma strip_ends:
  assumes "strip s = s"
  shows "s = [] \<or> \<not> is_space (hd s) \<and> \<not> is_space (last s)"
proof -
  have "length (strip s) \<le> length (lstrip s)" by (metis length_dropWhile_le length_rev rstrip_def strip_def)
  then have l: "lstrip s = s" using assms unfolding lstrip_def by (intro dropWhile_full) simp
  then have "rev (dropWhile is_space (rev s)) = s" using assms by (simp add: strip_def rstrip_def)
  then have "dropWhile is_space (rev s) = rev s" by (metis rev_rev_ident)
  with l show ?thesis by (auto simp: lstrip_def dropWhile_eq_self_iff hd_rev)
qed

lemma strip_key:
  assumes "k \<noteq> []" "\<not> is_space (hd k)" "\<not> is_space (last k)" "strip v = v"
  shows "strip (k @ CHR '' '' # v) = (if v = [] then k else k @ CHR '' '' # v)" "strip (CHR '' '' # v) = v"
proof -
  have sp: "is_space CHR '' ''" by code_simp
  show "strip (CHR '' '' # v) = v" using assms(4) sp by (simp add: strip_def lstrip_def)
  show "strip (k @ CHR '' '' # v) = (if v = [] then k else k @ CHR '' '' # v)"
  proof (cases "v = []")
    case True
    have "lstrip (k @ CHR '' '' # v) = k @ CHR '' '' # v"
      using assms(1,2) by (simp add: lstrip_def dropWhile_eq_self_iff)
    moreover have "dropWhile is_space (rev k) = rev k" using assms(1,3) by (simp add: dropWhile_eq_self_iff hd_rev)
    ultimately show ?thesis using True sp by (simp add: strip_def rstrip_def)
  next
    case False
    with strip_ends[OF assms(4)] assms(1,2) show ?thesis by (simp add: strip_outer)
  qed
qed

lemma front_line_name:
  assumes "strip n = n"
  shows "front_line (''name:'' @ CHR '' '' # n) nd = (n, snd nd)"
proof -
  have "\<not> is_space (hd ''name:'')" "\<not> is_space (last ''name:'')" by code_simp+
  note k = strip_key[OF _ this assms]
  show ?thesis
  proof (cases "n = []")
    case True
    then show ?thesis using k(1) assms by (simp add: front_line_def starts_with_def)
  next
    case False
    then have "strip (''name:'' @ CHR '' '' # n) = ''name:'' @ CHR '' '' # n" using k(1) by simp
    then show ?thesis using k(2) by (simp add: front_line_def starts_with_def Let_def)
  qed
qed

lemma front_line_description:
  assumes "strip d = d"
  shows "front_line (''description:'' @ CHR '' '' # d) nd = (fst nd, d)"
proof -
  have "\<not> is_space (hd ''description:'')" "\<not> is_space (last ''description:'')" by code_simp+
  note k = strip_key[OF _ this assms]
  show ?thesis
  proof (cases "d = []")
    case True
    then show ?thesis using k(1) assms by (simp add: front_line_def starts_with_def)
  next
    case False
    then have "strip (''description:'' @ CHR '' '' # d) = ''description:'' @ CHR '' '' # d" using k(1) by simp
    then show ?thesis using k(2) by (simp add: front_line_def starts_with_def Let_def)
  qed
qed

lemma rstrip_append: "rstrip x \<noteq> [] \<Longrightarrow> rstrip (a @ x) = a @ rstrip x"
  by (auto simp: rstrip_def dropWhile_append dropWhile_eq_Nil_conv)

lemma rstrip_snoc_space: "is_space c \<Longrightarrow> rstrip (x @ [c]) = rstrip x"
  by (simp add: rstrip_def)

text \<open>A skill written into the archive is read back: name, description and instructions of the
  \<open>SKILL.md\<close> the server packs are what its own parser finds in it, whatever the directory is
  called, when name and description are single stripped lines without a triple dash and the
  instructions are stripped.\<close>

theorem skill_md_roundtrip:
  assumes "front_value (g_name k)" "front_value (g_description k)" "strip (g_instructions k) = g_instructions k"
  shows "parse_skill_md entry (skill_md k) = (g_name k, g_description k, g_instructions k)"
proof -
  let ?n = "g_name k" and ?d = "g_description k" and ?x = "g_instructions k"
  let ?nl = "''name:'' @ CHR '' '' # ?n" and ?dl = "''description:'' @ CHR '' '' # ?d"
  define D where "D = (if ?d = [] then ''description:'' else ?dl)"
  let ?m = "newline # ?nl @ newline # ?dl"
  have nd: "newline \<notin> set ?n" "newline \<notin> set ?d" "strip ?n = ?n" "strip ?d = ?d" and
    f: "find_str dashes ?n = None" "find_str dashes ?d = None"
    using assms(1,2) by (simp_all add: front_value_def contains_str_def)
  have c: "CHR '' '' \<notin> set dashes" "newline \<notin> set dashes" "dashes \<noteq> []" "is_space newline"
    "find_str dashes ''name:'' = None" "find_str dashes ''description:'' = None" "newline \<noteq> CHR '' ''" by code_simp+
  have "find_str dashes ?nl = None" "find_str dashes ?dl = None"
    using find_str_skip[OF c(1,3), of "''name:''" ?n] find_str_skip[OF c(1,3), of "''description:''" ?d]
    unfolding c(5,6) f by simp_all
  then have "find_str dashes (?nl @ newline # ?dl) = None"
    using find_str_skip[OF c(2,3), of ?nl ?dl] by (simp del: find_str.simps)
  then have none: "find_str dashes ?m = None"
    using find_str_skip[OF c(2,3), of "[]" "?nl @ newline # ?dl"] c(3) by simp
  define m where "m = ?m"
  have content: "skill_md k = dashes @ m @ newline # dashes @ newline # newline # ?x" by (simp add: skill_md_def m_def)
  have "find_str dashes (m @ newline # dashes @ newline # newline # ?x) = Some (Suc (length m))"
    using find_str_at[OF none c(3,2)] unfolding m_def by blast
  moreover have "find_str dashes (skill_md k) = Some 0" unfolding content by (rule find_str_prefix[OF c(3)])
  moreover have "length dashes = 3" by (simp add: dashes_def)
  ultimately have split: "split_dashes (skill_md k) = Some ([], ?m @ [newline], newline # newline # ?x)"
    unfolding split_dashes_def content m_def[symmetric] by (simp add: numeral_3_eq_3)
  have D: "strip ?dl = D" "D \<noteq> []" "newline \<notin> set D" "front_line D nd = (fst nd, ?d)" for nd
  proof -
    have e: "\<not> is_space (hd ''description:'')" "\<not> is_space (last ''description:'')" "newline \<notin> set ''description:''"
      "strip ''description:'' = ''description:''" "strip [] = []" by code_simp+
    show "strip ?dl = D" using strip_key(1)[OF _ e(1,2) nd(4)] by (simp add: D_def)
    show "newline \<notin> set D" using e(3) nd(2) c(7) by (simp add: D_def)
    show "front_line D nd = (fst nd, ?d)" for nd
      using front_line_description[OF nd(4), of nd] e(4,5)
      by (cases "?d = []") (simp_all add: D_def front_line_def starts_with_def)
  qed (simp add: D_def)
  have "lstrip ?dl = ?dl" by (simp add: lstrip_def is_space_def char_code_def)
  then have "rstrip ?dl = D" using D(1) by (simp add: strip_def)
  then have "rstrip (?nl @ newline # ?dl) = ?nl @ newline # D"
    using rstrip_append[of ?dl "?nl @ [newline]"] D(2) by simp
  moreover have "lstrip (?m @ [newline]) = ?nl @ newline # ?dl @ [newline]"
    using c(4) by (simp add: lstrip_def is_space_def[of "CHR ''n''"] char_code_def)
  ultimately have "strip (?m @ [newline]) = ?nl @ newline # D"
    using rstrip_snoc_space[OF c(4), of "?nl @ newline # ?dl"] by (simp add: strip_def)
  moreover have "newline \<notin> set ''name:''" by code_simp
  then have nnl: "newline \<notin> set ?nl" using nd(1) c(7) by simp
  have "split_char newline (?nl @ newline # D) = [?nl, D]"
    by (rule trans[OF split_char_line[OF nnl]]) (simp only: split_char_free[OF D(3)])
  ultimately have "split_char newline (strip (?m @ [newline])) = [?nl, D]" by (simp only:)
  moreover have "strip (newline # newline # ?x) = ?x" using assms(3) c(4) by (simp add: strip_def lstrip_def)
  moreover have "starts_with (skill_md k) dashes" by (simp add: content starts_with_def)
  ultimately show ?thesis
    using split front_line_name[OF nd(3)] D(4) by (simp add: parse_skill_md_def)
qed

theorem skill_md_roundtrip_witness:
  "parse_skill_md ''dir'' (skill_md (plain_skill None ''a--b'' [] False)) = (''a--b'', ''d'', ''x'')"
proof -
  let ?k = "plain_skill None ''a--b'' [] False"
  have "front_value (g_name ?k)" "front_value (g_description ?k)" "strip (g_instructions ?k) = g_instructions ?k"
    unfolding front_value_def by code_simp+
  from skill_md_roundtrip[OF this] show ?thesis by (simp add: plain_skill_def)
qed

end
