(* ===== verification/Task_Preparation.thy ===== *)
theory Task_Preparation
  imports Task_Manager Profiles Skill_Sources Json_Extract
begin

text \<open>
  What the task manager prepares before it starts a container: the settings it reads, the profile it
  applies, and \<open>_process_task\<close> of \<open>errand/task_manager.py\<close> up to the call of the runtime.  The process's
  environment, the provider table, minted tokens, the git clone, the plugins and decryption are
  parameters; Valkey takes a token or fails.
\<close>

record run_settings =
  ts_mcp_servers :: "(string \<times> json) list"
  ts_credentials :: "json list"
  ts_model :: json
  ts_system_prompt :: string
  ts_log_level :: string
  ts_skills :: "agent_skill list"
  ts_mcp_api_key :: string
  ts_ssh_private_key :: string
  ts_git_ssh_hosts :: "json list"
  ts_skills_git_repo :: "(string \<times> json) list option"
  ts_hindsight_url :: string
  ts_hindsight_bank_id :: string
  ts_hindsight_token :: string
  ts_litellm :: "json list"
  ts_hot_tools :: string
  ts_timeout :: "int option"
  ts_compaction_model :: json
  ts_compaction_timeout :: "int option"
  ts_compaction_max_tokens :: "int option"
  ts_max_context_tokens :: "int option"
  ts_max_turns :: json
  ts_reasoning_effort :: json
  ts_profile :: "profile option"        \<comment> \<open>the \<open>_profile_\<close> entries, where a profile applies\<close>

subsection \<open>Reading the settings\<close>

definition str_or_empty :: "json option \<Rightarrow> string" where
  "str_or_empty v = (case v of Some j \<Rightarrow> if json_truthy j then py_str j else [] | None \<Rightarrow> [])"

definition obj_or_empty :: "json option \<Rightarrow> (string \<times> json) list" where
  "obj_or_empty v = (case v of Some (JObj d) \<Rightarrow> d | _ \<Rightarrow> [])"

definition list_or_empty :: "json option \<Rightarrow> json list" where
  "list_or_empty v = (case v of Some (JArr xs) \<Rightarrow> xs | _ \<Rightarrow> [])"

text \<open>\<open>int()\<close> of a setting, ignored when it is no number or not positive.\<close>

definition positive_setting :: "json option \<Rightarrow> py_error + int option" where
  "positive_setting v =
     (case v of
        None \<Rightarrow> Inr None
      | Some JNull \<Rightarrow> Inr None
      | Some j \<Rightarrow>
          (case json_int j of
             Inr n \<Rightarrow> Inr (if n \<le> 0 then None else Some n)
           | Inl OverflowErr \<Rightarrow> Inl OverflowErr
           | Inl _ \<Rightarrow> Inr None))"

definition model_setting :: "json option \<Rightarrow> json" where
  "model_setting v =
     (case v of
        None \<Rightarrow> no_model
      | Some (JObj d) \<Rightarrow> JObj d
      | Some j \<Rightarrow> if json_truthy j then JObj [(''provider_id'', JNull), (''model'', JStr (py_str j))] else no_model)"

definition git_repo_setting :: "json option \<Rightarrow> (string \<times> json) list option" where
  "git_repo_setting v =
     (case v of Some (JObj d) \<Rightarrow> if json_truthy (json_get_or_null (JObj d) ''url'') then Some d else None | _ \<Rightarrow> None)"

definition read_settings :: "environment \<Rightarrow> settings_table \<Rightarrow> agent_skill list \<Rightarrow> py_error + run_settings" where
  "read_settings env rows skills =
     (let row = dict_get rows in
      bind_res (positive_setting (row ''task_processing_timeout'')) (\<lambda>timeout.
      bind_res (positive_setting (row ''compaction_timeout'')) (\<lambda>ctimeout.
      bind_res (positive_setting (row ''compaction_max_tokens'')) (\<lambda>ctokens.
      bind_res (positive_setting (row ''max_context_tokens'')) (\<lambda>mtokens.
      bind_res (resolve_setting_value env rows ''max_turns'') (\<lambda>(turns, _).
      bind_res (resolve_setting_value env rows ''reasoning_effort'') (\<lambda>(effort, _).
        Inr \<lparr>ts_mcp_servers = obj_or_empty (row ''mcp_servers''), ts_credentials = list_or_empty (row ''credentials''),
          ts_model = model_setting (row ''task_processing_model''), ts_system_prompt = str_or_empty (row ''system_prompt''),
          ts_log_level = str_or_empty (row ''task_runner_log_level''), ts_skills = skills,
          ts_mcp_api_key = str_or_empty (row ''mcp_api_key''), ts_ssh_private_key = str_or_empty (row ''ssh_private_key''),
          ts_git_ssh_hosts = list_or_empty (row ''git_ssh_hosts''), ts_skills_git_repo = git_repo_setting (row ''skills_git_repo''),
          ts_hindsight_url = str_or_empty (row ''hindsight_url''), ts_hindsight_bank_id = str_or_empty (row ''hindsight_bank_id''),
          ts_hindsight_token = str_or_empty (row ''hindsight_token''), ts_litellm = list_or_empty (row ''litellm_mcp_servers''),
          ts_hot_tools = str_or_empty (row ''hot_tools''), ts_timeout = timeout,
          ts_compaction_model = (case row ''compaction_model'' of None \<Rightarrow> JNull | Some v \<Rightarrow> v),
          ts_compaction_timeout = ctimeout, ts_compaction_max_tokens = ctokens, ts_max_context_tokens = mtokens,
          ts_max_turns = turns, ts_reasoning_effort = effort, ts_profile = None\<rparr>)))))))"

text \<open>The overrides of a profile; what the later code reads from its \<open>_profile_\<close> entries it reads from \<open>ts_profile\<close>.\<close>

definition resolve_profile :: "profile option \<Rightarrow> run_settings \<Rightarrow> run_settings" where
  "resolve_profile p s =
     (case p of
        None \<Rightarrow> s
      | Some p \<Rightarrow>
          s\<lparr>ts_model := (if p_model p = JNull then ts_model s else p_model p),
            ts_system_prompt := (case p_system_prompt p of None \<Rightarrow> ts_system_prompt s | Some x \<Rightarrow> x),
            ts_profile := Some p\<rparr>)"

definition profile_field :: "(profile \<Rightarrow> json) \<Rightarrow> run_settings \<Rightarrow> json option" where
  "profile_field f s = (case ts_profile s of None \<Rightarrow> None | Some p \<Rightarrow> if f p = JNull then None else Some (f p))"

definition profile_value :: "(profile \<Rightarrow> 'a option) \<Rightarrow> run_settings \<Rightarrow> 'a option" where
  "profile_value f s = Option.bind (ts_profile s) f"

subsection \<open>The model\<close>

record provider =
  pv_base_url :: string
  pv_api_key :: string
  pv_source :: string

definition no_model_error :: string where
  "no_model_error = ''No model is configured for running tasks. Choose one in Settings, or run Scan for local AI and pick a model for the provider it finds.''"

definition no_provider_error :: string where "no_provider_error = ''LLM provider not configured''"

definition detected_error :: string where
  "detected_error = ''This provider was created by local AI detection, and its address is only reachable from a task container on a named network. Set TASK_RUNNER_NETWORK so task containers stop using host networking, or select a provider that was configured manually.''"

definition host_networking :: "environment \<Rightarrow> bool" where
  "host_networking env =
     (env_or env ''CONTAINER_RUNTIME'' ''docker'' = ''docker'' \<and> strip (env_or env ''TASK_RUNNER_NETWORK'' []) = [])"

record chosen_model =
  cm_base_url :: string
  cm_api_key :: string
  cm_model :: json
  cm_source :: "string option"

text \<open>\<open>lookup\<close> is \<open>_resolve_provider_sync\<close>; a model that is neither a string nor an object passes through.\<close>

definition choose_model :: "environment \<Rightarrow> (json \<Rightarrow> provider option) \<Rightarrow> json \<Rightarrow> string + chosen_model" where
  "choose_model env lookup m0 =
     (let m = (case m0 of JStr s \<Rightarrow> JObj [(''provider_id'', JNull), (''model'', JStr s)] | _ \<Rightarrow> m0) in
      case m of
        JObj d \<Rightarrow>
          (let pid = json_get_or_null m ''provider_id'';
               name0 = json_get_or_null m ''model'';
               name = (if json_truthy name0 then name0 else case dict_get d ''model_id'' of None \<Rightarrow> JStr [] | Some v \<Rightarrow> v)
           in if \<not> json_truthy name then Inl no_model_error
              else if \<not> json_truthy pid then Inr \<lparr>cm_base_url = [], cm_api_key = [], cm_model = name, cm_source = None\<rparr>
              else case lookup pid of
                None \<Rightarrow> Inl no_provider_error
              | Some p \<Rightarrow>
                  if pv_source p = ''detected'' \<and> host_networking env then Inl detected_error
                  else Inr \<lparr>cm_base_url = pv_base_url p, cm_api_key = pv_api_key p, cm_model = name, cm_source = Some (pv_source p)\<rparr>)
      | _ \<Rightarrow> Inr \<lparr>cm_base_url = [], cm_api_key = [], cm_model = m, cm_source = None\<rparr>)"

subsection \<open>The MCP servers\<close>

definition json_in :: "string \<Rightarrow> json \<Rightarrow> py_error + bool" where
  "json_in k v =
     (case v of
        JArr xs \<Rightarrow> Inr (JStr k \<in> set xs)
      | JObj d \<Rightarrow> Inr (k \<in> fst ` set d)
      | JStr s \<Rightarrow> Inr (contains_str s k)
      | _ \<Rightarrow> Inl (TypeErr ''argument is not iterable''))"

fun keep_allowed :: "json \<Rightarrow> (string \<times> json) list \<Rightarrow> py_error + (string \<times> json) list" where
  "keep_allowed allowed [] = Inr []"
| "keep_allowed allowed ((k, v) # d) =
     bind_res (json_in k allowed) (\<lambda>b. bind_res (keep_allowed allowed d) (\<lambda>r. Inr (if b then (k, v) # r else r)))"

definition filter_mcp_servers :: "json option \<Rightarrow> (string \<times> json) list \<Rightarrow> py_error + (string \<times> json) list" where
  "filter_mcp_servers allowed cfg =
     (case allowed of
        None \<Rightarrow> Inr cfg
      | Some f \<Rightarrow>
          (case dict_get cfg ''mcpServers'' of
             None \<Rightarrow> Inr cfg
           | Some servers \<Rightarrow>
               bind_res (py_len f) (\<lambda>n.
                 if n = 0 then Inr []
                 else case servers of
                   JObj d \<Rightarrow> bind_res (keep_allowed f d) (\<lambda>r. Inr (if r = [] then [] else [(''mcpServers'', JObj r)]))
                 | _ \<Rightarrow> Inl (AttributeErr ''items''))))"

text \<open>\<open>setdefault\<close> of the table of servers, then an assignment, unless the name is there.\<close>

definition put_server :: "bool \<Rightarrow> string \<Rightarrow> json \<Rightarrow> (string \<times> json) list \<Rightarrow> py_error + (string \<times> json) list" where
  "put_server overwrite name entry cfg =
     (case dict_get cfg ''mcpServers'' of
        None \<Rightarrow> Inr (dict_set ''mcpServers'' (JObj [(name, entry)]) cfg)
      | Some (JObj d) \<Rightarrow>
          if \<not> overwrite \<and> name \<in> fst ` set d then Inr cfg
          else Inr (dict_set ''mcpServers'' (JObj (dict_set name entry d)) cfg)
      | Some v \<Rightarrow>
          if overwrite then Inl (TypeErr ''object does not support item assignment'')
          else bind_res (json_in name v) (\<lambda>b. if b then Inr cfg else Inl (TypeErr ''object does not support item assignment'')))"

definition put_server_if :: "bool \<Rightarrow> bool \<Rightarrow> string \<Rightarrow> json \<Rightarrow> (string \<times> json) list \<Rightarrow> py_error + (string \<times> json) list" where
  "put_server_if c overwrite name entry cfg = (if c then put_server overwrite name entry cfg else Inr cfg)"

fun put_servers :: "(string \<times> json) list \<Rightarrow> (string \<times> json) list \<Rightarrow> py_error + (string \<times> json) list" where
  "put_servers [] cfg = Inr cfg"
| "put_servers ((name, entry) # es) cfg = bind_res (put_server False name entry cfg) (put_servers es)"

definition bearer_header :: "string \<Rightarrow> json" where
  "bearer_header token = JObj [(''Authorization'', JStr (''Bearer '' @ token))]"

definition env_first :: "environment \<Rightarrow> string \<Rightarrow> string \<Rightarrow> string" where
  "env_first env k d = (if truthy (env k) then the (env k) else d)"

definition hindsight_url :: "environment \<Rightarrow> run_settings \<Rightarrow> string" where
  "hindsight_url env s = env_first env ''HINDSIGHT_URL'' (ts_hindsight_url s)"

definition hindsight_bank :: "environment \<Rightarrow> run_settings \<Rightarrow> string" where
  "hindsight_bank env s =
     (let b = env_first env ''HINDSIGHT_BANK_ID'' (ts_hindsight_bank_id s) in if b = [] then ''errand-tasks'' else b)"

definition errand_entry :: "environment \<Rightarrow> run_settings \<Rightarrow> json" where
  "errand_entry env s =
     JObj [(''url'', JStr (env_or env ''ERRAND_MCP_URL'' [])), (''headers'', bearer_header (ts_mcp_api_key s))]"

definition hindsight_entry :: "environment \<Rightarrow> run_settings \<Rightarrow> json" where
  "hindsight_entry env s =
     (let token = env_first env ''HINDSIGHT_TOKEN'' (ts_hindsight_token s) in
      JObj ((''url'', JStr (rstrip_char CHR ''/'' (hindsight_url env s) @ ''/mcp/'' @ hindsight_bank env s @ ''/'')) #
        (if token = [] then [] else [(''headers'', bearer_header token)])))"

text \<open>The names a \<open>for\<close> loop over the value yields.\<close>

definition iterate :: "json \<Rightarrow> py_error + json list" where
  "iterate v =
     (case v of
        JArr xs \<Rightarrow> Inr xs
      | JObj d \<Rightarrow> Inr (map (JStr \<circ> fst) d)
      | JStr s \<Rightarrow> Inr (map (\<lambda>c. JStr [c]) s)
      | _ \<Rightarrow> Inl (TypeErr ''object is not iterable''))"

definition litellm_entries :: "chosen_model \<Rightarrow> json list \<Rightarrow> (string \<times> json) list" where
  "litellm_entries m names =
     map (\<lambda>n. (''litellm_'' @ py_str n,
       JObj [(''url'', JStr (rstrip_char CHR ''/'' (cm_base_url m) @ ''/mcp/'' @ py_str n)),
         (''headers'', if cm_api_key m = [] then JObj [] else bearer_header (cm_api_key m))])) names"

text \<open>The gateway's servers, unless a server named \<open>litellm\<close> is configured.\<close>

definition put_litellm :: "chosen_model \<Rightarrow> json \<Rightarrow> (string \<times> json) list \<Rightarrow> py_error + (string \<times> json) list" where
  "put_litellm m enabled cfg =
     (if \<not> json_truthy enabled \<or> cm_base_url m = [] then Inr cfg
      else
        (let cfg1 = (if dict_get cfg ''mcpServers'' = None then dict_set ''mcpServers'' (JObj []) cfg else cfg) in
         bind_res (json_in ''litellm'' (the (dict_get cfg1 ''mcpServers''))) (\<lambda>there.
           if there then Inr cfg1
           else bind_res (iterate enabled) (\<lambda>names. put_servers (litellm_entries m names) cfg1))))"

type_synonym cloud_credentials = "(string \<times> (string \<times> string) list) list"

definition access_token :: "cloud_credentials \<Rightarrow> string \<Rightarrow> string" where
  "access_token creds p =
     (case dict_get creds p of
        None \<Rightarrow> []
      | Some c \<Rightarrow> (case dict_get c ''access_token'' of None \<Rightarrow> [] | Some t \<Rightarrow> t))"

text \<open>Whether OneDrive is given to the run.\<close>

definition onedrive_wanted :: "environment \<Rightarrow> run_settings \<Rightarrow> cloud_credentials \<Rightarrow> py_error + bool" where
  "onedrive_wanted env s creds =
     (if creds = [] \<or> env_or env ''ONEDRIVE_MCP_URL'' [] = [] \<or> dict_get creds ''onedrive'' = None then Inr False
      else case profile_field p_mcp_servers s of
        None \<Rightarrow> Inr (access_token creds ''onedrive'' \<noteq> [])
      | Some f \<Rightarrow> bind_res (json_in ''onedrive'' f) (\<lambda>b. Inr (b \<and> access_token creds ''onedrive'' \<noteq> [])))"

definition onedrive_entry :: "environment \<Rightarrow> cloud_credentials \<Rightarrow> json" where
  "onedrive_entry env creds =
     JObj [(''url'', JStr (env_or env ''ONEDRIVE_MCP_URL'' [])), (''headers'', bearer_header (access_token creds ''onedrive''))]"

text \<open>The servers the task manager adds to the table, and whether OneDrive is among them.\<close>

definition inject_servers ::
    "environment \<Rightarrow> run_settings \<Rightarrow> chosen_model \<Rightarrow> cloud_credentials \<Rightarrow> (string \<times> json) list \<Rightarrow>
     py_error + (string \<times> json) list \<times> bool" where
  "inject_servers env s m creds cfg =
     bind_res (put_server_if (env_or env ''ERRAND_MCP_URL'' [] \<noteq> [] \<and> ts_mcp_api_key s \<noteq> []) False
        ''errand'' (errand_entry env s) cfg) (\<lambda>cfg.
     bind_res (put_server_if (hindsight_url env s \<noteq> []) False ''hindsight'' (hindsight_entry env s) cfg) (\<lambda>cfg.
     bind_res (put_server_if (env_or env ''PLAYWRIGHT_MCP_URL'' [] \<noteq> []) False
        ''playwright'' (JObj [(''url'', JStr (env_or env ''PLAYWRIGHT_MCP_URL'' []))]) cfg) (\<lambda>cfg.
     bind_res (put_litellm m (case profile_field p_litellm_mcp_servers s of Some v \<Rightarrow> v | None \<Rightarrow> JArr (ts_litellm s)) cfg) (\<lambda>cfg.
     bind_res (onedrive_wanted env s creds) (\<lambda>onedrive.
     bind_res (put_server_if onedrive True ''onedrive'' (onedrive_entry env creds) cfg) (\<lambda>cfg. Inr (cfg, onedrive)))))))"

subsection \<open>The environment of the container\<close>

text \<open>Keys and values as the code puts them there; a credential may name any hashable key.\<close>

type_synonym run_env = "(json \<times> json) list"

definition put_env :: "string \<Rightarrow> json \<Rightarrow> run_env \<Rightarrow> run_env" where "put_env k v e = dict_set (JStr k) v e"

definition put_env_if :: "bool \<Rightarrow> string \<Rightarrow> json \<Rightarrow> run_env \<Rightarrow> run_env" where
  "put_env_if c k v e = (if c then put_env k v e else e)"

fun credential_env :: "json list \<Rightarrow> run_env \<Rightarrow> py_error + run_env" where
  "credential_env [] e = Inr e"
| "credential_env (c # cs) e =
     (case (json_get c ''key'', json_get c ''value'') of
        (Some k, Some v) \<Rightarrow>
          (case k of
             JArr _ \<Rightarrow> Inl (TypeErr ''unhashable type'')
           | JObj _ \<Rightarrow> Inl (TypeErr ''unhashable type'')
           | _ \<Rightarrow> credential_env cs (dict_set k v e))
      | _ \<Rightarrow> credential_env cs e)"

definition llm_timeout_of :: "run_settings \<Rightarrow> chosen_model \<Rightarrow> int" where
  "llm_timeout_of s m =
     (case profile_value p_llm_timeout s of
        Some t \<Rightarrow> t
      | None \<Rightarrow> (case ts_timeout s of Some t \<Rightarrow> t | None \<Rightarrow> if cm_source m = Some ''detected'' then 300 else 30))"

text \<open>A knob of the deployment, else the stored setting.\<close>

definition knob :: "environment \<Rightarrow> string \<Rightarrow> int option \<Rightarrow> string" where
  "knob env k stored = env_first env k (case stored of Some n \<Rightarrow> show_int n | None \<Rightarrow> [])"

definition compaction_model_of :: "environment \<Rightarrow> run_settings \<Rightarrow> string" where
  "compaction_model_of env s =
     (let stored = (case ts_compaction_model s of
          JObj d \<Rightarrow>
            (let m = json_get_or_null (JObj d) ''model''; i = json_get_or_null (JObj d) ''model_id''
             in if json_truthy m then m else if json_truthy i then i else JStr [])
        | v \<Rightarrow> v)
      in env_first env ''COMPACTION_MODEL'' (if json_truthy stored then py_str stored else []))"

definition model_env :: "environment \<Rightarrow> nat \<Rightarrow> (nat \<Rightarrow> string) \<Rightarrow> run_settings \<Rightarrow> chosen_model \<Rightarrow> run_env \<Rightarrow> run_env" where
  "model_env env task_id show_uuid s m e0 =
     (let e = put_env_if (cm_base_url m \<noteq> []) ''OPENAI_BASE_URL'' (JStr (cm_base_url m)) e0;
          e = put_env_if (cm_api_key m \<noteq> []) ''OPENAI_API_KEY'' (JStr (cm_api_key m)) e;
          e = put_env ''OPENAI_MODEL'' (cm_model m) e;
          e = put_env ''USER_PROMPT_PATH'' (JStr ''/workspace/prompt.txt'') e;
          e = put_env ''SYSTEM_PROMPT_PATH'' (JStr ''/workspace/system_prompt.txt'') e;
          e = put_env ''MCP_CONFIGURATION_PATH'' (JStr ''/workspace/mcp.json'') e;
          level = (if ts_log_level s \<noteq> [] then ts_log_level s else env_or env ''TASK_RUNNER_LOG_LEVEL'' []);
          e = put_env_if (level \<noteq> []) ''LOG_LEVEL'' (JStr level) e;
          turns = (case profile_value p_max_turns s of Some n \<Rightarrow> JStr (show_int n) | None \<Rightarrow> ts_max_turns s);
          e = put_env_if (json_truthy turns) ''MAX_TURNS'' (JStr (py_str turns)) e;
          effort = (case profile_value p_reasoning_effort s of
              Some x \<Rightarrow> if x = [] then ts_reasoning_effort s else JStr x | None \<Rightarrow> ts_reasoning_effort s);
          e = put_env_if (json_truthy effort) ''REASONING_EFFORT'' (JStr (py_str effort)) e;
          e = put_env ''LLM_REQUEST_TIMEOUT'' (JStr (show_int (llm_timeout_of s m))) e;
          e = put_env_if (compaction_model_of env s \<noteq> []) ''COMPACTION_MODEL'' (JStr (compaction_model_of env s)) e;
          ct = knob env ''COMPACTION_TIMEOUT_SECONDS'' (ts_compaction_timeout s);
          e = put_env_if (ct \<noteq> []) ''COMPACTION_TIMEOUT_SECONDS'' (JStr ct) e;
          cx = knob env ''COMPACTION_MAX_TOKENS'' (ts_compaction_max_tokens s);
          e = put_env_if (cx \<noteq> []) ''COMPACTION_MAX_TOKENS'' (JStr cx) e;
          mx = knob env ''MAX_CONTEXT_TOKENS'' (ts_max_context_tokens s);
          e = put_env_if (mx \<noteq> []) ''MAX_CONTEXT_TOKENS'' (JStr mx) e;
          e = put_env_if (ts_hot_tools s \<noteq> []) ''HOT_TOOLS'' (JStr (ts_hot_tools s)) e
      in put_env ''_TASK_ID'' (JStr (show_uuid task_id)) e)"

text \<open>A failing mint is logged and skipped.\<close>

definition github_env :: "((string \<times> string) list \<Rightarrow> string option) \<Rightarrow> (string \<times> string) list \<Rightarrow> run_env \<Rightarrow> run_env" where
  "github_env mint creds e =
     (if creds = [] then e
      else
        (let mode = (case dict_get creds ''auth_mode'' of None \<Rightarrow> ''pat'' | Some x \<Rightarrow> x);
             pat = (case dict_get creds ''personal_access_token'' of None \<Rightarrow> [] | Some x \<Rightarrow> x)
         in if mode = ''pat'' then put_env_if (pat \<noteq> []) ''GH_TOKEN'' (JStr pat) e
            else if mode = ''app'' then (case mint creds of None \<Rightarrow> e | Some t \<Rightarrow> put_env ''GH_TOKEN'' (JStr t) e)
            else e))"

subsection \<open>The skills and the prompt\<close>

definition GOOGLE_WORKSPACE_INSTRUCTIONS :: string where
  "GOOGLE_WORKSPACE_INSTRUCTIONS =
     join [newline]
       [[], [], ''## Google Workspace'', [],
        ''You have access to Google Workspace via the `gws` CLI (`/usr/local/bin/gws`).'',
        ''The OAuth token is pre-injected via the `GOOGLE_WORKSPACE_CLI_TOKEN` env var,'',
        ''so commands authenticate automatically.'', [],
        ''`gws` covers Drive, Gmail, Calendar, Sheets, Docs, Chat, Tasks, and Contacts.'',
        ''For full reference, agent skills are installed at `/workspace/skills/gws-*/`.'',
        ''Read the relevant skill's `SKILL.md` (e.g. `gws-drive`, `gws-gmail`) before'',
        ''issuing commands.'', [],
        ''Run `gws --help` or `gws <service> --help` to discover subcommands. Outputs'',
        ''are JSON by default and can be piped to `jq` for filtering.'', []]"

text \<open>
  What a run meets outside the task manager's code: the process's environment, the provider table, the
  GitHub mint, the git clone with the directories it holds, the skill sets of the image, the plugins'
  skills and servers, decryption, and the tokens Valkey took (\<open>None\<close> when it failed).
\<close>

record surroundings =
  w_environ :: environment
  w_provider :: "json \<Rightarrow> provider option"
  w_mint :: "(string \<times> string) list \<Rightarrow> string option"
  w_clone :: "json \<Rightarrow> json \<Rightarrow> string option \<Rightarrow> py_error + string"
  w_directory :: "string \<Rightarrow> node option"
  w_system_skills :: "string \<Rightarrow> agent_skill list"
  w_plugins :: "string list \<Rightarrow> agent_skill list \<times> (string \<times> json) list"
  w_decrypt :: "string \<Rightarrow> (string \<times> json) list option"
  w_refresh_token :: "string option"
  w_callback_token :: "string option"
  w_show_uuid :: "nat \<Rightarrow> string"

definition non_empty :: "string \<Rightarrow> string option" where "non_empty s = (if s = [] then None else Some s)"

definition git_skills_of :: "surroundings \<Rightarrow> run_settings \<Rightarrow> py_error + agent_skill list" where
  "git_skills_of w s =
     (case ts_skills_git_repo s of
        None \<Rightarrow> Inr []
      | Some repo \<Rightarrow>
          bind_res (w_clone w (json_get_or_null (JObj repo) ''url'') (json_get_or_null (JObj repo) ''branch'')
              (non_empty (ts_ssh_private_key s))) (\<lambda>dir.
            case dict_get repo ''path'' of
              None \<Rightarrow> Inr (parse_skills_from_directory (w_directory w (os_path_join dir ''.'')))
            | Some (JStr path) \<Rightarrow>
                Inr (parse_skills_from_directory (w_directory w (os_path_join dir (lstrip_char CHR ''/'' path))))
            | Some _ \<Rightarrow> Inl (AttributeErr ''lstrip'')))"

text \<open>The identifiers of a profile's list that some skill carries.\<close>

fun chosen_ids :: "json \<Rightarrow> agent_skill list \<Rightarrow> py_error + string list" where
  "chosen_ids allowed [] = Inr []"
| "chosen_ids allowed (k # ks) =
     (if truthy (g_id k) then
        bind_res (json_in (the (g_id k)) allowed) (\<lambda>b.
        bind_res (chosen_ids allowed ks) (\<lambda>r. Inr (if b then the (g_id k) # r else r)))
      else chosen_ids allowed ks)"

definition filter_skills :: "run_settings \<Rightarrow> agent_skill list \<Rightarrow> py_error + agent_skill list" where
  "filter_skills s ks =
     (case (profile_field p_skill_ids s, ts_profile s) of
        (Some allowed, Some p) \<Rightarrow>
          bind_res (chosen_ids allowed ks) (\<lambda>ids. Inr (profile_skill_filter (Some ids) (p_include_git_skills p) ks))
      | _ \<Rightarrow> Inr ks)"

definition run_prompt :: "run_settings \<Rightarrow> bool \<Rightarrow> agent_skill list \<Rightarrow> string" where
  "run_prompt s google ks =
     ts_system_prompt s @
     (if google \<and> list_ex (\<lambda>k. starts_with (g_name k) ''gws-'') ks then GOOGLE_WORKSPACE_INSTRUCTIONS else []) @
     (if ks = [] then [] else build_skill_manifest ks)"

subsection \<open>Tokens and the rest of the environment\<close>

definition GOOGLE_REFRESH_TOKEN_TTL_SECONDS :: int where "GOOGLE_REFRESH_TOKEN_TTL_SECONDS = 8 * 60 * 60"

text \<open>What a run leaves in Valkey: a key, its value and its lifetime.\<close>

type_synonym kept_token = "string \<times> string \<times> int"

fun find_last :: "string \<Rightarrow> string \<Rightarrow> nat option" where
  "find_last p [] = (if p = [] then Some 0 else None)"
| "find_last p (c # s) =
     (case find_last p s of Some i \<Rightarrow> Some (Suc i) | None \<Rightarrow> if starts_with (c # s) p then Some 0 else None)"

definition before_last :: "string \<Rightarrow> string \<Rightarrow> string" where
  "before_last p s = (case find_last p s of None \<Rightarrow> s | Some i \<Rightarrow> take i s)"

definition remove_suffix :: "string \<Rightarrow> string \<Rightarrow> string" where
  "remove_suffix p s = (if ends_with s p then take (length s - length p) s else s)"

text \<open>Google Workspace: whether it is enabled, the environment and the bearer kept for a refresh.\<close>

definition google_env ::
    "surroundings \<Rightarrow> nat \<Rightarrow> cloud_credentials \<Rightarrow> run_env \<Rightarrow> bool \<times> run_env \<times> kept_token list" where
  "google_env w task_id creds e0 =
     (let token = access_token creds ''google_drive'' in
      if token = [] then (False, e0, [])
      else
        (let e = put_env ''GOOGLE_WORKSPACE_CLI_TOKEN'' (JStr token) e0;
             base = before_last ''/mcp'' (rstrip_char CHR ''/'' (env_or (w_environ w) ''ERRAND_MCP_URL'' []))
         in if base = [] then (True, e, [])
            else case w_refresh_token w of
              None \<Rightarrow> (True, e, [])
            | Some t \<Rightarrow>
                (True, put_env ''ERRAND_API_KEY'' (JStr t) (put_env ''ERRAND_API_URL'' (JStr base) e),
                 [(''google_refresh_token:'' @ t, w_show_uuid w task_id, GOOGLE_REFRESH_TOKEN_TTL_SECONDS)])))"

definition callback_env :: "surroundings \<Rightarrow> nat \<Rightarrow> run_env \<Rightarrow> run_env \<times> kept_token list" where
  "callback_env w task_id e =
     (let url = env_or (w_environ w) ''ERRAND_MCP_URL'' [] in
      if url = [] then (e, [])
      else case w_callback_token w of
        None \<Rightarrow> (e, [])
      | Some t \<Rightarrow>
          (put_env ''RESULT_CALLBACK_TOKEN'' (JStr t)
             (put_env ''RESULT_CALLBACK_URL''
                (JStr (remove_suffix ''/mcp'' (remove_suffix ''/'' url) @ ''/api/internal/task-result/'' @ w_show_uuid w task_id)) e),
           [(''task_result_token:'' @ w_show_uuid w task_id, t, 1800)]))"

definition task_env_of :: "surroundings \<Rightarrow> dequeued_task \<Rightarrow> (string \<times> json) list" where
  "task_env_of w q =
     (if truthy (q_encrypted_env q)
      then case w_decrypt w (the (q_encrypted_env q)) of None \<Rightarrow> [] | Some d \<Rightarrow> d
      else [])"

definition update_env :: "(string \<times> json) list \<Rightarrow> run_env \<Rightarrow> run_env" where
  "update_env d e = fold (\<lambda>(k, v). put_env k v) d e"

text \<open>The environment MCP configurations are expanded with.\<close>

definition mcp_environ :: "surroundings \<Rightarrow> (string \<times> string) list \<Rightarrow> environment" where
  "mcp_environ w jira =
     (case dict_get jira ''api_token'' of
        None \<Rightarrow> w_environ w
      | Some t \<Rightarrow> if t = [] then w_environ w else (w_environ w)(''JIRA_API_TOKEN'' \<mapsto> t))"

subsection \<open>The whole preparation\<close>

record prepared =
  pp_env :: run_env
  pp_files :: "(string \<times> string) list"
  pp_skills_tar :: "(string \<times> string) list option"
  pp_ssh_private_key :: "string option"
  pp_ssh_config :: "string option"
  pp_ssh_hosts :: "json list option"
  pp_mounts :: "workspace_mount list option"
  pp_workspace_unavailable :: bool      \<comment> \<open>the \<open>workspace_unavailable\<close> event is published\<close>
  pp_kept_tokens :: "kept_token list"

datatype preparation = Refused string | Prepared prepared

record stored_credentials =
  sc_github :: "(string \<times> string) list"
  sc_cloud :: cloud_credentials
  sc_jira :: "(string \<times> string) list"

definition run_mounts :: "surroundings \<Rightarrow> run_settings \<Rightarrow> workspace_mount list option \<times> bool" where
  "run_mounts w s =
     resolve_workspace_mounts (w_environ w) (case ts_profile s of None \<Rightarrow> False | Some p \<Rightarrow> p_workspace_enabled p)
       (profile_value p_workspace_subpath s)"

definition prepare_run ::
    "surroundings \<Rightarrow> run_settings \<Rightarrow> stored_credentials \<Rightarrow> dequeued_task \<Rightarrow> (string \<times> json) list \<Rightarrow> run_env \<Rightarrow>
     chosen_model \<Rightarrow> py_error + prepared" where
  "prepare_run w s cr q cfg e m =
     (let env = w_environ w;
          e = github_env (w_mint w) (sc_github cr) (model_env env (q_task_id q) (w_show_uuid w) s m e)
      in bind_res (inject_servers env s m (sc_cloud cr) cfg) (\<lambda>(cfg, onedrive).
           case google_env w (q_task_id q) (sc_cloud cr) e of (google, e, kept) \<Rightarrow>
             bind_res (git_skills_of w s) (\<lambda>git.
               let ctx = \<lparr>x_google_workspace_enabled = google, x_cloud_storage_injected = onedrive,
                     x_hindsight_url = hindsight_url env s,
                     x_shared_workspace_enabled = (case ts_profile s of None \<Rightarrow> False | Some p \<Rightarrow> p_workspace_enabled p)\<rparr>;
                   system = load_system_skills_from_registry (w_system_skills w) ctx;
                   plugins = w_plugins w (case profile_value p_enabled_plugins s of None \<Rightarrow> [] | Some us \<Rightarrow> us);
                   merged = fst (merge_skills_with_plugins (ts_skills s) git system (fst plugins))
               in bind_res (put_servers (snd plugins) cfg) (\<lambda>cfg.
                  bind_res (filter_skills s merged) (\<lambda>skills.
                    case callback_env w (q_task_id q) e of (e, kept') \<Rightarrow>
                    case run_mounts w s of (mounts, unavailable) \<Rightarrow>
                      Inr \<lparr>pp_env = update_env (task_env_of w q) e,
                        pp_files =
                          [(''prompt.txt'', if truthy (q_description q) then the (q_description q) else q_title q),
                           (''system_prompt.txt'', run_prompt s google skills),
                           (''mcp.json'', json_dumps (substitute_env_vars (mcp_environ w (sc_jira cr)) (JObj cfg)))],
                        pp_skills_tar = build_skills_archive skills,
                        pp_ssh_private_key = non_empty (ts_ssh_private_key s),
                        pp_ssh_config =
                          (if ts_ssh_private_key s = [] then None
                           else Some (generate_ssh_config (map py_str (ts_git_ssh_hosts s)))),
                        pp_ssh_hosts =
                          (if ts_ssh_private_key s = [] \<or> ts_git_ssh_hosts s = [] then None else Some (ts_git_ssh_hosts s)),
                        pp_mounts = mounts, pp_workspace_unavailable = unavailable,
                        pp_kept_tokens = kept @ kept'\<rparr>)))))"

text \<open>A refusal is the result \<open>(-1, {"error": msg}, msg)\<close> of the run.\<close>

definition prepare_task ::
    "surroundings \<Rightarrow> run_settings \<Rightarrow> stored_credentials \<Rightarrow> dequeued_task \<Rightarrow> py_error + preparation" where
  "prepare_task w s cr q =
     bind_res (filter_mcp_servers (profile_field p_mcp_servers s) (ts_mcp_servers s)) (\<lambda>cfg.
     bind_res (credential_env (ts_credentials s) []) (\<lambda>e.
       case choose_model (w_environ w) (w_provider w) (ts_model s) of
         Inl msg \<Rightarrow> Inr (Refused msg)
       | Inr m \<Rightarrow> bind_res (prepare_run w s cr q cfg e m) (\<lambda>p. Inr (Prepared p))))"

subsection \<open>How a preparation comes about\<close>

lemma prepared_taskE:
  assumes "prepare_task w s cr q = Inr (Prepared p)"
  obtains cfg e m where
    "filter_mcp_servers (profile_field p_mcp_servers s) (ts_mcp_servers s) = Inr cfg"
    "credential_env (ts_credentials s) [] = Inr e"
    "choose_model (w_environ w) (w_provider w) (ts_model s) = Inr m"
    "prepare_run w s cr q cfg e m = Inr p"
  using assms unfolding prepare_task_def
  by (elim bind_InrE) (auto split: sum.splits elim!: bind_InrE)

lemma prepared_runE:
  assumes "prepare_run w s cr q cfg e m = Inr p"
  obtains cfg1 onedrive google e1 kept cfg2 skills e2 kept' where
    "inject_servers (w_environ w) s m (sc_cloud cr) cfg = Inr (cfg1, onedrive)"
    "google_env w (q_task_id q) (sc_cloud cr)
       (github_env (w_mint w) (sc_github cr) (model_env (w_environ w) (q_task_id q) (w_show_uuid w) s m e)) = (google, e1, kept)"
    "put_servers (snd (w_plugins w (case profile_value p_enabled_plugins s of None \<Rightarrow> [] | Some us \<Rightarrow> us))) cfg1 = Inr cfg2"
    "callback_env w (q_task_id q) e1 = (e2, kept')"
    "pp_env p = update_env (task_env_of w q) e2"
    "dict_get (pp_files p) ''mcp.json'' = Some (json_dumps (substitute_env_vars (mcp_environ w (sc_jira cr)) (JObj cfg2)))"
    "dict_get (pp_files p) ''system_prompt.txt'' = Some (run_prompt s google skills)"
    "pp_skills_tar p = build_skills_archive skills"
    "(pp_mounts p, pp_workspace_unavailable p) = run_mounts w s"
    "pp_kept_tokens p = kept @ kept'"
  using assms unfolding prepare_run_def Let_def
  by (elim bind_InrE) (auto split: prod.splits elim!: bind_InrE)

subsection \<open>The environment of the container, key by key\<close>

lemma get_put_env: "dict_get (put_env k v e) (JStr x) = (if x = k then Some v else dict_get e (JStr x))"
  by (simp add: put_env_def)

lemma get_put_env_if: "dict_get (put_env_if c k v e) (JStr x) = (if x = k \<and> c then Some v else dict_get e (JStr x))"
  by (simp add: put_env_if_def get_put_env)

lemma get_update_env:
  "dict_get (update_env d e) (JStr x) = (case map_of (rev d) x of Some v \<Rightarrow> Some v | None \<Rightarrow> dict_get e (JStr x))"
  unfolding update_env_def
  by (induction d arbitrary: e) (auto simp: get_put_env map_add_def split: option.splits)

text \<open>The variables the task manager itself may set.\<close>

definition RUN_KEYS :: "string list" where
  "RUN_KEYS =
     [''OPENAI_BASE_URL'', ''OPENAI_API_KEY'', ''OPENAI_MODEL'', ''USER_PROMPT_PATH'', ''SYSTEM_PROMPT_PATH'',
      ''MCP_CONFIGURATION_PATH'', ''LOG_LEVEL'', ''MAX_TURNS'', ''REASONING_EFFORT'', ''LLM_REQUEST_TIMEOUT'',
      ''COMPACTION_MODEL'', ''COMPACTION_TIMEOUT_SECONDS'', ''COMPACTION_MAX_TOKENS'', ''MAX_CONTEXT_TOKENS'',
      ''HOT_TOOLS'', ''_TASK_ID'', ''GH_TOKEN'', ''GOOGLE_WORKSPACE_CLI_TOKEN'', ''ERRAND_API_URL'', ''ERRAND_API_KEY'',
      ''RESULT_CALLBACK_URL'', ''RESULT_CALLBACK_TOKEN'']"

text \<open>Those it sets in every run, with their values.\<close>

definition own_env :: "surroundings \<Rightarrow> run_settings \<Rightarrow> dequeued_task \<Rightarrow> chosen_model \<Rightarrow> (string \<times> json) list" where
  "own_env w s q m =
     [(''OPENAI_MODEL'', cm_model m), (''USER_PROMPT_PATH'', JStr ''/workspace/prompt.txt''),
      (''SYSTEM_PROMPT_PATH'', JStr ''/workspace/system_prompt.txt''), (''MCP_CONFIGURATION_PATH'', JStr ''/workspace/mcp.json''),
      (''LLM_REQUEST_TIMEOUT'', JStr (show_int (llm_timeout_of s m))), (''_TASK_ID'', JStr (w_show_uuid w (q_task_id q)))]"

lemma get_model_env_frame: "x \<notin> set RUN_KEYS \<Longrightarrow> dict_get (model_env env i sh s m e) (JStr x) = dict_get e (JStr x)"
  unfolding model_env_def Let_def RUN_KEYS_def by (simp add: get_put_env get_put_env_if del: split_paired_All)

lemma get_model_env_own_all:
  "list_all (\<lambda>(x, v). dict_get (model_env env (q_task_id q) (w_show_uuid w) s m e) (JStr x) = Some v) (own_env w s q m)"
  unfolding model_env_def Let_def own_env_def by (simp add: get_put_env get_put_env_if)

lemma get_model_env_own:
  "(x, v) \<in> set (own_env w s q m) \<Longrightarrow> dict_get (model_env env (q_task_id q) (w_show_uuid w) s m e) (JStr x) = Some v"
  using get_model_env_own_all[of env q w s m e] by (auto simp: list_all_iff)

lemma get_github_env: "x \<noteq> ''GH_TOKEN'' \<Longrightarrow> dict_get (github_env mint cr e) (JStr x) = dict_get e (JStr x)"
  unfolding github_env_def Let_def by (simp add: get_put_env get_put_env_if split: option.splits)

lemma get_google_env:
  "google_env w i cr e = (g, e', kept) \<Longrightarrow>
   x \<notin> {''GOOGLE_WORKSPACE_CLI_TOKEN'', ''ERRAND_API_URL'', ''ERRAND_API_KEY''} \<Longrightarrow> dict_get e' (JStr x) = dict_get e (JStr x)"
  unfolding google_env_def Let_def by (auto simp: get_put_env split: option.splits if_splits)

lemma get_callback_env:
  "callback_env w i e = (e', kept) \<Longrightarrow> x \<notin> {''RESULT_CALLBACK_URL'', ''RESULT_CALLBACK_TOKEN''} \<Longrightarrow>
   dict_get e' (JStr x) = dict_get e (JStr x)"
  unfolding callback_env_def Let_def by (auto simp: get_put_env split: option.splits if_splits)

lemma own_keys:
  "(x, v) \<in> set (own_env w s q m) \<Longrightarrow>
   x \<noteq> ''GH_TOKEN'' \<and> x \<notin> {''GOOGLE_WORKSPACE_CLI_TOKEN'', ''ERRAND_API_URL'', ''ERRAND_API_KEY''} \<and>
   x \<notin> {''RESULT_CALLBACK_URL'', ''RESULT_CALLBACK_TOKEN''}"
  unfolding own_env_def by auto


subsection \<open>The table of servers, name by name\<close>

definition servers_of :: "(string \<times> json) list \<Rightarrow> (string \<times> json) list" where
  "servers_of cfg = (case dict_get cfg ''mcpServers'' of Some (JObj d) \<Rightarrow> d | _ \<Rightarrow> [])"

text \<open>A server of the new table was there, with its entry, or is the new one; those that were there stay.\<close>

definition adds_only :: "(string \<times> json) set \<Rightarrow> (string \<times> json) list \<Rightarrow> (string \<times> json) list \<Rightarrow> bool" where
  "adds_only new cfg cfg' = (\<forall>k. dict_get (servers_of cfg') k = dict_get (servers_of cfg) k \<or>
     (dict_get (servers_of cfg) k = None \<and> (\<exists>v. dict_get (servers_of cfg') k = Some v \<and> (k, v) \<in> new)))"

lemma adds_only_refl: "adds_only {} cfg cfg"
  by (simp add: adds_only_def)

lemma adds_only_trans: "adds_only A x y \<Longrightarrow> adds_only B y z \<Longrightarrow> adds_only (A \<union> B) x z"
  unfolding adds_only_def by (metis UnCI)

lemma adds_only_mono: "adds_only A x y \<Longrightarrow> A \<subseteq> B \<Longrightarrow> adds_only B x y"
  unfolding adds_only_def by blast

lemma put_server_get:
  assumes "put_server overwrite n v cfg = Inr cfg'"
  shows "dict_get (servers_of cfg') k = dict_get (servers_of cfg) k \<or>
    (k = n \<and> dict_get (servers_of cfg') k = Some v \<and> (overwrite \<or> dict_get (servers_of cfg) k = None))"
proof (cases "dict_get cfg ''mcpServers''")
  case None
  then show ?thesis using assms by (auto simp: put_server_def servers_of_def split: if_splits)
next
  case (Some j)
  show ?thesis
  proof (cases j)
    case (JObj d)
    have "n \<in> fst ` set d \<longleftrightarrow> dict_get d n \<noteq> None" by (simp add: map_of_eq_None_iff)
    then show ?thesis using assms Some JObj by (auto simp: put_server_def servers_of_def split: if_splits)
  qed (use assms Some in \<open>auto simp: put_server_def servers_of_def bind_res_eq_Inr split: if_splits\<close>)
qed

lemma put_server_adds: "put_server False n v cfg = Inr cfg' \<Longrightarrow> adds_only {(n, v)} cfg cfg'"
  unfolding adds_only_def using put_server_get[of False n v cfg cfg'] by blast

lemma put_server_if_adds: "put_server_if c False n v cfg = Inr cfg' \<Longrightarrow> adds_only (if c then {(n, v)} else {}) cfg cfg'"
  by (cases c) (auto simp: put_server_if_def put_server_adds adds_only_refl)

lemma put_servers_adds: "put_servers es cfg = Inr cfg' \<Longrightarrow> adds_only (set es) cfg cfg'"
proof (induction es cfg rule: put_servers.induct)
  case (2 n v es cfg)
  then obtain c where "put_server False n v cfg = Inr c" "put_servers es c = Inr cfg'" by (auto simp: bind_res_eq_Inr)
  then show ?case using adds_only_trans[OF put_server_adds "2.IH"] by simp
qed (simp add: adds_only_refl)

definition litellm_new :: "chosen_model \<Rightarrow> json \<Rightarrow> (string \<times> json) set" where
  "litellm_new m enabled = (case iterate enabled of Inr names \<Rightarrow> set (litellm_entries m names) | Inl _ \<Rightarrow> {})"

lemma put_litellm_adds:
  assumes "put_litellm m enabled cfg = Inr cfg'"
  shows "adds_only (if json_truthy enabled \<and> cm_base_url m \<noteq> [] then litellm_new m enabled else {}) cfg cfg'"
proof (cases "json_truthy enabled \<and> cm_base_url m \<noteq> []")
  case True
  define cfg1 where "cfg1 = (if dict_get cfg ''mcpServers'' = None then dict_set ''mcpServers'' (JObj []) cfg else cfg)"
  have start: "adds_only {} cfg cfg1" by (simp add: adds_only_def cfg1_def servers_of_def)
  have "bind_res (json_in ''litellm'' (the (dict_get cfg1 ''mcpServers''))) (\<lambda>there.
      if there then Inr cfg1 else bind_res (iterate enabled) (\<lambda>names. put_servers (litellm_entries m names) cfg1)) = Inr cfg'"
    using assms True unfolding put_litellm_def Let_def cfg1_def[symmetric] by auto
  then have "adds_only (litellm_new m enabled) cfg1 cfg'"
    by (auto simp: bind_res_eq_Inr litellm_new_def split: if_splits
      intro: put_servers_adds adds_only_mono[OF adds_only_refl])
  then show ?thesis using adds_only_trans[OF start] True by auto
qed (use assms in \<open>auto simp: put_litellm_def adds_only_refl\<close>)

text \<open>What the task manager adds: its own server, the memory, the browser and the gateway's servers.\<close>

definition own_servers :: "environment \<Rightarrow> run_settings \<Rightarrow> chosen_model \<Rightarrow> (string \<times> json) set" where
  "own_servers env s m =
     (if env_or env ''ERRAND_MCP_URL'' [] \<noteq> [] \<and> ts_mcp_api_key s \<noteq> [] then {(''errand'', errand_entry env s)} else {}) \<union>
     (if hindsight_url env s \<noteq> [] then {(''hindsight'', hindsight_entry env s)} else {}) \<union>
     (if env_or env ''PLAYWRIGHT_MCP_URL'' [] \<noteq> []
      then {(''playwright'', JObj [(''url'', JStr (env_or env ''PLAYWRIGHT_MCP_URL'' []))])} else {}) \<union>
     (let enabled = (case profile_field p_litellm_mcp_servers s of Some v \<Rightarrow> v | None \<Rightarrow> JArr (ts_litellm s))
      in if json_truthy enabled \<and> cm_base_url m \<noteq> [] then litellm_new m enabled else {})"

lemma put_server_overwrites: "put_server True n v cfg = Inr cfg' \<Longrightarrow> dict_get (servers_of cfg') n = Some v"
  by (auto simp: put_server_def servers_of_def split: option.splits json.splits)

lemma inject_servers_adds:
  assumes "inject_servers env s m creds cfg = Inr (cfg', onedrive)"
  obtains cfg1 where "adds_only (own_servers env s m) cfg cfg1" "onedrive_wanted env s creds = Inr onedrive"
    "put_server_if onedrive True ''onedrive'' (onedrive_entry env creds) cfg1 = Inr cfg'"
proof -
  from assms obtain a b c d where s: "put_server_if (env_or env ''ERRAND_MCP_URL'' [] \<noteq> [] \<and> ts_mcp_api_key s \<noteq> []) False
        ''errand'' (errand_entry env s) cfg = Inr a"
      "put_server_if (hindsight_url env s \<noteq> []) False ''hindsight'' (hindsight_entry env s) a = Inr b"
      "put_server_if (env_or env ''PLAYWRIGHT_MCP_URL'' [] \<noteq> []) False
        ''playwright'' (JObj [(''url'', JStr (env_or env ''PLAYWRIGHT_MCP_URL'' []))]) b = Inr c"
      "put_litellm m (case profile_field p_litellm_mcp_servers s of Some v \<Rightarrow> v | None \<Rightarrow> JArr (ts_litellm s)) c = Inr d"
    and rest: "onedrive_wanted env s creds = Inr onedrive"
      "put_server_if onedrive True ''onedrive'' (onedrive_entry env creds) d = Inr cfg'"
    unfolding inject_servers_def by (elim bind_InrE) auto
  have "adds_only (own_servers env s m) cfg d"
    unfolding own_servers_def Let_def
    by (intro adds_only_trans[OF adds_only_trans[OF adds_only_trans[OF put_server_if_adds[OF s(1)] put_server_if_adds[OF s(2)]]
      put_server_if_adds[OF s(3)]] put_litellm_adds[OF s(4)]])
  then show thesis using rest that by blast
qed

lemma inject_servers_get:
  assumes "inject_servers env s m creds cfg = Inr (cfg', onedrive)"
  shows "(if k = ''onedrive'' \<and> onedrive then dict_get (servers_of cfg') k = Some (onedrive_entry env creds)
     else dict_get (servers_of cfg') k = dict_get (servers_of cfg) k \<or>
       (dict_get (servers_of cfg) k = None \<and> (\<exists>v. dict_get (servers_of cfg') k = Some v \<and> (k, v) \<in> own_servers env s m)))"
proof -
  obtain c where c: "adds_only (own_servers env s m) cfg c"
    "put_server_if onedrive True ''onedrive'' (onedrive_entry env creds) c = Inr cfg'"
    using assms by (elim inject_servers_adds)
  show ?thesis
  proof (cases onedrive)
    case True
    then have put: "put_server True ''onedrive'' (onedrive_entry env creds) c = Inr cfg'" using c(2) by (simp add: put_server_if_def)
    show ?thesis
      using True put_server_get[OF put, of k] put_server_overwrites[OF put] c(1) unfolding adds_only_def by auto
  next
    case False
    then show ?thesis using c unfolding adds_only_def put_server_if_def by auto
  qed
qed

lemma keep_allowed_get:
  "keep_allowed f d = Inr r \<Longrightarrow> dict_get r k = (if json_in k f = Inr True then dict_get d k else None)"
proof (induction f d arbitrary: r rule: keep_allowed.induct)
  case (2 f a v d)
  then obtain b r' where r: "json_in a f = Inr b" "keep_allowed f d = Inr r'" "r = (if b then (a, v) # r' else r')"
    by (auto simp: bind_res_eq_Inr)
  then show ?case using "2.IH"[OF r(2)] by auto
qed simp

lemma filter_mcp_servers_get:
  assumes "filter_mcp_servers allowed cfg = Inr cfg'"
  shows "dict_get (servers_of cfg') k =
    (if (case allowed of None \<Rightarrow> True | Some f \<Rightarrow> py_len f \<noteq> Inr 0 \<and> json_in k f = Inr True) then dict_get (servers_of cfg) k else None)"
proof (cases "allowed = None \<or> dict_get cfg ''mcpServers'' = None")
  case True
  then show ?thesis using assms by (auto simp: filter_mcp_servers_def servers_of_def split: option.splits)
next
  case False
  then obtain f sv where f: "allowed = Some f" "dict_get cfg ''mcpServers'' = Some sv" by auto
  then obtain n where n: "py_len f = Inr n" using assms by (auto simp: filter_mcp_servers_def bind_res_eq_Inr)
  show ?thesis
  proof (cases "n = 0")
    case True
    then show ?thesis using assms f n by (auto simp: filter_mcp_servers_def servers_of_def)
  next
    case nz: False
    then obtain d r where "sv = JObj d" "keep_allowed f d = Inr r" "cfg' = (if r = [] then [] else [(''mcpServers'', JObj r)])"
      using assms f n by (auto simp: filter_mcp_servers_def bind_res_eq_Inr split: json.splits)
    then show ?thesis using f n nz keep_allowed_get[of f d r k] by (auto simp: servers_of_def)
  qed
qed

text \<open>C25. The MCP table a run is given: each server in it is one the administrator configured and the
  profile allows, unchanged, or one the task manager, the gateway or an enabled plugin adds under a name
  no configured server has; OneDrive alone replaces a server of its name, and only when the account is
  connected and the profile allows it.  No allowed server is lost.\<close>

theorem run_servers_are_granted:
  assumes "prepare_task w s cr q = Inr (Prepared p)"
  shows "\<exists>m cfg onedrive.
    choose_model (w_environ w) (w_provider w) (ts_model s) = Inr m \<and>
    dict_get (pp_files p) ''mcp.json'' = Some (json_dumps (substitute_env_vars (mcp_environ w (sc_jira cr)) (JObj cfg))) \<and>
    onedrive_wanted (w_environ w) s (sc_cloud cr) = Inr onedrive \<and>
    (\<forall>k. let configured = dict_get (servers_of (ts_mcp_servers s)) k;
            allowed = (case profile_field p_mcp_servers s of None \<Rightarrow> True | Some f \<Rightarrow> py_len f \<noteq> Inr 0 \<and> json_in k f = Inr True)
        in case dict_get (servers_of cfg) k of
             None \<Rightarrow> configured = None \<or> \<not> allowed
           | Some v \<Rightarrow>
               if k = ''onedrive'' \<and> onedrive then v = onedrive_entry (w_environ w) (sc_cloud cr)
               else if configured \<noteq> None \<and> allowed then configured = Some v
               else (k, v) \<in> own_servers (w_environ w) s m \<union>
                 set (snd (w_plugins w (case profile_value p_enabled_plugins s of None \<Rightarrow> [] | Some us \<Rightarrow> us))))"
proof -
  obtain cfg0 e m where f: "filter_mcp_servers (profile_field p_mcp_servers s) (ts_mcp_servers s) = Inr cfg0"
    and m: "choose_model (w_environ w) (w_provider w) (ts_model s) = Inr m"
    and run: "prepare_run w s cr q cfg0 e m = Inr p"
    using assms by (rule prepared_taskE)
  define plugins where "plugins = snd (w_plugins w (case profile_value p_enabled_plugins s of None \<Rightarrow> [] | Some us \<Rightarrow> us))"
  from run obtain cfg1 onedrive cfg2 where i: "inject_servers (w_environ w) s m (sc_cloud cr) cfg0 = Inr (cfg1, onedrive)"
    and pl: "put_servers plugins cfg1 = Inr cfg2"
    and json: "dict_get (pp_files p) ''mcp.json'' = Some (json_dumps (substitute_env_vars (mcp_environ w (sc_jira cr)) (JObj cfg2)))"
    unfolding plugins_def by (rule prepared_runE) (rule that[unfolded plugins_def])
  have od: "onedrive_wanted (w_environ w) s (sc_cloud cr) = Inr onedrive" using i by (rule inject_servers_adds)
  have "let configured = dict_get (servers_of (ts_mcp_servers s)) k;
            allowed = (case profile_field p_mcp_servers s of None \<Rightarrow> True | Some f \<Rightarrow> py_len f \<noteq> Inr 0 \<and> json_in k f = Inr True)
        in case dict_get (servers_of cfg2) k of
             None \<Rightarrow> configured = None \<or> \<not> allowed
           | Some v \<Rightarrow>
               if k = ''onedrive'' \<and> onedrive then v = onedrive_entry (w_environ w) (sc_cloud cr)
               else if configured \<noteq> None \<and> allowed then configured = Some v
               else (k, v) \<in> own_servers (w_environ w) s m \<union> set plugins" for k
    using put_servers_adds[OF pl, unfolded adds_only_def, rule_format, of k] inject_servers_get[OF i, of k]
      filter_mcp_servers_get[OF f, of k]
    unfolding Let_def by (auto split: option.splits if_splits)
  then show ?thesis using m json od unfolding plugins_def by blast
qed

subsection \<open>A run of a stored profile\<close>

definition sample_surroundings :: surroundings where
  "sample_surroundings =
     \<lparr>w_environ = (\<lambda>n. if n = ''ERRAND_MCP_URL'' then Some ''http://e/mcp'' else None),
      w_provider = (\<lambda>_. Some \<lparr>pv_base_url = ''http://llm/'', pv_api_key = ''k'', pv_source = ''manual''\<rparr>),
      w_mint = (\<lambda>_. None), w_clone = (\<lambda>_ _ _. Inl (AttributeErr ''clone'')), w_directory = (\<lambda>_. None),
      w_system_skills = (\<lambda>_. []), w_plugins = (\<lambda>_. ([], [(''p__s'', JObj [])])),
      w_decrypt = (\<lambda>_. Some [(''OPENAI_MODEL'', JStr ''mine''), (''A'', JStr ''1'')]),
      w_refresh_token = None, w_callback_token = Some ''t'', w_show_uuid = (\<lambda>_. ''u'')\<rparr>"

definition sample_run :: run_settings where
  "sample_run =
     \<lparr>ts_mcp_servers = [(''mcpServers'', JObj [(''wiki'', JObj []), (''jira'', JObj [])])],
      ts_credentials = [JObj [(''key'', JStr ''_TASK_ID''), (''value'', JStr ''x'')], JObj [(''key'', JStr ''B''), (''value'', JStr ''2'')]],
      ts_model = JObj [(''provider_id'', JStr ''p''), (''model'', JStr ''m'')], ts_system_prompt = ''Be brief.'',
      ts_log_level = [], ts_skills = [], ts_mcp_api_key = ''key'', ts_ssh_private_key = [], ts_git_ssh_hosts = [],
      ts_skills_git_repo = None, ts_hindsight_url = [], ts_hindsight_bank_id = [], ts_hindsight_token = [],
      ts_litellm = [JStr ''s''], ts_hot_tools = [], ts_timeout = None, ts_compaction_model = JNull,
      ts_compaction_timeout = None, ts_compaction_max_tokens = None, ts_max_context_tokens = None,
      ts_max_turns = JNull, ts_reasoning_effort = JNull, ts_profile = Some (sample_profile\<lparr>p_mcp_servers := JArr [JStr ''wiki'']\<rparr>)\<rparr>"

definition sample_task :: dequeued_task where
  "sample_task =
     \<lparr>q_task_id = 1, q_title = ''T'', q_description = None, q_category = None, q_profile_id = Some 1,
      q_repeat_interval = None, q_repeat_until = None, q_tag_ids = [], q_created_by = None,
      q_encrypted_env = Some ''c'', q_is_eval = False\<rparr>"

definition sample_credentials :: stored_credentials where
  "sample_credentials = \<lparr>sc_github = [], sc_cloud = [], sc_jira = []\<rparr>"

definition sample_model :: chosen_model where
  "sample_model = \<lparr>cm_base_url = ''http://llm/'', cm_api_key = ''k'', cm_model = JStr ''m'', cm_source = Some ''manual''\<rparr>"

lemma sample_prepared:
  "case prepare_task sample_surroundings sample_run sample_credentials sample_task of
     Inr (Prepared p) \<Rightarrow> dict_get (pp_env p) (JStr ''OPENAI_MODEL'') = Some (JStr ''mine'') \<and>
       dict_get (pp_env p) (JStr ''_TASK_ID'') = Some (JStr ''u'') \<and> dict_get (pp_env p) (JStr ''B'') = Some (JStr ''2'')
   | _ \<Rightarrow> False"
  "choose_model (w_environ sample_surroundings) (w_provider sample_surroundings) (ts_model sample_run) = Inr sample_model"
  "credential_env (ts_credentials sample_run) [] = Inr [(JStr ''_TASK_ID'', JStr ''x''), (JStr ''B'', JStr ''2'')]"
  by code_simp+


theorem run_servers_are_granted_witness:
  "\<exists>p cfg. prepare_task sample_surroundings sample_run sample_credentials sample_task = Inr (Prepared p) \<and>
     dict_get (pp_files p) ''mcp.json'' =
       Some (json_dumps (substitute_env_vars (mcp_environ sample_surroundings []) (JObj cfg))) \<and>
     dict_get (servers_of cfg) ''wiki'' = Some (JObj []) \<and> dict_get (servers_of cfg) ''jira'' = None"
proof -
  obtain p where p: "prepare_task sample_surroundings sample_run sample_credentials sample_task = Inr (Prepared p)"
    using sample_prepared(1) by (auto split: sum.splits preparation.splits)
  have c: "profile_field p_mcp_servers sample_run = Some (JArr [JStr ''wiki''])"
    "dict_get (servers_of (ts_mcp_servers sample_run)) ''wiki'' = Some (JObj [])"
    "onedrive_wanted (w_environ sample_surroundings) sample_run (sc_cloud sample_credentials) = Inr False"
    "sc_jira sample_credentials = []"
    "json_in ''wiki'' (JArr [JStr ''wiki'']) = Inr True" "py_len (JArr [JStr ''wiki'']) \<noteq> Inr 0"
    "json_in ''jira'' (JArr [JStr ''wiki'']) \<noteq> Inr True"
    by code_simp+
  have own: "(''jira'', v) \<notin> own_servers (w_environ sample_surroundings) sample_run sample_model \<union>
      set (snd (w_plugins sample_surroundings us))" for v us
  proof -
    have "litellm_new sample_model (case profile_field p_litellm_mcp_servers sample_run of Some v \<Rightarrow> v | None \<Rightarrow> JArr (ts_litellm sample_run))
        = set [(''litellm_s'', JObj [(''url'', JStr ''http://llm/mcp/s''), (''headers'', bearer_header ''k'')])]"
      by code_simp
    then show ?thesis by (auto simp: own_servers_def Let_def sample_surroundings_def split: if_splits)
  qed
  obtain m cfg od where m: "choose_model (w_environ sample_surroundings) (w_provider sample_surroundings) (ts_model sample_run) = Inr m"
    and f: "dict_get (pp_files p) ''mcp.json'' =
       Some (json_dumps (substitute_env_vars (mcp_environ sample_surroundings (sc_jira sample_credentials)) (JObj cfg)))"
    and od: "onedrive_wanted (w_environ sample_surroundings) sample_run (sc_cloud sample_credentials) = Inr od"
    and all: "\<forall>k. let configured = dict_get (servers_of (ts_mcp_servers sample_run)) k;
            allowed = (case profile_field p_mcp_servers sample_run of None \<Rightarrow> True | Some f \<Rightarrow> py_len f \<noteq> Inr 0 \<and> json_in k f = Inr True)
        in case dict_get (servers_of cfg) k of
             None \<Rightarrow> configured = None \<or> \<not> allowed
           | Some v \<Rightarrow>
               if k = ''onedrive'' \<and> od then v = onedrive_entry (w_environ sample_surroundings) (sc_cloud sample_credentials)
               else if configured \<noteq> None \<and> allowed then configured = Some v
               else (k, v) \<in> own_servers (w_environ sample_surroundings) sample_run m \<union>
                 set (snd (w_plugins sample_surroundings (case profile_value p_enabled_plugins sample_run of None \<Rightarrow> [] | Some us \<Rightarrow> us)))"
    using run_servers_are_granted[OF p] by blast
  have "m = sample_model" "od = False" using m od c(3) sample_prepared(2) by simp_all
  then have "dict_get (servers_of cfg) ''wiki'' = Some (JObj [])" "dict_get (servers_of cfg) ''jira'' = None"
    using all[rule_format, of "''wiki''"] all[rule_format, of "''jira''"] c own
    unfolding Let_def by (auto split: option.splits)
  then show ?thesis using p f c(4) by metis
qed

end
