(* ===== verification/Webhooks.thy ===== *)
theory Webhooks
  imports Triggers Task_Preparation
begin

text \<open>
  Webhooks from outside: the endpoint \<open>/webhooks/{source}\<close> of \<open>errand/webhook_receiver.py\<close> with its
  cache of seen events, the relay of the cloud service (\<open>errand/cloud_dispatch.py\<close>) and the handlers of
  \<open>errand/platforms/jira/handler.py\<close> and \<open>errand/platforms/github/handler.py\<close>, which make tasks.
  A body stands for its decoded text; HMAC-SHA256, decryption (\<open>None\<close> when it fails, the secret
  otherwise), GitHub's API and the text of the prompt are parameters.
\<close>

subsection \<open>Signatures\<close>

type_synonym header_table = "(string \<times> string) list"

definition header :: "header_table \<Rightarrow> string \<Rightarrow> string option" where
  "header hs k = map_option snd (find (\<lambda>h. py_lower (fst h) = py_lower k) hs)"

definition remove_prefix :: "string \<Rightarrow> string \<Rightarrow> string" where
  "remove_prefix p s = (if starts_with s p then drop (length p) s else s)"

text \<open>\<open>compare_digest\<close> refuses a text that is not ASCII.\<close>

definition verify_hmac :: "(string \<Rightarrow> string \<Rightarrow> string) \<Rightarrow> string \<Rightarrow> string \<Rightarrow> string \<Rightarrow> py_error + bool" where
  "verify_hmac mac secret body signature =
     (let sig = remove_prefix ''sha256='' signature in
      if list_ex (\<lambda>c. char_code c \<ge> 128) sig then Inl (TypeErr ''comparing strings with non-ASCII characters is not supported'')
      else Inr (mac secret body = sig))"

record hook_world =
  h_mac :: "string \<Rightarrow> string \<Rightarrow> string"
  h_decrypt :: "string \<Rightarrow> string option"

fun find_matching_trigger ::
    "hook_world \<Rightarrow> string \<Rightarrow> string \<Rightarrow> string \<Rightarrow> trigger list \<Rightarrow> py_error + trigger option" where
  "find_matching_trigger h source body signature [] = Inr None"
| "find_matching_trigger h source body signature (t # ts) =
     (let next = find_matching_trigger h source body signature ts in
      if w_source t \<noteq> source \<or> \<not> w_enabled t \<or> \<not> truthy (w_secret t) then next
      else case h_decrypt h (the (w_secret t)) of
        None \<Rightarrow> next
      | Some secret \<Rightarrow> bind_res (verify_hmac (h_mac h) secret body signature) (\<lambda>ok. if ok then Inr (Some t) else next))"

subsection \<open>Events seen before\<close>

definition DEDUP_TTL :: int where "DEDUP_TTL = 300"

type_synonym seen_events = "(string \<times> time) list"

definition cleanup_dedup_cache :: "time \<Rightarrow> seen_events \<Rightarrow> seen_events" where
  "cleanup_dedup_cache now c = filter (\<lambda>(_, v). \<not> now - v > seconds DEDUP_TTL) c"

definition is_duplicate :: "time \<Rightarrow> string \<Rightarrow> seen_events \<Rightarrow> bool \<times> seen_events" where
  "is_duplicate now e c0 =
     (let c = cleanup_dedup_cache now c0 in
      if dict_get c e \<noteq> None then (True, c) else (False, dict_set e now c))"

subsection \<open>The endpoint\<close>

text \<open>The header of the signature and of the event's identifier.\<close>

definition SOURCE_HEADERS :: "(string \<times> string \<times> string) list" where
  "SOURCE_HEADERS =
     [(''jira'', ''X-Hub-Signature'', ''X-Atlassian-Webhook-Identifier''),
      (''github'', ''X-Hub-Signature-256'', ''X-GitHub-Delivery'')]"

datatype hook_response = Duplicate | Accepted trigger

record hook_request =
  hr_source :: string
  hr_headers :: header_table
  hr_body :: string

definition event_id_of :: "hook_request \<Rightarrow> string option" where
  "event_id_of r = (case map_of SOURCE_HEADERS (hr_source r) of None \<Rightarrow> None | Some (_, e) \<Rightarrow> header (hr_headers r) e)"

definition signature_of :: "hook_request \<Rightarrow> string option" where
  "signature_of r =
     header (hr_headers r) (case map_of SOURCE_HEADERS (hr_source r) of None \<Rightarrow> ''X-Hub-Signature'' | Some (s, _) \<Rightarrow> s)"

definition no_trigger :: py_error where "no_trigger = Http 401 ''No matching trigger''"

definition receive_webhook ::
    "hook_world \<Rightarrow> trigger list \<Rightarrow> time \<Rightarrow> hook_request \<Rightarrow> seen_events \<Rightarrow> (py_error + hook_response) \<times> seen_events" where
  "receive_webhook h ts now r seen =
     (if \<not> truthy (signature_of r) then (Inl no_trigger, seen)
      else if hr_body r = [] then (Inl (Http 400 ''Empty request body''), seen)
      else
        (case (if truthy (event_id_of r) then is_duplicate now (the (event_id_of r)) seen else (False, seen)) of
           (True, seen') \<Rightarrow> (Inr Duplicate, seen')
         | (False, seen') \<Rightarrow>
             (case find_matching_trigger h (hr_source r) (hr_body r) (the (signature_of r)) ts of
                Inl e \<Rightarrow> (Inl e, seen')
              | Inr None \<Rightarrow> (Inl no_trigger, seen')
              | Inr (Some t) \<Rightarrow> (Inr (Accepted t), seen'))))"

subsection \<open>The relay of the cloud service\<close>

text \<open>\<open>headers.get(lower, headers.get(upper, ""))\<close>, by exact name.\<close>

definition relay_signature :: "header_table \<Rightarrow> string \<Rightarrow> string \<Rightarrow> string" where
  "relay_signature hs lower upper =
     (case map_of hs lower of Some s \<Rightarrow> s | None \<Rightarrow> (case map_of hs upper of Some s \<Rightarrow> s | None \<Rightarrow> []))"

definition relay_verified :: "hook_world \<Rightarrow> trigger \<Rightarrow> string \<Rightarrow> string \<Rightarrow> bool" where
  "relay_verified h t body signature =
     (if truthy (w_secret t) then
        signature \<noteq> [] \<and>
        (case h_decrypt h (the (w_secret t)) of
           None \<Rightarrow> False
         | Some secret \<Rightarrow> verify_hmac (h_mac h) secret body signature = Inr True)
      else True)"

definition relay_trigger :: "string option \<Rightarrow> trigger list \<Rightarrow> trigger option" where
  "relay_trigger trigger_id ts =
     (if \<not> truthy trigger_id then None
      else case parse_uuid (the trigger_id) of None \<Rightarrow> None | Some i \<Rightarrow> trigger_by_id i ts)"

text \<open>The trigger whose Jira, or GitHub, handler a relayed message reaches; \<open>None\<close> when it is discarded.\<close>

definition dispatch_jira_webhook ::
    "hook_world \<Rightarrow> trigger list \<Rightarrow> string \<Rightarrow> header_table \<Rightarrow> string option \<Rightarrow> trigger option" where
  "dispatch_jira_webhook h ts body hs trigger_id =
     (case relay_trigger trigger_id ts of
        None \<Rightarrow> None
      | Some t \<Rightarrow>
          if w_enabled t \<and> relay_verified h t body (relay_signature hs ''x-hub-signature'' ''X-Hub-Signature'')
          then Some t else None)"

definition dispatch_github_webhook ::
    "hook_world \<Rightarrow> trigger list \<Rightarrow> string \<Rightarrow> header_table \<Rightarrow> string option \<Rightarrow> trigger option" where
  "dispatch_github_webhook h ts body hs trigger_id =
     (case relay_trigger trigger_id ts of
        None \<Rightarrow> None
      | Some t \<Rightarrow>
          if w_source t = ''github'' \<and> w_enabled t \<and>
             relay_verified h t body (relay_signature hs ''x-hub-signature-256'' ''X-Hub-Signature-256'')
          then Some t else None)"

subsection \<open>Reading a payload\<close>

text \<open>\<open>d.get(k, default)\<close> of a decoded value, and \<open>(v or {})\<close>.\<close>

definition jget :: "json \<Rightarrow> string \<Rightarrow> json \<Rightarrow> py_error + json" where
  "jget d k dflt =
     (case d of JObj m \<Rightarrow> Inr (case dict_get m k of None \<Rightarrow> dflt | Some v \<Rightarrow> v) | _ \<Rightarrow> Inl (AttributeErr ''get''))"

definition or_empty :: "json \<Rightarrow> json" where "or_empty v = (if json_truthy v then v else JObj [])"

definition sub_field :: "json \<Rightarrow> string \<Rightarrow> string \<Rightarrow> json \<Rightarrow> py_error + json" where
  "sub_field d k sub dflt = bind_res (jget d k JNull) (\<lambda>v. jget (or_empty v) sub dflt)"

record jira_payload =
  jp_event :: json
  jp_issue_key :: json
  jp_issue_self :: json
  jp_summary :: json
  jp_description :: json
  jp_issue_type :: json
  jp_labels :: json
  jp_project_key :: json
  jp_parent_key :: json
  jp_reporter :: json
  jp_priority :: json
  jp_changelog :: json

definition jira_fields :: "json \<Rightarrow> json \<Rightarrow> json \<Rightarrow> json \<Rightarrow> py_error + jira_payload" where
  "jira_fields data event issue fs =
     bind_res (jget issue ''key'' (JStr [])) (\<lambda>key.
     bind_res (jget issue ''self'' (JStr [])) (\<lambda>self.
     bind_res (jget fs ''summary'' (JStr [])) (\<lambda>summary.
     bind_res (jget fs ''description'' JNull) (\<lambda>description.
     bind_res (sub_field fs ''issuetype'' ''name'' (JStr [])) (\<lambda>issue_type.
     bind_res (jget fs ''labels'' (JArr [])) (\<lambda>labels.
     bind_res (sub_field fs ''project'' ''key'' (JStr [])) (\<lambda>project.
     bind_res (sub_field fs ''parent'' ''key'' JNull) (\<lambda>parent.
     bind_res (sub_field fs ''reporter'' ''displayName'' (JStr [])) (\<lambda>reporter.
     bind_res (sub_field fs ''priority'' ''name'' (JStr [])) (\<lambda>priority.
     bind_res (jget data ''changelog'' JNull) (\<lambda>changelog.
       Inr \<lparr>jp_event = event, jp_issue_key = key, jp_issue_self = self, jp_summary = summary, jp_description = description,
         jp_issue_type = issue_type, jp_labels = labels, jp_project_key = project, jp_parent_key = parent,
         jp_reporter = reporter, jp_priority = priority, jp_changelog = changelog\<rparr>)))))))))))"

definition parse_jira_payload :: "string \<Rightarrow> py_error + jira_payload option" where
  "parse_jira_payload body =
     (case json_loads body of
        None \<Rightarrow> Inr None
      | Some data \<Rightarrow>
          bind_res (jget data ''webhookEvent'' JNull) (\<lambda>event.
          bind_res (jget data ''issue'' JNull) (\<lambda>issue.
            if \<not> json_truthy event \<or> \<not> json_truthy issue then Inr None
            else bind_res (jget issue ''fields'' JNull) (\<lambda>fs.
              if \<not> json_truthy fs then Inr None
              else bind_res (jira_fields data event issue fs) (\<lambda>p. Inr (Some p))))))"

subsection \<open>Filters\<close>

text \<open>The list of strings a filter of a stored trigger is, empty when it is absent.\<close>

definition filter_list :: "trigger \<Rightarrow> string \<Rightarrow> string list" where
  "filter_list t k = (case dict_get (w_filters t) k of None \<Rightarrow> [] | Some v \<Rightarrow> strings_of v)"

definition lower_of :: "json \<Rightarrow> py_error + string" where
  "lower_of v = (case v of JStr s \<Rightarrow> Inr (py_lower s) | _ \<Rightarrow> Inl (AttributeErr ''lower''))"

definition any_label :: "json \<Rightarrow> string list \<Rightarrow> py_error + bool" where
  "any_label labels wanted = bind_res (iterate labels) (\<lambda>xs. Inr (list_ex (\<lambda>x. x \<in> JStr ` set wanted) xs))"

definition label_words :: "json \<Rightarrow> py_error + string list" where
  "label_words v =
     (if \<not> json_truthy v then Inr [] else case v of JStr s \<Rightarrow> Inr (words s) | _ \<Rightarrow> Inl (AttributeErr ''split''))"

fun label_added_in :: "json list \<Rightarrow> string list \<Rightarrow> py_error + bool" where
  "label_added_in [] wanted = Inr False"
| "label_added_in (item # items) wanted =
     bind_res (jget item ''field'' JNull) (\<lambda>f.
       if f \<noteq> JStr ''labels'' then label_added_in items wanted
       else bind_res (jget item ''toString'' (JStr [])) (\<lambda>a. bind_res (jget item ''fromString'' (JStr [])) (\<lambda>b.
            bind_res (label_words a) (\<lambda>now. bind_res (label_words b) (\<lambda>before.
              if list_ex (\<lambda>w. w \<in> set now \<and> w \<notin> set before) wanted then Inr True else label_added_in items wanted)))))"

definition label_just_added :: "jira_payload \<Rightarrow> string list \<Rightarrow> py_error + bool" where
  "label_just_added p wanted =
     (if \<not> json_truthy (jp_changelog p) then Inr False
      else bind_res (jget (jp_changelog p) ''items'' (JArr [])) (\<lambda>v. bind_res (iterate v) (\<lambda>items. label_added_in items wanted)))"

definition type_passes :: "trigger \<Rightarrow> jira_payload \<Rightarrow> py_error + bool" where
  "type_passes t p =
     (if filter_list t ''issue_types'' = [] then Inr True
      else bind_res (lower_of (jp_issue_type p)) (\<lambda>x. Inr (x \<in> py_lower ` set (filter_list t ''issue_types''))))"

definition labels_pass :: "trigger \<Rightarrow> jira_payload \<Rightarrow> py_error + bool" where
  "labels_pass t p =
     (let wanted = filter_list t ''labels'' in
      if wanted = [] then Inr True
      else if jp_event p = JStr ''jira:issue_updated'' then
        bind_res (any_label (jp_labels p) wanted) (\<lambda>here. bind_res (label_just_added p wanted) (\<lambda>added. Inr (here \<or> added)))
      else any_label (jp_labels p) wanted)"

text \<open>Each filter in turn; the first that does not pass ends the evaluation.\<close>

definition jira_evaluate_filters :: "trigger \<Rightarrow> jira_payload \<Rightarrow> py_error + bool" where
  "jira_evaluate_filters t p =
     (if filter_list t ''event_types'' \<noteq> [] \<and> jp_event p \<notin> JStr ` set (filter_list t ''event_types'') then Inr False
      else bind_res (type_passes t p) (\<lambda>a. if \<not> a then Inr False
      else bind_res (labels_pass t p) (\<lambda>b. if \<not> b then Inr False
      else Inr (filter_list t ''projects'' = [] \<or> jp_project_key p \<in> JStr ` set (filter_list t ''projects'')))))"

definition build_description :: "jira_payload \<Rightarrow> string" where
  "build_description p =
     (let desc = (if \<not> json_truthy (jp_description p) then []
        else [case jp_description p of JObj _ \<Rightarrow> ''[Jira issue description in ADF format]'' | v \<Rightarrow> py_str v]);
        line = (\<lambda>name v. if json_truthy v then [name @ py_str v] else []);
        meta = line ''Reporter: '' (jp_reporter p) @ line ''Priority: '' (jp_priority p) @ line ''Parent: '' (jp_parent_key p)
      in join [newline, newline]
           (desc @ (if meta = [] then [] else [newline # ''---'' @ [newline] @ join [newline] meta])))"

subsection \<open>References to the issues outside\<close>

record ext_ref =
  x_task_id :: nat
  x_trigger_id :: "nat option"
  x_source :: string
  x_external_id :: string
  x_external_url :: string
  x_parent_id :: "string option"
  x_metadata :: "(string \<times> json) list"

record ext_db =
  xd_board :: db
  xd_refs :: "ext_ref list"

definition ref_exists :: "string \<Rightarrow> string \<Rightarrow> ext_db \<Rightarrow> bool" where
  "ref_exists source external_id x = list_ex (\<lambda>r. x_source r = source \<and> x_external_id r = external_id) (xd_refs x)"

text \<open>A row of \<open>tasks\<close> with the defaults of the table, the position among them.\<close>

definition default_task :: "time \<Rightarrow> nat \<Rightarrow> string \<Rightarrow> string \<Rightarrow> nat option \<Rightarrow> string \<Rightarrow> task" where
  "default_task now i title description profile created_by =
     \<lparr>t_id = i, t_title = title, t_description = Some description, t_status = Pending, t_created_at = now,
      t_updated_at = now, t_category = Some ''immediate'', t_execute_at = None, t_repeat_interval = None,
      t_repeat_until = None, t_position = 0, t_output = None, t_runner_logs = None, t_questions = None,
      t_retry_count = 0, t_heartbeat_at = None, t_profile_id = profile, t_created_by = Some created_by,
      t_updated_by = None, t_encrypted_env = None, t_is_eval = False\<rparr>"

text \<open>The tag, the task, their link and the reference, in one transaction.\<close>

definition store_external ::
    "string \<Rightarrow> task \<Rightarrow> ext_ref \<Rightarrow> ext_db \<Rightarrow> ext_db" where
  "store_external tag t r x =
     (case find_or_create_tag (xd_board x) tag of
        (db, g) \<Rightarrow>
          \<lparr>xd_board = (insert_task t db)\<lparr>task_tags := task_tags db @ [(t_id t, g)]\<rparr>, xd_refs = xd_refs x @ [r]\<rparr>)"

subsection \<open>The handlers\<close>

text \<open>What a handler made of a message: nothing, or the reference of the task it stored.\<close>

definition handle_jira_webhook ::
    "(string \<times> string) list option \<Rightarrow> time \<Rightarrow> trigger \<Rightarrow> string \<Rightarrow> ext_db \<Rightarrow> py_error + (ext_ref option \<times> ext_db)" where
  "handle_jira_webhook creds now t body x =
     bind_res (parse_jira_payload body) (\<lambda>payload.
       case payload of
         None \<Rightarrow> Inr (None, x)
       | Some p \<Rightarrow>
           bind_res (jira_evaluate_filters t p) (\<lambda>pass.
             if \<not> pass then Inr (None, x)
             else bind_res (text_column (jp_issue_key p)) (\<lambda>key.
               if ref_exists ''jira'' key x then Inr (None, x)
               else
                 (let cred = (\<lambda>k. case creds of None \<Rightarrow> [] | Some c \<Rightarrow> (case dict_get c k of None \<Rightarrow> [] | Some v \<Rightarrow> v));
                      site = rstrip_char CHR ''/'' (cred ''site_url'');
                      i = fresh_id (ids (xd_board x));
                      task = default_task now i (key @ '': '' @ py_str (jp_summary p)) (build_description p)
                        (w_profile_id t) (''jira:'' @ key)
                  in bind_res (if site = [] then text_column (jp_issue_self p) else Inr (site @ ''/browse/'' @ key)) (\<lambda>url.
                     bind_res (null_text (jp_parent_key p)) (\<lambda>parent.
                       (let r = \<lparr>x_task_id = i, x_trigger_id = Some (w_id t), x_source = ''jira'', x_external_id = key,
                          x_external_url = url, x_parent_id = parent,
                          x_metadata = (''project_key'', jp_project_key p) #
                            (if cred ''cloud_id'' = [] then [] else [(''cloud_id'', JStr (cred ''cloud_id''))])\<rparr>
                        in Inr (Some r, store_external ''jira'' task r x))))))))"

record github_payload =
  gp_action :: json
  gp_item_node_id :: json
  gp_project_node_id :: json
  gp_content_node_id :: json
  gp_content_type :: json
  gp_field_name :: json
  gp_to_name :: json

definition parse_github_payload :: "string \<Rightarrow> py_error + github_payload option" where
  "parse_github_payload body =
     (case json_loads body of
        None \<Rightarrow> Inr None
      | Some data \<Rightarrow>
          bind_res (jget data ''action'' JNull) (\<lambda>action.
          bind_res (jget data ''projects_v2_item'' JNull) (\<lambda>item.
            if \<not> json_truthy action \<or> \<not> json_truthy item then Inr None
            else
              bind_res (jget data ''changes'' (JObj [])) (\<lambda>changes.
              bind_res (jget changes ''field_value'' (JObj [])) (\<lambda>fv.
              bind_res (jget item ''node_id'' (JStr [])) (\<lambda>item_id.
              bind_res (jget item ''project_node_id'' (JStr [])) (\<lambda>project.
              bind_res (jget item ''content_node_id'' (JStr [])) (\<lambda>content.
              bind_res (jget item ''content_type'' (JStr [])) (\<lambda>ctype.
              bind_res (jget fv ''field_name'' (JStr [])) (\<lambda>field.
              bind_res (sub_field fv ''from'' ''name'' (JStr [])) (\<lambda>_.
              bind_res (sub_field fv ''to'' ''name'' (JStr [])) (\<lambda>to_name.
              bind_res (sub_field data ''organization'' ''login'' (JStr [])) (\<lambda>_.
              bind_res (sub_field data ''sender'' ''login'' (JStr [])) (\<lambda>_.
                Inr (Some \<lparr>gp_action = action, gp_item_node_id = item_id, gp_project_node_id = project,
                  gp_content_node_id = content, gp_content_type = ctype, gp_field_name = field,
                  gp_to_name = to_name\<rparr>)))))))))))))))"

definition github_evaluate_filters :: "trigger \<Rightarrow> github_payload \<Rightarrow> py_error + bool" where
  "github_evaluate_filters t p =
     (let f = w_filters t; get = (\<lambda>k. case dict_get f k of None \<Rightarrow> JStr [] | Some v \<Rightarrow> v) in
      if gp_action p \<noteq> JStr ''edited'' \<or> gp_field_name p \<noteq> JStr ''Status'' then Inr False
      else if gp_project_node_id p \<noteq> get ''project_node_id'' then Inr False
      else bind_res (lower_of (gp_to_name p)) (\<lambda>a. bind_res (lower_of (get ''trigger_column'')) (\<lambda>b.
        if a \<noteq> b then Inr False
        else Inr (gp_content_type p \<in>
          JStr ` set (case dict_get f ''content_types'' of None \<Rightarrow> [''Issue''] | Some v \<Rightarrow> strings_of v)))))"

record github_issue =
  gi_owner :: string
  gi_repo :: string
  gi_number :: int
  gi_title :: string
  gi_url :: string
  gi_labels :: "string list"

text \<open>\<open>template\<close> is the long text of the prompt with an issue, a prefix of branches and an identifier
  filled in.\<close>

definition branch_prefix :: "string list \<Rightarrow> string" where
  "branch_prefix labels =
     (let lowered = py_lower ` set labels in
      if ''bug'' \<in> lowered then ''bug/'' else if ''enhancement'' \<in> lowered then ''feature/'' else ''patch/'')"

definition render_prompt ::
    "(github_issue \<Rightarrow> string \<Rightarrow> string \<Rightarrow> string) \<Rightarrow> github_issue \<Rightarrow> string \<Rightarrow> string option \<Rightarrow> string" where
  "render_prompt template g errand_task_id task_prompt =
     template g (branch_prefix (gi_labels g)) errand_task_id @
     (if truthy task_prompt then newline # ''## Additional Instructions'' @ [newline, newline] @ the task_prompt @ [newline]
      else [])"

text \<open>\<open>resolve\<close> asks GitHub for the issue of a node, also failing without credentials.\<close>

definition handle_github_webhook ::
    "(json \<Rightarrow> github_issue option) \<Rightarrow> (github_issue \<Rightarrow> string \<Rightarrow> string \<Rightarrow> string) \<Rightarrow> (nat \<Rightarrow> string) \<Rightarrow> time \<Rightarrow> trigger \<Rightarrow>
     string \<Rightarrow> ext_db \<Rightarrow> py_error + (ext_ref option \<times> ext_db)" where
  "handle_github_webhook resolve template show_uuid now t body x =
     bind_res (parse_github_payload body) (\<lambda>payload.
       case payload of
         None \<Rightarrow> Inr (None, x)
       | Some p \<Rightarrow>
           bind_res (github_evaluate_filters t p) (\<lambda>pass.
             if \<not> pass then Inr (None, x)
             else case resolve (gp_content_node_id p) of
               None \<Rightarrow> Inr (None, x)
             | Some g \<Rightarrow>
                 (let name = gi_owner g @ ''/'' @ gi_repo g @ ''#'' @ show_int (gi_number g) in
                  if ref_exists ''github'' name x then Inr (None, x)
                  else
                    (let i = fresh_id (ids (xd_board x));
                         description = replace_str ''<pending>'' (show_uuid i) (render_prompt template g ''<pending>'' (w_task_prompt t));
                         task = default_task now i (name @ '': '' @ gi_title g) description (w_profile_id t) (''github:'' @ name);
                         r = \<lparr>x_task_id = i, x_trigger_id = Some (w_id t), x_source = ''github'', x_external_id = name,
                           x_external_url = gi_url g, x_parent_id = None,
                           x_metadata = [(''project_node_id'', gp_project_node_id p), (''item_node_id'', gp_item_node_id p),
                             (''content_node_id'', gp_content_node_id p), (''repo_owner'', JStr (gi_owner g)),
                             (''repo_name'', JStr (gi_repo g)), (''issue_labels'', JArr (map JStr (gi_labels g)))]\<rparr>
                     in Inr (Some r, store_external ''github'' task r x)))))"

subsection \<open>What is let in\<close>

lemma find_matching_trigger_sound:
  "find_matching_trigger h source body signature ts = Inr (Some t) \<Longrightarrow>
   t \<in> set ts \<and> w_source t = source \<and> w_enabled t \<and>
   (\<exists>secret. truthy (w_secret t) \<and> h_decrypt h (the (w_secret t)) = Some secret \<and>
     h_mac h secret body = remove_prefix ''sha256='' signature)"
  by (induction ts) (auto simp: Let_def bind_res_eq_Inr verify_hmac_def split: if_splits option.splits)

definition signed_by :: "hook_world \<Rightarrow> trigger \<Rightarrow> string \<Rightarrow> string \<Rightarrow> bool" where
  "signed_by h t body signature \<longleftrightarrow>
     (case h_decrypt h (the (w_secret t)) of None \<Rightarrow> False | Some secret \<Rightarrow> h_mac h secret body = remove_prefix ''sha256='' signature)"

lemma relay_verified_signed: "relay_verified h t body signature \<Longrightarrow> truthy (w_secret t) \<Longrightarrow> signed_by h t body signature"
  by (auto simp: relay_verified_def signed_by_def verify_hmac_def Let_def split: option.splits if_splits)

lemma relay_trigger_in: "relay_trigger i ts = Some t \<Longrightarrow> t \<in> set ts"
  by (auto simp: relay_trigger_def trigger_by_id_def find_Some_iff split: if_splits option.splits)


subsection \<open>An event runs once\<close>

lemma distinct_cleanup: "distinct (map fst c) \<Longrightarrow> distinct (map fst (cleanup_dedup_cache now c))"
  by (simp add: cleanup_dedup_cache_def distinct_map_filter)

lemma map_of_cleanup:
  "distinct (map fst c) \<Longrightarrow> dict_get (cleanup_dedup_cache now c) e =
     (case dict_get c e of None \<Rightarrow> None | Some v \<Rightarrow> if now - v > seconds DEDUP_TTL then None else Some v)"
proof (induction c)
  case (Cons p c)
  obtain k v where p: "p = (k, v)" by (cases p)
  have "dict_get c k = None" using Cons.prems by (auto simp: p map_of_eq_None_iff)
  moreover have "dict_get (cleanup_dedup_cache now c) e = (case dict_get c e of None \<Rightarrow> None | Some v \<Rightarrow> if now - v > seconds DEDUP_TTL then None else Some v)"
    using Cons by simp
  ultimately show ?case by (auto simp: p cleanup_dedup_cache_def split: option.splits)
qed (simp add: cleanup_dedup_cache_def)

text \<open>What a request leaves of the cache: nothing changes, or old entries go and its own event comes.\<close>

lemma hook_cases:
  assumes "receive_webhook h ts now r seen = (res, seen')"
  obtains (same) "seen' = seen" "\<not> (truthy (event_id_of r) \<and> (\<exists>t. res = Inr (Accepted t)))"
  | (dup) "seen' = cleanup_dedup_cache now seen" "res = Inr Duplicate" "truthy (event_id_of r)"
      "dict_get (cleanup_dedup_cache now seen) (the (event_id_of r)) \<noteq> None"
  | (fresh) "seen' = dict_set (the (event_id_of r)) now (cleanup_dedup_cache now seen)" "truthy (event_id_of r)"
      "dict_get (cleanup_dedup_cache now seen) (the (event_id_of r)) = None"
proof (cases "truthy (signature_of r) \<and> hr_body r \<noteq> [] \<and> truthy (event_id_of r)")
  case True
  then show ?thesis using assms dup fresh
    by (auto simp: receive_webhook_def is_duplicate_def Let_def split: if_splits sum.splits option.splits)
next
  case False
  then show ?thesis using assms same
    by (auto simp: receive_webhook_def split: if_splits sum.splits option.splits)
qed

lemma receive_distinct:
  "receive_webhook h ts now r seen = (res, seen') \<Longrightarrow> distinct (map fst seen) \<Longrightarrow> distinct (map fst seen')"
  by (erule hook_cases) (auto simp: distinct_cleanup distinct_dict_set)

text \<open>Requests one after the other, each with the time and the triggers it meets.\<close>

fun receive_all ::
    "hook_world \<Rightarrow> (time \<times> trigger list \<times> hook_request) list \<Rightarrow> seen_events \<Rightarrow>
     (time \<times> string option \<times> (py_error + hook_response)) list" where
  "receive_all h [] seen = []"
| "receive_all h ((now, ts, r) # rs) seen =
     (case receive_webhook h ts now r seen of (res, seen') \<Rightarrow> (now, event_id_of r, res) # receive_all h rs seen')"

definition accepted :: "py_error + hook_response \<Rightarrow> bool" where
  "accepted res = (case res of Inr (Accepted _) \<Rightarrow> True | _ \<Rightarrow> False)"

lemma receive_all_times: "(n, e, res) \<in> set (receive_all h rs seen) \<Longrightarrow> n \<in> fst ` set rs"
  by (induction h rs seen rule: receive_all.induct) (auto split: prod.splits)

lemma seen_event_waits:
  assumes "sorted (map fst rs)" "distinct (map fst seen)" "dict_get seen e = Some v"
    "(n, Some e, res) \<in> set (receive_all h rs seen)" "accepted res" "e \<noteq> []"
  shows "n - v > seconds DEDUP_TTL"
  using assms
proof (induction h rs seen rule: receive_all.induct)
  case (2 h now ts r rs seen)
  obtain res' seen' where rw: "receive_webhook h ts now r seen = (res', seen')" by force
  have late: "n \<ge> now" if "(n, Some e, res) \<in> set (receive_all h rs seen')"
    using receive_all_times[OF that] 2(2) by auto
  have d: "distinct (map fst seen')" using receive_distinct[OF rw 2(3)] .
  have s: "sorted (map fst rs)" using 2(2) by simp
  note clean = map_of_cleanup[OF 2(3), of now]
  have later: "n - v > seconds DEDUP_TTL"
    if m: "(n, Some e, res) \<in> set (receive_all h rs seen')" and old: "dict_get seen' e = Some v \<or> now - v > seconds DEDUP_TTL"
    using old
  proof
    assume "dict_get seen' e = Some v"
    then show ?thesis using "2.IH"[OF rw[symmetric] s d _ m 2(6,7)] by simp
  next
    assume "now - v > seconds DEDUP_TTL"
    then show ?thesis using late[OF m] by simp
  qed
  have mem: "(n, Some e, res) = (now, event_id_of r, res') \<or> (n, Some e, res) \<in> set (receive_all h rs seen')"
    using 2(5) rw by auto
  from rw show ?case
  proof (cases rule: hook_cases)
    case same
    then show ?thesis using mem later 2(4,6,7) by (auto simp: accepted_def truthy_def split: sum.splits hook_response.splits option.splits)
  next
    case dup
    then show ?thesis using mem later 2(4,6) clean[of e] by (auto simp: accepted_def split: if_splits)
  next
    case fresh
    then show ?thesis using mem later 2(4) clean[of e] by (cases "e = the (event_id_of r)") (auto dest!: sym[of "Some e"] split: if_splits)
  qed
qed simp

text \<open>C31. An event runs once: however requests with it arrive, with whatever triggers and signatures, two
  that are accepted and name the same event lie more than five minutes apart.\<close>

theorem events_run_once:
  assumes "sorted (map fst rs)"
  shows "sorted_wrt (\<lambda>(n, e, res) (n', e', res').
    if truthy e \<and> e = e' \<and> accepted res \<and> accepted res' then n' - n > seconds 300 else True) (receive_all h rs [])"
proof -
  have "sorted (map fst rs) \<Longrightarrow> distinct (map fst seen) \<Longrightarrow> sorted_wrt (\<lambda>(n, e, res) (n', e', res').
    if truthy e \<and> e = e' \<and> accepted res \<and> accepted res' then n' - n > seconds 300 else True) (receive_all h rs seen)" for seen
  proof (induction h rs seen rule: receive_all.induct)
    case (2 h now ts r rs seen)
    obtain res' seen' where rw: "receive_webhook h ts now r seen = (res', seen')" by force
    have d: "distinct (map fst seen')" using receive_distinct[OF rw 2(3)] .
    have "n - now > seconds 300"
      if m: "(n, e, res) \<in> set (receive_all h rs seen')" and e: "truthy e" "event_id_of r = e" "accepted res'" "accepted res" for n e res
    proof -
      obtain k where k: "e = Some k" "k \<noteq> []" using e(1) by (auto simp: truthy_def split: option.splits)
      have "dict_get seen' k = Some now"
        using rw by (cases rule: hook_cases) (use e k in \<open>auto simp: accepted_def split: sum.splits hook_response.splits\<close>)
      then show ?thesis using seen_event_waits[of rs seen' k now n res h] m d 2(2) e(4) k by (simp add: DEDUP_TTL_def)
    qed
    then show ?case using "2.IH"[OF rw[symmetric] _ d] 2(2) rw by fastforce
  qed simp
  then show ?thesis using assms by simp
qed

definition sample_world :: hook_world where
  "sample_world = \<lparr>h_mac = (\<lambda>k b. k @ b), h_decrypt = (\<lambda>s. Some s)\<rparr>"

definition sample_trigger :: trigger where
  "sample_trigger = \<lparr>w_id = 1, w_name = ''t'', w_enabled = True, w_source = ''jira'', w_profile_id = None, w_filters = [],
     w_actions = [], w_task_prompt = None, w_secret = Some ''k''\<rparr>"

definition sample_request :: "string \<Rightarrow> hook_request" where
  "sample_request sig = \<lparr>hr_source = ''jira'',
     hr_headers = [(''x-hub-signature'', sig), (''x-atlassian-webhook-identifier'', ''e'')], hr_body = ''b''\<rparr>"

definition sample_requests :: "(time \<times> trigger list \<times> hook_request) list" where
  "sample_requests = [(0, [sample_trigger], sample_request ''kb''), (seconds 300, [sample_trigger], sample_request ''kb''),
     (seconds 301, [sample_trigger], sample_request ''sha256=kb'')]"

theorem events_run_once_witness:
  "sorted_wrt (\<lambda>(n, e, res) (n', e', res').
      if truthy e \<and> e = e' \<and> accepted res \<and> accepted res' then n' - n > seconds 300 else True) (receive_all sample_world sample_requests []) \<and>
   map (\<lambda>(n, e, res). accepted res) (receive_all sample_world sample_requests []) = [True, False, True]"
proof -
  have "sorted (map fst sample_requests)" by code_simp
  moreover have "map (\<lambda>(n, e, res). accepted res) (receive_all sample_world sample_requests []) = [True, False, True]" by code_simp
  ultimately show ?thesis using events_run_once by blast
qed

text \<open>A request that nobody signed uses up the identifier it names: the delivery that was signed is then
  answered as a duplicate and dropped.\<close>

lemma forged_event_blocks_delivery:
  assumes "receive_webhook h ts now r seen = (Inl no_trigger, seen')" "distinct (map fst seen)"
    and "event_id_of r = Some e" "e \<noteq> []" "truthy (signature_of r)" "hr_body r \<noteq> []"
    and "event_id_of r' = Some e" "truthy (signature_of r')" "hr_body r' \<noteq> []"
    and "now' - now \<le> seconds DEDUP_TTL"
  shows "fst (receive_webhook h ts' now' r' seen') = Inr Duplicate"
proof -
  have "seen' = dict_set e now (cleanup_dedup_cache now seen)"
    using assms(1,3-6) by (auto simp: receive_webhook_def is_duplicate_def Let_def truthy_def split: if_splits sum.splits option.splits)
  then have "dict_get (cleanup_dedup_cache now' seen') e \<noteq> None"
    using map_of_cleanup[of seen' now' e] assms(2,10) by (simp add: distinct_cleanup distinct_dict_set)
  then show ?thesis using assms(4,7-9) by (simp add: receive_webhook_def is_duplicate_def Let_def truthy_def)
qed

text \<open>A trigger of another source answers the Jira relay, and one without a secret answers unsigned.\<close>

lemma relay_takes_unsigned:
  "dispatch_jira_webhook sample_world [sample_trigger\<lparr>w_source := ''github'', w_secret := None\<rparr>] ''b'' []
     (Some ''00000000-0000-0000-0000-000000000001'') \<noteq> None"
  by code_simp

subsection \<open>The tasks of the handlers on the board\<close>

lemma store_external_tasks: "tasks (xd_board (store_external tag t r x)) = tasks (xd_board x) @ [t]"
  by (auto simp: store_external_def insert_task_def find_or_create_tag_def Let_def split: prod.splits option.splits)

lemma store_external_refs: "xd_refs (store_external tag t r x) = xd_refs x @ [r]"
  by (simp add: store_external_def split: prod.splits)

lemma handle_jira_stores:
  assumes "handle_jira_webhook creds now t body x = Inr (Some r, x')"
  obtains title description where "x' = store_external ''jira'' (default_task now (fresh_id (ids (xd_board x))) title description
      (w_profile_id t) (''jira:'' @ x_external_id r)) r x"
    "x_task_id r = fresh_id (ids (xd_board x))" "x_source r = ''jira''" "\<not> ref_exists ''jira'' (x_external_id r) x"
    "x_trigger_id r = Some (w_id t)"
  using assms unfolding handle_jira_webhook_def Let_def
  by (auto simp: bind_res_eq_Inr split: option.splits if_splits)

lemma handle_github_stores:
  assumes "handle_github_webhook resolve template show_uuid now t body x = Inr (Some r, x')"
  obtains title description where "x' = store_external ''github'' (default_task now (fresh_id (ids (xd_board x))) title description
      (w_profile_id t) (''github:'' @ x_external_id r)) r x"
    "x_task_id r = fresh_id (ids (xd_board x))" "x_source r = ''github''" "\<not> ref_exists ''github'' (x_external_id r) x"
    "x_trigger_id r = Some (w_id t)"
  using assms unfolding handle_github_webhook_def Let_def
  by (elim bind_InrE) (auto split: option.splits if_splits elim!: bind_InrE)

lemma handle_nothing:
  "handle_jira_webhook creds now t body x = Inr (None, x') \<Longrightarrow> x' = x"
  "handle_github_webhook resolve template show_uuid now t body x = Inr (None, x') \<Longrightarrow> x' = x"
  unfolding handle_jira_webhook_def handle_github_webhook_def Let_def
  by (auto simp: bind_res_eq_Inr split: option.splits if_splits)

end
