(* ===== verification/External_Tasks.thy ===== *)
theory External_Tasks
  imports Webhooks Lifecycle
begin

text \<open>
  What becomes of tasks that webhooks made: \<open>errand/external_status_updater.py\<close>, which answers the
  board's events with calls to Jira and GitHub, and the references over a run of handlers, events and
  the board's own operations.  \<open>ok\<close> tells which calls succeed; a call that would read a key the row
  does not have is a failing one.
\<close>

datatype ext_call =
    Jira_comment string string
  | Jira_assign string
  | Jira_transition string json
  | Jira_label string json
  | Github_status json json json json      \<comment> \<open>project, item, field, option\<close>
  | Github_comment json string
  | Github_review json json json           \<comment> \<open>owner, repository, number; the reviewer is Copilot\<close>

text \<open>A call that is tried, with the error that is noted when it fails; \<open>None\<close> when a key is missing.\<close>

type_synonym attempt = "ext_call option \<times> string"

definition attempt_errors :: "(ext_call \<Rightarrow> bool) \<Rightarrow> attempt list \<Rightarrow> string list" where
  "attempt_errors ok as = map snd (filter (\<lambda>(c, _). case c of None \<Rightarrow> True | Some c \<Rightarrow> \<not> ok c) as)"

definition attempt_calls :: "attempt list \<Rightarrow> ext_call list" where
  "attempt_calls as = concat (map (\<lambda>(c, _). case c of None \<Rightarrow> [] | Some c \<Rightarrow> [c]) as)"

definition try_if :: "bool \<Rightarrow> ext_call option \<Rightarrow> string \<Rightarrow> attempt list" where
  "try_if c call err = (if c then [(call, err)] else [])"

record status_view =
  sv_task_id :: nat
  sv_id_text :: string
  sv_status :: string
  sv_output :: "string option"

definition blank_line :: string where "blank_line = [newline, newline]"

definition or_text :: "string option \<Rightarrow> string \<Rightarrow> string" where
  "or_text v d = (if truthy v then the v else d)"

definition action_value :: "trigger \<Rightarrow> string \<Rightarrow> json" where
  "action_value t k = (case dict_get (w_actions t) k of None \<Rightarrow> JNull | Some v \<Rightarrow> v)"

subsection \<open>Jira\<close>

definition jira_attempts :: "trigger \<Rightarrow> string \<Rightarrow> status_view \<Rightarrow> attempt list" where
  "jira_attempts t key v =
     (let on = truthy_at (w_actions t); tid = sv_id_text v in
      if sv_status v = ''running'' then
        try_if (on ''add_comment'') (Some (Jira_comment key (''Task started by Errand (task ID: '' @ tid @ '')'')))
          ''add_comment failed on running'' @
        try_if (on ''assign_to'') (Some (Jira_assign key)) ''assign_to failed on running''
      else if sv_status v = ''completed'' then
        try_if (on ''comment_output'' \<or> on ''add_comment'')
          (Some (Jira_comment key (''Task completed by Errand (task ID: '' @ tid @ '')'' @
             (if truthy (sv_output v) \<and> on ''comment_output'' then blank_line @ the (sv_output v) else []))))
          ''add_comment failed on completed'' @
        try_if (on ''transition_on_complete'') (Some (Jira_transition key (action_value t ''transition_on_complete'')))
          (''transition_on_complete '' @ sq (py_str (action_value t ''transition_on_complete'')) @ '' failed'') @
        try_if (on ''add_label'') (Some (Jira_label key (action_value t ''add_label'')))
          (''add_label '' @ sq (py_str (action_value t ''add_label'')) @ '' failed'')
      else if sv_status v = ''failed'' then
        try_if (on ''add_comment'')
          (Some (Jira_comment key (''Task failed in Errand (task ID: '' @ tid @ '')'' @ blank_line @
             or_text (sv_output v) ''No error details available'')))
          ''add_comment failed on failed''
      else [])"

subsection \<open>GitHub\<close>

text \<open>The first fenced block of JSON: after the fence white space that ends in a line break, up to the
  next fence.\<close>

definition fenced_block :: "string \<Rightarrow> string option" where
  "fenced_block r =
     (case rfind_char newline (takeWhile is_space r) of
        None \<Rightarrow> None
      | Some i \<Rightarrow>
          (let b = drop (Suc i) r in map_option (\<lambda>j. take j b) (find_str ''```'' b)))"

fun search_block :: "string \<Rightarrow> string option" where
  "search_block [] = None"
| "search_block (c # s) =
     (if starts_with (c # s) ''```json'' then
        (case fenced_block (drop 6 s) of Some b \<Rightarrow> Some b | None \<Rightarrow> search_block s)
      else search_block s)"

definition parse_structured_output :: "string option \<Rightarrow> json" where
  "parse_structured_output out =
     (if \<not> truthy out then JNull
      else case search_block (the out) of
        None \<Rightarrow> JNull
      | Some b \<Rightarrow> (case json_loads b of None \<Rightarrow> JNull | Some j \<Rightarrow> j))"

definition github_comment :: "ext_ref \<Rightarrow> string \<Rightarrow> ext_call option" where
  "github_comment r s = map_option (\<lambda>n. Github_comment n s) (dict_get (x_metadata r) ''content_node_id'')"

definition column_attempt :: "trigger \<Rightarrow> ext_ref \<Rightarrow> string \<Rightarrow> attempt list" where
  "column_attempt t r k =
     (let name = action_value t k;
          opt = (case name of JStr c \<Rightarrow> json_get_or_null (action_value t ''column_options'') c | _ \<Rightarrow> JNull)
      in try_if (truthy_at (w_actions t) k \<and> json_truthy opt)
           (case (dict_get (x_metadata r) ''project_node_id'', dict_get (x_metadata r) ''item_node_id'',
                  dict_get (w_actions t) ''project_field_id'') of
              (Some p, Some i, Some f) \<Rightarrow> Some (Github_status p i f opt) | _ \<Rightarrow> None)
           (k @ '' '' @ sq (py_str name) @ '' failed''))"

text \<open>The review a run asks for; refused when the row cannot be stored.\<close>

definition review_task :: "time \<Rightarrow> trigger \<Rightarrow> ext_ref \<Rightarrow> json \<Rightarrow> nat \<Rightarrow> nat \<Rightarrow> task" where
  "review_task now t r st i profile =
     (let get = (\<lambda>k. json_get_or_null st k);
          meta = (\<lambda>k. case dict_get (x_metadata r) k of None \<Rightarrow> [] | Some v \<Rightarrow> py_str v);
          number = (case json_get st ''pr_number'' of None \<Rightarrow> [] | Some v \<Rightarrow> py_str v)
      in default_task now i (''Review: '' @ meta ''repo_owner'' @ ''/'' @ meta ''repo_name'' @ ''#'' @ number)
           (join [newline] [''Review PR '' @ py_str (get ''pr_url''), ''Branch: '' @ py_str (get ''branch''),
              ''Issue: '' @ x_external_url r])
           (Some profile) (''github:review:'' @ x_external_id r))"

definition review_ref :: "(nat \<Rightarrow> string) \<Rightarrow> ext_ref \<Rightarrow> nat \<Rightarrow> ext_ref" where
  "review_ref show_uuid r i =
     \<lparr>x_task_id = i, x_trigger_id = x_trigger_id r, x_source = ''github'',
      x_external_id = x_external_id r @ '':review:'' @ show_uuid i, x_external_url = x_external_url r, x_parent_id = None,
      x_metadata = dict_set ''parent_external_id'' (JStr (x_external_id r)) (x_metadata r)\<rparr>"

definition review_wanted :: "trigger \<Rightarrow> json \<Rightarrow> bool" where
  "review_wanted t st \<longleftrightarrow> truthy_at (w_actions t) ''review_profile_id'' \<and>
     json_truthy (json_get_or_null st ''pr_url'') \<and> json_truthy (json_get_or_null st ''branch'')"

definition review_profile :: "(nat \<Rightarrow> bool) \<Rightarrow> trigger \<Rightarrow> nat option" where
  "review_profile has_profile t =
     (case action_value t ''review_profile_id'' of
        JStr s \<Rightarrow> (case parse_uuid s of Some i \<Rightarrow> if has_profile i then Some i else None | None \<Rightarrow> None)
      | _ \<Rightarrow> None)"

definition store_review :: "task \<Rightarrow> ext_ref \<Rightarrow> ext_db \<Rightarrow> ext_db" where
  "store_review t r x = x\<lparr>xd_board := insert_task t (xd_board x), xd_refs := xd_refs x @ [r]\<rparr>"

definition is_aborted :: "json \<Rightarrow> bool" where
  "is_aborted st \<longleftrightarrow> json_truthy st \<and> json_get_or_null st ''status'' = JStr ''aborted''"

text \<open>The calls of a completed run before and after the review.\<close>

definition completed_comment :: "trigger \<Rightarrow> ext_ref \<Rightarrow> status_view \<Rightarrow> json \<Rightarrow> attempt list" where
  "completed_comment t r v st =
     (let wants = (truthy_at (w_actions t) ''comment_output'' \<or> truthy_at (w_actions t) ''add_comment'');
          tid = sv_id_text v
      in if is_aborted st then
           try_if wants (github_comment r (''Errand task aborted (task ID: '' @ tid @ '')'' @ blank_line @ ''Reason: '' @
             (case json_get st ''reason'' of None \<Rightarrow> ''No reason provided'' | Some x \<Rightarrow> py_str x)))
             ''abort comment failed''
         else if json_truthy st then
           try_if wants (github_comment r (''Errand task completed (task ID: '' @ tid @ '')'' @ blank_line @
             (case json_get st ''summary'' of None \<Rightarrow> ''Task completed.'' | Some x \<Rightarrow> py_str x)))
             ''comment failed on completed''
         else try_if wants (github_comment r (''Errand task completed (task ID: '' @ tid @ '')'')) ''comment failed on completed'')"

definition copilot_attempt :: "trigger \<Rightarrow> ext_ref \<Rightarrow> json \<Rightarrow> attempt list" where
  "copilot_attempt t r st =
     try_if (truthy_at (w_actions t) ''copilot_review'' \<and> json_truthy st \<and> json_truthy (json_get_or_null st ''pr_number''))
       (case (dict_get (x_metadata r) ''repo_owner'', dict_get (x_metadata r) ''repo_name'') of
          (Some owner, Some repo) \<Rightarrow> Some (Github_review owner repo (json_get_or_null st ''pr_number'')) | _ \<Rightarrow> None)
       ''copilot_review failed''"

definition note_errors :: "nat \<Rightarrow> string list \<Rightarrow> ext_db \<Rightarrow> ext_db" where
  "note_errors i errs x =
     (if errs = [] then x
      else x\<lparr>xd_refs := map (\<lambda>r. if x_task_id r = i
        then r\<lparr>x_metadata := dict_set ''action_errors'' (JArr (map JStr errs)) (x_metadata r)\<rparr> else r) (xd_refs x)\<rparr>)"

record callback_world =
  cw_ok :: "ext_call \<Rightarrow> bool"
  cw_has_profile :: "nat \<Rightarrow> bool"
  cw_show_uuid :: "nat \<Rightarrow> string"
  cw_credentials :: bool

definition is_object :: "json \<Rightarrow> bool" where "is_object v = (case v of JObj _ \<Rightarrow> True | _ \<Rightarrow> False)"

definition running_attempts :: "trigger \<Rightarrow> ext_ref \<Rightarrow> status_view \<Rightarrow> attempt list" where
  "running_attempts t r v =
     column_attempt t r ''column_on_running'' @
     try_if (truthy_at (w_actions t) ''add_comment'')
       (github_comment r (''Errand task started (task ID: '' @ sv_id_text v @ '')'')) ''add_comment failed on running''"

definition failed_attempts :: "trigger \<Rightarrow> ext_ref \<Rightarrow> status_view \<Rightarrow> attempt list" where
  "failed_attempts t r v =
     try_if (truthy_at (w_actions t) ''add_comment'')
       (github_comment r (''Errand task failed (task ID: '' @ sv_id_text v @ '')'' @ blank_line @
          or_text (sv_output v) ''No error details available'')) ''add_comment failed on failed''"

text \<open>A block of JSON that is no object ends the dispatch with an error, before any call.\<close>

definition dispatch_completed ::
    "callback_world \<Rightarrow> time \<Rightarrow> trigger \<Rightarrow> ext_ref \<Rightarrow> status_view \<Rightarrow> json \<Rightarrow> ext_db \<Rightarrow> ext_call list \<times> ext_db" where
  "dispatch_completed w now t r v st x =
     (let errors = attempt_errors (cw_ok w); note = note_errors (x_task_id r) in
      if json_truthy st \<and> \<not> is_object st then ([], x)
      else if is_aborted st then (attempt_calls (completed_comment t r v st), note (errors (completed_comment t r v st)) x)
      else
        (let before = completed_comment t r v st @ copilot_attempt t r st;
             after = column_attempt t r ''column_on_complete'';
             i = fresh_id (ids (xd_board x));
             stored = (if ref_exists ''github'' (x_external_id (review_ref (cw_show_uuid w) r i)) x then None
               else review_profile (cw_has_profile w) t);
             review = (if review_wanted t st then Some stored else None)
         in (attempt_calls (before @ after),
             note (errors before @ (if review = Some None then [''review_profile_id failed''] else []) @ errors after)
               (case review of
                  Some (Some p) \<Rightarrow> store_review (review_task now t r st i p) (review_ref (cw_show_uuid w) r i) x
                | _ \<Rightarrow> x))))"

definition dispatch_github ::
    "callback_world \<Rightarrow> time \<Rightarrow> trigger \<Rightarrow> ext_ref \<Rightarrow> status_view \<Rightarrow> ext_db \<Rightarrow> ext_call list \<times> ext_db" where
  "dispatch_github w now t r v x =
     (let run = (\<lambda>as. (attempt_calls as, note_errors (x_task_id r) (attempt_errors (cw_ok w) as) x)) in
      if sv_status v = ''running'' then run (running_attempts t r v)
      else if sv_status v = ''completed'' then dispatch_completed w now t r v (parse_structured_output (sv_output v)) x
      else if sv_status v = ''failed'' then run (failed_attempts t r v)
      else ([], x))"

subsection \<open>An event of the board\<close>

definition ref_of_task :: "nat \<Rightarrow> ext_db \<Rightarrow> ext_ref option" where
  "ref_of_task i x = find (\<lambda>r. x_task_id r = i) (xd_refs x)"

definition process_task_event ::
    "callback_world \<Rightarrow> time \<Rightarrow> trigger list \<Rightarrow> status_view \<Rightarrow> ext_db \<Rightarrow> ext_call list \<times> ext_db" where
  "process_task_event w now ts v x =
     (case ref_of_task (sv_task_id v) x of
        None \<Rightarrow> ([], x)
      | Some r \<Rightarrow>
          (case Option.bind (x_trigger_id r) (\<lambda>i. trigger_by_id i ts) of
             None \<Rightarrow> ([], x)
           | Some t \<Rightarrow>
               if \<not> cw_credentials w then ([], x)
               else if x_source r = ''jira'' then
                 (let as = jira_attempts t (x_external_id r) v
                  in (attempt_calls as, note_errors (x_task_id r) (attempt_errors (cw_ok w) as) x))
               else if x_source r = ''github'' then dispatch_github w now t r v x
               else ([], x)))"

text \<open>The event \<open>task_updated\<close>, in either form the board publishes it.\<close>

definition view_of_event :: "(nat \<Rightarrow> string) \<Rightarrow> board_event \<Rightarrow> status_view option" where
  "view_of_event show_uuid e =
     (case e of
        Response_event event r \<Rightarrow>
          if event = ''task_updated'' then Some \<lparr>sv_task_id = r_id r, sv_id_text = show_uuid (r_id r),
            sv_status = status_name (r_status r), sv_output = r_output r\<rparr> else None
      | Dict_event event d \<Rightarrow>
          if event = ''task_updated'' then Some \<lparr>sv_task_id = d_id d, sv_id_text = show_uuid (d_id d),
            sv_status = status_name (d_status d), sv_output = d_output d\<rparr> else None
      | _ \<Rightarrow> None)"

definition on_board_event ::
    "callback_world \<Rightarrow> time \<Rightarrow> trigger list \<Rightarrow> board_event \<Rightarrow> ext_db \<Rightarrow> ext_call list \<times> ext_db" where
  "on_board_event w now ts e x =
     (case view_of_event (cw_show_uuid w) e of None \<Rightarrow> ([], x) | Some v \<Rightarrow> process_task_event w now ts v x)"

subsection \<open>Only what a trigger asked for\<close>

lemma attempt_calls_simps [simp]:
  "attempt_calls [] = []" "attempt_calls (a @ b) = attempt_calls a @ attempt_calls b"
  by (auto simp: attempt_calls_def)

lemma attempt_calls_try:
  "attempt_calls (try_if c call err) = (case call of Some x \<Rightarrow> if c then [x] else [] | None \<Rightarrow> [])"
  by (auto simp: attempt_calls_def try_if_def split: option.splits)

text \<open>The actions of the trigger that permit a call, and the issue or item the call names.\<close>

definition opted_in :: "trigger \<Rightarrow> ext_ref \<Rightarrow> ext_call \<Rightarrow> bool" where
  "opted_in t r c =
     (let on = truthy_at (w_actions t); meta = dict_get (x_metadata r) in
      case c of
        Jira_comment key _ \<Rightarrow> key = x_external_id r \<and> (on ''add_comment'' \<or> on ''comment_output'')
      | Jira_assign key \<Rightarrow> key = x_external_id r \<and> on ''assign_to''
      | Jira_transition key v \<Rightarrow> key = x_external_id r \<and> on ''transition_on_complete'' \<and> v = action_value t ''transition_on_complete''
      | Jira_label key v \<Rightarrow> key = x_external_id r \<and> on ''add_label'' \<and> v = action_value t ''add_label''
      | Github_status p i f opt \<Rightarrow>
          meta ''project_node_id'' = Some p \<and> meta ''item_node_id'' = Some i \<and>
          dict_get (w_actions t) ''project_field_id'' = Some f \<and>
          list_ex (\<lambda>k. on k \<and> (case action_value t k of
              JStr name \<Rightarrow> json_get (action_value t ''column_options'') name = Some opt | _ \<Rightarrow> False))
            [''column_on_running'', ''column_on_complete'']
      | Github_comment n _ \<Rightarrow> meta ''content_node_id'' = Some n \<and> (on ''add_comment'' \<or> on ''comment_output'')
      | Github_review owner repo _ \<Rightarrow> meta ''repo_owner'' = Some owner \<and> meta ''repo_name'' = Some repo \<and> on ''copilot_review'')"

lemma jira_opted_in: "list_all (opted_in t r) (attempt_calls (jira_attempts t (x_external_id r) v))"
  by (simp add: jira_attempts_def opted_in_def Let_def attempt_calls_try)

lemma truthy_option:
  "json_truthy (case name of JStr c \<Rightarrow> json_get_or_null opts c | _ \<Rightarrow> JNull) \<Longrightarrow>
   case name of JStr c \<Rightarrow> json_get opts c = Some (case name of JStr c \<Rightarrow> json_get_or_null opts c | _ \<Rightarrow> JNull) | _ \<Rightarrow> False"
  by (cases name) (auto simp: json_get_or_null_def json_truthy_def split: option.splits)

lemma column_opted_in:
  assumes "k \<in> {''column_on_running'', ''column_on_complete''}"
  shows "list_all (opted_in t r) (attempt_calls (column_attempt t r k))"
proof -
  define opt where "opt = (case action_value t k of JStr c \<Rightarrow> json_get_or_null (action_value t ''column_options'') c | _ \<Rightarrow> JNull)"
  have "json_truthy opt \<Longrightarrow> (case action_value t k of
      JStr name \<Rightarrow> json_get (action_value t ''column_options'') name = Some opt | _ \<Rightarrow> False)"
    unfolding opt_def by (rule truthy_option)
  moreover have "column_attempt t r k = try_if (truthy_at (w_actions t) k \<and> json_truthy opt)
      (case (dict_get (x_metadata r) ''project_node_id'', dict_get (x_metadata r) ''item_node_id'',
             dict_get (w_actions t) ''project_field_id'') of
         (Some p, Some i, Some f) \<Rightarrow> Some (Github_status p i f opt) | _ \<Rightarrow> None)
      (k @ '' '' @ sq (py_str (action_value t k)) @ '' failed'')"
    unfolding column_attempt_def opt_def Let_def by (rule refl)
  ultimately show ?thesis
    using assms by (simp add: attempt_calls_try opted_in_def Let_def split: option.split) blast
qed

lemma comment_opted_in:
  "(c \<Longrightarrow> truthy_at (w_actions t) ''add_comment'' \<or> truthy_at (w_actions t) ''comment_output'') \<Longrightarrow>
   list_all (opted_in t r) (attempt_calls (try_if c (github_comment r s) err))"
  by (auto simp: attempt_calls_try github_comment_def opted_in_def Let_def split: option.splits)

lemma completed_opted_in: "list_all (opted_in t r) (attempt_calls (completed_comment t r v st))"
  unfolding completed_comment_def Let_def by (auto intro!: comment_opted_in)

lemma copilot_opted_in: "list_all (opted_in t r) (attempt_calls (copilot_attempt t r st))"
  by (auto simp: attempt_calls_try copilot_attempt_def opted_in_def Let_def split: option.splits)

lemma parts_opted_in:
  "list_all (opted_in t r) (attempt_calls (running_attempts t r v))"
  "list_all (opted_in t r) (attempt_calls (failed_attempts t r v))"
  unfolding running_attempts_def failed_attempts_def by (auto simp: column_opted_in intro!: comment_opted_in)

lemma dispatch_github_opted_in: "list_all (opted_in t r) (fst (dispatch_github w now t r v x))"
  by (simp add: dispatch_github_def dispatch_completed_def Let_def parts_opted_in completed_opted_in copilot_opted_in column_opted_in)


subsection \<open>Failures and aborts\<close>

text \<open>A run that reports it was aborted leaves everything outside as it is, but for one comment where
  comments are asked for: no review is requested or created, no column is moved and the board gets no
  task.\<close>

theorem aborted_run_only_comments:
  assumes "sv_status v = ''completed''" "is_aborted (parse_structured_output (sv_output v))"
    "is_object (parse_structured_output (sv_output v))"
  shows "case dispatch_github w now t r v x of (calls, x') \<Rightarrow>
    xd_board x' = xd_board x \<and> length (xd_refs x') = length (xd_refs x) \<and>
    (case calls of
       [] \<Rightarrow> True
     | [Github_comment n s] \<Rightarrow> dict_get (x_metadata r) ''content_node_id'' = Some n \<and>
         (truthy_at (w_actions t) ''comment_output'' \<or> truthy_at (w_actions t) ''add_comment'')
     | _ \<Rightarrow> False)"
  using assms
  by (auto simp: dispatch_github_def dispatch_completed_def Let_def completed_comment_def github_comment_def note_errors_def
    attempt_calls_try split: option.splits)

lemma quiet_status:
  "s \<notin> {''running'', ''completed'', ''failed''} \<Longrightarrow> sv_status v = s \<Longrightarrow> process_task_event w now ts v x = ([], x)"
  by (auto simp: process_task_event_def jira_attempts_def dispatch_github_def note_errors_def attempt_errors_def Let_def split: option.splits)

lemma quiet_event:
  "e = Dict_event n d \<Longrightarrow> d_status d \<notin> {Running, Completed} \<Longrightarrow> on_board_event w now ts e x = ([], x)"
  by (cases "d_status d") (auto simp: on_board_event_def view_of_event_def status_name_def intro!: quiet_status[OF _ refl])

subsection \<open>References over a run\<close>

inductive ext_step :: "ext_db \<Rightarrow> ext_db \<Rightarrow> bool" where
  jira: "handle_jira_webhook creds now t body x = Inr (r, x') \<Longrightarrow> ext_step x x'"
| github: "handle_github_webhook resolve template show_uuid now t body x = Inr (r, x') \<Longrightarrow> ext_step x x'"
| callback: "process_task_event w now ts v x = (calls, x') \<Longrightarrow> ext_step x x'"
| board: "set (ids (xd_board x)) \<subseteq> set (ids b) \<Longrightarrow> distinct (ids b) \<Longrightarrow> ext_step x (x\<lparr>xd_board := b\<rparr>)"

definition ref_key :: "ext_ref \<Rightarrow> string \<times> string" where "ref_key r = (x_source r, x_external_id r)"

definition ext_inv :: "ext_db \<Rightarrow> bool" where
  "ext_inv x \<longleftrightarrow> distinct (ids (xd_board x)) \<and> distinct (map x_task_id (xd_refs x)) \<and> distinct (map ref_key (xd_refs x)) \<and>
     x_task_id ` set (xd_refs x) \<subseteq> set (ids (xd_board x))"

lemma ref_exists_key: "ref_exists s e x \<longleftrightarrow> (s, e) \<in> ref_key ` set (xd_refs x)"
  by (auto simp: ref_exists_def list_ex_iff ref_key_def)

lemma ext_inv_add:
  assumes "ext_inv x" "tasks (xd_board x') = tasks (xd_board x) @ [t]" "xd_refs x' = xd_refs x @ [r]"
    and "t_id t = fresh_id (ids (xd_board x))" "x_task_id r = t_id t" "\<not> ref_exists (x_source r) (x_external_id r) x"
  shows "ext_inv x'"
proof -
  have "t_id t \<notin> set (ids (xd_board x))" using assms(4) fresh_id_notin[of "ids (xd_board x)"] by simp
  moreover have "ids (xd_board x') = ids (xd_board x) @ [t_id t]" using assms(2) by (simp add: ids_def)
  moreover have "ref_key r \<notin> ref_key ` set (xd_refs x)" using assms(6) by (simp add: ref_exists_key ref_key_def)
  ultimately show ?thesis using assms(1,3,5) by (auto simp: ext_inv_def)
qed

lemma note_errors_inv: "ext_inv (note_errors i errs x) \<longleftrightarrow> ext_inv x"
proof -
  have "map x_task_id (xd_refs (note_errors i errs x)) = map x_task_id (xd_refs x)"
    "map ref_key (xd_refs (note_errors i errs x)) = map ref_key (xd_refs x)"
    "xd_board (note_errors i errs x) = xd_board x"
    by (auto simp: note_errors_def ref_key_def)
  moreover from this(1) have "x_task_id ` set (xd_refs (note_errors i errs x)) = x_task_id ` set (xd_refs x)"
    by (metis list.set_map)
  ultimately show ?thesis by (simp add: ext_inv_def)
qed

lemma store_review_inv:
  assumes "ext_inv x" "\<not> ref_exists ''github'' (x_external_id (review_ref show_uuid r (fresh_id (ids (xd_board x))))) x"
  shows "ext_inv (store_review (review_task now t r st (fresh_id (ids (xd_board x))) p)
    (review_ref show_uuid r (fresh_id (ids (xd_board x)))) x)"
  by (rule ext_inv_add[OF assms(1), where t = "review_task now t r st (fresh_id (ids (xd_board x))) p" and
        r = "review_ref show_uuid r (fresh_id (ids (xd_board x)))"])
    (use assms(2) in \<open>simp_all add: store_review_def insert_task_def review_task_def review_ref_def default_task_def Let_def\<close>)

lemma dispatch_completed_inv: "ext_inv x \<Longrightarrow> ext_inv (snd (dispatch_completed w now t r v st x))"
  by (auto simp: dispatch_completed_def Let_def note_errors_inv store_review_inv split: option.splits)

lemma process_inv: "ext_inv x \<Longrightarrow> ext_inv (snd (process_task_event w now ts v x))"
  by (auto simp: process_task_event_def dispatch_github_def Let_def note_errors_inv dispatch_completed_inv split: option.splits)

lemma store_external_inv:
  assumes "ext_inv x" "t_id t = fresh_id (ids (xd_board x))" "x_task_id r = t_id t" "\<not> ref_exists (x_source r) (x_external_id r) x"
  shows "ext_inv (store_external tag t r x)"
  by (rule ext_inv_add[OF assms(1) store_external_tasks store_external_refs assms(2-4)])

lemma default_task_id [simp]: "t_id (default_task now i title description profile created_by) = i"
  by (simp add: default_task_def)

lemma handler_inv:
  "handle_jira_webhook creds now t body x = Inr (r, x') \<Longrightarrow> ext_inv x \<Longrightarrow> ext_inv x'"
  "handle_github_webhook resolve template show_uuid now t body x = Inr (r, x') \<Longrightarrow> ext_inv x \<Longrightarrow> ext_inv x'"
proof -
  assume "handle_jira_webhook creds now t body x = Inr (r, x')" "ext_inv x"
  then show "ext_inv x'"
    by (cases r) (auto dest: handle_nothing(1) elim!: handle_jira_stores intro!: store_external_inv)
next
  assume "handle_github_webhook resolve template show_uuid now t body x = Inr (r, x')" "ext_inv x"
  then show "ext_inv x'"
    by (cases r) (auto dest: handle_nothing(2) elim!: handle_github_stores intro!: store_external_inv)
qed

lemma ext_step_inv: "ext_step x x' \<Longrightarrow> ext_inv x \<Longrightarrow> ext_inv x'"
proof (induction rule: ext_step.induct)
  case (callback w now ts v x calls x')
  then show ?case using process_inv[of x w now ts v] by simp
next
  case (board x b)
  then show ?case by (auto simp: ext_inv_def)
qed (rule handler_inv; assumption)+

lemma ext_reachable_inv: "ext_step\<^sup>*\<^sup>* x x' \<Longrightarrow> ext_inv x \<Longrightarrow> ext_inv x'"
  by (induction rule: rtranclp_induct) (auto intro: ext_step_inv)

text \<open>C32. An issue outside has one task: whatever webhooks, events and operations of the board follow
  each other, there is at most one reference for an issue of a source, no task has two, and the task of
  every reference is on the board.\<close>

theorem issue_has_one_task:
  assumes "ext_step\<^sup>*\<^sup>* \<lparr>xd_board = empty_db, xd_refs = []\<rparr> x" "r \<in> set (xd_refs x)" "q \<in> set (xd_refs x)"
  shows "(ref_key r = ref_key q \<longleftrightarrow> r = q) \<and> (x_task_id r = x_task_id q \<longleftrightarrow> r = q) \<and>
    find_task (xd_board x) (x_task_id r) \<noteq> None"
proof -
  have "ext_inv x" by (rule ext_reachable_inv[OF assms(1)]) (simp add: ext_inv_def ids_def empty_db_def)
  then have d: "inj_on ref_key (set (xd_refs x))" "inj_on x_task_id (set (xd_refs x))" "x_task_id r \<in> set (ids (xd_board x))"
    using assms(2) by (auto simp: ext_inv_def distinct_map)
  then show ?thesis using assms(2,3) by (auto simp: find_task_None inj_on_eq_iff)
qed

subsection \<open>The place of a webhook's task in the queue\<close>

lemma sort_key_head:
  assumes "x \<in> set xs" "\<forall>y\<in>set xs. y \<noteq> x \<longrightarrow> f x < f y"
  shows "hd (sort_key f xs) = x"
proof -
  have ne: "sort_key f xs \<noteq> []" using assms(1) by (metis empty_iff list.set(1) set_sort)
  then have "\<forall>y\<in>set xs. f (hd (sort_key f xs)) \<le> f y"
    using sorted_sort_key[of f xs] set_sort[of f xs] by (cases "sort_key f xs") force+
  then have "f (hd (sort_key f xs)) \<le> f x" "hd (sort_key f xs) \<in> set xs"
    using assms(1) hd_in_set[OF ne] by auto
  then show ?thesis using assms(2) by (metis leD)
qed

text \<open>A task that a webhook makes overtakes the queue: it gets the default position 0, not the next
  of its column, so on a board whose pending tasks have positions from 1 on, as every operation of the
  board gives them, it is the task that is taken next.\<close>

theorem webhook_task_overtakes:
  assumes "handle_jira_webhook creds now t body x = Inr (Some r, x')"
    and "list_all (\<lambda>u. 1 \<le> t_position u) (column (xd_board x) Pending)"
  shows "map_option t_id (dequeue_task (xd_board x')) = Some (x_task_id r)"
proof -
  obtain title description where s: "x' = store_external ''jira'' (default_task now (fresh_id (ids (xd_board x))) title description
      (w_profile_id t) (''jira:'' @ x_external_id r)) r x" and i: "x_task_id r = fresh_id (ids (xd_board x))"
    using handle_jira_stores[OF assms(1)] by metis
  define k where "k = default_task now (fresh_id (ids (xd_board x))) title description (w_profile_id t) (''jira:'' @ x_external_id r)"
  have c: "column (xd_board x') Pending = column (xd_board x) Pending @ [k]"
    by (simp add: s column_def store_external_tasks k_def default_task_def)
  have "t_position k = 0" by (simp add: k_def default_task_def)
  then have "\<forall>u\<in>set (column (xd_board x') Pending). u \<noteq> k \<longrightarrow> (t_position k, t_created_at k) < (t_position u, t_created_at u)"
    using assms(2) by (auto simp: c list_all_iff less_prod_def')
  then have "hd (sort_key (\<lambda>t. (t_position t, t_created_at t)) (column (xd_board x') Pending)) = k"
    by (intro sort_key_head) (simp_all add: c)
  moreover have "sort_key (\<lambda>t. (t_position t, t_created_at t)) (column (xd_board x') Pending) \<noteq> []"
    by (metis c append_is_Nil_conv not_Cons_self2 set_empty set_sort)
  ultimately have "dequeue_task (xd_board x') = Some k"
    by (cases "sort_key (\<lambda>t. (t_position t, t_created_at t)) (column (xd_board x') Pending)") (auto simp: dequeue_task_def)
  then show ?thesis by (simp add: i k_def default_task_def)
qed


subsection \<open>Concrete runs\<close>

definition sample_body :: "string \<Rightarrow> string" where
  "sample_body key = json_dumps (JObj [(''webhookEvent'', JStr ''jira:issue_created''),
     (''issue'', JObj [(''key'', JStr key), (''fields'', JObj [(''summary'', JStr ''S'')])])])"

definition queued_board :: ext_db where
  "queued_board = \<lparr>xd_board = insert_task ((default_task 1 1 ''T'' [] None ''me'')\<lparr>t_position := 1\<rparr>) empty_db, xd_refs = []\<rparr>"

lemma sample_body_loads: "json_loads (sample_body key) = Some (JObj [(''webhookEvent'', JStr ''jira:issue_created''),
     (''issue'', JObj [(''key'', JStr key), (''fields'', JObj [(''summary'', JStr ''S'')])])])"
  unfolding sample_body_def by (rule json_loads_dumps) simp

definition sample_ref :: "string \<Rightarrow> nat \<Rightarrow> ext_ref" where
  "sample_ref key i = \<lparr>x_task_id = i, x_trigger_id = Some 1, x_source = ''jira'', x_external_id = key, x_external_url = [],
     x_parent_id = None, x_metadata = [(''project_key'', JStr [])]\<rparr>"

lemma handle_sample:
  "\<not> ref_exists ''jira'' key x \<Longrightarrow> handle_jira_webhook None now sample_trigger (sample_body key) x =
     (let i = fresh_id (ids (xd_board x)) in Inr (Some (sample_ref key i),
       store_external ''jira'' (default_task now i (key @ '': S'') [] None (''jira:'' @ key)) (sample_ref key i) x))"
  by (simp add: handle_jira_webhook_def parse_jira_payload_def sample_body_loads jira_fields_def jget_def sub_field_def or_empty_def
    json_truthy_def jira_evaluate_filters_def filter_list_def sample_trigger_def type_passes_def labels_pass_def text_column_def
    null_text_def build_description_def py_str_def rstrip_char_def sample_ref_def Let_def)

definition after_issues :: ext_db where
  "after_issues = store_external ''jira'' (default_task 8 2 ''P-2: S'' [] None ''jira:P-2'') (sample_ref ''P-2'' 2)
     (store_external ''jira'' (default_task 7 1 ''P-1: S'' [] None ''jira:P-1'') (sample_ref ''P-1'' 1)
       \<lparr>xd_board = empty_db, xd_refs = []\<rparr>)"

lemma after_issues_reachable: "ext_step\<^sup>*\<^sup>* \<lparr>xd_board = empty_db, xd_refs = []\<rparr> after_issues"
proof -
  define x where "x = \<lparr>xd_board = empty_db, xd_refs = []\<rparr>"
  define y where "y = store_external ''jira'' (default_task 7 1 ''P-1: S'' [] None ''jira:P-1'') (sample_ref ''P-1'' 1) x"
  have x: "fresh_id (ids (xd_board x)) = 1" "\<not> ref_exists ''jira'' ''P-1'' x"
    by (simp_all add: x_def ids_def empty_db_def fresh_id_def ref_exists_def)
  have "ids (xd_board y) = [1]" "xd_refs y = [sample_ref ''P-1'' 1]"
    by (simp_all add: y_def x_def ids_def store_external_tasks store_external_refs empty_db_def)
  then have y: "fresh_id (ids (xd_board y)) = 2" "\<not> ref_exists ''jira'' ''P-2'' y"
    by (simp_all add: fresh_id_def ref_exists_def sample_ref_def)
  have z: "after_issues = store_external ''jira'' (default_task 8 2 ''P-2: S'' [] None ''jira:P-2'') (sample_ref ''P-2'' 2) y"
    by (simp only: after_issues_def y_def x_def)
  have "handle_jira_webhook None 7 sample_trigger (sample_body ''P-1'') x = Inr (Some (sample_ref ''P-1'' 1), y)"
    unfolding handle_sample[OF x(2)] x(1) Let_def y_def append.simps by (rule refl)
  then have 1: "ext_step x y" by (rule ext_step.jira)
  have "handle_jira_webhook None 8 sample_trigger (sample_body ''P-2'') y = Inr (Some (sample_ref ''P-2'' 2), after_issues)"
    unfolding handle_sample[OF y(2)] y(1) Let_def z append.simps by (rule refl)
  then have "ext_step y after_issues" by (rule ext_step.jira)
  with 1 show ?thesis unfolding x_def[symmetric] by (blast intro: rtranclp.rtrancl_into_rtrancl rtranclp.rtrancl_refl)
qed

theorem issue_has_one_task_witness:
  "map ref_key (xd_refs after_issues) = [(''jira'', ''P-1''), (''jira'', ''P-2'')] \<and>
   find_task (xd_board after_issues) (x_task_id (hd (xd_refs after_issues))) \<noteq> None"
proof -
  have k: "map ref_key (xd_refs after_issues) = [(''jira'', ''P-1''), (''jira'', ''P-2'')]"
    by (simp add: after_issues_def store_external_refs ref_key_def sample_ref_def)
  then have "hd (xd_refs after_issues) \<in> set (xd_refs after_issues)" by (cases "xd_refs after_issues") simp_all
  from issue_has_one_task[OF after_issues_reachable this this] k show ?thesis by blast
qed

theorem webhook_task_overtakes_witness:
  "case handle_jira_webhook None 7 sample_trigger (sample_body ''P-1'') queued_board of
     Inr (Some r, x) \<Rightarrow> x_task_id r = 2 \<and> map_option t_id (dequeue_task (xd_board x)) = Some 2
   | _ \<Rightarrow> False"
proof -
  have q: "ids (xd_board queued_board) = [1]" "xd_refs queued_board = []"
    by (simp_all add: queued_board_def ids_def insert_task_def empty_db_def)
  have "\<exists>x. handle_jira_webhook None 7 sample_trigger (sample_body ''P-1'') queued_board = Inr (Some (sample_ref ''P-1'' 2), x)"
    by (subst handle_sample) (simp_all add: q ref_exists_def fresh_id_def Let_def numeral_2_eq_2)
  then obtain r x where h: "handle_jira_webhook None 7 sample_trigger (sample_body ''P-1'') queued_board = Inr (Some r, x)"
    "x_task_id r = 2" by (auto simp: sample_ref_def)
  have c: "list_all (\<lambda>u. 1 \<le> t_position u) (column (xd_board queued_board) Pending)"
    by (simp add: queued_board_def insert_task_def empty_db_def column_def)
  from webhook_task_overtakes[OF h(1) c] h show ?thesis by simp
qed

definition github_trigger :: trigger where
  "github_trigger = sample_trigger\<lparr>w_source := ''github'', w_actions :=
     [(''comment_output'', JBool True), (''copilot_review'', JBool True),
      (''review_profile_id'', JStr ''00000000-0000-0000-0000-000000000005'')]\<rparr>"

definition github_ref :: ext_ref where
  "github_ref = \<lparr>x_task_id = 1, x_trigger_id = Some 1, x_source = ''github'', x_external_id = ''o/r#3'',
     x_external_url = ''u'', x_parent_id = None, x_metadata = [(''content_node_id'', JStr ''c'')]\<rparr>"

definition sample_callbacks :: callback_world where
  "sample_callbacks = \<lparr>cw_ok = (\<lambda>_. True), cw_has_profile = (\<lambda>_. True), cw_show_uuid = (\<lambda>i. show_nat (int i)), cw_credentials = True\<rparr>"

definition completed_view :: "(string \<times> json) list \<Rightarrow> status_view" where
  "completed_view d = \<lparr>sv_task_id = 1, sv_id_text = ''1'', sv_status = ''completed'',
     sv_output = Some (''```json'' @ [newline] @ json_dumps (JObj d) @ [newline] @ ''```'')\<rparr>"

theorem aborted_run_only_comments_witness:
  "fst (dispatch_github sample_callbacks 5 github_trigger github_ref (completed_view [(''status'', JStr ''aborted'')]) queued_board) =
     [Github_comment (JStr ''c'') (''Errand task aborted (task ID: 1)'' @ blank_line @ ''Reason: No reason provided'')] \<and>
   xd_board (snd (dispatch_github sample_callbacks 5 github_trigger github_ref (completed_view [(''status'', JStr ''aborted'')]) queued_board)) =
     xd_board queued_board"
proof -
  let ?v = "completed_view [(''status'', JStr ''aborted'')]"
  have c: "fst (dispatch_github sample_callbacks 5 github_trigger github_ref ?v queued_board) =
     [Github_comment (JStr ''c'') (''Errand task aborted (task ID: 1)'' @ blank_line @ ''Reason: No reason provided'')]"
    "sv_status ?v = ''completed''" "is_aborted (parse_structured_output (sv_output ?v))" "is_object (parse_structured_output (sv_output ?v))"
    by code_simp+
  from aborted_run_only_comments[OF c(2-4), where w = sample_callbacks and now = 5 and t = github_trigger and r = github_ref and x = queued_board] c(1)
  show ?thesis by (auto split: prod.splits)
qed


text \<open>Every event of a completed task repeats its callbacks, also one that only edits it: a second review
  task is created and the comment is posted again.\<close>

lemma callbacks_repeat:
  "let v = completed_view [(''pr_url'', JStr ''p''), (''branch'', JStr ''b'')];
       x0 = queued_board\<lparr>xd_refs := [github_ref]\<rparr>;
       (calls1, x1) = process_task_event sample_callbacks 9 [github_trigger] v x0;
       (calls2, x2) = process_task_event sample_callbacks 9 [github_trigger] v x1
   in calls1 = calls2 \<and> length calls1 = 1 \<and> length (tasks (xd_board x1)) = 2 \<and> length (tasks (xd_board x2)) = 3"
  by code_simp

subsection \<open>The columns of a project\<close>

text \<open>C35. A configured column is always reached: for a GitHub trigger of a table that the handlers made,
  however it was created and edited, moving an item to the column of an action tries exactly one call,
  with the option its own \<open>column_options\<close> give for that name, and none only where no column is set or
  the option is an empty text.\<close>

theorem configured_columns_resolve:
  assumes "trigger_step\<^sup>*\<^sup>* [] ts" "t \<in> set ts" "w_source t = ''github''"
    and "dict_get (x_metadata r) ''project_node_id'' = Some p" "dict_get (x_metadata r) ''item_node_id'' = Some i"
    and "k = ''column_on_running'' \<or> k = ''column_on_complete''"
  shows "if truthy_at (w_actions t) k then
      (case (dict_get (w_actions t) k, dict_get (w_actions t) ''column_options'', dict_get (w_actions t) ''project_field_id'') of
         (Some (JStr c), Some opts, Some (JStr f)) \<Rightarrow>
           (case json_get opts c of
              Some (JStr v) \<Rightarrow> attempt_calls (column_attempt t r k) = (if v = [] then [] else [Github_status p i (JStr f) (JStr v)])
            | _ \<Rightarrow> False)
       | _ \<Rightarrow> False)
    else attempt_calls (column_attempt t r k) = []"
proof -
  have "trigger_ok t" using trigger_reachable_inv[OF assms(1)] assms(2) by (auto simp: trigger_inv_def list_all_iff)
  then have "column_resolves (w_actions t) k" using assms(3,6) by (auto simp: trigger_ok_def columns_resolve_def)
  then show ?thesis
  proof (cases "truthy_at (w_actions t) k")
    case True
    from column_resolvesD[OF \<open>column_resolves (w_actions t) k\<close> True] obtain c opts f v where
      "dict_get (w_actions t) k = Some (JStr c)" "dict_get (w_actions t) ''column_options'' = Some opts"
      "dict_get (w_actions t) ''project_field_id'' = Some (JStr f)" "json_get opts c = Some (JStr v)" by blast
    then show ?thesis using True assms(4,5)
      by (simp add: column_attempt_def action_value_def json_get_or_null_def attempt_calls_try json_truthy_def Let_def)
  qed (simp add: column_attempt_def attempt_calls_try Let_def split: option.splits)
qed

definition column_trigger :: trigger where
  "column_trigger = \<lparr>w_id = 1, w_name = ''g'', w_enabled = True, w_source = ''github'', w_profile_id = None,
     w_filters = [(''project_node_id'', JStr ''P''), (''trigger_column'', JStr ''Ready'')],
     w_actions = [(''column_on_running'', JStr ''Doing''), (''column_options'', JObj [(''Doing'', JStr ''o1'')]),
       (''project_field_id'', JStr ''F'')], w_task_prompt = None, w_secret = Some ''k''\<rparr>"

theorem configured_columns_resolve_witness:
  "attempt_calls (column_attempt column_trigger
     (github_ref\<lparr>x_metadata := [(''project_node_id'', JStr ''P''), (''item_node_id'', JStr ''I'')]\<rparr>) ''column_on_running'') =
   [Github_status (JStr ''P'') (JStr ''I'') (JStr ''F'') (JStr ''o1'')]"
proof -
  let ?r = "github_ref\<lparr>x_metadata := [(''project_node_id'', JStr ''P''), (''item_node_id'', JStr ''I'')]\<rparr>"
  let ?b = "\<lparr>tc_name = ''g'', tc_source = ''github'', tc_enabled = True, tc_profile_id = None,
    tc_filters = w_filters column_trigger, tc_actions = w_actions column_trigger, tc_task_prompt = None\<rparr>"
  have "create_trigger (\<lambda>_. False) 1 ''k'' ?b [] = Inr (column_trigger, [column_trigger])" by code_simp
  then have "trigger_step [] [column_trigger]" by (rule trigger_step.create[rotated]) simp
  then have r: "trigger_step\<^sup>*\<^sup>* [] [column_trigger]" by (rule r_into_rtranclp)
  have s: "column_trigger \<in> set [column_trigger]" "w_source column_trigger = ''github''"
    "dict_get (x_metadata ?r) ''project_node_id'' = Some (JStr ''P'')" "dict_get (x_metadata ?r) ''item_node_id'' = Some (JStr ''I'')"
    by (simp_all add: column_trigger_def)
  from configured_columns_resolve[OF r s disjI1[OF refl]] show ?thesis
    by (simp add: truthy_at_def json_truthy_def json_get_def column_trigger_def)
qed

end
