(* ===== verification/Plugin_Files.thy ===== *)
theory Plugin_Files
  imports Skill_Sources Py_Json_Dumps "HOL-Library.Sublist"
begin

text \<open>
  Where plugins come from and where they are put: paths and trees of files, and of
  \<open>errand/plugin_marketplace.py\<close> the sanitiser of path segments, the normalisation of sources and the
  fetcher.  A tree holds no symbolic links, so resolving a path is dropping its \<open>..\<close> segments; the
  order of a directory is that of its list.  What a clone or a download yields is a parameter.
\<close>

subsection \<open>Trees of files\<close>

type_synonym path = "string list"

fun node_at :: "node \<Rightarrow> path \<Rightarrow> node option" where
  "node_at n [] = Some n"
| "node_at (File _) (s # p) = None"
| "node_at (Dir es) (s # p) = (case dict_get es s of None \<Rightarrow> None | Some m \<Rightarrow> node_at m p)"

definition is_dir :: "node \<Rightarrow> path \<Rightarrow> bool" where
  "is_dir r p = (case node_at r p of Some (Dir _) \<Rightarrow> True | _ \<Rightarrow> False)"

definition is_file :: "node \<Rightarrow> path \<Rightarrow> bool" where
  "is_file r p = (case node_at r p of Some (File _) \<Rightarrow> True | _ \<Rightarrow> False)"

text \<open>Putting a node at a path, with its parents; \<open>None\<close> where a file is in the way.\<close>

fun write_node :: "node \<Rightarrow> path \<Rightarrow> node \<Rightarrow> node option" where
  "write_node r [] n = Some n"
| "write_node (File _) (s # p) n = None"
| "write_node (Dir es) (s # p) n =
     map_option (\<lambda>m. Dir (dict_set s m es)) (write_node (case dict_get es s of None \<Rightarrow> Dir [] | Some m \<Rightarrow> m) p n)"

fun remove_node :: "node \<Rightarrow> path \<Rightarrow> node" where
  "remove_node r [] = Dir []"
| "remove_node (File c) (s # p) = File c"
| "remove_node (Dir es) (s # p) =
     (if p = [] then Dir (dict_del s es)
      else case dict_get es s of None \<Rightarrow> Dir es | Some m \<Rightarrow> Dir (dict_set s (remove_node m p) es))"

text \<open>Neither path leads into the other.\<close>

definition apart :: "path \<Rightarrow> path \<Rightarrow> bool" where
  "apart p q \<longleftrightarrow> \<not> prefix p q \<and> \<not> prefix q p"

lemma apart_Cons: "apart (s # p) (t # q) \<longleftrightarrow> s \<noteq> t \<or> apart p q"
  by (auto simp: apart_def)

lemma apart_Nil [simp]: "\<not> apart [] q" "\<not> apart q []"
  by (simp_all add: apart_def)

lemma apart_sym: "apart p q \<longleftrightarrow> apart q p"
  by (auto simp: apart_def)

lemma apart_same_length: "length p = length q \<Longrightarrow> apart p q \<longleftrightarrow> p \<noteq> q"
  by (auto simp: apart_def prefix_def)

lemma write_node_same: "write_node r p n = Some r' \<Longrightarrow> node_at r' p = Some n"
  by (induction r p n arbitrary: r' rule: write_node.induct) (auto simp: map_of_dict_set)

lemma write_node_apart: "write_node r p n = Some r' \<Longrightarrow> apart p q \<Longrightarrow> node_at r' q = node_at r q"
proof (induction r p n arbitrary: r' q rule: write_node.induct)
  case (3 es s p n)
  then obtain m where m: "write_node (case dict_get es s of None \<Rightarrow> Dir [] | Some m \<Rightarrow> m) p n = Some m" "r' = Dir (dict_set s m es)"
    by auto
  show ?case
  proof (cases q)
    case (Cons t q')
    show ?thesis
    proof (cases "s = t")
      case True
      then have "apart p q'" using 3(3) Cons by (simp add: apart_Cons)
      then have "node_at m q' = node_at (case dict_get es s of None \<Rightarrow> Dir [] | Some m \<Rightarrow> m) q'" using 3(1) m(1) by blast
      moreover have "q' \<noteq> []" using \<open>apart p q'\<close> by auto
      ultimately show ?thesis using True m(2) Cons by (cases q') (auto simp: map_of_dict_set split: option.splits)
    next
      case False
      then show ?thesis using m(2) Cons by (simp add: map_of_dict_set)
    qed
  qed (use 3(3) in simp)
qed auto

lemma remove_node_apart: "apart p q \<Longrightarrow> node_at (remove_node r p) q = node_at r q"
proof (induction r p arbitrary: q rule: remove_node.induct)
  case (3 es s p)
  then show ?case
    by (cases q) (auto simp: apart_Cons map_of_dict_set map_of_dict_del split: option.splits)
qed auto

lemma remove_node_same: "p \<noteq> [] \<Longrightarrow> node_at (remove_node r p) p = None"
  by (induction r p rule: remove_node.induct) (auto simp: map_of_dict_set map_of_dict_del split: option.splits)

subsection \<open>Paths\<close>

text \<open>\<open>pathlib\<close>: empty and \<open>.\<close> segments vanish, \<open>..\<close> stays, an absolute right side of \<open>/\<close> wins.\<close>

definition path_parts :: "string \<Rightarrow> path" where
  "path_parts s = filter (\<lambda>w. w \<noteq> [] \<and> w \<noteq> ''.'') (split_char CHR ''/'' s)"

definition is_abs :: "string \<Rightarrow> bool" where "is_abs s = starts_with s ''/''"

definition join_path :: "path \<Rightarrow> string \<Rightarrow> path" where
  "join_path base s = (if is_abs s then path_parts s else base @ path_parts s)"

definition resolve_path :: "path \<Rightarrow> path" where
  "resolve_path p = fold (\<lambda>s acc. if s = ''..'' then butlast acc else acc @ [s]) p []"

text \<open>How the system walks a path: every directory on the way must exist.\<close>

fun os_path :: "node \<Rightarrow> path \<Rightarrow> path \<Rightarrow> path option" where
  "os_path r acc [] = (if node_at r acc = None then None else Some acc)"
| "os_path r acc (s # p) =
     (if \<not> is_dir r acc then None else os_path r (if s = ''..'' then butlast acc else acc @ [s]) p)"

subsection \<open>Segments of the cache\<close>

definition safe_char :: "char \<Rightarrow> bool" where
  "safe_char c \<longleftrightarrow> is_digit c \<or> is_lower_az c \<or> is_upper_az c \<or> c = CHR ''.'' \<or> c = CHR ''_'' \<or> c = CHR ''-''"

definition safe_segment :: "string \<Rightarrow> string" where
  "safe_segment name =
     (if name = [] then ''_''
      else
        (let mapped = map (\<lambda>c. if safe_char c then c else CHR ''_'') name;
             stripped = lstrip_char CHR ''.'' mapped;
             cleaned = (if stripped = [] then ''_'' else stripped)
         in if list_all safe_char cleaned then cleaned else ''_''))"

definition CACHE_BASE :: path where "CACHE_BASE = [''var'', ''cache'', ''errand'', ''plugins'']"
definition MARKETPLACE_CACHE :: path where "MARKETPLACE_CACHE = CACHE_BASE @ [''marketplaces'']"
definition INSTALLED_CACHE :: path where "INSTALLED_CACHE = CACHE_BASE @ [''installed'']"

definition marketplace_cache_dir :: "string \<Rightarrow> path" where
  "marketplace_cache_dir name = MARKETPLACE_CACHE @ [safe_segment name]"

definition plugin_install_dir :: "string \<Rightarrow> string \<Rightarrow> string \<Rightarrow> path" where
  "plugin_install_dir scope plugin version = INSTALLED_CACHE @ [safe_segment scope, safe_segment plugin, safe_segment version]"

lemma safe_segment_ok:
  "safe_segment s \<noteq> [] \<and> list_all safe_char (safe_segment s) \<and> hd (safe_segment s) \<noteq> CHR ''.'' \<and>
   safe_segment s \<noteq> ''..'' \<and> CHR ''/'' \<notin> set (safe_segment s)"
proof -
  have c: "safe_char CHR ''_''" "\<not> safe_char CHR ''/''" by code_simp+
  define t where "t = lstrip_char CHR ''.'' (map (\<lambda>c. if safe_char c then c else CHR ''_'') s)"
  have t: "list_all safe_char t"
    by (auto simp: t_def lstrip_char_def list_all_iff c dest!: set_dropWhileD)
  have h: "hd t \<noteq> CHR ''.''" if "t \<noteq> []" using hd_dropWhile[OF that[unfolded t_def lstrip_char_def]]
    unfolding t_def lstrip_char_def by (rule not_sym)
  have e: "safe_segment s = (if s = [] \<or> t = [] then ''_'' else t)"
    using t by (simp add: safe_segment_def t_def[symmetric] Let_def c)
  then have "safe_segment s \<noteq> []" "list_all safe_char (safe_segment s)" "hd (safe_segment s) \<noteq> CHR ''.''"
    using t h by (auto simp: c)
  moreover from this(2) have "CHR ''/'' \<notin> set (safe_segment s)" using c(2) by (auto simp: list_all_iff)
  ultimately show ?thesis by auto
qed

subsection \<open>Sources\<close>

record nsource =
  ns_kind :: "string option"        \<comment> \<open>absent for a plugin row without a source\<close>
  ns_url :: string
  ns_ref :: "string option"
  ns_path :: "string option"
  ns_reason :: "string option"

definition plain_source :: "string \<Rightarrow> string \<Rightarrow> nsource" where
  "plain_source kind url = \<lparr>ns_kind = Some kind, ns_url = url, ns_ref = None, ns_path = None, ns_reason = None\<rparr>"

definition relative_source :: "string \<Rightarrow> nsource" where
  "relative_source p = (plain_source ''relative'' [])\<lparr>ns_path := Some p\<rparr>"

definition unsupported_source :: "string \<Rightarrow> nsource" where
  "unsupported_source why = (plain_source ''unsupported'' [])\<lparr>ns_reason := Some why\<rparr>"

definition starts_any :: "string list \<Rightarrow> string \<Rightarrow> bool" where
  "starts_any ps s = list_ex (starts_with s) ps"

definition looks_like_git_url :: "string \<Rightarrow> bool" where
  "looks_like_git_url url \<longleftrightarrow> ends_with url ''.git'' \<or> starts_any [''git@'', ''ssh://'', ''git://''] url"

definition url_kind :: "string \<Rightarrow> string" where
  "url_kind url = (if looks_like_git_url url then ''git'' else ''http'')"

text \<open>A text field of an object: absent and null are \<open>None\<close>, anything else that is no text fails the
  validation.\<close>

definition field_text :: "(string \<times> json) list \<Rightarrow> string \<Rightarrow> string option option" where
  "field_text d k =
     (case dict_get d k of None \<Rightarrow> Some None | Some JNull \<Rightarrow> Some None | Some (JStr s) \<Rightarrow> Some (Some s) | Some _ \<Rightarrow> None)"

definition text_fields :: "string list \<Rightarrow> (string \<times> json) list \<Rightarrow> bool" where
  "text_fields ks d = list_all (\<lambda>k. field_text d k \<noteq> None) ks"

definition the_text :: "(string \<times> json) list \<Rightarrow> string \<Rightarrow> string option" where
  "the_text d k = (case field_text d k of Some v \<Rightarrow> v | None \<Rightarrow> None)"

definition SOURCE_FIELDS :: "string list" where
  "SOURCE_FIELDS = [''source'', ''repo'', ''url'', ''ref'', ''sha'', ''path'', ''package'', ''version'', ''registry'']"

definition source_of_object :: "(string \<times> json) list \<Rightarrow> json \<Rightarrow> nsource" where
  "source_of_object d src =
     (let get = the_text d; ref = (if truthy (get ''ref'') then get ''ref'' else get ''sha'') in
      if \<not> text_fields SOURCE_FIELDS d then unsupported_source ''validation error''
      else if get ''source'' = Some ''github'' \<and> truthy (get ''repo'') then
        (plain_source ''github'' (the (get ''repo'')))\<lparr>ns_ref := ref\<rparr>
      else if get ''source'' = Some ''url'' \<and> truthy (get ''url'') then
        (plain_source (url_kind (the (get ''url''))) (the (get ''url'')))\<lparr>ns_ref := ref\<rparr>
      else if get ''source'' = Some ''git-subdir'' \<and> truthy (get ''url'') then
        (plain_source ''git'' (the (get ''url'')))\<lparr>ns_ref := ref, ns_path := get ''path''\<rparr>
      else if get ''source'' = Some ''npm'' then unsupported_source ''npm sources not supported''
      else if truthy (get ''path'') then relative_source (the (get ''path''))
      else unsupported_source (''unrecognised source: '' @ py_repr src))"

definition normalize_plugin_source :: "json \<Rightarrow> nsource" where
  "normalize_plugin_source src =
     (case src of
        JStr s \<Rightarrow>
          if starts_any [''./'', ''../''] s then relative_source s
          else if length (filter ((=) CHR ''/'') s) = 1 \<and> \<not> contains_str s ''://'' then plain_source ''github'' s
          else if starts_any [''git@'', ''ssh://'', ''git://''] s then plain_source ''git'' s
          else if starts_any [''http://'', ''https://''] s then plain_source (url_kind s) s
          else if is_abs s then plain_source ''local'' s
          else relative_source s
      | JObj d \<Rightarrow> source_of_object d src
      | _ \<Rightarrow> unsupported_source (''unrecognised source: '' @ py_repr src))"

definition before_hash :: "string \<Rightarrow> string" where
  "before_hash s = (case find_char CHR ''#'' s of None \<Rightarrow> s | Some i \<Rightarrow> take i s)"

definition github_clone_url :: "string \<Rightarrow> string" where
  "github_clone_url short = ''https://github.com/'' @ before_hash short @ ''.git''"

definition split_ref :: "string \<Rightarrow> string option \<Rightarrow> string \<times> string option" where
  "split_ref s ref =
     (if truthy ref then (s, ref)
      else case find_char CHR ''#'' s of
        None \<Rightarrow> (s, None)
      | Some i \<Rightarrow> (take i s, if drop (Suc i) s = [] then None else Some (drop (Suc i) s)))"

subsection \<open>Operations on the disk\<close>

text \<open>Failures by the class that is raised: \<open>PluginInstallError\<close>, \<open>MarketplaceFetchError\<close>, \<open>RuntimeError\<close>
  or any other.  A failing operation leaves the disk as far as it came.\<close>

datatype fetch_error = Install_error string | Fetch_error string | Runtime_error string | Other_error

type_synonym 'a disk_op = "node \<Rightarrow> (fetch_error + 'a) \<times> node"

definition ret :: "'a \<Rightarrow> 'a disk_op" where "ret x r = (Inr x, r)"
definition fail :: "fetch_error \<Rightarrow> 'a disk_op" where "fail e r = (Inl e, r)"

definition and_then_op :: "unit disk_op \<Rightarrow> 'b disk_op \<Rightarrow> 'b disk_op" where
  "and_then_op f g r = (case f r of (Inl e, r') \<Rightarrow> (Inl e, r') | (Inr _, r') \<Rightarrow> g r')"

definition put_tree :: "path \<Rightarrow> node \<Rightarrow> unit disk_op" where
  "put_tree p n r = (case write_node r p n of None \<Rightarrow> (Inl Other_error, r) | Some r' \<Rightarrow> (Inr (), r'))"

text \<open>\<open>mkdir(parents=True, exist_ok=True)\<close> and \<open>shutil.rmtree\<close>.\<close>

definition make_dirs :: "path \<Rightarrow> unit disk_op" where
  "make_dirs p r = (case node_at r p of None \<Rightarrow> put_tree p (Dir []) r | Some (Dir _) \<Rightarrow> ret () r | Some (File _) \<Rightarrow> fail Other_error r)"

definition remove_tree :: "path \<Rightarrow> unit disk_op" where
  "remove_tree p r = (if is_dir r p then (Inr (), remove_node r p) else (Inl Other_error, r))"

definition remove_if_there :: "path \<Rightarrow> unit disk_op" where
  "remove_if_there p r = (if node_at r p = None then (Inr (), r) else remove_tree p r)"

text \<open>\<open>shutil.move\<close> of a directory, named \<open>name\<close> where it is moved from: into a directory that is there.\<close>

definition move_tree :: "path \<Rightarrow> string \<Rightarrow> path \<Rightarrow> unit disk_op" where
  "move_tree src name dst r =
     (let real = (if is_dir r dst then dst @ [name] else dst) in
      case node_at r src of
        None \<Rightarrow> (Inl Other_error, r)
      | Some n \<Rightarrow>
          if node_at r real \<noteq> None \<or> prefix src real then (Inl Other_error, r)
          else put_tree real n (remove_node r src))"

subsection \<open>The fetcher\<close>

text \<open>What a clone of a repository at a ref with a key yields, or the text of the failure; what a GET with a
  token yields; the token in an encrypted text, absent also when it cannot be decrypted; the working directory.\<close>

record plugin_world =
  pw_git :: "string \<Rightarrow> string option \<Rightarrow> string option \<Rightarrow> string + (string \<times> node) list"
  pw_http :: "string \<Rightarrow> string option \<Rightarrow> string + string"
  pw_token :: "string \<Rightarrow> string option"
  pw_encrypt :: "string \<Rightarrow> string"
  pw_cwd :: path

definition ALLOWED_GIT_URL_PREFIXES :: "string list" where
  "ALLOWED_GIT_URL_PREFIXES = [''https://'', ''http://'', ''ssh://'', ''git://'', ''git@'']"

definition repr_ref :: "string option \<Rightarrow> string" where
  "repr_ref r = (case r of None \<Rightarrow> ''None'' | Some s \<Rightarrow> repr_str s)"

definition prefixes_text :: "string list \<Rightarrow> string" where
  "prefixes_text ps = ''('' @ join '', '' (map repr_str ps) @ '')''"

definition dashed :: "string \<Rightarrow> bool" where "dashed s = starts_with s ''-''"

definition git_clone :: "plugin_world \<Rightarrow> string \<Rightarrow> string option \<Rightarrow> path \<Rightarrow> string option \<Rightarrow> unit disk_op" where
  "git_clone w url ref dest key =
     (if dashed url \<or> (case ref of None \<Rightarrow> False | Some r \<Rightarrow> dashed r) then
        fail (Runtime_error (''refusing suspicious git argument: url='' @ repr_str url @ '' ref='' @ repr_ref ref))
      else if \<not> starts_any ALLOWED_GIT_URL_PREFIXES url then
        fail (Runtime_error (''refusing git URL with disallowed scheme: '' @ repr_str url @ '' (allowed: '' @
          prefixes_text ALLOWED_GIT_URL_PREFIXES @ '')''))
      else and_then_op (remove_if_there dest) (and_then_op (make_dirs (butlast dest))
        (case pw_git w url (if truthy ref then ref else None) key of
           Inl e \<Rightarrow> fail (Runtime_error (''git clone failed: '' @ e))
         | Inr es \<Rightarrow> put_tree dest (Dir es))))"

definition ALLOWED_HTTP_SCHEMES :: "string list" where "ALLOWED_HTTP_SCHEMES = [''https://'', ''http://'']"

definition validate_http_url :: "string \<Rightarrow> fetch_error + string" where
  "validate_http_url url =
     (if url = [] then Inl (Fetch_error ''http url is required'')
      else if \<not> starts_any ALLOWED_HTTP_SCHEMES url then
        Inl (Fetch_error (''refusing http URL with disallowed scheme: '' @ repr_str url @ '' (allowed: '' @
          prefixes_text ALLOWED_HTTP_SCHEMES @ '')''))
      else Inr url)"

record marketplace =
  mp_id :: nat
  mp_name :: string
  mp_source_type :: string
  mp_source_url :: string
  mp_ref :: "string option"
  mp_token :: "string option"
  mp_enabled :: bool
  mp_predefined :: bool
  mp_manifest :: "json option"
  mp_synced_at :: "time option"
  mp_sync_status :: "string option"
  mp_sync_error :: "string option"

text \<open>The subdirectory of a clone takes the place of the clone.\<close>

definition take_subdir :: "path \<Rightarrow> string \<Rightarrow> unit disk_op" where
  "take_subdir dest s r =
     (let sub = join_path dest s; tmp = butlast dest @ [List.last dest @ ''.tmp''] in
      case os_path r [] sub of
        None \<Rightarrow> ret () r
      | Some p \<Rightarrow>
          if \<not> is_dir r p then ret () r
          else and_then_op (move_tree p (if sub = [] then [] else List.last sub) tmp)
            (and_then_op (remove_tree dest) (move_tree tmp (List.last tmp) dest)) r)"

definition fetch_http :: "plugin_world \<Rightarrow> string \<Rightarrow> path \<Rightarrow> string option \<Rightarrow> unit disk_op" where
  "fetch_http w url dest bearer =
     (case validate_http_url url of
        Inl e \<Rightarrow> fail e
      | Inr u \<Rightarrow>
          (case pw_http w u bearer of
             Inl _ \<Rightarrow> fail Other_error
           | Inr content \<Rightarrow> put_tree dest (Dir [(''.claude-plugin'', Dir [(''plugin.json'', File content)])])))"

definition fetch_local :: "plugin_world \<Rightarrow> string \<Rightarrow> path \<Rightarrow> unit disk_op" where
  "fetch_local w url dest r =
     (case os_path r [] (join_path (pw_cwd w) url) of
        None \<Rightarrow> fail (Install_error (''local plugin path missing: '' @ url)) r
      | Some p \<Rightarrow>
          (case node_at r p of
             Some (Dir es) \<Rightarrow> put_tree dest (Dir es) r
           | Some (File c) \<Rightarrow> put_tree dest (Dir [(List.last p, File c)]) r
           | None \<Rightarrow> fail Other_error r))"

definition market_base :: "plugin_world \<Rightarrow> marketplace \<Rightarrow> path" where
  "market_base w m =
     (if mp_source_type m = ''local'' then join_path (pw_cwd w) (mp_source_url m) else marketplace_cache_dir (mp_name m))"

definition fetch_relative :: "plugin_world \<Rightarrow> string option \<Rightarrow> marketplace option \<Rightarrow> path \<Rightarrow> unit disk_op" where
  "fetch_relative w p market dest r =
     (case market of
        None \<Rightarrow> fail (Install_error ''relative plugin source requires a marketplace context'') r
      | Some m \<Rightarrow>
          if truthy p \<and> ''..'' \<in> set (path_parts (the p)) then
            fail (Install_error (''relative plugin path may not contain '' @ repr_str ''..'' @ '' segments: '' @ repr_ref p)) r
          else
            (let base = resolve_path (market_base w m);
                 sub = (if truthy p then resolve_path (join_path base (the p)) else base)
             in if \<not> prefix base sub then
                  fail (Install_error (''relative plugin path escapes marketplace base: '' @ repr_ref p)) r
                else
                  (case node_at r sub of
                     Some (Dir es) \<Rightarrow> put_tree dest (Dir es) r
                   | _ \<Rightarrow> fail (Install_error (''relative plugin path does not exist: /'' @ join ''/'' sub)) r)))"

definition fetch_plugin_into ::
    "plugin_world \<Rightarrow> nsource \<Rightarrow> path \<Rightarrow> string option \<Rightarrow> string option \<Rightarrow> marketplace option \<Rightarrow> unit disk_op" where
  "fetch_plugin_into w src dest bearer key market =
     and_then_op (remove_if_there dest) (and_then_op (make_dirs (butlast dest))
       (let k = ns_kind src in
        if k = Some ''github'' then git_clone w (github_clone_url (ns_url src)) (ns_ref src) dest key
        else if k = Some ''git'' then
          and_then_op (git_clone w (ns_url src) (ns_ref src) dest key)
            (if truthy (ns_path src) then take_subdir dest (the (ns_path src)) else ret ())
        else if k = Some ''http'' then fetch_http w (ns_url src) dest bearer
        else if k = Some ''local'' then fetch_local w (ns_url src) dest
        else if k = Some ''relative'' then fetch_relative w (ns_path src) market dest
        else fail (Install_error (''unsupported plugin source: '' @ (case k of None \<Rightarrow> ''None'' | Some s \<Rightarrow> s)))))"

subsection \<open>What a fetch leaves alone\<close>

definition only_touches :: "path \<Rightarrow> 'a disk_op \<Rightarrow> bool" where
  "only_touches p f \<longleftrightarrow> (\<forall>r q. apart p q \<longrightarrow> node_at (snd (f r)) q = node_at r q)"

named_theorems touches "operations that touch nothing apart from a path"

lemma only_touchesD: "only_touches p f \<Longrightarrow> apart p q \<Longrightarrow> node_at (snd (f r)) q = node_at r q"
  by (simp add: only_touches_def)

lemma touches_ret [touches]: "only_touches p (ret x)" "only_touches p (fail e)"
  by (simp_all add: only_touches_def ret_def fail_def)

lemma touches_then [touches]: "only_touches p f \<Longrightarrow> only_touches p g \<Longrightarrow> only_touches p (and_then_op f g)"
  unfolding only_touches_def and_then_op_def
  by (auto split: prod.split sum.split) (metis snd_conv)+

lemma touches_put [touches]: "only_touches p (put_tree p n)"
  by (auto simp: only_touches_def put_tree_def write_node_apart split: option.split)

lemma apart_extend: "apart p q \<Longrightarrow> prefix p p' \<Longrightarrow> apart p' q"
  by (auto simp: apart_def dest: prefix_order.trans) (metis prefix_same_cases)

lemma touches_remove [touches]: "only_touches p (remove_tree p)" "only_touches p (remove_if_there p)"
  by (auto simp: only_touches_def remove_if_there_def remove_tree_def remove_node_apart)


lemma node_at_append: "node_at r (p @ q) = Option.bind (node_at r p) (\<lambda>n. node_at n q)"
  by (induction r p rule: node_at.induct) (auto split: option.splits)

lemma touches_make_dirs [touches]:
  assumes "p \<noteq> []"
  shows "only_touches p (make_dirs (butlast p))"
proof -
  have "node_at r' q = node_at r q"
    if w: "write_node r (butlast p) (Dir []) = Some r'" and none: "node_at r (butlast p) = None" and a: "apart p q" for r r' q
  proof (cases "apart (butlast p) q")
    case False
    moreover have "\<not> prefix q (butlast p)" using a by (auto simp: apart_def dest: prefix_order.trans[OF _ prefixeq_butlast])
    ultimately obtain y where y: "q = butlast p @ y" "y \<noteq> []" by (auto simp: apart_def prefix_def)
    then have "node_at r q = None" using none by (simp add: node_at_append)
    moreover have "node_at r' q = None" using write_node_same[OF w] y by (cases y) (simp_all add: node_at_append)
    ultimately show ?thesis by simp
  qed (rule write_node_apart[OF w])
  then show ?thesis
    by (auto simp: only_touches_def make_dirs_def put_tree_def ret_def fail_def split: option.splits node.splits)
qed

lemma touches_clone [touches]: "dest \<noteq> [] \<Longrightarrow> only_touches dest (git_clone w url ref dest key)"
  by (auto simp: git_clone_def intro!: touches split: sum.split)

lemma touches_http [touches]: "only_touches dest (fetch_http w url dest bearer)"
  by (auto simp: fetch_http_def intro!: touches split: sum.split)

lemma touches_local [touches]: "only_touches dest (fetch_local w url dest)"
  using touches_put[of dest] by (auto simp: only_touches_def fetch_local_def fail_def split: option.split node.split)

lemma touches_relative [touches]: "only_touches dest (fetch_relative w p market dest)"
  using touches_put[of dest] by (auto simp: only_touches_def fetch_relative_def fail_def Let_def split: option.split node.split)

lemma touches_fetch:
  assumes "dest \<noteq> []" "ns_kind src = Some ''git'' \<Longrightarrow> \<not> truthy (ns_path src)"
  shows "only_touches dest (fetch_plugin_into w src dest bearer key market)"
  using assms unfolding fetch_plugin_into_def Let_def by (intro touches) (auto intro!: touches)

lemma put_tree_ok: "put_tree p n r = (Inr u, r') \<Longrightarrow> node_at r' p = Some n"
  by (auto simp: put_tree_def write_node_same split: option.splits)

lemma and_then_ok: "and_then_op f g r = (Inr y, r') \<Longrightarrow> (\<And>r1 u. f r = (Inr u, r1) \<Longrightarrow> g r1 = (Inr y, r') \<Longrightarrow> P) \<Longrightarrow> P"
  by (auto simp: and_then_op_def split: prod.splits sum.splits)

lemma clone_ok: "git_clone w url ref dest key r = (Inr u, r') \<Longrightarrow> is_dir r' dest"
  by (auto simp: git_clone_def fail_def is_dir_def dest!: put_tree_ok elim!: and_then_ok split: if_splits sum.splits)

text \<open>A subdirectory that stays below the clone, and what taking it touches.\<close>

definition safe_subdir :: "nsource \<Rightarrow> bool" where
  "safe_subdir src \<longleftrightarrow>
     (if ns_kind src = Some ''git'' \<and> truthy (ns_path src) then
        \<not> is_abs (the (ns_path src)) \<and> ''..'' \<notin> set (path_parts (the (ns_path src))) else True)"

lemma touches_mono: "only_touches p f \<Longrightarrow> prefix b p \<Longrightarrow> only_touches b f"
  by (auto simp: only_touches_def dest: apart_extend)

lemma os_path_plain: "''..'' \<notin> set p \<Longrightarrow> os_path r acc p = Some x \<Longrightarrow> x = acc @ p"
  by (induction p arbitrary: acc) (auto split: if_splits, metis append.assoc append_Cons append_Nil)

lemma touches_move:
  assumes "prefix b src" "prefix b dst"
  shows "only_touches b (move_tree src name dst)"
proof -
  have "node_at (snd (move_tree src name dst r)) q = node_at r q" if a: "apart b q" for r q
  proof -
    define real where "real = (if is_dir r dst then dst @ [name] else dst)"
    have "apart real q" using apart_extend[OF a] assms(2) by (auto simp: real_def)
    moreover have "apart src q" using apart_extend[OF a] assms(1) by simp
    ultimately have "node_at (snd (put_tree real n (remove_node r src))) q = node_at r q" for n
      using only_touchesD[OF touches_put[of real n], of q "remove_node r src"] by (simp add: remove_node_apart)
    then show ?thesis by (auto simp: move_tree_def Let_def real_def[symmetric] split: option.split)
  qed
  then show ?thesis by (simp add: only_touches_def)
qed

lemma touches_subdir:
  assumes "\<not> is_abs s" "''..'' \<notin> set (path_parts s)" "''..'' \<notin> set dest" "dest \<noteq> []"
  shows "only_touches (butlast dest) (take_subdir dest s)"
proof -
  have j: "join_path dest s = dest @ path_parts s" using assms(1) by (simp add: join_path_def)
  have pre: "prefix (butlast dest) (dest @ path_parts s)" "prefix (butlast dest) dest"
    by (metis prefix_order.trans prefixI prefixeq_butlast, rule prefixeq_butlast)
  have tmp: "prefix (butlast dest) (butlast dest @ x)" for x by (simp add: prefix_def)
  have "node_at (snd (take_subdir dest s r)) q = node_at r q" if a: "apart (butlast dest) q" for r q
  proof (cases "os_path r [] (dest @ path_parts s)")
    case (Some p)
    then have p: "p = dest @ path_parts s" using os_path_plain[of "dest @ path_parts s" r "[]" p] assms(2,3) by simp
    have "only_touches (butlast dest) (and_then_op (move_tree p nm (butlast dest @ x))
        (and_then_op (remove_tree dest) (move_tree (butlast dest @ x) nm' dest)))" for nm nm' x
      unfolding p by (intro touches_then touches_move pre tmp touches_mono[OF touches_remove(1) pre(2)])
    then have "node_at (snd (and_then_op (move_tree p nm (butlast dest @ x))
        (and_then_op (remove_tree dest) (move_tree (butlast dest @ x) nm' dest)) r)) q = node_at r q" for nm nm' x
      using only_touchesD[OF _ a] by blast
    then show ?thesis using Some assms(4) by (simp add: take_subdir_def j Let_def ret_def)
  qed (simp add: take_subdir_def j ret_def)
  then show ?thesis by (simp add: only_touches_def)
qed

lemma touches_fetch_safe:
  assumes "safe_subdir src" "dest \<noteq> []" "''..'' \<notin> set dest" "prefix b (butlast dest)"
  shows "only_touches b (fetch_plugin_into w src dest bearer key market)"
proof (cases "ns_kind src = Some ''git'' \<and> truthy (ns_path src)")
  case True
  then have sub: "only_touches b (take_subdir dest (the (ns_path src)))"
    using touches_mono[OF touches_subdir assms(4)] assms(1-3) by (simp add: safe_subdir_def)
  have b: "prefix b dest" using assms(4) prefixeq_butlast by (rule prefix_order.trans)
  show ?thesis
    using True by (simp add: fetch_plugin_into_def Let_def sub)
      (intro touches_then sub touches_mono[OF touches_remove(2) b] touches_mono[OF touches_make_dirs b] touches_mono[OF touches_clone b] assms(2))
next
  case False
  then show ?thesis using touches_mono[OF touches_fetch] assms(2,4) prefixeq_butlast[of dest] by (metis prefix_order.trans)
qed

lemma install_dir_plain:
  "plugin_install_dir a b c \<noteq> []" "''..'' \<notin> set (plugin_install_dir a b c)" "length (plugin_install_dir a b c) = 8"
  "prefix CACHE_BASE (butlast (plugin_install_dir a b c))" "prefix CACHE_BASE (plugin_install_dir a b c)"
  using safe_segment_ok[of a] safe_segment_ok[of b] safe_segment_ok[of c]
  by (auto simp: plugin_install_dir_def INSTALLED_CACHE_def CACHE_BASE_def prefix_def butlast_append)

end
