(* ===== verification/Plugins.thy ===== *)
theory Plugins
  imports Plugin_Files Triggers
begin

text \<open>
  Plugins and their marketplaces: the rest of \<open>errand/plugin_marketplace.py\<close> and the handlers of
  \<open>errand/plugin_routes.py\<close>.  The text a JSON or schema error explains itself with, the conflicts a
  run notes on a plugin and the endless loop around the poller are left out.
\<close>

subsection \<open>Schemas\<close>

record market_entry =
  me_name :: string
  me_description :: "string option"
  me_version :: "string option"
  me_display_name :: "string option"
  me_keywords :: "string list"
  me_category :: "string option"
  me_source :: json

text \<open>A field with an alias, also taken by its own name.\<close>

definition aliased :: "string \<Rightarrow> string \<Rightarrow> (string \<times> json) list \<Rightarrow> string" where
  "aliased alias name d = (if dict_get d alias \<noteq> None then alias else name)"

definition is_text :: "json option \<Rightarrow> bool" where
  "is_text v = (case v of Some (JStr _) \<Rightarrow> True | _ \<Rightarrow> False)"

definition text_list :: "json option \<Rightarrow> string list option" where
  "text_list v =
     (case v of
        None \<Rightarrow> Some []
      | Some (JArr xs) \<Rightarrow>
          (if list_all (\<lambda>x. is_text (Some x)) xs then Some (map (\<lambda>x. case x of JStr s \<Rightarrow> s | _ \<Rightarrow> []) xs) else None)
      | _ \<Rightarrow> None)"

definition parse_entry :: "json \<Rightarrow> market_entry option" where
  "parse_entry j =
     (case j of
        JObj d \<Rightarrow>
          (let shown = aliased ''displayName'' ''display_name'' d in
           if is_text (dict_get d ''name'') \<and> text_fields [''description'', ''version'', shown, ''category''] d \<and>
              dict_get d ''source'' \<noteq> None
           then map_option (\<lambda>ks.
             \<lparr>me_name = the (the_text d ''name''), me_description = the_text d ''description'', me_version = the_text d ''version'',
               me_display_name = the_text d shown, me_keywords = ks, me_category = the_text d ''category'',
               me_source = the (dict_get d ''source'')\<rparr>) (text_list (dict_get d ''keywords''))
           else None)
      | _ \<Rightarrow> None)"

fun all_some :: "'a option list \<Rightarrow> 'a list option" where
  "all_some [] = Some []"
| "all_some (x # xs) = (case (x, all_some xs) of (Some y, Some ys) \<Rightarrow> Some (y # ys) | _ \<Rightarrow> None)"

text \<open>The entries of a marketplace's manifest; \<open>None\<close> for a validation error.\<close>

definition parse_market :: "json \<Rightarrow> market_entry list option" where
  "parse_market j =
     (case j of
        JObj d \<Rightarrow>
          (if is_text (dict_get d ''name'') \<and> text_fields [''description'', ''version''] d \<and>
              (case dict_get d ''owner'' of None \<Rightarrow> True | Some JNull \<Rightarrow> True | Some (JObj _) \<Rightarrow> True | _ \<Rightarrow> False)
           then (case dict_get d ''plugins'' of
               None \<Rightarrow> Some []
             | Some (JArr xs) \<Rightarrow> all_some (map parse_entry xs)
             | _ \<Rightarrow> None)
           else None)
      | _ \<Rightarrow> None)"

text \<open>A plugin's manifest as it is dumped again: its fields by their alias, and what else it holds.\<close>

definition PLUGIN_FIELDS :: "(string \<times> string) list" where
  "PLUGIN_FIELDS =
     [(''name'', ''name''), (''displayName'', ''display_name''), (''version'', ''version''), (''description'', ''description''),
      (''skills'', ''skills''), (''commands'', ''commands''), (''agents'', ''agents''), (''hooks'', ''hooks''),
      (''mcpServers'', ''mcp_servers''), (''lspServers'', ''lsp_servers'')]"

definition parse_plugin_manifest :: "json \<Rightarrow> json option" where
  "parse_plugin_manifest j =
     (case j of
        JObj d \<Rightarrow>
          (if is_text (dict_get d ''name'') \<and>
              text_fields [aliased ''displayName'' ''display_name'' d, ''version'', ''description''] d
           then Some (JObj (map (\<lambda>(a, n). (a, json_get_or_null j (aliased a n d))) PLUGIN_FIELDS @
             filter (\<lambda>(k, _). k \<notin> fst ` set PLUGIN_FIELDS \<and> k \<notin> snd ` set PLUGIN_FIELDS) d))
           else None)
      | _ \<Rightarrow> None)"

subsection \<open>Rows and the store\<close>

record plugin =
  pl_id :: nat
  pl_marketplace_id :: "nat option"
  pl_name :: string
  pl_source_type :: "string option"
  pl_source_url :: "string option"
  pl_ref :: "string option"
  pl_token :: "string option"
  pl_version :: string
  pl_latest :: "string option"
  pl_enabled :: bool
  pl_manifest :: "json option"
  pl_ignored :: "(string \<times> nat) list"
  pl_checked_at :: "time option"

record plugin_store =
  ps_markets :: "marketplace list"
  ps_plugins :: "plugin list"
  ps_disk :: node

definition market_by_id :: "nat option \<Rightarrow> plugin_store \<Rightarrow> marketplace option" where
  "market_by_id i s = (case i of None \<Rightarrow> None | Some n \<Rightarrow> find (\<lambda>m. mp_id m = n) (ps_markets s))"

definition plugin_by_id :: "nat \<Rightarrow> plugin_store \<Rightarrow> plugin option" where
  "plugin_by_id i s = find (\<lambda>p. pl_id p = i) (ps_plugins s)"

definition set_plugin :: "plugin \<Rightarrow> plugin_store \<Rightarrow> plugin_store" where
  "set_plugin p s = s\<lparr>ps_plugins := map (\<lambda>q. if pl_id q = pl_id p then p else q) (ps_plugins s)\<rparr>"

text \<open>The marketplace's name, or \<open>manual\<close>.\<close>

definition scope_of :: "marketplace option \<Rightarrow> string" where
  "scope_of m = (case m of None \<Rightarrow> ''manual'' | Some k \<Rightarrow> mp_name k)"

definition resolve_plugin_scopes :: "plugin list \<Rightarrow> plugin_store \<Rightarrow> (plugin \<times> string) list" where
  "resolve_plugin_scopes ps s = map (\<lambda>p. (p, scope_of (market_by_id (pl_marketplace_id p) s))) ps"

definition install_dir_of :: "plugin \<Rightarrow> plugin_store \<Rightarrow> path" where
  "install_dir_of p s = plugin_install_dir (scope_of (market_by_id (pl_marketplace_id p) s)) (pl_name p) (pl_version p)"

subsection \<open>Reading an installed plugin\<close>

definition looks_like_plugin :: "node \<Rightarrow> bool" where
  "looks_like_plugin n \<longleftrightarrow> is_file n [''.claude-plugin'', ''plugin.json''] \<or> is_dir n [''skills''] \<or> is_file n [''.mcp.json'']"

text \<open>\<open>None\<close> when the candidate is no directory, which raises.\<close>

definition detect_plugin_root :: "node option \<Rightarrow> node option" where
  "detect_plugin_root c =
     (case c of
        Some (Dir es) \<Rightarrow>
          if looks_like_plugin (Dir es) then c
          else (case find (\<lambda>(_, n). is_dir n [] \<and> looks_like_plugin n) es of Some (_, n) \<Rightarrow> Some n | None \<Rightarrow> c)
      | _ \<Rightarrow> None)"

definition read_plugin_manifest :: "node \<Rightarrow> fetch_error + json option" where
  "read_plugin_manifest tree =
     (case node_at tree [''.claude-plugin'', ''plugin.json''] of
        Some (File c) \<Rightarrow>
          (case json_loads c of
             None \<Rightarrow> Inl (Install_error ''plugin.json malformed'')
           | Some j \<Rightarrow>
               (case parse_plugin_manifest j of None \<Rightarrow> Inl (Install_error ''plugin.json schema error'') | Some m \<Rightarrow> Inr (Some m)))
      | _ \<Rightarrow> Inr None)"

definition IGNORED_ARTIFACT_DIRS :: "string list" where
  "IGNORED_ARTIFACT_DIRS =
     [''commands'', ''agents'', ''hooks'', ''lspServers'', ''themes'', ''output-styles'', ''monitors'', ''bin'']"

fun count_files :: "node \<Rightarrow> nat" where
  "count_files (File _) = 1"
| "count_files (Dir es) = sum_list (map (count_files \<circ> snd) es)"

definition count_ignored_artifacts :: "node \<Rightarrow> (string \<times> nat) list" where
  "count_ignored_artifacts tree =
     filter (\<lambda>(_, n). n \<noteq> 0) (map (\<lambda>k. (k, case node_at tree [k] of Some (Dir es) \<Rightarrow> count_files (Dir es) | _ \<Rightarrow> 0))
       IGNORED_ARTIFACT_DIRS)"

definition parse_plugin_skills :: "node \<Rightarrow> path \<Rightarrow> agent_skill list option" where
  "parse_plugin_skills disk dir =
     map_option (\<lambda>tree. parse_skills_from_directory (node_at tree [''skills''])) (detect_plugin_root (node_at disk dir))"

definition servers_in :: "json \<Rightarrow> (string \<times> json) list option" where
  "servers_in j = (case json_get j ''mcpServers'' of Some (JObj d) \<Rightarrow> Some d | _ \<Rightarrow> None)"

text \<open>Inline servers win over the file; a file that holds none under the key is the map itself.  A
  manifest that is no object raises (\<open>None\<close>).\<close>

definition servers_of_root :: "node \<Rightarrow> (string \<times> json) list option" where
  "servers_of_root tree =
     (let file = (case node_at tree [''.mcp.json''] of
          Some (File c) \<Rightarrow>
            (case json_loads c of
               Some (JObj d) \<Rightarrow> (case servers_in (JObj d) of Some ms \<Rightarrow> ms | None \<Rightarrow> d)
             | _ \<Rightarrow> [])
        | _ \<Rightarrow> [])
      in case node_at tree [''.claude-plugin'', ''plugin.json''] of
           Some (File c) \<Rightarrow>
             (case json_loads c of
                None \<Rightarrow> Some file
              | Some (JObj d) \<Rightarrow> Some (case servers_in (JObj d) of Some ms \<Rightarrow> ms | None \<Rightarrow> file)
              | Some _ \<Rightarrow> None)
         | _ \<Rightarrow> Some file)"

definition parse_plugin_mcp_servers :: "node \<Rightarrow> path \<Rightarrow> (string \<times> json) list option" where
  "parse_plugin_mcp_servers disk dir = Option.bind (detect_plugin_root (node_at disk dir)) servers_of_root"

definition namespaced :: "string \<Rightarrow> string \<Rightarrow> string" where
  "namespaced plugin server = plugin @ ''__'' @ server"

definition namespaced_mcp_servers :: "node \<Rightarrow> path \<Rightarrow> string \<Rightarrow> (string \<times> json) list option" where
  "namespaced_mcp_servers disk dir name =
     map_option (map (\<lambda>(n, cfg). (namespaced name n, cfg))) (parse_plugin_mcp_servers disk dir)"

subsection \<open>Installing\<close>

definition or_else :: "string option \<Rightarrow> string option \<Rightarrow> string option" where
  "or_else a b = (if truthy a then a else b)"

definition resolve_marketplace_plugin :: "marketplace \<Rightarrow> string \<Rightarrow> market_entry option" where
  "resolve_marketplace_plugin m name =
     (case mp_manifest m of
        None \<Rightarrow> None
      | Some raw \<Rightarrow>
          if \<not> json_truthy raw then None
          else case parse_market raw of None \<Rightarrow> None | Some es \<Rightarrow> find (\<lambda>e. me_name e = name) es)"

definition market_token :: "plugin_world \<Rightarrow> marketplace \<Rightarrow> string option" where
  "market_token w m = (if truthy (mp_token m) then pw_token w (the (mp_token m)) else None)"

record install_request =
  ir_source_type :: "string option"
  ir_source_url :: "string option"
  ir_ref :: "string option"
  ir_token :: "string option"

text \<open>Where a plugin comes from, the version it gets, its scope and the token to fetch it with.\<close>

definition install_source ::
    "plugin_world \<Rightarrow> marketplace option \<Rightarrow> string \<Rightarrow> string option \<Rightarrow> install_request \<Rightarrow>
     fetch_error + nsource \<times> string \<times> string option" where
  "install_source w market name version d =
     (case market of
        Some m \<Rightarrow>
          (case resolve_marketplace_plugin m name of
             None \<Rightarrow> Inl (Install_error (''plugin '' @ sq name @ '' not found in marketplace '' @ sq (mp_name m)))
           | Some e \<Rightarrow>
               (let src = normalize_plugin_source (me_source e) in
                if ns_kind src = Some ''unsupported'' then
                  Inl (Install_error (''plugin source unsupported: '' @ (case ns_reason src of None \<Rightarrow> ''None'' | Some s \<Rightarrow> s)))
                else Inr (src, the (or_else version (or_else (me_version e) (Some ''latest''))), market_token w m)))
      | None \<Rightarrow>
          if \<not> truthy (ir_source_type d) \<or> \<not> truthy (ir_source_url d) then
            Inl (Install_error ''direct install requires source_type and source_url'')
          else if the (ir_source_type d) \<notin> {''github'', ''git'', ''http'', ''local''} then
            Inl (Install_error (''unsupported direct source_type: '' @ the (ir_source_type d)))
          else
            Inr ((plain_source (the (ir_source_type d)) (the (ir_source_url d)))\<lparr>ns_ref := ir_ref d\<rparr>,
              the (or_else version (or_else (ir_ref d) (Some ''latest''))), ir_token d))"

text \<open>What is read of the tree after a fetch: the manifest and the artifacts that are ignored.\<close>

definition inspect_tree :: "node \<Rightarrow> path \<Rightarrow> fetch_error + json option \<times> (string \<times> nat) list" where
  "inspect_tree disk dir =
     (case detect_plugin_root (node_at disk dir) of
        None \<Rightarrow> Inl Other_error
      | Some tree \<Rightarrow>
          (case read_plugin_manifest tree of Inl e \<Rightarrow> Inl e | Inr m \<Rightarrow> Inr (m, count_ignored_artifacts tree)))"

definition fetch_and_inspect ::
    "plugin_world \<Rightarrow> nsource \<Rightarrow> path \<Rightarrow> string option \<Rightarrow> string option \<Rightarrow> marketplace option \<Rightarrow>
     (json option \<times> (string \<times> nat) list) disk_op" where
  "fetch_and_inspect w src dir bearer key market r =
     (case fetch_plugin_into w src dir bearer key market r of
        (Inl e, r') \<Rightarrow> (Inl e, r') | (Inr _, r') \<Rightarrow> (inspect_tree r' dir, r'))"

definition installed_row ::
    "plugin_world \<Rightarrow> nat \<Rightarrow> marketplace option \<Rightarrow> string \<Rightarrow> string \<Rightarrow> nsource \<Rightarrow> install_request \<Rightarrow> json option \<Rightarrow>
     (string \<times> nat) list \<Rightarrow> plugin" where
  "installed_row w i market name version src d m ignored =
     \<lparr>pl_id = i, pl_marketplace_id = map_option mp_id market, pl_name = name,
      pl_source_type = (if market = None then ns_kind src else None),
      pl_source_url = (if market = None then Some (ns_url src) else None),
      pl_ref = (if market = None then ns_ref src else None),
      pl_token = (if market = None \<and> truthy (ir_token d) then Some (pw_encrypt w (the (ir_token d))) else None),
      pl_version = version, pl_latest = Some version, pl_enabled = False, pl_manifest = m, pl_ignored = ignored,
      pl_checked_at = None\<rparr>"

text \<open>\<open>uq_plugins_marketplace_name\<close>; rows without a marketplace never clash.\<close>

definition name_taken :: "nat option \<Rightarrow> string \<Rightarrow> plugin list \<Rightarrow> bool" where
  "name_taken market name ps \<longleftrightarrow> market \<noteq> None \<and> list_ex (\<lambda>p. pl_marketplace_id p = market \<and> pl_name p = name) ps"

definition install_plugin ::
    "plugin_world \<Rightarrow> string option \<Rightarrow> nat \<Rightarrow> marketplace option \<Rightarrow> string \<Rightarrow> string option \<Rightarrow> install_request \<Rightarrow>
     plugin_store \<Rightarrow> (fetch_error + plugin) \<times> plugin_store" where
  "install_plugin w key i market name version d s =
     (case install_source w market name version d of
        Inl e \<Rightarrow> (Inl e, s)
      | Inr (src, v, bearer) \<Rightarrow>
          (case fetch_and_inspect w src (plugin_install_dir (scope_of market) name v) bearer key market (ps_disk s) of
             (Inl e, disk) \<Rightarrow> (Inl e, s\<lparr>ps_disk := disk\<rparr>)
           | (Inr (m, ignored), disk) \<Rightarrow>
               (let row = installed_row w i market name v src d m ignored in
                if name_taken (pl_marketplace_id row) name (ps_plugins s) then (Inl Other_error, s\<lparr>ps_disk := disk\<rparr>)
                else (Inr row, s\<lparr>ps_disk := disk, ps_plugins := ps_plugins s @ [row]\<rparr>))))"

subsection \<open>Updating and removing\<close>

definition row_source :: "plugin_world \<Rightarrow> plugin \<Rightarrow> string option \<Rightarrow> nsource \<times> string option" where
  "row_source w p ref =
     (\<lparr>ns_kind = pl_source_type p, ns_url = (case pl_source_url p of None \<Rightarrow> [] | Some u \<Rightarrow> u), ns_ref = ref, ns_path = None,
       ns_reason = None\<rparr>,
      if truthy (pl_token p) then pw_token w (the (pl_token p)) else None)"

definition update_source :: "plugin_world \<Rightarrow> marketplace option \<Rightarrow> plugin \<Rightarrow> string \<Rightarrow> fetch_error + nsource \<times> string option" where
  "update_source w market p v =
     (case market of
        Some m \<Rightarrow>
          (case resolve_marketplace_plugin m (pl_name p) of
             None \<Rightarrow> Inl (Install_error ''plugin no longer in marketplace manifest'')
           | Some e \<Rightarrow> Inr (normalize_plugin_source (me_source e), market_token w m))
      | None \<Rightarrow>
          if pl_marketplace_id p \<noteq> None then Inl (Install_error (''plugin'' @ [apostrophe] @ ''s marketplace no longer exists''))
          else Inr (row_source w p (Some v)))"

definition drop_tree :: "path \<Rightarrow> node \<Rightarrow> node" where
  "drop_tree p r = (if is_dir r p then remove_node r p else r)"

definition update_plugin :: "plugin_world \<Rightarrow> string option \<Rightarrow> plugin \<Rightarrow> plugin_store \<Rightarrow> (fetch_error + unit) \<times> plugin_store" where
  "update_plugin w key p s =
     (if \<not> truthy (pl_latest p) \<or> pl_latest p = Some (pl_version p) then (Inr (), s)
      else
        (let v = the (pl_latest p); market = market_by_id (pl_marketplace_id p) s;
             new_dir = plugin_install_dir (scope_of market) (pl_name p) v;
             old_dir = plugin_install_dir (scope_of market) (pl_name p) (pl_version p)
         in case update_source w market p v of
              Inl e \<Rightarrow> (Inl e, s)
            | Inr (src, bearer) \<Rightarrow>
                (case fetch_and_inspect w src new_dir bearer key market (ps_disk s) of
                   (Inl e, disk) \<Rightarrow> (Inl e, s\<lparr>ps_disk := disk\<rparr>)
                 | (Inr (m, ignored), disk) \<Rightarrow>
                     (Inr (), set_plugin (p\<lparr>pl_version := v, pl_manifest := m, pl_ignored := ignored\<rparr>)
                       (s\<lparr>ps_disk := (if old_dir \<noteq> new_dir then drop_tree old_dir disk else disk)\<rparr>)))))"

definition uninstall_plugin :: "plugin \<Rightarrow> plugin_store \<Rightarrow> plugin_store" where
  "uninstall_plugin p s =
     s\<lparr>ps_disk := drop_tree (install_dir_of p s) (ps_disk s), ps_plugins := filter (\<lambda>q. pl_id q \<noteq> pl_id p) (ps_plugins s)\<rparr>"

subsection \<open>Marketplaces\<close>

definition read_json_file :: "node \<Rightarrow> path \<Rightarrow> string \<Rightarrow> fetch_error + json" where
  "read_json_file disk p missing =
     (case node_at disk p of
        Some (File c) \<Rightarrow> (case json_loads c of None \<Rightarrow> Inl Other_error | Some j \<Rightarrow> Inr j)
      | _ \<Rightarrow> Inl (Fetch_error missing))"

definition MARKET_FILE :: path where "MARKET_FILE = [''.claude-plugin'', ''marketplace.json'']"

definition show_path :: "path \<Rightarrow> string" where "show_path p = ''/'' @ join ''/'' p"

definition checked_manifest :: "fetch_error + json \<Rightarrow> fetch_error + json" where
  "checked_manifest r =
     (case r of
        Inl e \<Rightarrow> Inl e
      | Inr j \<Rightarrow> (case parse_market j of None \<Rightarrow> Inl (Fetch_error ''manifest schema error'') | Some _ \<Rightarrow> Inr j))"

definition fetch_cloned :: "plugin_world \<Rightarrow> string \<Rightarrow> string option \<Rightarrow> string option \<Rightarrow> path \<Rightarrow> json disk_op" where
  "fetch_cloned w url ref key dir r =
     (case git_clone w url ref dir key r of
        (Inl e, r') \<Rightarrow> (Inl e, r')
      | (Inr _, r') \<Rightarrow>
          (checked_manifest (read_json_file r' (dir @ MARKET_FILE) (''marketplace.json not found at '' @ show_path (dir @ MARKET_FILE))), r'))"

definition fetch_marketplace :: "plugin_world \<Rightarrow> marketplace \<Rightarrow> string option \<Rightarrow> string option \<Rightarrow> path \<Rightarrow> json disk_op" where
  "fetch_marketplace w m bearer key dir r =
     (let (url, ref) = split_ref (mp_source_url m) (mp_ref m) in
      if mp_source_type m = ''github'' then fetch_cloned w (github_clone_url url) ref key dir r
      else if mp_source_type m = ''git'' then fetch_cloned w url ref key dir r
      else if mp_source_type m = ''http'' then
        (checked_manifest (case validate_http_url (mp_source_url m) of
             Inl e \<Rightarrow> Inl e
           | Inr u \<Rightarrow>
               (case pw_http w u bearer of
                  Inl e \<Rightarrow> Inl (Fetch_error (''http fetch failed: '' @ e))
                | Inr c \<Rightarrow> (case json_loads c of None \<Rightarrow> Inl Other_error | Some j \<Rightarrow> Inr j))), r)
      else if mp_source_type m = ''local'' then
        (checked_manifest (case os_path r [] (join_path (pw_cwd w) (mp_source_url m)) of
             None \<Rightarrow> Inl (Fetch_error (''local source not found: '' @ mp_source_url m))
           | Some p \<Rightarrow>
               if is_dir r p then read_json_file r (p @ MARKET_FILE) (''marketplace.json not found under '' @ mp_source_url m)
               else read_json_file r p []), r)
      else (Inl (Fetch_error (''unknown source_type: '' @ mp_source_type m)), r))"

text \<open>\<open>\b([45]\d\d)\b\<close>, searched from the left; the flag tells whether a word character came before.\<close>

fun http_status_in :: "bool \<Rightarrow> string \<Rightarrow> string option" where
  "http_status_in w (a # b # c # s) =
     (if \<not> w \<and> (a = CHR ''4'' \<or> a = CHR ''5'') \<and> is_digit b \<and> is_digit c \<and> (s = [] \<or> \<not> is_word (hd s))
      then Some [a, b, c] else http_status_in (is_word a) (b # c # s))"
| "http_status_in w s = None"

definition sync_error_text :: "fetch_error \<Rightarrow> string" where
  "sync_error_text e =
     (case e of
        Fetch_error msg \<Rightarrow>
          (case http_status_in False msg of Some code \<Rightarrow> ''fetch failed: HTTP '' @ code | None \<Rightarrow> ''fetch failed (see server logs)'')
      | Runtime_error msg \<Rightarrow>
          if contains_str msg ''git clone failed'' then ''git clone failed (see server logs)''
          else if contains_str msg ''disallowed scheme'' then ''source URL rejected: disallowed scheme''
          else ''fetch failed (see server logs)''
      | _ \<Rightarrow> ''unexpected error (see server logs)'')"

definition sync_marketplace :: "plugin_world \<Rightarrow> string option \<Rightarrow> time \<Rightarrow> marketplace \<Rightarrow> node \<Rightarrow> marketplace \<times> node" where
  "sync_marketplace w key now m r =
     (case fetch_marketplace w m (market_token w m) key (marketplace_cache_dir (mp_name m)) r of
        (Inl e, r') \<Rightarrow>
          (m\<lparr>mp_sync_status := Some ''error'', mp_sync_error := Some (sync_error_text e), mp_synced_at := Some now\<rparr>, r')
      | (Inr raw, r') \<Rightarrow>
          (m\<lparr>mp_manifest := Some raw, mp_sync_status := Some ''ok'', mp_sync_error := None, mp_synced_at := Some now\<rparr>, r'))"

text \<open>Entries by name: the last of a name counts here, while an install takes the first.\<close>

definition latest_in_manifest :: "marketplace \<Rightarrow> (string \<Rightarrow> market_entry option) option" where
  "latest_in_manifest m =
     (case mp_manifest m of
        None \<Rightarrow> None
      | Some raw \<Rightarrow>
          if \<not> json_truthy raw then None
          else map_option (\<lambda>es n. find (\<lambda>e. me_name e = n) (rev es)) (parse_market raw))"

definition update_latest_versions_from_manifest :: "time \<Rightarrow> marketplace \<Rightarrow> plugin list \<Rightarrow> plugin list" where
  "update_latest_versions_from_manifest now m ps =
     (case latest_in_manifest m of
        None \<Rightarrow> ps
      | Some entry \<Rightarrow>
          map (\<lambda>p.
            let p = p\<lparr>pl_checked_at := Some now\<rparr> in
            case entry (pl_name p) of
              None \<Rightarrow> p
            | Some e \<Rightarrow> if truthy (me_version e) then p\<lparr>pl_latest := me_version e\<rparr> else p) ps)"

definition set_market :: "marketplace \<Rightarrow> plugin_store \<Rightarrow> plugin_store" where
  "set_market m s = s\<lparr>ps_markets := map (\<lambda>q. if mp_id q = mp_id m then m else q) (ps_markets s)\<rparr>"

definition sync_in_store :: "plugin_world \<Rightarrow> string option \<Rightarrow> time \<Rightarrow> marketplace \<Rightarrow> plugin_store \<Rightarrow> plugin_store" where
  "sync_in_store w key now m s =
     (case sync_marketplace w key now m (ps_disk s) of (m', disk) \<Rightarrow> (set_market m' s)\<lparr>ps_disk := disk\<rparr>)"

text \<open>One marketplace of a pass of the poller, or of a resync: the sync and then the versions of its plugins.\<close>

definition refresh_marketplace :: "plugin_world \<Rightarrow> string option \<Rightarrow> time \<Rightarrow> marketplace \<Rightarrow> plugin_store \<Rightarrow> plugin_store" where
  "refresh_marketplace w key now m s =
     (let s' = sync_in_store w key now m s in
      case market_by_id (Some (mp_id m)) s' of
        None \<Rightarrow> s'
      | Some m' \<Rightarrow>
          s'\<lparr>ps_plugins := map (\<lambda>p. if pl_marketplace_id p = Some (mp_id m)
            then hd (update_latest_versions_from_manifest now m' [p]) else p) (ps_plugins s')\<rparr>)"

definition poll_marketplaces :: "plugin_world \<Rightarrow> string option \<Rightarrow> time \<Rightarrow> plugin_store \<Rightarrow> plugin_store" where
  "poll_marketplaces w key now s = fold (refresh_marketplace w key now) (filter mp_enabled (ps_markets s)) s"

subsection \<open>Warming the cache at start\<close>

text \<open>The futures by plugin, \<open>None\<close> while pending.  The plugins are warmed one after the other.\<close>

type_synonym warm_futures = "(nat \<times> bool option) list"

definition settle :: "nat \<Rightarrow> bool \<Rightarrow> warm_futures \<Rightarrow> warm_futures" where
  "settle i b f = (if dict_get f i = Some None then dict_set i (Some b) f else f)"

definition warm_source :: "plugin_world \<Rightarrow> marketplace option \<Rightarrow> plugin \<Rightarrow> (nsource \<times> string option) option" where
  "warm_source w market p =
     (case market of
        None \<Rightarrow> Some (row_source w p (pl_ref p))
      | Some m \<Rightarrow> map_option (\<lambda>e. (normalize_plugin_source (me_source e), market_token w m)) (resolve_marketplace_plugin m (pl_name p)))"

definition warm_plugin :: "plugin_world \<Rightarrow> string option \<Rightarrow> plugin \<Rightarrow> plugin_store \<times> warm_futures \<Rightarrow> plugin_store \<times> warm_futures" where
  "warm_plugin w key p sf =
     (case sf of (s, f) \<Rightarrow>
       (let dir = install_dir_of p s; market = market_by_id (pl_marketplace_id p) s in
        case node_at (ps_disk s) dir of
          Some (Dir (_ # _)) \<Rightarrow> (s, settle (pl_id p) True f)
        | Some (File _) \<Rightarrow> (s, f)
        | _ \<Rightarrow>
            (case warm_source w market p of
               None \<Rightarrow> (s, f)
             | Some (src, bearer) \<Rightarrow>
                 (case fetch_plugin_into w src dir bearer key market (ps_disk s) of
                    (Inr _, disk) \<Rightarrow> (s\<lparr>ps_disk := disk\<rparr>, settle (pl_id p) True f)
                  | (Inl _, disk) \<Rightarrow> (s\<lparr>ps_disk := disk\<rparr>, settle (pl_id p) False f)))))"

definition ensure_cache_layout :: "node \<Rightarrow> node" where
  "ensure_cache_layout r = snd (and_then_op (make_dirs MARKETPLACE_CACHE) (make_dirs INSTALLED_CACHE) r)"

definition register_futures :: "plugin list \<Rightarrow> warm_futures \<Rightarrow> warm_futures" where
  "register_futures ps f =
     fold (\<lambda>p f. if dict_get f (pl_id p) = Some None then f else dict_set (pl_id p) None f) ps f"

definition warm_plugin_caches :: "plugin_world \<Rightarrow> string option \<Rightarrow> plugin_store \<Rightarrow> warm_futures \<Rightarrow> plugin_store \<times> warm_futures" where
  "warm_plugin_caches w key s f =
     (let s = s\<lparr>ps_disk := ensure_cache_layout (ps_disk s)\<rparr>; ps = filter pl_enabled (ps_plugins s)
      in fold (warm_plugin w key) ps (s, register_futures ps f))"

text \<open>Whether a plugin is ready, and whether the wait ran into its timeout.\<close>

definition wait_for_plugin :: "warm_futures \<Rightarrow> nat \<Rightarrow> bool \<times> bool" where
  "wait_for_plugin f i =
     (case dict_get f i of None \<Rightarrow> (True, False) | Some (Some b) \<Rightarrow> (b, False) | Some None \<Rightarrow> (False, True))"

subsection \<open>The handlers of marketplaces\<close>

definition VALID_SOURCE_TYPES :: "string list" where "VALID_SOURCE_TYPES = [''github'', ''git'', ''http'', ''local'']"

record marketplace_view =
  mv_id :: nat
  mv_name :: string
  mv_source_type :: string
  mv_source_url :: string
  mv_ref :: "string option"
  mv_enabled :: bool
  mv_predefined :: bool
  mv_has_auth_token :: bool
  mv_auth_credential_id :: "string option"
  mv_last_synced_at :: "time option"
  mv_last_sync_status :: "string option"
  mv_last_sync_error :: "string option"
  mv_plugin_count :: nat

definition serialize_marketplace :: "marketplace \<Rightarrow> marketplace_view" where
  "serialize_marketplace m =
     \<lparr>mv_id = mp_id m, mv_name = mp_name m, mv_source_type = mp_source_type m, mv_source_url = mp_source_url m,
      mv_ref = mp_ref m, mv_enabled = mp_enabled m, mv_predefined = mp_predefined m,
      mv_has_auth_token = truthy (mp_token m), mv_auth_credential_id = (if truthy (mp_token m) then Some ''***'' else None),
      mv_last_synced_at = mp_synced_at m, mv_last_sync_status = mp_sync_status m, mv_last_sync_error = mp_sync_error m,
      mv_plugin_count = (case mp_manifest m of
        None \<Rightarrow> 0 | Some raw \<Rightarrow> (case parse_market raw of None \<Rightarrow> 0 | Some es \<Rightarrow> length es))\<rparr>"

definition list_marketplaces :: "plugin_store \<Rightarrow> marketplace_view list" where
  "list_marketplaces s = map serialize_marketplace (sort_key mp_name (ps_markets s))"

record marketplace_create =
  mc_name :: string
  mc_source_type :: string
  mc_source_url :: string
  mc_ref :: "string option"
  mc_auth_token :: "string option"
  mc_auth_credential_id :: "string option"

definition market_named :: "string \<Rightarrow> plugin_store \<Rightarrow> bool" where
  "market_named n s = list_ex (\<lambda>m. mp_name m = n) (ps_markets s)"

definition encrypted :: "plugin_world \<Rightarrow> string option \<Rightarrow> string option" where
  "encrypted w v = (if truthy v then Some (pw_encrypt w (the v)) else None)"

text \<open>The names are not empty: the schema of the body checks that.\<close>

definition create_marketplace ::
    "plugin_world \<Rightarrow> string option \<Rightarrow> time \<Rightarrow> nat \<Rightarrow> marketplace_create \<Rightarrow> plugin_store \<Rightarrow> (py_error + marketplace_view) \<times> plugin_store" where
  "create_marketplace w key now i b s =
     (if mc_source_type b \<notin> set VALID_SOURCE_TYPES then
        (Inl (Http 422 (''invalid source_type; must be one of '' @ py_repr (JArr (map JStr (sort VALID_SOURCE_TYPES))))), s)
      else if market_named (mc_name b) s then (Inl (Http 409 (''marketplace '' @ sq (mc_name b) @ '' already exists'')), s)
      else
        (let m = \<lparr>mp_id = i, mp_name = mc_name b, mp_source_type = mc_source_type b, mp_source_url = mc_source_url b,
               mp_ref = mc_ref b, mp_token = encrypted w (or_else (mc_auth_token b) (mc_auth_credential_id b)),
               mp_enabled = True, mp_predefined = False, mp_manifest = None, mp_synced_at = None, mp_sync_status = None,
               mp_sync_error = None\<rparr>;
             s' = sync_in_store w key now m (s\<lparr>ps_markets := ps_markets s @ [m]\<rparr>)
         in case market_by_id (Some i) s' of
              Some m' \<Rightarrow> (Inr (serialize_marketplace m'), s') | None \<Rightarrow> (Inl NoResultFound, s')))"

text \<open>A field that was not sent is \<open>None\<close>, one that was sent as null is \<open>Some None\<close>.\<close>

record marketplace_patch =
  mu_enabled :: "bool option option"
  mu_name :: "string option option"
  mu_source_url :: "string option option"
  mu_ref :: "string option option"
  mu_auth_token :: "string option option"
  mu_auth_credential_id :: "string option option"

definition patched_market :: "plugin_world \<Rightarrow> marketplace_patch \<Rightarrow> marketplace \<Rightarrow> marketplace" where
  "patched_market w u m =
     m\<lparr>mp_enabled := (case sent_value (mu_enabled u) of Some b \<Rightarrow> b | None \<Rightarrow> mp_enabled m),
       mp_name := (case sent_value (mu_name u) of Some n \<Rightarrow> n | None \<Rightarrow> mp_name m),
       mp_source_url := (case sent_value (mu_source_url u) of Some n \<Rightarrow> n | None \<Rightarrow> mp_source_url m),
       mp_ref := (case mu_ref u of None \<Rightarrow> mp_ref m | Some v \<Rightarrow> if truthy v then v else None),
       mp_token := (case mu_auth_token u of
           Some v \<Rightarrow> encrypted w v
         | None \<Rightarrow> (case mu_auth_credential_id u of Some v \<Rightarrow> encrypted w v | None \<Rightarrow> mp_token m))\<rparr>"

definition needs_resync :: "marketplace_patch \<Rightarrow> marketplace \<Rightarrow> bool" where
  "needs_resync u m \<longleftrightarrow>
     (case sent_value (mu_source_url u) of Some n \<Rightarrow> n \<noteq> mp_source_url m | None \<Rightarrow> False) \<or>
     (case mu_ref u of Some v \<Rightarrow> (if truthy v then v else None) \<noteq> mp_ref m | None \<Rightarrow> False) \<or>
     mu_auth_token u \<noteq> None \<or> mu_auth_credential_id u \<noteq> None"

definition no_marketplace :: py_error where "no_marketplace = Http 404 ''marketplace not found''"

definition patch_marketplace ::
    "plugin_world \<Rightarrow> string option \<Rightarrow> time \<Rightarrow> nat \<Rightarrow> marketplace_patch \<Rightarrow> plugin_store \<Rightarrow> (py_error + marketplace_view) \<times> plugin_store" where
  "patch_marketplace w key now i u s =
     (case market_by_id (Some i) s of
        None \<Rightarrow> (Inl no_marketplace, s)
      | Some m \<Rightarrow>
          if (case sent_value (mu_name u) of Some n \<Rightarrow> n \<noteq> mp_name m \<and> market_named n s | None \<Rightarrow> False)
          then (Inl (Http 409 ''name already in use''), s)
          else
            (let m' = patched_market w u m; s1 = set_market m' s;
                 s2 = (if needs_resync u m then sync_in_store w key now m' s1 else s1)
             in case market_by_id (Some i) s2 of
                  Some k \<Rightarrow> (Inr (serialize_marketplace k), s2) | None \<Rightarrow> (Inl NoResultFound, s2)))"

text \<open>The database sets the reference of its plugins to null.\<close>

definition delete_marketplace :: "nat \<Rightarrow> plugin_store \<Rightarrow> (py_error + unit) \<times> plugin_store" where
  "delete_marketplace i s =
     (case market_by_id (Some i) s of
        None \<Rightarrow> (Inl no_marketplace, s)
      | Some m \<Rightarrow>
          if mp_predefined m then (Inl (Http 409 ''predefined marketplaces cannot be deleted''), s)
          else (Inr (), s\<lparr>ps_markets := filter (\<lambda>k. mp_id k \<noteq> i) (ps_markets s),
            ps_plugins := map (\<lambda>p. if pl_marketplace_id p = Some i then p\<lparr>pl_marketplace_id := None\<rparr> else p) (ps_plugins s)\<rparr>))"

definition resync_marketplace ::
    "plugin_world \<Rightarrow> string option \<Rightarrow> time \<Rightarrow> nat \<Rightarrow> plugin_store \<Rightarrow> (py_error + marketplace_view) \<times> plugin_store" where
  "resync_marketplace w key now i s =
     (case market_by_id (Some i) s of
        None \<Rightarrow> (Inl no_marketplace, s)
      | Some m \<Rightarrow>
          (let s' = refresh_marketplace w key now m s in
           case market_by_id (Some i) s' of
             Some k \<Rightarrow> (Inr (serialize_marketplace k), s') | None \<Rightarrow> (Inl NoResultFound, s')))"

record entry_view =
  nv_entry :: market_entry
  nv_source_kind :: string
  nv_unsupported_reason :: "string option"
  nv_skills :: "string list"
  nv_mcp_servers :: "string list"

text \<open>What a plugin in the clone of its marketplace would contribute.\<close>

definition preview_skills :: "node \<Rightarrow> string list" where
  "preview_skills tree =
     (case node_at tree [''skills''] of
        Some (Dir es) \<Rightarrow> sort (map fst (filter (\<lambda>(_, n). is_dir n [] \<and> is_file n [''SKILL.md'']) es))
      | _ \<Rightarrow> [])"

definition preview_servers :: "node \<Rightarrow> string list" where
  "preview_servers tree =
     (let inline = (case node_at tree [''.claude-plugin'', ''plugin.json''] of
          Some (File c) \<Rightarrow> (case json_loads c of Some j \<Rightarrow> (case servers_in j of Some ms \<Rightarrow> sort (map fst ms) | None \<Rightarrow> []) | None \<Rightarrow> [])
        | _ \<Rightarrow> [])
      in if inline \<noteq> [] then inline
         else case node_at tree [''.mcp.json''] of
           Some (File c) \<Rightarrow>
             (case json_loads c of
                Some (JObj d) \<Rightarrow> sort (map fst (case servers_in (JObj d) of Some ms \<Rightarrow> ms | None \<Rightarrow> d))
              | _ \<Rightarrow> [])
         | _ \<Rightarrow> [])"

definition preview_tree :: "node \<Rightarrow> path \<Rightarrow> nsource \<Rightarrow> node option" where
  "preview_tree disk base src =
     (if ns_kind src = Some ''relative'' \<and> truthy (ns_path src) \<and> is_dir disk base then
        (let cand = resolve_path (join_path base (the (ns_path src))) in
         if prefix (resolve_path base) cand then detect_plugin_root (node_at disk cand) else None)
      else None)"

definition list_marketplace_plugins :: "plugin_world \<Rightarrow> nat \<Rightarrow> plugin_store \<Rightarrow> py_error + entry_view list" where
  "list_marketplace_plugins w i s =
     (case market_by_id (Some i) s of
        None \<Rightarrow> Inl no_marketplace
      | Some m \<Rightarrow>
          Inr (case Option.bind (mp_manifest m) parse_market of
             None \<Rightarrow> []
           | Some es \<Rightarrow>
               map (\<lambda>e.
                 let src = normalize_plugin_source (me_source e);
                     tree = preview_tree (ps_disk s) (market_base w m) src
                 in \<lparr>nv_entry = e, nv_source_kind = the (ns_kind src), nv_unsupported_reason = ns_reason src,
                     nv_skills = (case tree of None \<Rightarrow> [] | Some t \<Rightarrow> preview_skills t),
                     nv_mcp_servers = (case tree of None \<Rightarrow> [] | Some t \<Rightarrow> preview_servers t)\<rparr>) es))"

subsection \<open>The handlers of plugins\<close>

record plugin_view =
  pv_plugin :: plugin                    \<comment> \<open>the columns that are shown as they are\<close>
  pv_marketplace_name :: "string option"
  pv_update_available :: bool
  pv_skills :: "string list"
  pv_mcp_servers :: "(string \<times> string) list"
  pv_load_error :: bool

definition serialize_plugin :: "node \<Rightarrow> plugin \<Rightarrow> string \<Rightarrow> plugin_view" where
  "serialize_plugin disk p scope =
     (let dir = plugin_install_dir scope (pl_name p) (pl_version p);
          content = (case (parse_plugin_skills disk dir, parse_plugin_mcp_servers disk dir) of
            (Some ks, Some ms) \<Rightarrow> Some (map g_name ks, map (\<lambda>(n, _). (n, namespaced (pl_name p) n)) ms) | _ \<Rightarrow> None)
      in \<lparr>pv_plugin = p, pv_marketplace_name = (if pl_marketplace_id p = None then None else Some scope),
          pv_update_available = (pl_latest p \<noteq> None \<and> pl_latest p \<noteq> Some (pl_version p)),
          pv_skills = (case content of None \<Rightarrow> [] | Some c \<Rightarrow> fst c),
          pv_mcp_servers = (case content of None \<Rightarrow> [] | Some c \<Rightarrow> snd c),
          pv_load_error = (content = None)\<rparr>)"

definition view_in :: "plugin_store \<Rightarrow> plugin \<Rightarrow> plugin_view" where
  "view_in s p = serialize_plugin (ps_disk s) p (scope_of (market_by_id (pl_marketplace_id p) s))"

definition list_plugins :: "plugin_store \<Rightarrow> plugin_view list" where
  "list_plugins s =
     map (\<lambda>(p, scope). serialize_plugin (ps_disk s) p scope) (resolve_plugin_scopes (sort_key pl_name (ps_plugins s)) s)"

record install_body =
  ib_marketplace_id :: "nat option"
  ib_plugin_name :: "string option"
  ib_version :: "string option"
  ib_source_type :: "string option"
  ib_source_url :: "string option"
  ib_ref :: "string option"
  ib_auth_token :: "string option"
  ib_auth_credential_id :: "string option"

text \<open>A \<open>PluginInstallError\<close> answers 422; any other failure leaves the handler.\<close>

definition install_failure :: "fetch_error \<Rightarrow> py_error" where
  "install_failure e = (case e of Install_error m \<Rightarrow> Http 422 m | _ \<Rightarrow> OsErr ''plugin'')"

definition wanted_plugin :: "install_body \<Rightarrow> plugin_store \<Rightarrow> py_error + marketplace option \<times> string" where
  "wanted_plugin b s =
     (if ib_marketplace_id b \<noteq> None then
        (case market_by_id (ib_marketplace_id b) s of
           None \<Rightarrow> Inl no_marketplace
         | Some m \<Rightarrow>
             if \<not> truthy (ib_plugin_name b) then Inl (Http 422 ''plugin_name required for marketplace install'')
             else Inr (Some m, the (ib_plugin_name b)))
      else if \<not> truthy (ib_source_type b) \<or> \<not> truthy (ib_source_url b) then
        Inl (Http 422 ''direct install requires source_type and source_url'')
      else if the (ib_source_type b) \<notin> set VALID_SOURCE_TYPES then Inl (Http 422 ''invalid source_type'')
      else Inr (None, if truthy (ib_plugin_name b) then the (ib_plugin_name b)
        else List.last (split_char CHR ''/'' (rstrip_char CHR ''/'' (the (ib_source_url b))))))"

definition install_plugin_endpoint ::
    "plugin_world \<Rightarrow> string option \<Rightarrow> nat \<Rightarrow> install_body \<Rightarrow> plugin_store \<Rightarrow> (py_error + plugin_view) \<times> plugin_store" where
  "install_plugin_endpoint w key i b s =
     (case wanted_plugin b s of
        Inl e \<Rightarrow> (Inl e, s)
      | Inr (market, name) \<Rightarrow>
          (case install_plugin w key i market name (ib_version b)
              \<lparr>ir_source_type = ib_source_type b, ir_source_url = ib_source_url b, ir_ref = ib_ref b,
               ir_token = or_else (ib_auth_token b) (ib_auth_credential_id b)\<rparr> s of
             (Inl e, s') \<Rightarrow> (Inl (install_failure e), s')
           | (Inr p, s') \<Rightarrow> (Inr (serialize_plugin (ps_disk s') p (scope_of market)), s')))"

definition no_plugin :: py_error where "no_plugin = Http 404 ''plugin not found''"

definition patch_plugin :: "nat \<Rightarrow> bool option \<Rightarrow> plugin_store \<Rightarrow> (py_error + plugin_view) \<times> plugin_store" where
  "patch_plugin i enabled s =
     (case plugin_by_id i s of
        None \<Rightarrow> (Inl no_plugin, s)
      | Some p \<Rightarrow>
          (let p' = (case enabled of None \<Rightarrow> p | Some b \<Rightarrow> p\<lparr>pl_enabled := b\<rparr>); s' = set_plugin p' s in (Inr (view_in s' p'), s')))"

definition update_plugin_endpoint ::
    "plugin_world \<Rightarrow> string option \<Rightarrow> nat \<Rightarrow> plugin_store \<Rightarrow> (py_error + plugin_view) \<times> plugin_store" where
  "update_plugin_endpoint w key i s =
     (case plugin_by_id i s of
        None \<Rightarrow> (Inl no_plugin, s)
      | Some p \<Rightarrow>
          (case update_plugin w key p s of
             (Inl e, s') \<Rightarrow> (Inl (install_failure e), s')
           | (Inr _, s') \<Rightarrow>
               (case plugin_by_id i s' of Some p' \<Rightarrow> (Inr (view_in s' p'), s') | None \<Rightarrow> (Inl NoResultFound, s'))))"

definition delete_plugin :: "nat \<Rightarrow> plugin_store \<Rightarrow> (py_error + unit) \<times> plugin_store" where
  "delete_plugin i s =
     (case plugin_by_id i s of None \<Rightarrow> (Inl no_plugin, s) | Some p \<Rightarrow> (Inr (), uninstall_plugin p s))"

subsection \<open>Nothing outside the cache\<close>

lemma touches_clone_in: "prefix b dest \<Longrightarrow> dest \<noteq> [] \<Longrightarrow> only_touches b (git_clone w url ref dest key)"
  by (rule touches_mono[OF touches_clone])

lemma market_dir: "marketplace_cache_dir n \<noteq> []" "prefix CACHE_BASE (marketplace_cache_dir n)"
  by (simp_all add: marketplace_cache_dir_def MARKETPLACE_CACHE_def prefix_def)

lemma touches_sync:
  assumes "apart CACHE_BASE q"
  shows "node_at (snd (sync_marketplace w key now m r)) q = node_at r q"
proof -
  have c: "node_at (snd (fetch_cloned w url ref key (marketplace_cache_dir n) r)) q = node_at r q" for url ref n
    using only_touchesD[OF touches_clone_in[OF market_dir(2) market_dir(1)] assms]
    by (simp add: fetch_cloned_def split: prod.splits sum.splits) (metis snd_conv)
  have "node_at (snd (fetch_marketplace w m b key (marketplace_cache_dir (mp_name m)) r)) q = node_at r q" for b
    by (simp add: fetch_marketplace_def c split: prod.splits)
  then show ?thesis
    by (auto simp: sync_marketplace_def split: prod.splits sum.splits) (metis snd_conv)+
qed

lemma touches_sync_store: "apart CACHE_BASE q \<Longrightarrow> node_at (ps_disk (sync_in_store w key now m s)) q = node_at (ps_disk s) q"
  using touches_sync[of q w key now m "ps_disk s"] by (cases "sync_marketplace w key now m (ps_disk s)") (simp add: sync_in_store_def)

lemma touches_refresh: "apart CACHE_BASE q \<Longrightarrow> node_at (ps_disk (refresh_marketplace w key now m s)) q = node_at (ps_disk s) q"
  by (simp add: refresh_marketplace_def Let_def touches_sync_store split: option.split)

lemma safe_no_path: "ns_path src = None \<Longrightarrow> safe_subdir src"
  by (simp add: safe_subdir_def truthy_def)

lemma fetch_outside:
  "safe_subdir src \<Longrightarrow> apart CACHE_BASE q \<Longrightarrow>
   node_at (snd (fetch_plugin_into w src (plugin_install_dir a b c) bearer key market r)) q = node_at r q"
  by (rule only_touchesD[OF touches_fetch_safe[OF _ install_dir_plain(1,2,4)]])

lemma touches_inspect:
  assumes "safe_subdir src" "apart CACHE_BASE q"
  shows "node_at (snd (fetch_and_inspect w src (plugin_install_dir a b c) bearer key market r)) q = node_at r q"
  using fetch_outside[OF assms]
  by (simp add: fetch_and_inspect_def split: prod.splits sum.splits) (metis snd_conv)

lemma touches_drop: "apart p q \<Longrightarrow> node_at (drop_tree p r) q = node_at r q"
  by (simp add: drop_tree_def remove_node_apart)

lemma install_dir_apart: "apart CACHE_BASE q \<Longrightarrow> apart (plugin_install_dir a b c) q"
  using apart_extend install_dir_plain(5) by blast

text \<open>No manifest asks for a subdirectory of a clone that leads out of it.\<close>

definition safe_manifest :: "marketplace \<Rightarrow> bool" where
  "safe_manifest m =
     (case Option.bind (mp_manifest m) parse_market of
        None \<Rightarrow> True | Some es \<Rightarrow> list_all (\<lambda>e. safe_subdir (normalize_plugin_source (me_source e))) es)"

definition safe_store :: "plugin_store \<Rightarrow> bool" where
  "safe_store s = list_all safe_manifest (ps_markets s)"

lemma market_by_id_in: "market_by_id i s = Some m \<Longrightarrow> m \<in> set (ps_markets s)"
  by (auto simp: market_by_id_def find_Some_iff split: option.splits)

lemma safe_entry:
  assumes "safe_manifest m" "resolve_marketplace_plugin m n = Some e"
  shows "safe_subdir (normalize_plugin_source (me_source e))"
proof -
  obtain raw es where "mp_manifest m = Some raw" "parse_market raw = Some es" "find (\<lambda>e. me_name e = n) es = Some e"
    using assms(2) by (auto simp: resolve_marketplace_plugin_def split: option.splits if_splits)
  then show ?thesis using assms(1) by (auto simp: safe_manifest_def list_all_iff find_Some_iff)
qed

lemma safe_row: "safe_subdir (fst (row_source w p ref))"
  by (simp add: row_source_def safe_no_path)

lemma install_source_safe:
  "install_source w market n v d = Inr (src, u, b) \<Longrightarrow> (\<And>m. market = Some m \<Longrightarrow> safe_manifest m) \<Longrightarrow> safe_subdir src"
  by (cases market) (auto simp: install_source_def Let_def plain_source_def safe_no_path
    safe_entry split: option.splits if_splits)

lemma update_source_safe:
  "update_source w market p v = Inr (src, b) \<Longrightarrow> (\<And>m. market = Some m \<Longrightarrow> safe_manifest m) \<Longrightarrow> safe_subdir src"
  using safe_row[of w p "Some v"] by (cases market) (auto simp: update_source_def safe_entry split: option.splits if_splits)

lemma warm_source_safe:
  "warm_source w market p = Some (src, b) \<Longrightarrow> (\<And>m. market = Some m \<Longrightarrow> safe_manifest m) \<Longrightarrow> safe_subdir src"
  using safe_row[of w p "pl_ref p"] by (cases market) (auto simp: warm_source_def safe_entry)

lemma safe_of_id: "safe_store s \<Longrightarrow> market_by_id i s = Some m \<Longrightarrow> safe_manifest m"
  using market_by_id_in by (auto simp: safe_store_def list_all_iff)

lemma install_outside:
  assumes "\<And>m. market = Some m \<Longrightarrow> safe_manifest m" "apart CACHE_BASE q"
  shows "node_at (ps_disk (snd (install_plugin w key i market n v d s))) q = node_at (ps_disk s) q"
proof (cases "install_source w market n v d")
  case (Inr x)
  obtain src u b where x: "x = (src, u, b)" by (cases x) auto
  have "safe_subdir src" using install_source_safe Inr x assms(1) by blast
  from touches_inspect[OF this assms(2), of w "scope_of market" n u b key market "ps_disk s"]
  show ?thesis using Inr x by (auto simp: install_plugin_def Let_def split: prod.splits sum.splits)
qed (simp add: install_plugin_def)

lemma update_outside:
  assumes "safe_store s" "apart CACHE_BASE q"
  shows "node_at (ps_disk (snd (update_plugin w key p s))) q = node_at (ps_disk s) q"
proof -
  define market where "market = market_by_id (pl_marketplace_id p) s"
  have m: "\<And>m. market = Some m \<Longrightarrow> safe_manifest m" using safe_of_id[OF assms(1)] by (auto simp: market_def)
  show ?thesis
  proof (cases "update_source w market p (the (pl_latest p))")
    case (Inr x)
    obtain src b where x: "x = (src, b)" by (cases x) auto
    have "safe_subdir src" using update_source_safe Inr x m by blast
    from touches_inspect[OF this assms(2), of w "scope_of market" "pl_name p" "the (pl_latest p)" b key market "ps_disk s"]
    show ?thesis using Inr x
      by (auto simp: update_plugin_def Let_def market_def[symmetric] set_plugin_def touches_drop install_dir_apart assms(2)
        split: prod.splits sum.splits)
  qed (simp add: update_plugin_def Let_def market_def[symmetric])
qed

lemma warm_outside:
  assumes "safe_store s" "apart CACHE_BASE q"
  shows "node_at (ps_disk (fst (warm_plugin w key p (s, f)))) q = node_at (ps_disk s) q"
proof -
  define market where "market = market_by_id (pl_marketplace_id p) s"
  have m: "\<And>m. market = Some m \<Longrightarrow> safe_manifest m" using safe_of_id[OF assms(1)] by (auto simp: market_def)
  show ?thesis
  proof (cases "warm_source w market p")
    case (Some x)
    obtain src b where x: "x = (src, b)" by (cases x) auto
    have "safe_subdir src" using warm_source_safe Some x m by blast
    from fetch_outside[OF this assms(2), of w "scope_of market" "pl_name p" "pl_version p" b key market "ps_disk s"]
    show ?thesis using Some x
      by (auto simp: warm_plugin_def Let_def install_dir_of_def market_def[symmetric] split: option.splits node.splits list.splits prod.splits sum.splits)
  qed (auto simp: warm_plugin_def Let_def market_def[symmetric] split: option.splits node.splits list.splits)
qed

lemma warm_markets: "ps_markets (fst (warm_plugin w key p sf)) = ps_markets (fst sf)"
  by (cases sf) (auto simp: warm_plugin_def Let_def split: option.splits node.splits list.splits prod.splits sum.splits)

lemma warm_all_outside:
  "safe_store s \<Longrightarrow> apart CACHE_BASE q \<Longrightarrow> node_at (ps_disk (fst (fold (warm_plugin w key) ps (s, f)))) q = node_at (ps_disk s) q"
proof (induction ps arbitrary: s f)
  case (Cons p ps)
  obtain s1 f1 where 1: "warm_plugin w key p (s, f) = (s1, f1)" by fastforce
  have "safe_store s1" using Cons(2) warm_markets[of w key p "(s, f)"] by (simp add: 1 safe_store_def)
  moreover have "node_at (ps_disk s1) q = node_at (ps_disk s) q" using warm_outside[OF Cons(2,3), of w key p f] by (simp add: 1)
  ultimately show ?case using Cons(1)[of s1 f1] Cons(3) by (simp add: 1)
qed simp

lemma layout_outside: "apart CACHE_BASE q \<Longrightarrow> node_at (ensure_cache_layout r) q = node_at r q"
proof -
  have "only_touches CACHE_BASE (make_dirs (CACHE_BASE @ [x]))" for x
    using touches_mono[OF touches_make_dirs[of "CACHE_BASE @ [x, []]"], of CACHE_BASE] by (simp add: butlast_append)
  then show "apart CACHE_BASE q \<Longrightarrow> ?thesis"
    unfolding ensure_cache_layout_def MARKETPLACE_CACHE_def INSTALLED_CACHE_def by (blast intro: only_touchesD touches_then)
qed

inductive plugin_step :: "plugin_store \<Rightarrow> plugin_store \<Rightarrow> bool" where
  create: "create_marketplace w key now i b s = (r, s') \<Longrightarrow> plugin_step s s'"
| patch: "patch_marketplace w key now i u s = (r, s') \<Longrightarrow> plugin_step s s'"
| remove: "delete_marketplace i s = (r, s') \<Longrightarrow> plugin_step s s'"
| resync: "resync_marketplace w key now i s = (r, s') \<Longrightarrow> plugin_step s s'"
| poll: "plugin_step s (poll_marketplaces w key now s)"
| install: "safe_store s \<Longrightarrow> install_plugin_endpoint w key i b s = (r, s') \<Longrightarrow> plugin_step s s'"
| toggle: "patch_plugin i e s = (r, s') \<Longrightarrow> plugin_step s s'"
| update: "safe_store s \<Longrightarrow> update_plugin_endpoint w key i s = (r, s') \<Longrightarrow> plugin_step s s'"
| uninstall: "delete_plugin i s = (r, s') \<Longrightarrow> plugin_step s s'"
| warm: "safe_store s \<Longrightarrow> warm_plugin_caches w key s f = (s', f') \<Longrightarrow> plugin_step s s'"

lemma poll_outside:
  "apart CACHE_BASE q \<Longrightarrow> node_at (ps_disk (fold (refresh_marketplace w key now) ms s)) q = node_at (ps_disk s) q"
  by (induction ms arbitrary: s) (simp_all add: touches_refresh)

lemma market_handlers_outside:
  assumes "apart CACHE_BASE q"
  shows "node_at (ps_disk (snd (create_marketplace w key now i b s))) q = node_at (ps_disk s) q"
    "node_at (ps_disk (snd (patch_marketplace w key now i u s))) q = node_at (ps_disk s) q"
    "node_at (ps_disk (snd (delete_marketplace i s))) q = node_at (ps_disk s) q"
    "node_at (ps_disk (snd (resync_marketplace w key now i s))) q = node_at (ps_disk s) q"
  using assms
  by (simp_all add: create_marketplace_def patch_marketplace_def delete_marketplace_def resync_marketplace_def Let_def
    touches_sync_store touches_refresh set_market_def split: option.split)

lemma plugin_handlers_outside:
  assumes "safe_store s" "apart CACHE_BASE q"
  shows "node_at (ps_disk (snd (install_plugin_endpoint w key i b s))) q = node_at (ps_disk s) q"
    "node_at (ps_disk (snd (update_plugin_endpoint w key i s))) q = node_at (ps_disk s) q"
    "node_at (ps_disk (fst (warm_plugin_caches w key s f))) q = node_at (ps_disk s) q"
proof -
  show "node_at (ps_disk (snd (install_plugin_endpoint w key i b s))) q = node_at (ps_disk s) q"
  proof (cases "wanted_plugin b s")
    case (Inr x)
    obtain market n where x: "x = (market, n)" by (cases x) auto
    have safe: "\<And>m. market = Some m \<Longrightarrow> safe_manifest m"
      using Inr x safe_of_id[OF assms(1)] by (auto simp: wanted_plugin_def split: option.splits if_splits)
    obtain res s1 where i: "install_plugin w key i market n (ib_version b)
        \<lparr>ir_source_type = ib_source_type b, ir_source_url = ib_source_url b, ir_ref = ib_ref b,
         ir_token = or_else (ib_auth_token b) (ib_auth_credential_id b)\<rparr> s = (res, s1)" by fastforce
    have "node_at (ps_disk s1) q = node_at (ps_disk s) q" using install_outside[OF safe assms(2)] i by (metis snd_conv)
    then show ?thesis using Inr x i by (cases res) (simp_all add: install_plugin_endpoint_def)
  qed (simp add: install_plugin_endpoint_def)
  show "node_at (ps_disk (snd (update_plugin_endpoint w key i s))) q = node_at (ps_disk s) q"
  proof (cases "plugin_by_id i s")
    case (Some p)
    obtain res s1 where u: "update_plugin w key p s = (res, s1)" by fastforce
    then show ?thesis using Some update_outside[OF assms, of w key p]
      by (cases res) (simp_all add: update_plugin_endpoint_def split: option.split)
  qed (simp add: update_plugin_endpoint_def)
  have "safe_store (s\<lparr>ps_disk := ensure_cache_layout (ps_disk s)\<rparr>)" using assms(1) by (simp add: safe_store_def)
  from warm_all_outside[OF this assms(2)] show "node_at (ps_disk (fst (warm_plugin_caches w key s f))) q = node_at (ps_disk s) q"
    by (simp add: warm_plugin_caches_def Let_def layout_outside assms(2))
qed

lemma plugin_step_outside: "plugin_step s s' \<Longrightarrow> apart CACHE_BASE q \<Longrightarrow> node_at (ps_disk s') q = node_at (ps_disk s) q"
proof (induction rule: plugin_step.induct)
  case (poll s w key now)
  then show ?case by (simp add: poll_marketplaces_def poll_outside)
next
  case (toggle i e s r s')
  then show ?case by (auto simp: patch_plugin_def set_plugin_def Let_def split: option.splits)
next
  case (uninstall i s r s')
  then show ?case
    by (auto simp: delete_plugin_def uninstall_plugin_def install_dir_of_def touches_drop install_dir_apart split: option.splits)
next
  case (create w key now i b s r s')
  then show ?case using market_handlers_outside(1)[of q w key now i b s] by simp
next
  case (patch w key now i u s r s')
  then show ?case using market_handlers_outside(2)[of q w key now i u s] by simp
next
  case (remove i s r s')
  then show ?case using market_handlers_outside(3)[of q i s] by simp
next
  case (resync w key now i s r s')
  then show ?case using market_handlers_outside(4)[of q w key now i s] by simp
next
  case (install s w key i b r s')
  then show ?case using plugin_handlers_outside(1)[of s q w key i b] by simp
next
  case (update s w key i r s')
  then show ?case using plugin_handlers_outside(2)[of s q w key i] by simp
next
  case (warm s w key f s' f')
  then show ?case using plugin_handlers_outside(3)[of s q w key f] by simp
qed


subsection \<open>A failing update\<close>


subsection \<open>What a failed sync shows\<close>

lemma http_status_shape:
  "http_status_in w s = Some x \<Longrightarrow> \<exists>a b c. x = [a, b, c] \<and> (a = CHR ''4'' \<or> a = CHR ''5'') \<and> is_digit b \<and> is_digit c"
  by (induction w s rule: http_status_in.induct) (auto split: if_splits)

text \<open>What the card of a marketplace says of a failed sync is one of four fixed texts or a status code
  of three digits: neither the source's address nor a token in it, nor what git or the network
  reported, ever shows.\<close>

theorem sync_error_reveals_nothing:
  "case mp_sync_error (fst (sync_marketplace w key now m r)) of
     None \<Rightarrow> mp_sync_status (fst (sync_marketplace w key now m r)) = Some ''ok''
   | Some e \<Rightarrow>
       e \<in> {''fetch failed (see server logs)'', ''git clone failed (see server logs)'',
            ''source URL rejected: disallowed scheme'', ''unexpected error (see server logs)''} \<or>
       (\<exists>a b c. e = ''fetch failed: HTTP '' @ [a, b, c] \<and> (a = CHR ''4'' \<or> a = CHR ''5'') \<and> is_digit b \<and> is_digit c)"
  by (auto simp: sync_marketplace_def sync_error_text_def split: prod.splits sum.splits fetch_error.splits option.splits dest!: http_status_shape)

subsection \<open>Concrete runs\<close>

definition plugin_files :: "(string \<times> node) list" where
  "plugin_files = [(''skills'', Dir []), (''.mcp.json'', File ''{}'')]"

definition sample_world :: plugin_world where
  "sample_world = \<lparr>pw_git = (\<lambda>_ _ _. Inr plugin_files), pw_http = (\<lambda>_ _. Inl ''refused''), pw_token = Some, pw_encrypt = id, pw_cwd = []\<rparr>"

definition sample_market :: "json \<Rightarrow> marketplace" where
  "sample_market source = \<lparr>mp_id = 1, mp_name = ''m'', mp_source_type = ''http'', mp_source_url = ''http://h'', mp_ref = None,
     mp_token = None, mp_enabled = True, mp_predefined = False,
     mp_manifest = Some (JObj [(''name'', JStr ''m''), (''plugins'', JArr [JObj [(''name'', JStr ''p''), (''source'', source)]])]),
     mp_synced_at = None, mp_sync_status = None, mp_sync_error = None\<rparr>"

definition sample_store :: "json \<Rightarrow> plugin_store" where
  "sample_store source = \<lparr>ps_markets = [sample_market source], ps_plugins = [],
     ps_disk = Dir [(''srv'', Dir [(''data'', Dir [(''a'', File ''x'')])])]\<rparr>"

definition sample_body :: install_body where
  "sample_body = \<lparr>ib_marketplace_id = Some 1, ib_plugin_name = Some ''p'', ib_version = Some ''1'', ib_source_type = None,
     ib_source_url = None, ib_ref = None, ib_auth_token = None, ib_auth_credential_id = None\<rparr>"


definition sample_plugin :: "nat \<Rightarrow> nat option \<Rightarrow> plugin" where
  "sample_plugin i m = \<lparr>pl_id = i, pl_marketplace_id = m, pl_name = ''p'', pl_source_type = (if m = None then Some ''local'' else None),
     pl_source_url = (if m = None then Some ''/srv/data'' else None), pl_ref = None, pl_token = None, pl_version = ''1'',
     pl_latest = Some ''2'', pl_enabled = True, pl_manifest = None, pl_ignored = [], pl_checked_at = None\<rparr>"

definition installed_store :: plugin_store where
  "installed_store = \<lparr>ps_markets = [sample_market (JStr ''o/r'')], ps_plugins = [sample_plugin 7 (Some 1), sample_plugin 8 None],
     ps_disk = the (write_node (the (write_node (Dir []) (plugin_install_dir ''m'' ''p'' ''1'') (Dir plugin_files)))
       (plugin_install_dir ''manual'' ''p'' ''1'') (Dir plugin_files))\<rparr>"


text \<open>A manifest can ask for any directory of the server as the subdirectory of a clone: it is moved away.\<close>

lemma subdir_moves_any_directory:
  "let src = JObj [(''source'', JStr ''git-subdir''), (''url'', JStr ''https://h/r.git''), (''path'', JStr ''/srv/data'')];
       (r, s') = install_plugin_endpoint sample_world None 7 sample_body (sample_store src)
   in node_at (ps_disk (sample_store src)) [''srv'', ''data''] \<noteq> None \<and> node_at (ps_disk s') [''srv'', ''data''] = None \<and>
      node_at (ps_disk s') (plugin_install_dir ''m'' ''p'' ''1'') = Some (Dir [(''a'', File ''x'')])"
  by code_simp

text \<open>An SSH address in the short form has one slash and is taken for a name on GitHub.\<close>

lemma ssh_address_is_no_git:
  "normalize_plugin_source (JStr ''git@h:o/r.git'') = plain_source ''github'' ''git@h:o/r.git'' \<and>
   github_clone_url ''git@h:o/r.git'' = ''https://github.com/git@h:o/r.git.git''"
  by code_simp

text \<open>The ref behind a name on GitHub is cut off and forgotten.\<close>

lemma github_ref_is_lost:
  "let src = normalize_plugin_source (JStr ''o/r#v1'') in
   ns_ref src = None \<and> github_clone_url (ns_url src) = ''https://github.com/o/r.git''"
  by code_simp

text \<open>After its marketplace is deleted a plugin counts as a manual one: removing it removes the tree of
  the manual plugin of the same name and version, and its own stays.\<close>

lemma orphan_removes_namesake:
  "let s1 = snd (delete_marketplace 1 installed_store); s2 = snd (delete_plugin 7 s1) in
   map pl_id (ps_plugins s2) = [8] \<and> node_at (ps_disk s2) (plugin_install_dir ''manual'' ''p'' ''1'') = None \<and>
   node_at (ps_disk s2) (plugin_install_dir ''m'' ''p'' ''1'') \<noteq> None"
  by code_simp

text \<open>Renaming a marketplace leaves the trees of its plugins under the old name, where they are not found.\<close>

lemma rename_loses_trees:
  "let u = \<lparr>mu_enabled = None, mu_name = Some (Some ''n''), mu_source_url = None, mu_ref = None, mu_auth_token = None,
         mu_auth_credential_id = None\<rparr>;
       s1 = snd (patch_marketplace sample_world None 5 1 u installed_store)
   in \<not> pv_load_error (view_in installed_store (sample_plugin 7 (Some 1))) \<and> pv_load_error (view_in s1 (sample_plugin 7 (Some 1)))"
  by code_simp

text \<open>A plugin whose entry has left the manifest is never settled by the warm: who waits for it waits for the
  whole timeout.\<close>

lemma vanished_entry_blocks:
  "let m = (sample_market (JStr ''o/r''))\<lparr>mp_manifest := Some (JObj [(''name'', JStr ''m'')])\<rparr>;
       (s', f) = warm_plugin_caches sample_world None \<lparr>ps_markets = [m], ps_plugins = [sample_plugin 7 (Some 1)], ps_disk = Dir []\<rparr> []
   in wait_for_plugin f 7 = (False, True)"
  by code_simp

end
