(* ===== verification/Cloud_Endpoints.thy ===== *)
theory Cloud_Endpoints
  imports Triggers
begin

text \<open>
  The endpoints of webhook triggers and of Slack at the cloud service: \<open>errand/cloud_endpoints.py\<close>.  What
  the service answers is a parameter, one for each pass; requests of other handlers between the
  statements of a pass are left out, and so is the log.
\<close>

subsection \<open>State\<close>

record cloud_trigger = trigger +
  wc_url :: "string option"
  wc_token :: "string option"

record credential =
  cr_status :: string
  cr_data :: "(string \<times> json) list option"      \<comment> \<open>absent when it cannot be decrypted\<close>

record url_change =
  uc_trigger :: nat
  uc_name :: string
  uc_source :: string
  uc_previous :: string
  uc_new :: string
  uc_at :: time

record endpoint =
  en_integration :: json
  en_type :: json
  en_url :: json
  en_token :: json

text \<open>The two parts of the setting with the changes of addresses; it is absent when both are empty.\<close>

record cloud_db =
  cd_triggers :: "cloud_trigger list"
  cd_cloud :: "credential option"
  cd_slack :: "credential option"
  cd_service_url :: "string option"
  cd_endpoints :: "endpoint list"
  cd_error :: "(json \<times> time) option"
  cd_changes :: "url_change list"
  cd_last_known :: "(nat \<times> string) list"

definition row_of :: "nat \<Rightarrow> cloud_db \<Rightarrow> cloud_trigger option" where
  "row_of i db = find (\<lambda>t. w_id t = i) (cd_triggers db)"

definition set_row :: "cloud_trigger \<Rightarrow> cloud_db \<Rightarrow> cloud_db" where
  "set_row t db = db\<lparr>cd_triggers := map (\<lambda>q. if w_id q = w_id t then t else q) (cd_triggers db)\<rparr>"

definition store_endpoint_error :: "time \<Rightarrow> json \<Rightarrow> cloud_db \<Rightarrow> cloud_db" where
  "store_endpoint_error now detail db = db\<lparr>cd_error := Some (detail, now)\<rparr>"

definition clear_endpoint_error :: "cloud_db \<Rightarrow> cloud_db" where "clear_endpoint_error db = db\<lparr>cd_error := None\<rparr>"

subsection \<open>Requests and answers\<close>

datatype http_result = No_response | Response nat string

datatype cloud_request =
    Get_endpoints string string                       \<comment> \<open>address, integration\<close>
  | Post_endpoint string "(string \<times> json) list"
  | Delete_endpoints string
  | Get_subscription string

record cloud_service =
  cs_answer :: "cloud_request \<Rightarrow> http_result"
  cs_decrypt :: "string \<Rightarrow> string option"
  cs_encrypt :: "string \<Rightarrow> string"
  cs_draw :: "nat \<Rightarrow> string"
  cs_show_uuid :: "nat \<Rightarrow> string"

definition is_success :: "nat \<Rightarrow> bool" where "is_success code \<longleftrightarrow> 200 \<le> code \<and> code < 300"

definition error_detail :: "string \<Rightarrow> json" where
  "error_detail body =
     (case json_loads body of Some (JObj d) \<Rightarrow> (case dict_get d ''detail'' of None \<Rightarrow> JStr body | Some v \<Rightarrow> v) | _ \<Rightarrow> JStr body)"

definition dget :: "(string \<times> json) list \<Rightarrow> string \<Rightarrow> json \<Rightarrow> json" where
  "dget d k v = (case dict_get d k of None \<Rightarrow> v | Some x \<Rightarrow> x)"

definition has_token :: "(string \<times> json) list \<Rightarrow> bool" where
  "has_token creds = json_truthy (dget creds ''access_token'' (JStr []))"

definition endpoints_url :: "string \<Rightarrow> string" where
  "endpoints_url base = rstrip_char CHR ''/'' base @ ''/api/endpoints''"

definition service_url :: "cloud_db \<Rightarrow> string" where
  "service_url db = (if truthy (cd_service_url db) then the (cd_service_url db) else ''https://errand.cloud'')"

definition resolve_cloud_context :: "cloud_db \<Rightarrow> py_error + ((string \<times> json) list \<times> string) option" where
  "resolve_cloud_context db =
     (case cd_cloud db of
        None \<Rightarrow> Inr None
      | Some c \<Rightarrow>
          if cr_status c \<noteq> ''connected'' then Inr None
          else case cr_data c of None \<Rightarrow> Inl (ValueErr ''decrypt'') | Some d \<Rightarrow> Inr (Some (d, service_url db)))"

definition record_of :: "json \<Rightarrow> (string \<times> json) list option" where
  "record_of j = (case j of JObj d \<Rightarrow> Some d | _ \<Rightarrow> None)"

text \<open>The live endpoints of an integration, or \<open>None\<close> when the question could not be asked.\<close>

definition check_existing_endpoints ::
    "cloud_service \<Rightarrow> (string \<times> json) list \<Rightarrow> string \<Rightarrow> string \<Rightarrow> (string \<times> json) list list option" where
  "check_existing_endpoints w creds base integration =
     (if \<not> has_token creds then None
      else case cs_answer w (Get_endpoints (endpoints_url base @ ''?integration='' @ integration) integration) of
        No_response \<Rightarrow> None
      | Response code body \<Rightarrow>
          if \<not> is_success code then None
          else (case json_loads body of
              Some (JArr xs) \<Rightarrow> if list_all (\<lambda>x. record_of x \<noteq> None) xs then Some (map (the \<circ> record_of) xs) else None
            | _ \<Rightarrow> None))"

subsection \<open>The endpoints of Slack\<close>

definition endpoint_row :: "json \<Rightarrow> json \<Rightarrow> (string \<times> json) list \<Rightarrow> endpoint" where
  "endpoint_row integration ty d = \<lparr>en_integration = integration, en_type = ty, en_url = dget d ''url'' (JStr []), en_token = dget d ''token'' (JStr [])\<rparr>"

text \<open>An answer that is no object, or whose list holds something else than objects, raises (\<open>None\<close>).\<close>

definition registered_endpoints :: "json \<Rightarrow> endpoint list option" where
  "registered_endpoints data =
     (case data of
        JObj d \<Rightarrow>
          (case dget d ''endpoints'' (JArr []) of
             JArr xs \<Rightarrow>
               (if list_all (\<lambda>x. record_of x \<noteq> None) xs
                then Some (map (\<lambda>x. endpoint_row (dget d ''integration'' (JStr ''slack'')) (dget (the (record_of x)) ''type'' (JStr []))
                  (the (record_of x))) xs)
                else None)
           | JStr [] \<Rightarrow> Some []
           | JObj [] \<Rightarrow> Some []
           | _ \<Rightarrow> None)
      | _ \<Rightarrow> None)"

definition network_error :: json where
  "network_error = JStr ''Cloud endpoint registration failed (network or server error)''"

definition register_cloud_endpoints ::
    "cloud_service \<Rightarrow> time \<Rightarrow> (string \<times> json) list \<Rightarrow> (string \<times> json) list \<Rightarrow> string \<Rightarrow> cloud_db \<Rightarrow> py_error + cloud_db" where
  "register_cloud_endpoints w now creds slack base db =
     (if \<not> has_token creds \<or> \<not> json_truthy (dget slack ''signing_secret'' (JStr [])) then Inr db
      else case cs_answer w (Post_endpoint (endpoints_url base) [(''integration'', JStr ''slack''), (''label'', JStr ''errand-instance''),
          (''signing_secret'', dget slack ''signing_secret'' (JStr []))]) of
        No_response \<Rightarrow> Inr (store_endpoint_error now network_error db)
      | Response code body \<Rightarrow>
          if \<not> is_success code then Inr (store_endpoint_error now (error_detail body) db)
          else (case json_loads body of
              None \<Rightarrow> Inr (store_endpoint_error now network_error db)
            | Some data \<Rightarrow>
                (case registered_endpoints data of
                   None \<Rightarrow> Inl (AttributeErr ''get'')
                 | Some es \<Rightarrow> Inr (clear_endpoint_error (db\<lparr>cd_endpoints := es\<rparr>)))))"

definition connected_data :: "credential option \<Rightarrow> py_error + (string \<times> json) list option" where
  "connected_data c =
     (case c of
        None \<Rightarrow> Inr None
      | Some k \<Rightarrow>
          if cr_status k \<noteq> ''connected'' then Inr None
          else case cr_data k of None \<Rightarrow> Inl (ValueErr ''decrypt'') | Some d \<Rightarrow> Inr (Some d))"

definition try_register_endpoints :: "cloud_service \<Rightarrow> time \<Rightarrow> cloud_db \<Rightarrow> py_error + cloud_db" where
  "try_register_endpoints w now db =
     bind_res (connected_data (cd_cloud db)) (\<lambda>cloud.
       case cloud of
         None \<Rightarrow> Inr db
       | Some creds \<Rightarrow>
           bind_res (connected_data (cd_slack db)) (\<lambda>slack.
             case slack of
               None \<Rightarrow> Inr db
             | Some sl \<Rightarrow>
                 (case check_existing_endpoints w creds (service_url db) ''slack'' of
                    Some (e # es) \<Rightarrow>
                      Inr (db\<lparr>cd_endpoints := map (\<lambda>d. endpoint_row (dget d ''integration'' (JStr ''slack''))
                        (dget d ''type'' (dget d ''endpoint_type'' (JStr []))) d) (e # es)\<rparr>)
                  | _ \<Rightarrow> register_cloud_endpoints w now creds sl (service_url db) db)))"

subsection \<open>Registering a trigger\<close>

text \<open>The address and token of an answer: of the object itself or of its first usable endpoint.\<close>

definition usable_endpoint :: "json \<Rightarrow> bool" where
  "usable_endpoint e =
     (case e of
        JObj d \<Rightarrow> dict_get d ''type'' = Some (JStr ''webhook'') \<and> truthy_at d ''url'' \<and> truthy_at d ''token''
      | _ \<Rightarrow> False)"

definition text_pair :: "json option \<Rightarrow> json option \<Rightarrow> (string \<times> string) option" where
  "text_pair u t =
     (case (u, t) of (Some (JStr a), Some (JStr b)) \<Rightarrow> if a \<noteq> [] \<and> b \<noteq> [] then Some (a, b) else None | _ \<Rightarrow> None)"

definition endpoint_of :: "json \<Rightarrow> (string \<times> string) option" where
  "endpoint_of data =
     (case data of
        JObj d \<Rightarrow>
          if truthy_at d ''url'' \<and> truthy_at d ''token'' then text_pair (dict_get d ''url'') (dict_get d ''token'')
          else (case find usable_endpoint (case dict_get d ''endpoints'' of Some (JArr xs) \<Rightarrow> xs | _ \<Rightarrow> []) of
              Some (JObj e) \<Rightarrow> text_pair (dict_get e ''url'') (dict_get e ''token'')
            | _ \<Rightarrow> text_pair (dict_get d ''url'') (dict_get d ''token''))
      | _ \<Rightarrow> None)"

text \<open>The secret to register with and the row that holds it: an old row gets one now.\<close>

definition trigger_secret :: "cloud_service \<Rightarrow> cloud_trigger \<Rightarrow> string + string \<times> cloud_trigger" where
  "trigger_secret w t =
     (if \<not> truthy (w_secret t) then Inr (cs_draw w (w_id t), t\<lparr>w_secret := Some (cs_encrypt w (cs_draw w (w_id t)))\<rparr>)
      else case cs_decrypt w (the (w_secret t)) of
        None \<Rightarrow> Inl ''Cloud endpoint registration failed: webhook secret could not be decrypted''
      | Some s \<Rightarrow> if s = [] then Inl ''Cloud endpoint registration failed: webhook secret is empty'' else Inr (s, t))"

definition trigger_body :: "cloud_service \<Rightarrow> cloud_trigger \<Rightarrow> string \<Rightarrow> (string \<times> json) list" where
  "trigger_body w t secret =
     [(''integration'', JStr (w_source t)), (''endpoint_type'', JStr ''webhook''), (''trigger_id'', JStr (cs_show_uuid w (w_id t))),
      (''webhook_secret'', JStr secret), (''label'', JStr (w_name t))]"

text \<open>The answer to a registration: the address and token, or the error to note.\<close>

definition read_answer :: "http_result \<Rightarrow> json + string \<times> string" where
  "read_answer r =
     (case r of
        No_response \<Rightarrow> Inl network_error
      | Response code body \<Rightarrow>
          if \<not> is_success code then Inl (error_detail body)
          else (case json_loads body of
              None \<Rightarrow> Inl network_error
            | Some data \<Rightarrow>
                (case endpoint_of data of
                   None \<Rightarrow> Inl (JStr ''Cloud endpoint registration response missing url/token'')
                 | Some p \<Rightarrow> Inr p)))"

definition register_webhook_trigger_with_cloud ::
    "cloud_service \<Rightarrow> time \<Rightarrow> cloud_trigger \<Rightarrow> cloud_db \<Rightarrow> py_error + bool \<times> cloud_db" where
  "register_webhook_trigger_with_cloud w now t db =
     bind_res (resolve_cloud_context db) (\<lambda>ctx.
       case ctx of
         None \<Rightarrow> Inr (False, db)
       | Some (creds, base) \<Rightarrow>
           (case trigger_secret w t of
              Inl e \<Rightarrow> Inr (False, store_endpoint_error now (JStr e) db)
            | Inr (secret, t1) \<Rightarrow>
                (let db1 = set_row t1 db in
                 if \<not> has_token creds then Inr (False, db1)
                 else case read_answer (cs_answer w (Post_endpoint (endpoints_url base) (trigger_body w t1 secret))) of
                   Inl e \<Rightarrow> Inr (False, store_endpoint_error now e db1)
                 | Inr (u, k) \<Rightarrow> Inr (True, set_row (t1\<lparr>wc_url := Some u, wc_token := Some k\<rparr>) db1))))"

subsection \<open>Reconciling\<close>

definition WEBHOOK_TRIGGER_INTEGRATIONS :: "string list" where "WEBHOOK_TRIGGER_INTEGRATIONS = [''jira'', ''github'']"

definition clear_url_changes :: "cloud_db \<Rightarrow> cloud_db" where
  "clear_url_changes db = db\<lparr>cd_changes := [], cd_last_known := []\<rparr>"

text \<open>The tokens of a listing form a set; a token that cannot be hashed raises (\<open>None\<close>).\<close>

definition live_tokens :: "(string \<times> json) list list \<Rightarrow> json list option" where
  "live_tokens es =
     (let ts = filter json_truthy (map (\<lambda>d. dget d ''token'' JNull) es)
      in if list_ex (\<lambda>t. case t of JArr _ \<Rightarrow> True | JObj _ \<Rightarrow> True | _ \<Rightarrow> False) ts then None else Some ts)"

definition is_live :: "string option \<Rightarrow> json list \<Rightarrow> bool" where
  "is_live token live \<longleftrightarrow> truthy token \<and> JStr (the token) \<in> set live"

definition known_url :: "cloud_trigger \<Rightarrow> cloud_db \<Rightarrow> string option" where
  "known_url t db = (if truthy (wc_url t) then wc_url t else dict_get (cd_last_known db) (w_id t))"

definition note_change :: "time \<Rightarrow> cloud_trigger \<Rightarrow> string option \<Rightarrow> string option \<Rightarrow> cloud_db \<Rightarrow> cloud_db" where
  "note_change now t old new db =
     db\<lparr>cd_changes :=
          (if truthy old \<and> truthy new \<and> old \<noteq> new then
             filter (\<lambda>c. uc_trigger c \<noteq> w_id t) (cd_changes db) @
             [\<lparr>uc_trigger = w_id t, uc_name = w_name t, uc_source = w_source t, uc_previous = the old, uc_new = the new, uc_at = now\<rparr>]
           else cd_changes db),
        cd_last_known := dict_del (w_id t) (cd_last_known db)\<rparr>"

definition forget_url :: "cloud_trigger \<Rightarrow> cloud_db \<Rightarrow> cloud_db" where
  "forget_url t db =
     (case wc_url t of
        None \<Rightarrow> db
      | Some u \<Rightarrow> (set_row (t\<lparr>wc_url := None\<rparr>) db)\<lparr>cd_last_known := dict_set (w_id t) u (cd_last_known db)\<rparr>)"

definition reconcile_one :: "cloud_service \<Rightarrow> time \<Rightarrow> nat \<Rightarrow> string \<Rightarrow> json list \<Rightarrow> cloud_db \<Rightarrow> py_error + cloud_db" where
  "reconcile_one w now i integration live db =
     (case row_of i db of
        None \<Rightarrow> Inr db
      | Some t \<Rightarrow>
          if w_source t \<noteq> integration \<or> is_live (wc_token t) live then Inr db
          else bind_res (register_webhook_trigger_with_cloud w now t db) (\<lambda>(ok, db').
            case row_of i db' of
              None \<Rightarrow> Inr db'
            | Some t' \<Rightarrow> Inr (if ok then note_change now t' (known_url t db) (wc_url t') db' else forget_url t' db')))"

text \<open>The group of an integration, as it was read at the start of the pass.\<close>

fun reconcile_group :: "cloud_service \<Rightarrow> time \<Rightarrow> string \<Rightarrow> json list \<Rightarrow> (nat \<times> string option) list \<Rightarrow> cloud_db \<Rightarrow> cloud_db" where
  "reconcile_group w now integration live [] db = db"
| "reconcile_group w now integration live ((i, token) # g) db =
     reconcile_group w now integration live g
       (if is_live token live then db
        else case reconcile_one w now i integration live db of Inl _ \<Rightarrow> db | Inr db' \<Rightarrow> db')"

definition group_of :: "string \<Rightarrow> cloud_trigger list \<Rightarrow> (nat \<times> string option) list" where
  "group_of integration ts = map (\<lambda>t. (w_id t, wc_token t)) (filter (\<lambda>t. w_source t = integration) ts)"

text \<open>The integrations in the order their first trigger has; a set of tokens that raises ends the pass.\<close>

fun reconcile_groups ::
    "cloud_service \<Rightarrow> time \<Rightarrow> (string \<times> json) list \<Rightarrow> string \<Rightarrow> (string \<times> (nat \<times> string option) list) list \<Rightarrow> cloud_db \<Rightarrow> cloud_db" where
  "reconcile_groups w now creds base [] db = db"
| "reconcile_groups w now creds base ((integration, g) # gs) db =
     (case check_existing_endpoints w creds base integration of
        None \<Rightarrow> reconcile_groups w now creds base gs db
      | Some es \<Rightarrow>
          (case live_tokens es of
             None \<Rightarrow> db
           | Some live \<Rightarrow> reconcile_groups w now creds base gs (reconcile_group w now integration live g db)))"

definition trigger_groups :: "cloud_trigger list \<Rightarrow> (string \<times> (nat \<times> string option) list) list" where
  "trigger_groups ts =
     map (\<lambda>s. (s, group_of s ts))
       (rev (remdups (rev (filter (\<lambda>s. s \<in> set WEBHOOK_TRIGGER_INTEGRATIONS) (map w_source ts)))))"

definition reconcile_webhook_trigger_endpoints :: "cloud_service \<Rightarrow> time \<Rightarrow> cloud_db \<Rightarrow> cloud_db" where
  "reconcile_webhook_trigger_endpoints w now db =
     (case resolve_cloud_context db of
        Inr (Some (creds, base)) \<Rightarrow> reconcile_groups w now creds base (trigger_groups (cd_triggers db)) db
      | _ \<Rightarrow> db)"

subsection \<open>After a connect\<close>

definition POST_CONNECT_COOLDOWN_SECS :: int where "POST_CONNECT_COOLDOWN_SECS = 60"

text \<open>Whether a connect starts the passes, and the time the last ones started.\<close>

definition starts_passes :: "bool \<Rightarrow> bool \<Rightarrow> time \<Rightarrow> time \<Rightarrow> bool" where
  "starts_passes running force now since \<longleftrightarrow> \<not> running \<and> (force \<or> \<not> now - since < seconds POST_CONNECT_COOLDOWN_SECS)"

definition run_post_connect_endpoint_passes ::
    "cloud_service \<Rightarrow> time \<Rightarrow> bool \<Rightarrow> bool \<Rightarrow> time \<Rightarrow> cloud_db \<Rightarrow> cloud_db \<times> time" where
  "run_post_connect_endpoint_passes w now running force since db =
     (if \<not> starts_passes running force now since then (db, since)
      else (reconcile_webhook_trigger_endpoints w now (case try_register_endpoints w now db of Inl _ \<Rightarrow> db | Inr db' \<Rightarrow> db'), now))"

subsection \<open>Revoking and the subscription\<close>

definition revoke_webhook_trigger_in_cloud :: "cloud_service \<Rightarrow> cloud_trigger \<Rightarrow> cloud_db \<Rightarrow> py_error + cloud_request option" where
  "revoke_webhook_trigger_in_cloud w t db =
     bind_res (resolve_cloud_context db) (\<lambda>ctx.
       case ctx of
         None \<Rightarrow> Inr None
       | Some (creds, base) \<Rightarrow>
           if \<not> has_token creds then Inr None
           else Inr (Some (Delete_endpoints (if truthy (wc_token t) then endpoints_url base @ ''/'' @ the (wc_token t)
             else endpoints_url base @ ''?integration='' @ w_source t @ ''&trigger_id='' @ cs_show_uuid w (w_id t)))))"

definition revoke_cloud_endpoints_for_integration :: "(string \<times> json) list \<Rightarrow> string \<Rightarrow> string \<Rightarrow> cloud_request option" where
  "revoke_cloud_endpoints_for_integration creds base integration =
     (if \<not> has_token creds then None else Some (Delete_endpoints (endpoints_url base @ ''?integration='' @ integration)))"

definition revoke_cloud_endpoints :: "(string \<times> json) list \<Rightarrow> string \<Rightarrow> cloud_request option" where
  "revoke_cloud_endpoints creds base =
     (if \<not> has_token creds then None else Some (Delete_endpoints (endpoints_url base @ ''?integration=slack'')))"

definition fetch_subscription_status :: "cloud_service \<Rightarrow> (string \<times> json) list \<Rightarrow> string \<Rightarrow> (bool \<times> string option) option" where
  "fetch_subscription_status w creds base =
     (if \<not> has_token creds then None
      else case cs_answer w (Get_subscription (rstrip_char CHR ''/'' base @ ''/api/subscription'')) of
        No_response \<Rightarrow> None
      | Response code body \<Rightarrow>
          if \<not> is_success code then None
          else (case json_loads body of
              Some (JObj d) \<Rightarrow>
                (case (dict_get d ''active'', dget d ''expires_at'' JNull) of
                   (Some (JBool b), JNull) \<Rightarrow> Some (b, None)
                 | (Some (JBool b), JStr s) \<Rightarrow> Some (b, Some s)
                 | _ \<Rightarrow> None)
            | _ \<Rightarrow> None))"

subsection \<open>What a pass leaves alone\<close>

lemma row_of_id: "row_of i db = Some t \<Longrightarrow> w_id t = i"
  by (auto simp: row_of_def find_Some_iff)

lemma row_of_set_row: "row_of i (set_row t db) = (if i = w_id t then map_option (\<lambda>_. t) (row_of i db) else row_of i db)"
proof -
  have "find (\<lambda>q. w_id q = i) (map (\<lambda>q. if w_id q = w_id t then t else q) ts) =
    (if i = w_id t then map_option (\<lambda>_. t) (find (\<lambda>q. w_id q = i) ts) else find (\<lambda>q. w_id q = i) ts)" for ts :: "cloud_trigger list"
    by (induction ts) auto
  then show ?thesis by (simp add: row_of_def set_row_def)
qed

text \<open>The parts of the state that only the pass over one trigger may change.\<close>

definition same_but :: "nat \<Rightarrow> cloud_db \<Rightarrow> cloud_db \<Rightarrow> bool" where
  "same_but i db db' \<longleftrightarrow>
     (\<forall>j. j \<noteq> i \<longrightarrow> row_of j db' = row_of j db \<and> dict_get (cd_last_known db') j = dict_get (cd_last_known db) j \<and>
        filter (\<lambda>c. uc_trigger c = j) (cd_changes db') = filter (\<lambda>c. uc_trigger c = j) (cd_changes db)) \<and>
     cd_cloud db' = cd_cloud db \<and> cd_service_url db' = cd_service_url db"

lemma same_but_refl [simp]: "same_but i db db"
  by (simp add: same_but_def)

lemma same_but_trans: "same_but i a b \<Longrightarrow> same_but i b c \<Longrightarrow> same_but i a c"
  by (simp add: same_but_def)

lemma same_but_simps [simp]:
  "same_but i db (store_endpoint_error now e db') \<longleftrightarrow> same_but i db db'"
  "same_but (w_id t) db (set_row t db)"
  by (auto simp: same_but_def store_endpoint_error_def row_of_set_row, auto simp: row_of_def set_row_def)

lemma same_but_context: "same_but i db db' \<Longrightarrow> resolve_cloud_context db' = resolve_cloud_context db"
  by (auto simp: same_but_def resolve_cloud_context_def service_url_def split: option.split)

lemma row_of_error [simp]:
  "row_of i (store_endpoint_error now e db) = row_of i db"
  "cd_changes (store_endpoint_error now e db) = cd_changes db" "cd_last_known (store_endpoint_error now e db) = cd_last_known db"
  by (simp_all add: row_of_def store_endpoint_error_def)

lemma set_row_frame [simp]: "cd_changes (set_row t db) = cd_changes db" "cd_last_known (set_row t db) = cd_last_known db"
  by (simp_all add: set_row_def)

definition answered :: "cloud_service \<Rightarrow> string \<Rightarrow> string \<Rightarrow> bool" where
  "answered w u k \<longleftrightarrow> (\<exists>rq. read_answer (cs_answer w rq) = Inr (u, k))"

lemma text_pair_nonempty: "text_pair a b = Some (u, k) \<Longrightarrow> u \<noteq> [] \<and> k \<noteq> []"
  by (auto simp: text_pair_def split: option.splits json.splits if_splits)

lemma answered_nonempty: "answered w u k \<Longrightarrow> u \<noteq> [] \<and> k \<noteq> []"
proof -
  assume "answered w u k"
  then obtain rq where "read_answer (cs_answer w rq) = Inr (u, k)" by (auto simp: answered_def)
  then have "\<exists>data. endpoint_of data = Some (u, k)"
    by (cases "cs_answer w rq") (auto simp: read_answer_def split: if_splits option.splits)
  then obtain data where d: "endpoint_of data = Some (u, k)" by blast
  then show ?thesis
    by (auto simp: endpoint_of_def dest: text_pair_nonempty split: json.splits if_splits option.splits)
qed

lemma answeredI: "read_answer (cs_answer w rq) = Inr (u, k) \<Longrightarrow> answered w u k"
  by (auto simp: answered_def)

text \<open>A registration changes one row: its secret, and on success its address and token.\<close>

lemma trigger_secret_keeps:
  "trigger_secret w t = Inr (s, t1) \<Longrightarrow> w_id t1 = w_id t \<and> w_source t1 = w_source t \<and> wc_url t1 = wc_url t \<and> wc_token t1 = wc_token t"
  by (auto simp: trigger_secret_def split: if_splits option.splits)

lemma register_one_row:
  assumes "register_webhook_trigger_with_cloud w now t db = Inr (ok, db')" "row_of (w_id t) db = Some t"
  obtains t' where "same_but (w_id t) db db'" "row_of (w_id t) db' = Some t'" "w_id t' = w_id t" "w_source t' = w_source t"
    "cd_changes db' = cd_changes db" "cd_last_known db' = cd_last_known db"
    "if ok then (\<exists>u k. answered w u k \<and> wc_url t' = Some u \<and> wc_token t' = Some k) else wc_url t' = wc_url t \<and> wc_token t' = wc_token t"
proof -
  consider "ok = False" "db' = db" | e where "ok = False" "db' = store_endpoint_error now e db"
    | s t1 where "trigger_secret w t = Inr (s, t1)" "ok = False" "db' = set_row t1 db"
    | s t1 e where "trigger_secret w t = Inr (s, t1)" "ok = False" "db' = store_endpoint_error now e (set_row t1 db)"
    | s t1 u k where "trigger_secret w t = Inr (s, t1)" "ok = True" "answered w u k"
        "db' = set_row (t1\<lparr>wc_url := Some u, wc_token := Some k\<rparr>) (set_row t1 db)"
    using assms(1) unfolding register_webhook_trigger_with_cloud_def
    by (auto elim!: bind_InrE simp: Let_def split: option.splits sum.splits if_splits) (blast dest: answeredI)
  then show ?thesis
  proof cases
    case 1 then show ?thesis using that[of t] assms(2) by simp
  next
    case 2 then show ?thesis using that[of t] assms(2) by simp
  next
    case (3 s t1)
    then show ?thesis using that[of t1] trigger_secret_keeps[OF 3(1)] same_but_simps(2)[of t1 db] assms(2) by (simp add: row_of_set_row)
  next
    case (4 s t1 e)
    then show ?thesis using that[of t1] trigger_secret_keeps[OF 4(1)] same_but_simps(2)[of t1 db] assms(2) by (simp add: row_of_set_row)
  next
    case (5 s t1 u k)
    let ?t = "t1\<lparr>wc_url := Some u, wc_token := Some k\<rparr>"
    have "same_but (w_id t) db db'"
      using same_but_trans[OF same_but_simps(2)[of t1 db], of "set_row ?t (set_row t1 db)"] same_but_simps(2)[of ?t "set_row t1 db"]
        trigger_secret_keeps[OF 5(1)] 5(4) by simp
    then show ?thesis using that[of ?t] trigger_secret_keeps[OF 5(1)] 5 assms(2) by (auto simp: row_of_set_row)
  qed
qed

subsection \<open>One trigger\<close>

definition settled :: "cloud_service \<Rightarrow> json list \<Rightarrow> cloud_trigger \<Rightarrow> bool" where
  "settled w live t \<longleftrightarrow> is_live (wc_token t) live \<or>
     (case wc_url t of None \<Rightarrow> True | Some u \<Rightarrow> (case wc_token t of None \<Rightarrow> False | Some k \<Rightarrow> answered w u k))"

lemma same_but_note: "w_id t = i \<Longrightarrow> same_but i db (note_change now t old new db)"
  by (auto simp: same_but_def note_change_def row_of_def map_of_dict_del intro!: filter_cong)

lemma same_but_forget: "w_id t = i \<Longrightarrow> same_but i db (forget_url t db)"
proof (cases "wc_url t")
  case (Some u)
  assume i: "w_id t = i"
  have "row_of j (d\<lparr>cd_last_known := x\<rparr>) = row_of j d" for j d x by (simp add: row_of_def)
  then show ?thesis using Some i by (auto simp: same_but_def forget_url_def row_of_set_row map_of_dict_set) (simp_all add: set_row_def)
qed (simp add: forget_url_def)

lemma forget_url_facts:
  assumes "row_of i db = Some t"
  shows "row_of i (forget_url t db) = Some (t\<lparr>wc_url := None\<rparr>)" "cd_changes (forget_url t db) = cd_changes db"
    "dict_get (cd_last_known (forget_url t db)) i = (case wc_url t of None \<Rightarrow> dict_get (cd_last_known db) i | Some u \<Rightarrow> Some u)"
proof -
  have r: "row_of j (d\<lparr>cd_last_known := x\<rparr>) = row_of j d" for j d x by (simp add: row_of_def)
  show "row_of i (forget_url t db) = Some (t\<lparr>wc_url := None\<rparr>)" "cd_changes (forget_url t db) = cd_changes db"
    "dict_get (cd_last_known (forget_url t db)) i = (case wc_url t of None \<Rightarrow> dict_get (cd_last_known db) i | Some u \<Rightarrow> Some u)"
    using assms row_of_id[OF assms] by (cases "wc_url t"; simp add: forget_url_def r row_of_set_row map_of_dict_set)+
qed

lemma note_change_rows [simp]: "row_of j (note_change now t old new db) = row_of j db"
  by (simp add: row_of_def note_change_def)

text \<open>What happens to one trigger that has no live endpoint: it is registered, or its address is gone and kept in
  mind.\<close>

lemma reconcile_one_outcome:
  assumes "reconcile_one w now i integration live db = Inr db'" "row_of i db = Some t" "w_source t = integration"
    and "\<not> is_live (wc_token t) live"
  obtains (registered) t' u k where "same_but i db db'" "row_of i db' = Some t'" "w_source t' = integration" "answered w u k"
      "wc_url t' = Some u" "wc_token t' = Some k" "\<exists>db1. cd_changes db1 = cd_changes db \<and> cd_last_known db1 = cd_last_known db \<and>
        db' = note_change now t' (known_url t db) (Some u) db1" "w_id t' = i"
    | (failed) t' where "same_but i db db'" "row_of i db' = Some t'" "w_source t' = integration" "wc_url t' = None"
      "cd_changes db' = cd_changes db"
      "dict_get (cd_last_known db') i = (case wc_url t of None \<Rightarrow> dict_get (cd_last_known db) i | Some u \<Rightarrow> Some u)"
proof -
  have i: "w_id t = i" by (rule row_of_id[OF assms(2)])
  obtain ok db1 where reg: "register_webhook_trigger_with_cloud w now t db = Inr (ok, db1)"
    and rest: "(case row_of i db1 of None \<Rightarrow> Inr db1
        | Some t' \<Rightarrow> Inr (if ok then note_change now t' (known_url t db) (wc_url t') db1 else forget_url t' db1)) = (Inr db' :: py_error + cloud_db)"
    using assms by (auto simp: reconcile_one_def elim!: bind_InrE)
  obtain t' where t': "same_but i db db1" "row_of i db1 = Some t'" "w_id t' = i" "w_source t' = w_source t"
    "cd_changes db1 = cd_changes db" "cd_last_known db1 = cd_last_known db"
    "if ok then (\<exists>u k. answered w u k \<and> wc_url t' = Some u \<and> wc_token t' = Some k) else wc_url t' = wc_url t \<and> wc_token t' = wc_token t"
    using register_one_row[OF reg] assms(2) i by metis
  show ?thesis
  proof (cases ok)
    case True
    then obtain u k where u: "answered w u k" "wc_url t' = Some u" "wc_token t' = Some k" using t'(7) by auto
    then have db': "db' = note_change now t' (known_url t db) (Some u) db1" using rest t'(2) True by simp
    show ?thesis
      by (rule registered[where t' = t' and u = u and k = k])
        (use u t' db' assms(3) same_but_trans[OF t'(1) same_but_note[OF t'(3)]] in auto)
  next
    case False
    then have db': "db' = forget_url t' db1" using rest t'(2) by simp
    show ?thesis
      by (rule failed[where t' = "t'\<lparr>wc_url := None\<rparr>"])
        (use t' db' False assms(3) forget_url_facts[OF t'(2)] same_but_trans[OF t'(1) same_but_forget[OF t'(3)]] in \<open>auto split: option.split\<close>)
  qed
qed

lemma reconcile_one_same: "reconcile_one w now i integration live db = Inr db' \<Longrightarrow> same_but i db db'"
proof (cases "row_of i db")
  case (Some t)
  assume r: "reconcile_one w now i integration live db = Inr db'"
  show ?thesis
  proof (cases "w_source t \<noteq> integration \<or> is_live (wc_token t) live")
    case True
    then show ?thesis using r Some by (simp add: reconcile_one_def)
  next
    case False
    then have a: "w_source t = integration" "\<not> is_live (wc_token t) live" by auto
    show ?thesis by (rule reconcile_one_outcome[OF r Some a])
  qed
qed (simp add: reconcile_one_def)

subsection \<open>A pass\<close>

lemma group_frame:
  "j \<notin> fst ` set g \<Longrightarrow> row_of j (reconcile_group w now integration live g db) = row_of j db"
proof (induction w now integration live g db rule: reconcile_group.induct)
  case (2 w now integration live i token g db)
  then show ?case using reconcile_one_same[of w now i integration live db] by (auto simp: same_but_def split: sum.split)
qed simp

lemma group_context: "resolve_cloud_context (reconcile_group w now integration live g db) = resolve_cloud_context db"
proof (induction w now integration live g db rule: reconcile_group.induct)
  case (2 w now integration live i token g db)
  then show ?case using same_but_context[OF reconcile_one_same[of w now i integration live db]] by (auto split: sum.split)
qed simp

lemma reconcile_one_runs:
  "resolve_cloud_context db = Inr x \<Longrightarrow> \<exists>db'. reconcile_one w now i integration live db = Inr db'"
  by (auto simp: reconcile_one_def register_webhook_trigger_with_cloud_def Let_def split: option.splits sum.splits)

lemma group_settles:
  assumes "distinct (map fst g)" "(j, wc_token t) \<in> set g" "row_of j db = Some t" "w_source t = integration"
    and "resolve_cloud_context db = Inr x"
  shows "\<exists>t'. row_of j (reconcile_group w now integration live g db) = Some t' \<and> settled w live t' \<and>
    (is_live (wc_token t) live \<longrightarrow> t' = t)"
  using assms
proof (induction w now integration live g db rule: reconcile_group.induct)
  case (2 w now integration live i token g db)
  define db1 where "db1 = (if is_live token live then db
        else case reconcile_one w now i integration live db of Inl _ \<Rightarrow> db | Inr db' \<Rightarrow> db')"
  have ctx: "resolve_cloud_context db1 = Inr x"
    using same_but_context[OF reconcile_one_same[of w now i integration live db]] 2(6) by (auto simp: db1_def split: sum.split)
  show ?case
  proof (cases "i = j")
    case True
    then have "j \<notin> fst ` set g" "token = wc_token t" using 2(2,3) by (auto simp: rev_image_eqI)
    then have "row_of j (reconcile_group w now integration live ((i, token) # g) db) = row_of j db1"
      using group_frame by (simp add: db1_def)
    moreover have "\<exists>t'. row_of j db1 = Some t' \<and> settled w live t' \<and> (is_live (wc_token t) live \<longrightarrow> t' = t)"
    proof (cases "is_live token live")
      case True
      then show ?thesis using 2(4) \<open>token = wc_token t\<close> by (simp add: db1_def settled_def)
    next
      case False
      obtain db' where r: "reconcile_one w now j integration live db = Inr db'" using reconcile_one_runs[OF 2(6)] by blast
      have "\<exists>t'. row_of j db' = Some t' \<and> settled w live t'"
        by (rule reconcile_one_outcome[OF r 2(4,5)]) (use False \<open>token = wc_token t\<close> in \<open>auto simp: settled_def\<close>)
      then show ?thesis using False r True \<open>token = wc_token t\<close> by (simp add: db1_def)
    qed
    ultimately show ?thesis by simp
  next
    case False
    have "row_of j db1 = row_of j db"
      using reconcile_one_same[of w now i integration live db] False by (auto simp: db1_def same_but_def split: sum.split)
    then show ?thesis using 2(1)[folded db1_def] 2(2-5) False ctx by (auto simp: db1_def)
  qed
qed simp

lemma groups_frame:
  "(\<And>s g. (s, g) \<in> set gs \<Longrightarrow> j \<notin> fst ` set g) \<Longrightarrow> row_of j (reconcile_groups w now creds base gs db) = row_of j db"
proof (induction gs arbitrary: db)
  case (Cons sg gs)
  obtain s h where sg: "sg = (s, h)" by (cases sg) auto
  have "row_of j (reconcile_group w now s live h db) = row_of j db" for live using group_frame[of j h] Cons(2)[of s h] sg by simp
  moreover have "row_of j (reconcile_groups w now creds base gs d) = row_of j d" for d using Cons(1)[of d] Cons(2) by auto
  ultimately show ?case by (cases "check_existing_endpoints w creds base s"; cases "live_tokens (the (check_existing_endpoints w creds base s))")
    (simp_all add: sg)
qed simp

lemma groups_settle:
  assumes "distinct (map fst gs)" "(integration, g) \<in> set gs" "(j, wc_token t) \<in> set g" "distinct (map fst g)"
    and "\<And>s h. (s, h) \<in> set gs \<Longrightarrow> s \<noteq> integration \<Longrightarrow> j \<notin> fst ` set h"
    and "row_of j db = Some t" "w_source t = integration" "resolve_cloud_context db = Inr x"
    and "\<And>s es. check_existing_endpoints w creds base s = Some es \<Longrightarrow> live_tokens es \<noteq> None"
  shows "case check_existing_endpoints w creds base integration of
      None \<Rightarrow> row_of j (reconcile_groups w now creds base gs db) = Some t
    | Some es \<Rightarrow> \<exists>t'. row_of j (reconcile_groups w now creds base gs db) = Some t' \<and> settled w (the (live_tokens es)) t' \<and>
        (is_live (wc_token t) (the (live_tokens es)) \<longrightarrow> t' = t)"
  using assms
proof (induction gs arbitrary: db)
  case (Cons sg gs)
  obtain s h where sg: "sg = (s, h)" by (cases sg) auto
  define db1 where "db1 = (case check_existing_endpoints w creds base s of None \<Rightarrow> db
    | Some es \<Rightarrow> reconcile_group w now s (the (live_tokens es)) h db)"
  have step: "reconcile_groups w now creds base (sg # gs) db = reconcile_groups w now creds base gs db1"
  proof (cases "check_existing_endpoints w creds base s")
    case (Some es)
    then obtain live where "live_tokens es = Some live" using Cons(10) by blast
    then show ?thesis using Some by (simp add: sg db1_def)
  qed (simp add: sg db1_def)
  show ?case
  proof (cases "s = integration")
    case True
    have out: "integration \<notin> fst ` set gs" using Cons(2) sg True by simp
    then have hg: "h = g" using Cons(3) sg True by (force simp: image_iff)
    have "j \<notin> fst ` set h'" if "(s', h') \<in> set gs" for s' h'
      using Cons(6)[of s' h'] that out by (force simp: image_iff)
    note h = hg this
    have "row_of j (reconcile_groups w now creds base gs db1) = row_of j db1" by (rule groups_frame) (rule h(2))
    then show ?thesis
      using group_settles[OF Cons(5) Cons(4) Cons(7,8,9), of w now] True h(1)
      by (auto simp: step db1_def Cons(7) split: option.split)
  next
    case False
    then have "row_of j db1 = Some t" using group_frame[of j h] Cons(6)[of s h] sg Cons(7) by (auto simp: db1_def split: option.split)
    moreover have "resolve_cloud_context db1 = Inr x" using Cons(9) by (auto simp: db1_def group_context split: option.split)
    ultimately show ?thesis unfolding step
      using Cons(1)[of db1] Cons(2-6,8,10) False sg by auto
  qed
qed simp

lemma row_of_member: "inj_on w_id (set (cd_triggers db)) \<Longrightarrow> t \<in> set (cd_triggers db) \<Longrightarrow> row_of (w_id t) db = Some t"
proof -
  assume a: "inj_on w_id (set (cd_triggers db))" "t \<in> set (cd_triggers db)"
  then have "row_of (w_id t) db \<noteq> None" by (auto simp: row_of_def find_None_iff)
  then obtain q where q: "row_of (w_id t) db = Some q" by blast
  then have "q \<in> set (cd_triggers db)" using find_Some_in by (fastforce simp: row_of_def)
  note q = q this
  then show ?thesis using row_of_id[OF q(1)] inj_onD[OF a(1), of q t] a(2) by simp
qed

text \<open>C36. No dead address is shown: after a pass over the endpoints every trigger whose integration could be
  listed has a token that is live, an address the cloud has just given out, or no address; one whose
  token was live is as it was; and one whose integration could not be listed is as it was, a failed
  call is never taken for an empty list.\<close>

theorem no_dead_address_is_shown:
  assumes "distinct (map w_id (cd_triggers db))" "resolve_cloud_context db = Inr (Some (creds, base))"
    and "t \<in> set (cd_triggers db)" "w_source t \<in> set WEBHOOK_TRIGGER_INTEGRATIONS"
    and "\<And>s es. check_existing_endpoints w creds base s = Some es \<Longrightarrow> live_tokens es \<noteq> None"
  shows "case check_existing_endpoints w creds base (w_source t) of
      None \<Rightarrow> row_of (w_id t) (reconcile_webhook_trigger_endpoints w now db) = Some t
    | Some es \<Rightarrow> (case row_of (w_id t) (reconcile_webhook_trigger_endpoints w now db) of
        None \<Rightarrow> False
      | Some t' \<Rightarrow> settled w (the (live_tokens es)) t' \<and> (if is_live (wc_token t) (the (live_tokens es)) then t' = t else True))"
proof -
  let ?ts = "cd_triggers db"
  define gs where "gs = trigger_groups ?ts"
  have run: "reconcile_webhook_trigger_endpoints w now db = reconcile_groups w now creds base gs db"
    by (simp add: reconcile_webhook_trigger_endpoints_def assms(2) gs_def)
  have inj: "inj_on w_id (set ?ts)" using assms(1) by (simp add: distinct_map)
  have row: "row_of (w_id t) db = Some t"
    by (rule row_of_member[OF inj assms(3)])
  have g: "distinct (map fst gs)" "(w_source t, group_of (w_source t) ?ts) \<in> set gs"
    using assms(3,4) by (auto simp: gs_def trigger_groups_def comp_def)
  have "(w_id t, wc_token t) \<in> set (group_of (w_source t) ?ts)" using assms(3) by (auto simp: group_of_def)
  moreover have "distinct (map fst (group_of (w_source t) ?ts))"
    using assms(1) by (simp add: group_of_def comp_def distinct_map_filter)
  moreover have "w_id t \<notin> fst ` set h" if "(s, h) \<in> set gs" "s \<noteq> w_source t" for s h
    using that assms(3) inj_onD[OF inj] by (fastforce simp: gs_def trigger_groups_def group_of_def)
  ultimately have "case check_existing_endpoints w creds base (w_source t) of
      None \<Rightarrow> row_of (w_id t) (reconcile_groups w now creds base gs db) = Some t
    | Some es \<Rightarrow> \<exists>t'. row_of (w_id t) (reconcile_groups w now creds base gs db) = Some t' \<and> settled w (the (live_tokens es)) t' \<and>
        (is_live (wc_token t) (the (live_tokens es)) \<longrightarrow> t' = t)"
    using groups_settle[OF g, of "w_id t" t db] row assms(2,5) by blast
  then show ?thesis unfolding run by (auto split: option.splits)
qed

subsection \<open>Changes of an address\<close>

text \<open>Where the other side is still pointed: the address shown, or the one kept in mind when it was cleared.\<close>

definition pointed :: "nat \<Rightarrow> cloud_db \<Rightarrow> string option" where
  "pointed i db = (case row_of i db of None \<Rightarrow> None | Some t \<Rightarrow> known_url t db)"

definition told :: "nat \<Rightarrow> string \<Rightarrow> cloud_db \<Rightarrow> bool" where
  "told i u db \<longleftrightarrow> row_of i db \<noteq> None \<and> map_option wc_url (row_of i db) \<noteq> Some (Some []) \<and> truthy (pointed i db) \<and>
     (pointed i db = Some u \<or> pointed i db \<in> Some ` uc_new ` set (filter (\<lambda>c. uc_trigger c = i) (cd_changes db)))"

lemma told_same_but: "same_but j db db' \<Longrightarrow> i \<noteq> j \<Longrightarrow> told i u db' \<longleftrightarrow> told i u db"
proof -
  assume a: "same_but j db db'" "i \<noteq> j"
  then have "row_of i db' = row_of i db" "dict_get (cd_last_known db') i = dict_get (cd_last_known db) i"
    "filter (\<lambda>c. uc_trigger c = i) (cd_changes db') = filter (\<lambda>c. uc_trigger c = i) (cd_changes db)"
    by (simp_all add: same_but_def)
  moreover from this(1,2) have "pointed i db' = pointed i db"
    by (auto simp: pointed_def known_url_def dest: row_of_id split: option.split)
  ultimately show ?thesis by (simp add: told_def)
qed

lemma told_one:
  assumes "reconcile_one w now j integration live db = Inr db'" "told i u db"
  shows "told i u db'"
proof (cases "i = j")
  case True
  obtain t where t: "row_of i db = Some t" "wc_url t \<noteq> Some []" "w_id t = i"
    using assms(2) row_of_id by (auto simp: told_def)
  show ?thesis
  proof (cases "w_source t = integration \<and> \<not> is_live (wc_token t) live")
    case False
    then show ?thesis using assms t True by (simp add: reconcile_one_def)
  next
    case a: True
    have old: "known_url t db = pointed i db" by (simp add: pointed_def t(1))
    show ?thesis
    proof (rule reconcile_one_outcome[OF assms(1)[folded True] t(1) conjunct1[OF a] conjunct2[OF a]])
      fix t' v k
      assume o: "row_of i db' = Some t'" "answered w v k" "wc_url t' = Some v" "w_id t' = i"
        "\<exists>db1. cd_changes db1 = cd_changes db \<and> cd_last_known db1 = cd_last_known db \<and>
           db' = note_change now t' (known_url t db) (Some v) db1"
      then obtain db1 where db1: "cd_changes db1 = cd_changes db" "db' = note_change now t' (pointed i db) (Some v) db1"
        unfolding old by blast
      have v: "v \<noteq> []" using answered_nonempty[OF o(2)] by simp
      then have p: "pointed i db' = Some v" by (simp add: pointed_def o(1,3) known_url_def truthy_def)
      show ?thesis
      proof (cases "pointed i db = Some v")
        case True
        then have "cd_changes db' = cd_changes db" by (simp add: db1 note_change_def)
        then show ?thesis using assms(2) o(1,3) v p True by (simp add: told_def)
      next
        case False
        then have "cd_changes db' = filter (\<lambda>c. uc_trigger c \<noteq> i) (cd_changes db) @
            [\<lparr>uc_trigger = i, uc_name = w_name t', uc_source = w_source t', uc_previous = the (pointed i db), uc_new = v, uc_at = now\<rparr>]"
          using assms(2) v by (simp add: db1 note_change_def o(4) told_def truthy_def)
        then show ?thesis using o(1,3) v p by (simp add: told_def truthy_def)
      qed
    next
      fix t'
      assume o: "row_of i db' = Some t'" "wc_url t' = None" "cd_changes db' = cd_changes db"
        "dict_get (cd_last_known db') i = (case wc_url t of None \<Rightarrow> dict_get (cd_last_known db) i | Some u \<Rightarrow> Some u)"
      have "pointed i db' = pointed i db"
        using o t row_of_id[OF o(1)] by (cases "wc_url t") (auto simp: pointed_def known_url_def truthy_def)
      then show ?thesis using assms(2) o by (simp add: told_def)
    qed
  qed
next
  case False
  then show ?thesis using told_same_but[OF reconcile_one_same[OF assms(1)]] assms(2) by blast
qed

lemma told_group: "told i u db \<Longrightarrow> told i u (reconcile_group w now integration live g db)"
proof (induction g arbitrary: db)
  case (Cons x g)
  obtain j token where x: "x = (j, token)" by (cases x) auto
  show ?case using Cons(1)[of db] Cons(1)[OF told_one] Cons(2)
    by (cases "reconcile_one w now j integration live db") (auto simp: x)
qed simp

lemma told_groups: "told i u db \<Longrightarrow> told i u (reconcile_groups w now creds base gs db)"
proof (induction gs arbitrary: db)
  case (Cons x gs)
  obtain s g where x: "x = (s, g)" by (cases x) auto
  show ?case using Cons told_group by (auto simp: x split: option.split)
qed simp

lemma told_slack: "try_register_endpoints w now db = Inr db' \<Longrightarrow> told i u db' \<longleftrightarrow> told i u db"
proof -
  assume "try_register_endpoints w now db = Inr db'"
  then have "cd_triggers db' = cd_triggers db \<and> cd_changes db' = cd_changes db \<and> cd_last_known db' = cd_last_known db"
    unfolding try_register_endpoints_def register_cloud_endpoints_def store_endpoint_error_def clear_endpoint_error_def
    by (auto elim!: bind_InrE split: option.splits list.splits if_splits http_result.splits)
  then have "row_of i db' = row_of i db" "pointed i db' = pointed i db" "cd_changes db' = cd_changes db"
    by (auto simp: row_of_def pointed_def known_url_def split: option.split)
  then show ?thesis by (simp add: told_def)
qed

text \<open>A connect to the cloud, with whatever the cloud then answers.\<close>

inductive connect_step :: "cloud_db \<Rightarrow> cloud_db \<Rightarrow> bool" where
  "run_post_connect_endpoint_passes w now running force since db = (db', since') \<Longrightarrow> connect_step db db'"

lemma told_connect: "connect_step db db' \<Longrightarrow> told i u db \<Longrightarrow> told i u db'"
proof (induction rule: connect_step.induct)
  case (1 w now running force since db db' since')
  then show ?case using told_slack told_groups
    by (auto simp: run_post_connect_endpoint_passes_def reconcile_webhook_trigger_endpoints_def split: if_splits sum.splits option.splits)
qed

text \<open>C37. An address never changes silently: however often the server connects to the cloud and whatever the
  cloud answers, a trigger whose address was \<open>u\<close> still shows it or keeps it in mind, or the changes
  tell of the address it has now; this survives passes that fail in between.\<close>

theorem address_changes_are_told:
  assumes "connect_step\<^sup>*\<^sup>* db db'" "row_of i db = Some t" "wc_url t = Some u" "u \<noteq> []"
  shows "case pointed i db' of
      None \<Rightarrow> False
    | Some v \<Rightarrow> v = u \<or> v \<in> uc_new ` set (filter (\<lambda>c. uc_trigger c = i) (cd_changes db'))"
proof -
  have "told i u db" using assms(2-4) by (simp add: told_def pointed_def known_url_def truthy_def)
  with assms(1) have "told i u db'" by (induction rule: rtranclp_induct) (auto intro: told_connect)
  then show ?thesis by (cases "pointed i db'") (auto simp: told_def truthy_def)
qed

text \<open>C109. Connects in a burst cost one pass: of the connects that start the passes, one that was not forced
  comes at least a minute after every start before it.\<close>

fun pass_starts :: "(time \<times> bool \<times> bool) list \<Rightarrow> time \<Rightarrow> (time \<times> bool) list" where
  "pass_starts [] since = []"
| "pass_starts ((now, running, force) # es) since =
     (if starts_passes running force now since then (now, force) # pass_starts es now else pass_starts es since)"

lemma pass_starts_after:
  "sorted (map fst es) \<Longrightarrow> (\<And>e. e \<in> set es \<Longrightarrow> since \<le> fst e) \<Longrightarrow>
   list_all (\<lambda>(t, force). since \<le> t \<and> (force \<or> t - since \<ge> seconds POST_CONNECT_COOLDOWN_SECS)) (pass_starts es since)"
proof (induction es arbitrary: since)
  case (Cons e es)
  obtain now running force where e: "e = (now, running, force)" by (cases e) auto
  have "since \<le> now" using Cons(3) e by force
  have "list_all (\<lambda>(t, f). now \<le> t \<and> (f \<or> t - now \<ge> seconds POST_CONNECT_COOLDOWN_SECS)) (pass_starts es now)"
    using Cons(1)[of now] Cons(2) e by auto
  moreover have "list_all (\<lambda>(t, f). since \<le> t \<and> (f \<or> t - since \<ge> seconds POST_CONNECT_COOLDOWN_SECS)) (pass_starts es since)"
    using Cons(1)[of since] Cons(2,3) by auto
  ultimately show ?case using \<open>since \<le> now\<close> by (auto simp: e starts_passes_def list_all_iff)
qed simp

theorem passes_are_spaced:
  assumes "sorted (map fst es)"
  shows "sorted_wrt (\<lambda>(t, _) (t', force). force \<or> t' - t \<ge> seconds POST_CONNECT_COOLDOWN_SECS) (pass_starts es since)"
  using assms
proof (induction es arbitrary: since)
  case (Cons e es)
  obtain now running force where e: "e = (now, running, force)" by (cases e) auto
  have "list_all (\<lambda>(t, f). now \<le> t \<and> (f \<or> t - now \<ge> seconds POST_CONNECT_COOLDOWN_SECS)) (pass_starts es now)"
    using pass_starts_after[of es now] Cons(2) e by auto
  then show ?case using Cons by (auto simp: e list_all_iff)
qed simp

subsection \<open>Concrete runs\<close>

definition sample_row :: "nat \<Rightarrow> string \<Rightarrow> cloud_trigger" where
  "sample_row i source = \<lparr>w_id = i, w_name = ''t'', w_enabled = True, w_source = source, w_profile_id = None, w_filters = [],
     w_actions = [], w_task_prompt = None, w_secret = Some ''s'', wc_url = Some ''a'', wc_token = Some ''k''\<rparr>"

definition sample_cloud :: cloud_db where
  "sample_cloud = \<lparr>cd_triggers = [sample_row 1 ''jira'', sample_row 2 ''github''],
     cd_cloud = Some \<lparr>cr_status = ''connected'', cr_data = Some [(''access_token'', JStr ''x'')]\<rparr>, cd_slack = None,
     cd_service_url = None, cd_endpoints = [], cd_error = None, cd_changes = [], cd_last_known = []\<rparr>"

text \<open>The listing for Jira and the answer to a registration; the listing for GitHub is empty.\<close>

definition sample_service :: "string \<Rightarrow> http_result \<Rightarrow> cloud_service" where
  "sample_service listing answer = \<lparr>cs_answer = (\<lambda>rq. case rq of
       Get_endpoints _ s \<Rightarrow> Response 200 (if s = ''jira'' then listing else ''[]'') | _ \<Rightarrow> answer),
     cs_decrypt = Some, cs_encrypt = id, cs_draw = (\<lambda>_. ''d''), cs_show_uuid = (\<lambda>i. show_nat (int i))\<rparr>"

lemma empty_listing: "json_loads ''[]'' = Some (JArr [])"
  by code_simp

lemma sample_listing: "check_existing_endpoints (sample_service ''[]'' answer) [(''access_token'', JStr ''x'')] base s = Some []"
  by (simp add: check_existing_endpoints_def has_token_def dget_def json_truthy_def sample_service_def is_success_def empty_listing)

theorem no_dead_address_is_shown_witness:
  "\<exists>t'. row_of 1 (reconcile_webhook_trigger_endpoints (sample_service ''[]'' No_response) 5 sample_cloud) = Some t' \<and>
     settled (sample_service ''[]'' No_response) [] t'"
proof -
  have c: "distinct (map w_id (cd_triggers sample_cloud))"
    "resolve_cloud_context sample_cloud = Inr (Some ([(''access_token'', JStr ''x'')], ''https://errand.cloud''))"
    "sample_row 1 ''jira'' \<in> set (cd_triggers sample_cloud)"
    "w_source (sample_row 1 ''jira'') \<in> set WEBHOOK_TRIGGER_INTEGRATIONS" "w_id (sample_row 1 ''jira'') = 1" "live_tokens [] = Some []"
    by (simp_all add: sample_cloud_def resolve_cloud_context_def service_url_def truthy_def sample_row_def WEBHOOK_TRIGGER_INTEGRATIONS_def
      live_tokens_def)
  from no_dead_address_is_shown[OF c(1-4), where w = "sample_service ''[]'' No_response" and now = 5]
  show ?thesis by (auto simp: sample_listing c(5,6) split: option.splits simp del: One_nat_def)
qed

lemma sample_connect:
  "connect_step db (reconcile_webhook_trigger_endpoints w now (case try_register_endpoints w now db of Inl _ \<Rightarrow> db | Inr db' \<Rightarrow> db'))"
  by (rule connect_step.intros[where running = False and force = True and since = 0])
    (simp add: run_post_connect_endpoint_passes_def starts_passes_def)

definition new_address :: http_result where "new_address = Response 200 ''{\"url\":\"b\",\"token\":\"m\"}''"

definition connect :: "cloud_service \<Rightarrow> time \<Rightarrow> cloud_db \<Rightarrow> cloud_db" where
  "connect w now db = fst (run_post_connect_endpoint_passes w now False True 0 db)"

lemma connect_is_step: "connect_step db (connect w now db)"
  by (rule connect_step.intros[where running = False and force = True and since = 0]) (simp add: connect_def prod_eq_iff)

text \<open>A failed attempt and then a repair.\<close>

definition after_failure :: cloud_db where "after_failure = connect (sample_service ''[]'' No_response) 5 sample_cloud"
definition after_repair :: cloud_db where "after_repair = connect (sample_service ''[]'' new_address) 9 after_failure"

theorem address_changes_are_told_witness:
  "map_option wc_url (row_of 1 after_failure) = Some None \<and> pointed 1 after_repair = Some ''b'' \<and>
   ''b'' \<in> uc_new ` set (filter (\<lambda>c. uc_trigger c = 1) (cd_changes after_repair))"
proof -
  have s: "connect_step\<^sup>*\<^sup>* sample_cloud after_repair"
    unfolding after_repair_def after_failure_def by (meson connect_is_step r_into_rtranclp rtranclp.rtrancl_into_rtrancl)
  have c: "map_option wc_url (row_of 1 after_failure) = Some None" "pointed 1 after_repair = Some ''b''"
    "row_of 1 sample_cloud = Some (sample_row 1 ''jira'')" "wc_url (sample_row 1 ''jira'') = Some ''a''"
    by code_simp+
  from address_changes_are_told[OF s c(3,4)] c(1,2) show ?thesis by simp
qed

theorem passes_are_spaced_witness:
  "pass_starts [(seconds 100, False, False), (seconds 130, False, False), (seconds 140, False, True), (seconds 200, False, False)] 0 =
     [(seconds 100, False), (seconds 140, True), (seconds 200, False)] \<and>
   sorted_wrt (\<lambda>(t, _) (t', force). force \<or> t' - t \<ge> seconds POST_CONNECT_COOLDOWN_SECS)
     (pass_starts [(seconds 100, False, False), (seconds 130, False, False), (seconds 140, False, True), (seconds 200, False, False)] 0)"
proof -
  have "sorted (map fst [(seconds 100, False, False), (seconds 130, False, False), (seconds 140, False, True), (seconds 200, False, False)])"
    by (simp add: seconds_def)
  from passes_are_spaced[OF this, of 0] show ?thesis by (simp add: starts_passes_def seconds_def POST_CONNECT_COOLDOWN_SECS_def)
qed

text \<open>Dismissing the changes also drops the addresses kept in mind: a trigger that is cleared at that moment
  gets a new address later and nobody is told.\<close>

lemma dismissing_loses_address:
  "let db = connect (sample_service ''[]'' new_address) 9 (clear_url_changes after_failure)
   in pointed 1 sample_cloud = Some ''a'' \<and> pointed 1 db = Some ''b'' \<and> cd_changes db = []"
  by code_simp

text \<open>A listing with a token that is no text ends the pass for the other integrations too.\<close>

lemma odd_token_ends_pass:
  "reconcile_webhook_trigger_endpoints (sample_service ''[{\"token\":[1]}]'' new_address) 9 sample_cloud = sample_cloud \<and>
   reconcile_webhook_trigger_endpoints (sample_service ''{}'' new_address) 9 sample_cloud \<noteq> sample_cloud"
  by code_simp

end
