(* ===== verification/Clarify.thy ===== *)
theory Clarify
  imports Lifecycle Settings
begin

text \<open>
  Clarification at intake: \<open>errand/clarify.py\<close> and its handlers in \<open>errand/main.py\<close>.  A draft is
  classified, its questions are answered in rounds, and confirming it creates the task through the
  shared creation path.  Each operation first loads the draft (\<open>get_draft\<close>) and then writes
  (\<open>answer_act\<close>, \<open>confirm_act\<close>, \<open>cancel_act\<close>), working on the row as it was loaded; the conditional UPDATE of
  a write holds the row until its commit, so a write is one step on the row as it is then.  The
  classifier is a parameter, the columns of the Slack message are left out.
\<close>

datatype draft_status = Drafting | Ready | Confirmed | Abandoned

datatype role = User | Assistant

record turn =
  tr_role :: role
  tr_content :: string
  tr_ts :: time

record spec =
  sp_title :: "string option"
  sp_description :: "string option"
  sp_category :: "string option"
  sp_execute_at :: json
  sp_repeat_interval :: json
  sp_repeat_until :: json
  sp_profile :: json

record draft =
  d_id :: nat
  d_owner :: string
  d_source :: string
  d_input :: string
  d_conversation :: "turn list"
  d_spec :: spec
  d_questions :: "question list"       \<comment> \<open>empty for \<open>None\<close>\<close>
  d_unresolved :: bool
  d_status :: draft_status
  d_round :: nat
  d_expires_at :: time
  d_resolved_task_id :: "nat option"
  d_created_at :: time

datatype draft_error = DraftNotFound string | DraftFinished string | DraftBusy string | Other py_error

definition no_spec :: spec where
  "no_spec = \<lparr>sp_title = None, sp_description = None, sp_category = None, sp_execute_at = JNull,
     sp_repeat_interval = JNull, sp_repeat_until = JNull, sp_profile = JNull\<rparr>"

definition DRAFT_TTL :: time where "DRAFT_TTL = hours 24"

definition active :: "draft_status \<Rightarrow> bool" where "active s = (s = Drafting \<or> s = Ready)"

definition owner_identity :: "string option \<Rightarrow> string option \<Rightarrow> string" where
  "owner_identity email sub = (if truthy email then the email else if truthy sub then the sub else [])"

definition max_rounds :: "environment \<Rightarrow> settings_table \<Rightarrow> py_error + nat" where
  "max_rounds env rows =
     bind_res (resolve_setting_value env rows ''clarification_max_rounds'') (\<lambda>(v, _).
     bind_res (json_int v) (\<lambda>n. Inr (nat (max 1 n))))"

subsection \<open>The specification of the draft\<close>

definition null_word :: "string \<Rightarrow> bool" where
  "null_word s = (py_lower (strip s) \<in> {[], ''null'', ''none''})"

definition spec_value :: "json \<Rightarrow> json" where
  "spec_value v = (case v of JStr s \<Rightarrow> if null_word s then JNull else v | _ \<Rightarrow> v)"

definition spec_string :: "string option \<Rightarrow> string option" where
  "spec_string v = (case v of Some s \<Rightarrow> if null_word s then None else v | None \<Rightarrow> None)"

definition spec_of :: "llm_result \<Rightarrow> spec" where
  "spec_of r =
     \<lparr>sp_title = spec_string (Some (l_title r)), sp_description = spec_string (l_description r),
      sp_category = spec_string (Some (l_category r)), sp_execute_at = spec_value (l_execute_at r),
      sp_repeat_interval = spec_value (l_repeat_interval r), sp_repeat_until = spec_value (l_repeat_until r),
      sp_profile = spec_value (l_profile r)\<rparr>"

definition answered_clarifications :: "draft \<Rightarrow> string list" where
  "answered_clarifications d = map tr_content (drop 1 (filter (\<lambda>t. tr_role t = User) (d_conversation d)))"

definition composed_description :: "draft \<Rightarrow> string" where
  "composed_description d =
     (let answers = answered_clarifications d in
      if answers = [] then d_input d
      else d_input d @ [newline, newline] @ ''Clarifications:'' @ [newline] @ join [newline] answers)"

record fields =
  fl_title :: string
  fl_description :: string
  fl_category :: string
  fl_execute_at :: json
  fl_repeat_interval :: json
  fl_repeat_until :: json
  fl_profile :: json

definition resolved_fields :: "draft \<Rightarrow> fields" where
  "resolved_fields d =
     (let s = d_spec d in
      \<lparr>fl_title = (if truthy (sp_title s) then the (sp_title s) else fallback_title (d_input d)),
       fl_description = (if truthy (sp_description s) then the (sp_description s) else composed_description d),
       fl_category = (case sp_category s of Some c \<Rightarrow> if c \<in> set VALID_CATEGORIES then c else ''immediate'' | None \<Rightarrow> ''immediate''),
       fl_execute_at = sp_execute_at s, fl_repeat_interval = sp_repeat_interval s,
       fl_repeat_until = sp_repeat_until s, fl_profile = sp_profile s\<rparr>)"

record draft_view =
  v_id :: nat
  v_status :: draft_status
  v_questions :: "question list"
  v_unresolved :: bool
  v_preview :: fields
  v_round :: nat
  v_max_rounds :: nat
  v_conversation :: "turn list"
  v_expires_at :: time
  v_resolved_task_id :: "nat option"

definition draft_view :: "draft \<Rightarrow> nat \<Rightarrow> draft_view" where
  "draft_view d rounds =
     \<lparr>v_id = d_id d, v_status = d_status d, v_questions = d_questions d, v_unresolved = d_unresolved d,
      v_preview = resolved_fields d, v_round = d_round d, v_max_rounds = rounds,
      v_conversation = d_conversation d, v_expires_at = d_expires_at d, v_resolved_task_id = d_resolved_task_id d\<rparr>"

text \<open>\<open>_classify\<close>: \<open>ask\<close> gets the exchange after the first turn and the input.\<close>

type_synonym classifier = "(role \<times> string) list \<Rightarrow> string \<Rightarrow> llm_result"

definition classify :: "time \<Rightarrow> classifier \<Rightarrow> bool \<Rightarrow> draft \<Rightarrow> draft" where
  "classify now ask cap_reached d =
     (let history = map (\<lambda>t. (tr_role t, tr_content t)) (drop 1 (d_conversation d));
          r = ask history (d_input d);
          d1 = d\<lparr>d_spec := (if l_success r then spec_of r else no_spec)\<rparr>;
          questions = (if l_success r then case l_questions r of None \<Rightarrow> [] | Some qs \<Rightarrow> qs else []);
          d2 = (if questions \<noteq> [] \<and> \<not> cap_reached
                then d1\<lparr>d_status := Drafting, d_questions := questions, d_unresolved := False\<rparr>
                else d1\<lparr>d_status := Ready, d_questions := questions, d_unresolved := (questions \<noteq> [])\<rparr>);
          content = (if questions \<noteq> [] \<and> \<not> cap_reached then join [newline] (map q_text questions)
                     else ''Ready: '' @ fl_title (resolved_fields d2))
      in d2\<lparr>d_conversation := d_conversation d2 @ [\<lparr>tr_role = Assistant, tr_content = content, tr_ts = now\<rparr>]\<rparr>)"

subsection \<open>The operations\<close>

definition find_draft :: "draft list \<Rightarrow> nat \<Rightarrow> draft option" where
  "find_draft ds i = find (\<lambda>d. d_id d = i) ds"

definition set_draft :: "draft \<Rightarrow> draft list \<Rightarrow> draft list" where
  "set_draft d ds = map (\<lambda>c. if d_id c = d_id d then d else c) ds"

definition get_draft :: "time \<Rightarrow> string \<Rightarrow> string \<Rightarrow> draft list \<Rightarrow> draft_error + draft" where
  "get_draft now draft_id owner ds =
     (case parse_uuid draft_id of
        None \<Rightarrow> Inl (DraftNotFound draft_id)
      | Some i \<Rightarrow>
          (case find_draft ds i of
             None \<Rightarrow> Inl (DraftNotFound draft_id)
           | Some d \<Rightarrow> if d_owner d \<noteq> owner \<or> d_expires_at d \<le> now then Inl (DraftNotFound draft_id) else Inr d))"

definition start :: "time \<Rightarrow> classifier \<Rightarrow> nat \<Rightarrow> string \<Rightarrow> string \<Rightarrow> string \<Rightarrow> draft" where
  "start now ask i input0 owner source =
     (let input = strip input0 in
      classify now ask False
        \<lparr>d_id = i, d_owner = owner, d_source = source, d_input = input,
         d_conversation = [\<lparr>tr_role = User, tr_content = input, tr_ts = now\<rparr>], d_spec = no_spec, d_questions = [],
         d_unresolved = False, d_status = Drafting, d_round = 0, d_expires_at = now + DRAFT_TTL,
         d_resolved_task_id = None, d_created_at = now\<rparr>)"

definition answer_lines :: "(string \<times> string) list \<Rightarrow> question list \<Rightarrow> string list" where
  "answer_lines responses qs =
     concat (map (\<lambda>q. case dict_get responses (q_id q) of
         Some v \<Rightarrow> if strip v = [] then [] else [q_text q @ '' -> '' @ strip v]
       | None \<Rightarrow> []) qs)"

definition answer_content :: "(string \<times> string) list \<Rightarrow> draft \<Rightarrow> string" where
  "answer_content responses d =
     (let c = join [newline] (answer_lines responses (d_questions d)) in if c = [] then ''(no answer given)'' else c)"

definition answered :: "time \<Rightarrow> (string \<times> string) list \<Rightarrow> draft \<Rightarrow> draft" where
  "answered now responses d =
     d\<lparr>d_conversation := d_conversation d @ [\<lparr>tr_role = User, tr_content = answer_content responses d, tr_ts = now\<rparr>],
       d_round := d_round d + 1, d_expires_at := now + DRAFT_TTL\<rparr>"

definition reclassified :: "time \<Rightarrow> nat \<Rightarrow> classifier \<Rightarrow> (string \<times> string) list \<Rightarrow> draft \<Rightarrow> draft" where
  "reclassified now rounds ask responses snap =
     (let a = answered now responses snap in classify now ask (d_round a \<ge> rounds) a)"

text \<open>\<open>snap\<close> is the row as it was loaded; what is written onto the row found are the columns the handler
  assigned.\<close>

definition answered_row ::
    "time \<Rightarrow> nat \<Rightarrow> classifier \<Rightarrow> (string \<times> string) list \<Rightarrow> draft \<Rightarrow> draft \<Rightarrow> draft" where
  "answered_row now rounds ask responses snap c =
     (let d = reclassified now rounds ask responses snap
      in c\<lparr>d_conversation := d_conversation d, d_round := d_round d, d_expires_at := d_expires_at d, d_spec := d_spec d,
           d_questions := d_questions d, d_unresolved := d_unresolved d, d_status := d_status d\<rparr>)"

definition answer_act ::
    "time \<Rightarrow> nat \<Rightarrow> classifier \<Rightarrow> (string \<times> string) list \<Rightarrow> draft \<Rightarrow> draft list \<Rightarrow> draft_error + draft \<times> draft list" where
  "answer_act now rounds ask responses snap ds =
     (if d_status snap \<noteq> Drafting \<or> d_questions snap = [] then Inl (DraftFinished ''This draft has no open questions'')
      else case find_draft ds (d_id snap) of
          Some c \<Rightarrow>
            if d_status c = Drafting \<and> d_round c = d_round snap then
              Inr (reclassified now rounds ask responses snap, set_draft (answered_row now rounds ask responses snap c) ds)
            else Inl (DraftBusy ''This draft was just answered; reload it to see where it stands'')
        | None \<Rightarrow> Inl (DraftBusy ''This draft was just answered; reload it to see where it stands''))"

definition profile_of :: "json \<Rightarrow> db \<Rightarrow> py_error + nat option" where
  "profile_of j db =
     (if \<not> json_truthy j then Inr None
      else case j of JStr n \<Rightarrow> Inr (map_option fst (find (\<lambda>(_, m). m = n) (profiles db)))
        | _ \<Rightarrow> Inl (TypeErr ''expected str''))"

definition task_args :: "fields \<Rightarrow> nat option \<Rightarrow> string option \<Rightarrow> string \<Rightarrow> string list \<Rightarrow> create_args" where
  "task_args f profile interval owner extra_tags =
     \<lparr>c_title = fl_title f, c_description = Some (fl_description f), c_category = fl_category f,
      c_execute_at = json_datetime (fl_execute_at f), c_repeat_interval = interval,
      c_repeat_until = json_datetime (fl_repeat_until f), c_profile_id = profile,
      c_created_by = Some owner, c_tag_names = extra_tags, c_classification = Some ''clarified''\<rparr>"

definition as_other :: "py_error + 'a \<Rightarrow> draft_error + 'a" where
  "as_other r = (case r of Inl e \<Rightarrow> Inl (Other e) | Inr x \<Rightarrow> Inr x)"

definition confirm_act ::
    "time \<Rightarrow> string \<Rightarrow> string list \<Rightarrow> draft \<Rightarrow> draft list \<Rightarrow> db \<Rightarrow> draft_error + nat \<times> draft list \<times> db" where
  "confirm_act now owner extra_tags snap ds db =
     (case find_draft ds (d_id snap) of
        Some c \<Rightarrow>
          if active (d_status c) then
            (let f = resolved_fields snap in
             as_other (bind_res (profile_of (fl_profile f) db) (\<lambda>profile.
               bind_res (json_text (fl_repeat_interval f)) (\<lambda>interval.
               bind_res (create_task_from_fields now (task_args f profile interval owner extra_tags) db) (\<lambda>(i, db').
                 Inr (i, set_draft (c\<lparr>d_status := Confirmed, d_resolved_task_id := Some i\<rparr>) ds, db'))))))
          else Inl (DraftFinished ''This draft has already been confirmed or cancelled'')
      | None \<Rightarrow> Inl (DraftFinished ''This draft has already been confirmed or cancelled''))"

text \<open>An ORM update of one row; when the row is gone it raises.\<close>

definition cancel_act :: "draft \<Rightarrow> draft list \<Rightarrow> draft_error + draft \<times> draft list" where
  "cancel_act snap ds =
     (if \<not> active (d_status snap) then Inl (DraftFinished ''This draft has already been confirmed or cancelled'')
      else case find_draft ds (d_id snap) of
          Some c \<Rightarrow> Inr (snap\<lparr>d_status := Abandoned\<rparr>, set_draft (c\<lparr>d_status := Abandoned\<rparr>) ds)
        | None \<Rightarrow> Inl (Other (ValueErr ''StaleDataError'')))"

text \<open>A request that nothing interrupts.\<close>

definition answer ::
    "time \<Rightarrow> nat \<Rightarrow> classifier \<Rightarrow> string \<Rightarrow> string \<Rightarrow> (string \<times> string) list \<Rightarrow> draft list \<Rightarrow> draft_error + draft \<times> draft list" where
  "answer now rounds ask draft_id owner responses ds =
     bind_res (get_draft now draft_id owner ds) (\<lambda>d. answer_act now rounds ask responses d ds)"

definition confirm :: "time \<Rightarrow> string \<Rightarrow> string \<Rightarrow> string list \<Rightarrow> draft list \<Rightarrow> db \<Rightarrow> draft_error + nat \<times> draft list \<times> db" where
  "confirm now draft_id owner extra_tags ds db =
     bind_res (get_draft now draft_id owner ds) (\<lambda>d. confirm_act now owner extra_tags d ds db)"

definition cancel :: "time \<Rightarrow> string \<Rightarrow> string \<Rightarrow> draft list \<Rightarrow> draft_error + draft \<times> draft list" where
  "cancel now draft_id owner ds = bind_res (get_draft now draft_id owner ds) (\<lambda>d. cancel_act d ds)"

definition list_active :: "time \<Rightarrow> string \<Rightarrow> draft list \<Rightarrow> draft list" where
  "list_active now owner ds =
     sort_key (\<lambda>d. - d_created_at d) (filter (\<lambda>d. d_owner d = owner \<and> active (d_status d) \<and> now < d_expires_at d) ds)"

text \<open>The table after the sweep, and how many drafts were abandoned and deleted.\<close>

definition sweep_expired_drafts :: "time \<Rightarrow> draft list \<Rightarrow> nat \<times> nat \<times> draft list" where
  "sweep_expired_drafts now ds =
     (let stale = (\<lambda>d. active (d_status d) \<and> d_expires_at d \<le> now);
          ds1 = map (\<lambda>d. if stale d then d\<lparr>d_status := Abandoned\<rparr> else d) ds;
          dead = (\<lambda>d. d_status d = Abandoned \<and> d_expires_at d \<le> now - DRAFT_TTL)
      in (length (filter stale ds), length (filter dead ds1), filter (\<lambda>d. \<not> dead d) ds1))"

subsection \<open>The handlers\<close>

definition draft_errors :: "draft_error + 'a \<Rightarrow> py_error + 'a" where
  "draft_errors r =
     (case r of
        Inr x \<Rightarrow> Inr x
      | Inl (DraftNotFound _) \<Rightarrow> Inl (Http 404 ''Task draft not found or expired'')
      | Inl (DraftFinished m) \<Rightarrow> Inl (Http 409 m)
      | Inl (DraftBusy m) \<Rightarrow> Inl (Http 409 m)
      | Inl (Other e) \<Rightarrow> Inl e)"

definition valid_input :: "string \<Rightarrow> bool" where
  "valid_input input = (strip input \<noteq> [])"

definition list_task_specs :: "environment \<Rightarrow> settings_table \<Rightarrow> time \<Rightarrow> string \<Rightarrow> draft list \<Rightarrow> py_error + draft_view list" where
  "list_task_specs env rows now owner ds =
     bind_res (max_rounds env rows) (\<lambda>n. Inr (map (\<lambda>d. draft_view d n) (list_active now owner ds)))"

definition get_task_spec ::
    "environment \<Rightarrow> settings_table \<Rightarrow> time \<Rightarrow> string \<Rightarrow> string \<Rightarrow> draft list \<Rightarrow> py_error + draft_view" where
  "get_task_spec env rows now draft_id owner ds =
     bind_res (draft_errors (get_draft now draft_id owner ds)) (\<lambda>d.
     bind_res (max_rounds env rows) (\<lambda>n. Inr (draft_view d n)))"

subsection \<open>Rows by id\<close>

lemma find_draft_Some: "find_draft ds i = Some d \<Longrightarrow> d \<in> set ds \<and> d_id d = i"
  by (auto simp: find_draft_def find_Some_iff)

lemma find_draft_None: "find_draft ds i = None \<longleftrightarrow> i \<notin> d_id ` set ds"
  by (auto simp: find_draft_def find_None_iff)

lemma find_draft_in: "distinct (map d_id ds) \<Longrightarrow> d \<in> set ds \<Longrightarrow> find_draft ds (d_id d) = Some d"
  by (induction ds) (auto simp: find_draft_def)

lemma set_draft_ids [simp]: "map d_id (set_draft d ds) = map d_id ds"
  by (auto simp: set_draft_def)

lemma in_set_draft: "x \<in> set (set_draft d ds) \<Longrightarrow> x = d \<or> x \<in> set ds \<and> d_id x \<noteq> d_id d"
  by (auto simp: set_draft_def split: if_splits)

lemma get_draft_Inr:
  "get_draft now i owner ds = Inr d \<Longrightarrow> d \<in> set ds \<and> d_owner d = owner \<and> now < d_expires_at d"
  by (auto simp: get_draft_def dest: find_draft_Some split: option.splits if_splits)

subsection \<open>What every draft looks like\<close>

text \<open>A turn of each side per round, the first by the user; questions are open only while drafting.\<close>

definition draft_ok :: "nat \<Rightarrow> draft \<Rightarrow> bool" where
  "draft_ok R d \<longleftrightarrow>
     map tr_role (d_conversation d) = concat (replicate (Suc (d_round d)) [User, Assistant]) \<and>
     tr_content (hd (d_conversation d)) = d_input d \<and> d_round d \<le> R \<and>
     (d_status d = Drafting \<longrightarrow> d_questions d \<noteq> [] \<and> d_round d < R)"

lemma classify_fields [simp]:
  "d_id (classify now ask cap d) = d_id d" "d_owner (classify now ask cap d) = d_owner d"
  "d_source (classify now ask cap d) = d_source d" "d_input (classify now ask cap d) = d_input d"
  "d_round (classify now ask cap d) = d_round d" "d_expires_at (classify now ask cap d) = d_expires_at d"
  "d_resolved_task_id (classify now ask cap d) = d_resolved_task_id d" "d_created_at (classify now ask cap d) = d_created_at d"
  by (simp_all add: classify_def Let_def)

lemma classify_conversation:
  "\<exists>c. d_conversation (classify now ask cap d) = d_conversation d @ [\<lparr>tr_role = Assistant, tr_content = c, tr_ts = now\<rparr>]"
  by (simp add: classify_def Let_def)

lemma classify_status:
  "d_status (classify now ask cap d) = (if d_questions (classify now ask cap d) \<noteq> [] \<and> \<not> cap then Drafting else Ready)"
  by (simp add: classify_def Let_def)

lemma answered_fields [simp]:
  "d_id (answered now rs d) = d_id d" "d_owner (answered now rs d) = d_owner d" "d_input (answered now rs d) = d_input d"
  "d_round (answered now rs d) = Suc (d_round d)" "d_expires_at (answered now rs d) = now + DRAFT_TTL"
  "d_resolved_task_id (answered now rs d) = d_resolved_task_id d" "d_source (answered now rs d) = d_source d"
  "d_created_at (answered now rs d) = d_created_at d"
  "d_conversation (answered now rs d) = d_conversation d @ [\<lparr>tr_role = User, tr_content = answer_content rs d, tr_ts = now\<rparr>]"
  by (simp_all add: answered_def)

declare classify_def [simp del]

lemma start_ok: "1 \<le> R \<Longrightarrow> draft_ok R (start now ask i input owner source)"
proof -
  assume R: "1 \<le> R"
  let ?d0 = "\<lparr>d_id = i, d_owner = owner, d_source = source, d_input = strip input,
         d_conversation = [\<lparr>tr_role = User, tr_content = strip input, tr_ts = now\<rparr>], d_spec = no_spec, d_questions = [],
         d_unresolved = False, d_status = Drafting, d_round = 0, d_expires_at = now + DRAFT_TTL,
         d_resolved_task_id = None, d_created_at = now\<rparr>"
  have s: "start now ask i input owner source = classify now ask False ?d0" by (simp add: start_def Let_def)
  obtain c where "d_conversation (classify now ask False ?d0) =
      d_conversation ?d0 @ [\<lparr>tr_role = Assistant, tr_content = c, tr_ts = now\<rparr>]"
    using classify_conversation by blast
  then show ?thesis using classify_status[of now ask False ?d0] R by (auto simp: s draft_ok_def split: if_splits)
qed

lemma concat_replicate_snoc: "concat (replicate (Suc n) xs) = concat (replicate n xs) @ xs"
  by (induction n) auto

lemma answered_ok:
  assumes "draft_ok R d" "d_status d = Drafting"
  shows "draft_ok R (reclassified now R ask rs d)"
proof -
  let ?a = "answered now rs d" and ?cap = "R \<le> d_round (answered now rs d)"
  obtain c where c: "d_conversation (classify now ask ?cap ?a) =
      d_conversation ?a @ [\<lparr>tr_role = Assistant, tr_content = c, tr_ts = now\<rparr>]"
    using classify_conversation by blast
  from assms have r: "d_round d < R" "map tr_role (d_conversation d) = concat (replicate (Suc (d_round d)) [User, Assistant])"
    "tr_content (hd (d_conversation d)) = d_input d"
    by (simp_all add: draft_ok_def)
  then have "d_conversation d \<noteq> []" by auto
  moreover have "map tr_role (d_conversation (classify now ask ?cap ?a)) =
      concat (replicate (Suc (Suc (d_round d))) [User, Assistant])"
    using r(2) unfolding concat_replicate_snoc[of "Suc (d_round d)"] c by simp
  moreover have "tr_content (hd (d_conversation (classify now ask ?cap ?a))) = d_input d"
    using calculation(1) r(3) unfolding c by simp
  moreover note classify_status[of now ask ?cap ?a]
  ultimately have "draft_ok R (classify now ask ?cap ?a)"
    using r(1) unfolding draft_ok_def by (auto simp del: replicate_Suc split: if_splits)
  then show ?thesis by (simp only: reclassified_def Let_def)
qed

lemma draft_ok_close: "draft_ok R d \<Longrightarrow> s \<noteq> Drafting \<Longrightarrow> draft_ok R (d\<lparr>d_status := s, d_resolved_task_id := r\<rparr>)"
  "draft_ok R d \<Longrightarrow> s \<noteq> Drafting \<Longrightarrow> draft_ok R (d\<lparr>d_status := s\<rparr>)"
  by (simp_all add: draft_ok_def)

text \<open>Two versions of one row: the same round means the same exchange.\<close>

definition grows :: "draft \<Rightarrow> draft \<Rightarrow> bool" where
  "grows s c \<longleftrightarrow> d_owner s = d_owner c \<and> d_input s = d_input c \<and> d_round s \<le> d_round c \<and>
     prefix (d_conversation s) (d_conversation c) \<and>
     (d_round s = d_round c \<longrightarrow> d_conversation s = d_conversation c \<and> d_spec s = d_spec c \<and>
        d_questions s = d_questions c \<and> d_unresolved s = d_unresolved c \<and> d_expires_at s = d_expires_at c)"

lemma grows_refl [simp]: "grows d d" by (simp add: grows_def)

lemma grows_trans: "grows a b \<Longrightarrow> grows b c \<Longrightarrow> grows a c"
  by (auto simp: grows_def intro: prefix_order.trans)

lemma answer_act_Inr:
  assumes "answer_act now R ask rs snap ds = Inr (d, ds')"
  obtains c where "find_draft ds (d_id snap) = Some c" "d_status snap = Drafting" "d_status c = Drafting"
    "d_round c = d_round snap" "ds' = set_draft (answered_row now R ask rs snap c) ds"
    "d = reclassified now R ask rs snap"
  using assms by (auto simp: answer_act_def split: if_splits option.splits)

lemma reclassified_fields [simp]:
  "d_id (reclassified now R ask rs d) = d_id d" "d_round (reclassified now R ask rs d) = Suc (d_round d)"
  "d_input (reclassified now R ask rs d) = d_input d"
  by (simp_all add: reclassified_def Let_def)

lemma reclassified_conversation: "prefix (d_conversation d) (d_conversation (reclassified now R ask rs d))"
  using classify_conversation[of now ask "R \<le> d_round (answered now rs d)" "answered now rs d"]
  by (auto simp: reclassified_def)

lemma answered_row_fields [simp]:
  "d_id (answered_row now R ask rs snap c) = d_id c" "d_owner (answered_row now R ask rs snap c) = d_owner c"
  "d_resolved_task_id (answered_row now R ask rs snap c) = d_resolved_task_id c" "d_input (answered_row now R ask rs snap c) = d_input c"
  "d_round (answered_row now R ask rs snap c) = Suc (d_round snap)"
  "d_conversation (answered_row now R ask rs snap c) = d_conversation (reclassified now R ask rs snap)"
  "d_questions (answered_row now R ask rs snap c) = d_questions (reclassified now R ask rs snap)"
  "d_status (answered_row now R ask rs snap c) = d_status (reclassified now R ask rs snap)"
  by (simp_all add: answered_row_def Let_def)

lemma answered_row_ok:
  assumes "draft_ok R c" "d_status snap = Drafting" "d_status c = Drafting" "d_round c = d_round snap" "grows snap c"
  shows "draft_ok R (answered_row now R ask rs snap c)" "grows c (answered_row now R ask rs snap c)"
proof -
  from assms(4,5) have e: "d_conversation snap = d_conversation c" "d_questions snap = d_questions c"
    "d_input snap = d_input c" by (simp_all add: grows_def)
  have "draft_ok R snap" using assms(1-4) e by (simp add: draft_ok_def)
  from answered_ok[OF this assms(2), of now ask rs] show "draft_ok R (answered_row now R ask rs snap c)"
    using e(3) by (simp add: draft_ok_def)
  show "grows c (answered_row now R ask rs snap c)"
    using reclassified_conversation[of snap now R ask rs] e(1) assms(4) by (simp add: grows_def)
qed

subsection \<open>Requests that interleave\<close>

text \<open>The drafts, every version of a row that a request has loaded and may still act on, the task each
  draft was confirmed into, and the board.  A draft's id is drawn at random and never drawn twice.\<close>

record intake =
  in_drafts :: "draft list"
  in_seen :: "draft list"
  in_made :: "(nat \<times> nat) list"
  in_board :: db

definition used_ids :: "intake \<Rightarrow> nat set" where
  "used_ids s = d_id ` set (in_drafts s) \<union> d_id ` set (in_seen s) \<union> fst ` set (in_made s)"

inductive intake_step :: "nat \<Rightarrow> intake \<Rightarrow> intake \<Rightarrow> bool" for R where
  starts: "i \<notin> used_ids s \<Longrightarrow> valid_input input \<Longrightarrow>
    intake_step R s (s\<lparr>in_drafts := in_drafts s @ [start now ask i input owner source]\<rparr>)"
| loads: "get_draft now i owner (in_drafts s) = Inr d \<Longrightarrow> intake_step R s (s\<lparr>in_seen := d # in_seen s\<rparr>)"
| answers: "d \<in> set (in_seen s) \<Longrightarrow> answer_act now R ask responses d (in_drafts s) = Inr (d', ds) \<Longrightarrow>
    intake_step R s (s\<lparr>in_drafts := ds\<rparr>)"
| confirms: "d \<in> set (in_seen s) \<Longrightarrow>
    confirm_act now (d_owner d) extra d (in_drafts s) (in_board s) = Inr (i, ds, db) \<Longrightarrow>
    intake_step R s (s\<lparr>in_drafts := ds, in_made := (d_id d, i) # in_made s, in_board := db\<rparr>)"
| cancels: "d \<in> set (in_seen s) \<Longrightarrow> cancel_act d (in_drafts s) = Inr (d', ds) \<Longrightarrow>
    intake_step R s (s\<lparr>in_drafts := ds\<rparr>)"
| sweeps: "sweep_expired_drafts now (in_drafts s) = (m, n, ds) \<Longrightarrow> intake_step R s (s\<lparr>in_drafts := ds\<rparr>)"
| board: "board_step (in_board s) db \<Longrightarrow> intake_step R s (s\<lparr>in_board := db\<rparr>)"

definition drafts_inv :: "nat \<Rightarrow> draft list \<Rightarrow> draft list \<Rightarrow> (nat \<times> nat) list \<Rightarrow> bool" where
  "drafts_inv R ds seen made \<longleftrightarrow>
     distinct (map d_id ds) \<and> (\<forall>d \<in> set ds. draft_ok R d) \<and>
     (\<forall>s \<in> set seen. \<forall>d \<in> set ds. d_id s = d_id d \<longrightarrow> grows s d) \<and>
     distinct (map fst made) \<and> (\<forall>d \<in> set ds. d_id d \<in> fst ` set made \<longrightarrow> \<not> active (d_status d))"

text \<open>The rows may change one by one, each growing and staying well formed, or go.\<close>

lemma drafts_inv_change:
  assumes "drafts_inv R ds seen made" "set ds' \<subseteq> f ` set ds" "distinct (map d_id ds')"
    and "\<And>d. d \<in> set ds \<Longrightarrow> d_id (f d) = d_id d \<and> draft_ok R (f d) \<and> grows d (f d) \<and>
      (active (d_status (f d)) \<longrightarrow> active (d_status d))"
  shows "drafts_inv R ds' seen made"
proof -
  have "\<exists>d \<in> set ds. d' = f d" if "d' \<in> set ds'" for d' using assms(2) that by blast
  with assms(4) have r: "\<exists>d \<in> set ds. d_id d' = d_id d \<and> draft_ok R d' \<and> grows d d' \<and> (active (d_status d') \<longrightarrow> active (d_status d))"
    if "d' \<in> set ds'" for d' using that by metis
  show ?thesis
    unfolding drafts_inv_def
  proof (intro conjI ballI impI)
    fix s d' assume s: "s \<in> set seen" "d' \<in> set ds'" "d_id s = d_id d'"
    from r[OF s(2)] obtain d where "d \<in> set ds" "d_id d' = d_id d" "grows d d'" by blast
    then show "grows s d'" using assms(1) s grows_trans[of s d d'] by (simp add: drafts_inv_def)
  next
    fix d' assume d': "d' \<in> set ds'" "d_id d' \<in> fst ` set made"
    from r[OF d'(1)] obtain d where "d \<in> set ds" "d_id d' = d_id d" "active (d_status d') \<longrightarrow> active (d_status d)" by blast
    then show "\<not> active (d_status d')" using assms(1) d'(2) by (auto simp: drafts_inv_def)
  qed (use assms(1,3) r in \<open>auto simp: drafts_inv_def\<close>)
qed

lemma drafts_inv_set:
  assumes "drafts_inv R ds seen made" "c \<in> set ds" "d_id d = d_id c" "draft_ok R d" "grows c d"
    and "active (d_status d) \<longrightarrow> active (d_status c)"
  shows "drafts_inv R (set_draft d ds) seen made"
proof (rule drafts_inv_change[OF assms(1)])
  let ?f = "\<lambda>x. if d_id x = d_id d then d else x"
  show "set (set_draft d ds) \<subseteq> ?f ` set ds" by (auto simp: set_draft_def)
  show "distinct (map d_id (set_draft d ds))" using assms(1) by (simp add: drafts_inv_def)
  fix x assume x: "x \<in> set ds"
  show "d_id (?f x) = d_id x \<and> draft_ok R (?f x) \<and> grows x (?f x) \<and> (active (d_status (?f x)) \<longrightarrow> active (d_status x))"
  proof (cases "d_id x = d_id d")
    case True
    then have "x = c" using assms(1-3) x by (auto simp: drafts_inv_def distinct_map dest: inj_onD)
    then show ?thesis using True assms(4-6) by simp
  next
    case False
    then show ?thesis using assms(1) x by (simp add: drafts_inv_def)
  qed
qed

lemma drafts_inv_status:
  assumes "drafts_inv R ds seen made" "c \<in> set ds" "\<not> active st"
  shows "drafts_inv R (set_draft (c\<lparr>d_status := st\<rparr>) ds) seen made"
    "drafts_inv R (set_draft (c\<lparr>d_status := st, d_resolved_task_id := t\<rparr>) ds) seen made"
proof -
  have "st \<noteq> Drafting" "draft_ok R c" using assms by (auto simp: active_def drafts_inv_def)
  then show "drafts_inv R (set_draft (c\<lparr>d_status := st\<rparr>) ds) seen made"
    "drafts_inv R (set_draft (c\<lparr>d_status := st, d_resolved_task_id := t\<rparr>) ds) seen made"
    using assms(3) by (auto intro!: drafts_inv_set[OF assms(1,2)] simp: draft_ok_close grows_def)
qed

lemma sweep_keeps_inv:
  assumes "drafts_inv R ds seen made" "sweep_expired_drafts now ds = (m, n, ds')"
  shows "drafts_inv R ds' seen made"
proof (rule drafts_inv_change[OF assms(1)])
  let ?f = "\<lambda>d. if active (d_status d) \<and> d_expires_at d \<le> now then d\<lparr>d_status := Abandoned\<rparr> else d"
  have ds': "ds' = filter (\<lambda>d. \<not> (d_status d = Abandoned \<and> d_expires_at d \<le> now - DRAFT_TTL)) (map ?f ds)"
    using assms(2) by (simp add: sweep_expired_drafts_def Let_def)
  show "set ds' \<subseteq> ?f ` set ds" unfolding ds' by auto
  have ids: "map d_id (map ?f ds) = map d_id ds" by auto
  have "distinct (map d_id (map ?f ds))" unfolding ids using assms(1) by (simp add: drafts_inv_def)
  then show "distinct (map d_id ds')" unfolding ds' by (rule distinct_map_filter)
  fix d assume "d \<in> set ds"
  then show "d_id (?f d) = d_id d \<and> draft_ok R (?f d) \<and> grows d (?f d) \<and> (active (d_status (?f d)) \<longrightarrow> active (d_status d))"
    using assms(1) by (auto simp: drafts_inv_def draft_ok_close active_def grows_def)
qed

definition intake_inv :: "nat \<Rightarrow> intake \<Rightarrow> bool" where
  "intake_inv R s \<longleftrightarrow> drafts_inv R (in_drafts s) (in_seen s) (in_made s) \<and> board_inv (in_board s) \<and>
     distinct (map snd (in_made s)) \<and> snd ` set (in_made s) \<subseteq> set (ids (in_board s))"

lemma confirm_act_Inr:
  assumes "confirm_act now owner extra snap ds db = Inr (i, ds', db')"
  obtains c profile interval where "find_draft ds (d_id snap) = Some c" "active (d_status c)"
    "profile_of (fl_profile (resolved_fields snap)) db = Inr profile"
    "json_text (fl_repeat_interval (resolved_fields snap)) = Inr interval"
    "create_task_from_fields now (task_args (resolved_fields snap) profile interval owner extra) db = Inr (i, db')"
    "ds' = set_draft (c\<lparr>d_status := Confirmed, d_resolved_task_id := Some i\<rparr>) ds"
  using assms by (auto simp: confirm_act_def as_other_def Let_def bind_res_eq_Inr split: option.splits if_splits sum.splits)

lemma cancel_act_Inr:
  assumes "cancel_act snap ds = Inr (d, ds')"
  obtains c where "find_draft ds (d_id snap) = Some c" "ds' = set_draft (c\<lparr>d_status := Abandoned\<rparr>) ds"
  using assms by (auto simp: cancel_act_def split: option.splits if_splits)

lemma evolves_ids: "evolves db db' \<Longrightarrow> set (ids db) \<subseteq> set (ids db')"
proof
  fix i assume e: "evolves db db'" and "i \<in> set (ids db)"
  then have "find_task db i \<noteq> None" by (auto simp: find_task_def ids_def find_None_iff)
  with e have "find_task db' i \<noteq> None" by (auto simp: evolves_def)
  then show "i \<in> set (ids db')" by (auto simp: find_task_def ids_def find_Some_iff)
qed

lemma intake_step_inv: "intake_step R s s' \<Longrightarrow> intake_inv R s \<Longrightarrow> 1 \<le> R \<Longrightarrow> intake_inv R s'"
proof (induction rule: intake_step.induct)
  case (starts i s input now ask owner source)
  let ?d = "start now ask i input owner source"
  have "d_id ?d = i" by (simp add: start_def Let_def)
  then show ?case
    using starts start_ok[OF starts.prems(2), of now ask i input owner source]
    by (auto simp: intake_inv_def drafts_inv_def used_ids_def)
next
  case (loads now i owner s d)
  then have d: "d \<in> set (in_drafts s)" using get_draft_Inr by blast
  have "grows d c" if "c \<in> set (in_drafts s)" "d_id d = d_id c" for c
    using loads.prems d that by (auto simp: intake_inv_def drafts_inv_def distinct_map dest: inj_onD)
  then show ?case using loads.prems by (auto simp: intake_inv_def drafts_inv_def)
next
  case (answers d s now ask responses d' ds)
  from answers.hyps(2) obtain c where c: "find_draft (in_drafts s) (d_id d) = Some c" "d_status d = Drafting"
    "d_status c = Drafting" "d_round c = d_round d" "ds = set_draft (answered_row now R ask responses d c) (in_drafts s)"
    by (elim answer_act_Inr)
  note f = find_draft_Some[OF c(1)]
  have "draft_ok R c" "grows d c"
    using answers f by (auto simp: intake_inv_def drafts_inv_def)
  from answered_row_ok[OF this(1) c(2-4) this(2)] show ?case
    using answers.prems f c(3) unfolding c(5) intake_inv_def
    by (auto intro!: drafts_inv_set[where c = c] simp: active_def)
next
  case (confirms d s now extra i ds db)
  from confirms.hyps(2) obtain c profile interval where c: "find_draft (in_drafts s) (d_id d) = Some c" "active (d_status c)"
    "create_task_from_fields now (task_args (resolved_fields d) profile interval (d_owner d) extra) (in_board s) = Inr (i, db)"
    "ds = set_draft (c\<lparr>d_status := Confirmed, d_resolved_task_id := Some i\<rparr>) (in_drafts s)"
    by (elim confirm_act_Inr)
  note f = find_draft_Some[OF c(1)]
  from confirms.prems(1) have inv: "drafts_inv R (in_drafts s) (in_seen s) (in_made s)" "board_inv (in_board s)"
    "distinct (map snd (in_made s))" "snd ` set (in_made s) \<subseteq> set (ids (in_board s))" by (simp_all add: intake_inv_def)
  from create_task_from_fields_cases[OF inv(2), where now = now and a = "task_args (resolved_fields d) profile interval (d_owner d) extra"] c(3)
  have b: "board_inv db" "i \<notin> set (ids (in_board s))" "set (ids db) = insert i (set (ids (in_board s)))"
    using fresh_id_notin[of "ids (in_board s)"] by (auto simp: ids_def)
  have new: "d_id d \<notin> fst ` set (in_made s)"
    using inv(1) f c(2) unfolding drafts_inv_def by metis
  have "drafts_inv R ds (in_seen s) (in_made s)"
    unfolding c(4) using inv(1) f by (intro drafts_inv_status) (auto simp: active_def)
  moreover have "\<not> active (d_status x)" if "x \<in> set ds" "d_id x = d_id d" for x
    using that f in_set_draft[of x "c\<lparr>d_status := Confirmed, d_resolved_task_id := Some i\<rparr>" "in_drafts s"]
    unfolding c(4) by (auto simp: active_def)
  ultimately have "drafts_inv R ds (in_seen s) ((d_id d, i) # in_made s)"
    using new by (auto simp: drafts_inv_def)
  then show ?case using b inv(3,4) by (auto simp: intake_inv_def)
next
  case (cancels d s d' ds)
  from cancels.hyps(2) obtain c where "find_draft (in_drafts s) (d_id d) = Some c"
    "ds = set_draft (c\<lparr>d_status := Abandoned\<rparr>) (in_drafts s)" by (elim cancel_act_Inr)
  then show ?case
    using cancels.prems find_draft_Some drafts_inv_status(1)[where st = Abandoned]
    by (fastforce simp: intake_inv_def active_def)
next
  case (sweeps now s m n ds)
  then show ?case using sweep_keeps_inv by (auto simp: intake_inv_def)
next
  case (board s db)
  then show ?case
    using board_step_inv board_step_evolves[THEN evolves_ids] by (fastforce simp: intake_inv_def)
qed

lemma intake_reachable_inv:
  assumes "(intake_step R)\<^sup>*\<^sup>* s s'" "intake_inv R s" "1 \<le> R"
  shows "intake_inv R s'"
  using assms by (induction rule: rtranclp_induct) (auto intro: intake_step_inv)

lemma user_turns:
  "map tr_role c = concat (replicate n [User, Assistant]) \<Longrightarrow> length (filter (\<lambda>t. tr_role t = User) c) = n"
proof -
  assume a: "map tr_role c = concat (replicate n [User, Assistant])"
  have "length (filter (\<lambda>t. tr_role t = User) c) = length (filter (\<lambda>r. r = User) (map tr_role c))"
    by (simp add: filter_map comp_def)
  also have "\<dots> = n" unfolding a by (induction n) auto
  finally show ?thesis .
qed

lemma draft_ok_answers:
  assumes "draft_ok R d"
  shows "length (answered_clarifications d) = d_round d"
proof -
  have "map tr_role (d_conversation d) = concat (replicate (Suc (d_round d)) [User, Assistant])"
    using assms by (simp add: draft_ok_def)
  from user_turns[OF this] show ?thesis by (simp add: answered_clarifications_def)
qed

lemma find_set_draft: "d_id d = i \<Longrightarrow> find_draft ds i \<noteq> None \<Longrightarrow> find_draft (set_draft d ds) i = Some d"
  by (induction ds) (auto simp: find_draft_def set_draft_def split: if_splits)

lemma set_draft_other: "x \<in> set ds \<Longrightarrow> d_id x \<noteq> d_id d \<Longrightarrow> x \<in> set (set_draft d ds)"
  by (force simp: set_draft_def)

lemma profile_of_exists: "profile_of j db = Inr p \<Longrightarrow> profile_exists db p"
  by (auto simp: profile_of_def profile_exists_def find_Some_iff split: if_splits json.splits option.splits)
    (metis fst_conv image_eqI nth_mem)

lemma json_text_Inl: "json_text j = Inl e \<Longrightarrow> \<forall>x. j \<notin> {JNull, JStr x}"
  by (auto simp: json_text_def split: json.splits)

lemma profile_of_Inl: "profile_of j db = Inl e \<Longrightarrow> json_truthy j \<and> (\<forall>x. j \<noteq> JStr x)"
  by (auto simp: profile_of_def split: json.splits if_splits)

lemma confirm_act_Inl:
  assumes "confirm_act now owner extra d ds db = Inl e" "find_draft ds (d_id d) = Some d" "active (d_status d)" "board_inv db"
  shows "(\<exists>p. e = Other p) \<and> (\<not> distinct extra \<or> (\<forall>x. fl_repeat_interval (resolved_fields d) \<notin> {JNull, JStr x}) \<or>
    json_truthy (fl_profile (resolved_fields d)) \<and> (\<forall>x. fl_profile (resolved_fields d) \<noteq> JStr x))"
proof -
  let ?f = "resolved_fields d"
  obtain p where e: "e = Other p" using assms(1-3) by (auto simp: confirm_act_def as_other_def Let_def split: sum.splits)
  show ?thesis
  proof (cases "profile_of (fl_profile ?f) db")
    case (Inl x)
    from profile_of_Inl[OF this] e show ?thesis by blast
  next
    case pr: (Inr profile)
    show ?thesis
    proof (cases "json_text (fl_repeat_interval ?f)")
      case (Inl x)
      from json_text_Inl[OF this] e show ?thesis by blast
    next
      case (Inr interval)
      from profile_of_exists[OF pr] have ex: "profile_exists db (c_profile_id (task_args ?f profile interval owner extra))"
        by (simp add: task_args_def)
      have "\<exists>x. create_task_from_fields now (task_args ?f profile interval owner extra) db = Inl x"
        using assms(1-3) pr Inr by (auto simp: confirm_act_def as_other_def Let_def bind_res_def split: sum.splits)
      then have "\<not> distinct extra"
        using create_task_from_fields_cases[OF assms(4), where now = now and a = "task_args ?f profile interval owner extra"] ex
        by (auto simp: task_args_def)
      with e show ?thesis by blast
    qed
  qed
qed

lemma resolved_category: "fl_category (resolved_fields d) \<in> {''immediate'', ''scheduled'', ''repeating''}"
  by (auto simp: resolved_fields_def Let_def VALID_CATEGORIES_def split: option.splits)

lemma created_task:
  assumes "board_inv db" "create_task_from_fields now (task_args (resolved_fields d) profile interval owner extra) db = Inr (i, db')"
  shows "\<exists>t. (tasks db' = tasks db @ [t] \<and> t_id t = i \<and> t_title t = fl_title (resolved_fields d) \<and>
      t_description t = Some (fl_description (resolved_fields d)) \<and>
      t_category t = Some (fl_category (resolved_fields d)) \<and> t_created_by t = Some owner \<and>
      t_status t = (if ''Needs Info'' \<in> set extra then Review else if fl_category (resolved_fields d) = ''immediate'' then Pending else Scheduled)) \<and>
    board_inv db' \<and> tag_set db' i = set extra \<and> find_task db' i = Some t"
proof -
  let ?a = "task_args (resolved_fields d) profile interval owner extra"
  from create_task_from_fields_cases[OF assms(1), where now = now and a = ?a] assms(2) obtain t where
    t: "tasks db' = tasks db @ [t]" "t_id t = i" "t_status t = route ?a" "i = fresh_id (ids db)"
      "t = touch now ((new_row now ?a db)\<lparr>t_status := route ?a, t_position := t_position t\<rparr>)"
    and b: "board_inv db'" "tag_set db' i = set extra" by (auto simp: task_args_def)
  have f: "t_title t = c_title ?a" "t_description t = c_description ?a" "t_category t = Some (c_category ?a)" "t_created_by t = c_created_by ?a"
    by (subst t(5), simp add: touch_def new_row_def)+
  have "find_task db' i = Some t"
    using find_task_unique[of db' t] t(1,2) b(1) by (simp add: board_inv_def)
  moreover have "route ?a = (if ''Needs Info'' \<in> set extra then Review else if fl_category (resolved_fields d) = ''immediate'' then Pending else Scheduled)"
    using resolved_category[of d] by (auto simp: route_def task_args_def)
  ultimately show ?thesis using t(1-3) f b by (auto simp: task_args_def)
qed

subsection \<open>Properties\<close>

definition no_intake :: intake where
  "no_intake = \<lparr>in_drafts = [], in_seen = [], in_made = [], in_board = empty_db\<rparr>"

lemma no_intake_inv: "intake_inv R no_intake"
  by (simp add: no_intake_def intake_inv_def drafts_inv_def board_inv_empty)

text \<open>C24. However requests to answer, confirm and cancel interleave, a draft is turned into at most one
  task: each draft that was confirmed has a task of its own on the board, and is not active any more.\<close>

theorem one_task_per_draft:
  assumes "(intake_step R)\<^sup>*\<^sup>* no_intake s" "1 \<le> R"
  shows "distinct (map fst (in_made s)) \<and> distinct (map snd (in_made s)) \<and>
    (\<forall>(i, t) \<in> set (in_made s). find_task (in_board s) t \<noteq> None \<and>
       (\<forall>d \<in> set (in_drafts s). d_id d = i \<longrightarrow> d_status d \<in> {Confirmed, Abandoned}))"
proof -
  have "intake_inv R s" by (rule intake_reachable_inv[OF assms(1) no_intake_inv assms(2)])
  then have inv: "distinct (map fst (in_made s))" "distinct (map snd (in_made s))"
    "snd ` set (in_made s) \<subseteq> set (ids (in_board s))"
    "\<forall>d \<in> set (in_drafts s). d_id d \<in> fst ` set (in_made s) \<longrightarrow> \<not> active (d_status d)"
    by (auto simp: intake_inv_def drafts_inv_def)
  have "find_task (in_board s) t \<noteq> None" "d \<in> set (in_drafts s) \<Longrightarrow> d_id d = i \<Longrightarrow> d_status d \<in> {Confirmed, Abandoned}"
    if "(i, t) \<in> set (in_made s)" for i t d
  proof -
    have "t \<in> set (ids (in_board s))" using inv(3) that by force
    then show "find_task (in_board s) t \<noteq> None" by (simp add: find_task_None)
    assume "d \<in> set (in_drafts s)" "d_id d = i"
    then have "\<not> active (d_status d)" using inv(4) that by force
    then show "d_status d \<in> {Confirmed, Abandoned}" by (cases "d_status d") (simp_all add: active_def)
  qed
  with inv(1,2) show ?thesis by blast
qed

text \<open>Clarification ends and keeps what was said: a draft never passes the configured number of
  rounds, asks only while it is below it, and holds one turn of the user for each round it was
  answered in; an answer to a draft that asks is accepted, adds its turn after all earlier ones, and in
  the last round leaves the draft ready.\<close>

theorem clarification_is_bounded:
  assumes "(intake_step R)\<^sup>*\<^sup>* no_intake s" "1 \<le> R" "d \<in> set (in_drafts s)"
  shows "d_round d \<le> R \<and> length (answered_clarifications d) = d_round d \<and>
    (if d_status d = Drafting then d_round d < R \<and> d_questions d \<noteq> [] \<and>
       (case answer_act now R ask responses d (in_drafts s) of
          Inl _ \<Rightarrow> False
        | Inr (d', ds) \<Rightarrow> find_draft ds (d_id d) = Some d' \<and> d_round d' = d_round d + 1 \<and>
            answered_clarifications d' = answered_clarifications d @ [answer_content responses d] \<and>
            (if d_round d + 1 = R then d_status d' = Ready else True))
     else True)"
proof -
  have "intake_inv R s" by (rule intake_reachable_inv[OF assms(1) no_intake_inv assms(2)])
  then have ok: "draft_ok R d" "distinct (map d_id (in_drafts s))"
    using assms(3) by (auto simp: intake_inv_def drafts_inv_def)
  have f: "find_draft (in_drafts s) (d_id d) = Some d" by (rule find_draft_in[OF ok(2) assms(3)])
  show ?thesis
  proof (cases "d_status d = Drafting")
    case True
    let ?d = "reclassified now R ask responses d"
    have q: "d_questions d \<noteq> []" "d_round d < R" using ok(1) True by (simp_all add: draft_ok_def)
    then have act: "answer_act now R ask responses d (in_drafts s) =
        Inr (?d, set_draft (answered_row now R ask responses d d) (in_drafts s))"
      using True f by (simp add: answer_act_def)
    have row: "answered_row now R ask responses d d = ?d"
      by (simp add: answered_row_def reclassified_def Let_def)
    obtain x where "d_conversation ?d = d_conversation (answered now responses d) @ [\<lparr>tr_role = Assistant, tr_content = x, tr_ts = now\<rparr>]"
      using classify_conversation[of now ask "R \<le> d_round (answered now responses d)" "answered now responses d"]
      by (auto simp: reclassified_def Let_def)
    moreover have "filter (\<lambda>t. tr_role t = User) (d_conversation d) \<noteq> []"
      using ok(1) by (cases "d_conversation d") (auto simp: draft_ok_def)
    ultimately have "answered_clarifications ?d = answered_clarifications d @ [answer_content responses d]"
      by (cases "filter (\<lambda>t. tr_role t = User) (d_conversation d)") (simp_all add: answered_clarifications_def)
    moreover have "d_round d + 1 = R \<Longrightarrow> d_status ?d = Ready"
      by (simp add: reclassified_def Let_def classify_status)
    ultimately show ?thesis
      using True q ok(1) f draft_ok_answers[OF ok(1)] find_set_draft[of ?d "d_id d" "in_drafts s"]
      by (simp add: act row draft_ok_def)
  next
    case False
    then show ?thesis using ok(1) draft_ok_answers[OF ok(1)] by (simp add: draft_ok_def)
  qed
qed

text \<open>What runs is what was previewed: confirming an active draft adds exactly one task, owned by
  the caller, with the title, description and category the preview shows, waiting to run at once or at
  its time, and the draft points to it; it fails only for values of the classifier that are no text or
  tags named twice, and then for a draft that is not active.  Without a description of the
  classifier's, the task's description holds the input and every answer.\<close>

theorem confirm_runs_the_preview:
  assumes "get_draft now draft_id owner ds = Inr d" "distinct (map d_id ds)" "board_inv db"
  shows "case confirm now draft_id owner extra ds db of
      Inl e \<Rightarrow> if active (d_status d) then (\<exists>p. e = Other p) \<and> (\<not> distinct extra \<or> (\<forall>x. sp_repeat_interval (d_spec d) \<notin> {JNull, JStr x}) \<or>
          json_truthy (sp_profile (d_spec d)) \<and> (\<forall>x. sp_profile (d_spec d) \<noteq> JStr x))
        else e = DraftFinished ''This draft has already been confirmed or cancelled''
    | Inr (i, ds', db') \<Rightarrow> active (d_status d) \<and> board_inv db' \<and> tag_set db' i = set extra \<and>
        (\<exists>t. tasks db' = tasks db @ [t] \<and> t_id t = i \<and> t_title t = fl_title (v_preview (draft_view d n)) \<and>
           t_description t = Some (fl_description (v_preview (draft_view d n))) \<and>
           t_category t = Some (fl_category (v_preview (draft_view d n))) \<and> t_created_by t = Some owner \<and>
           t_status t = (if ''Needs Info'' \<in> set extra then Review
             else if fl_category (v_preview (draft_view d n)) = ''immediate'' then Pending else Scheduled)) \<and>
        map_option d_resolved_task_id (find_draft ds' (d_id d)) = Some (Some i) \<and>
        (\<forall>c \<in> set ds. c \<noteq> d \<longrightarrow> c \<in> set ds') \<and>
        (if \<not> truthy (sp_description (d_spec d)) \<and> answered_clarifications d \<noteq> []
         then \<exists>t. find_task db' i = Some t \<and> t_description t = Some (d_input d @ [newline, newline] @ ''Clarifications:'' @ [newline] @
           join [newline] (answered_clarifications d)) else True)"
proof -
  from get_draft_Inr[OF assms(1)] have d: "d \<in> set ds" "d_owner d = owner" by simp_all
  have f: "find_draft ds (d_id d) = Some d" by (rule find_draft_in[OF assms(2) d(1)])
  let ?f = "resolved_fields d"
  have c: "confirm now draft_id owner extra ds db = confirm_act now owner extra d ds db" by (simp add: confirm_def assms(1))
  show ?thesis
  proof (cases "confirm_act now owner extra d ds db")
    case (Inl e)
    show ?thesis
    proof (cases "active (d_status d)")
      case False
      then show ?thesis using Inl f unfolding c by (simp add: confirm_act_def)
    next
      case True
      have "(\<exists>p. e = Other p) \<and> (\<not> distinct extra \<or> (\<forall>x. sp_repeat_interval (d_spec d) \<notin> {JNull, JStr x}) \<or>
          json_truthy (sp_profile (d_spec d)) \<and> (\<forall>x. sp_profile (d_spec d) \<noteq> JStr x))"
        using confirm_act_Inl[OF Inl f True assms(3)] by (simp add: resolved_fields_def Let_def)
      then show ?thesis using Inl True unfolding c by simp
    qed
  next
    case (Inr r)
    obtain i ds' db' where r: "r = (i, ds', db')" by (cases r)
    from Inr obtain c0 profile interval where a: "find_draft ds (d_id d) = Some c0" "active (d_status c0)"
      "create_task_from_fields now (task_args ?f profile interval owner extra) db = Inr (i, db')"
      "ds' = set_draft (c0\<lparr>d_status := Confirmed, d_resolved_task_id := Some i\<rparr>) ds"
      unfolding r by (elim confirm_act_Inr)
    from a(1) f have c0: "c0 = d" by simp
    let ?t = "\<lambda>t. tasks db' = tasks db @ [t] \<and> t_id t = i \<and> t_title t = fl_title ?f \<and> t_description t = Some (fl_description ?f) \<and>
      t_category t = Some (fl_category ?f) \<and> t_created_by t = Some owner \<and>
      t_status t = (if ''Needs Info'' \<in> set extra then Review else if fl_category ?f = ''immediate'' then Pending else Scheduled)"
    from created_task[OF assms(3) a(3)] obtain t where t: "?t t" "board_inv db'" "tag_set db' i = set extra"
      "find_task db' i = Some t" by blast
    have "find_draft ds' (d_id d) = Some (d\<lparr>d_status := Confirmed, d_resolved_task_id := Some i\<rparr>)"
      unfolding a(4) c0 using f by (intro find_set_draft) simp_all
    moreover have "c \<in> set ds'" if "c \<in> set ds" "c \<noteq> d" for c
      unfolding a(4) c0 using that d(1) assms(2) by (intro set_draft_other) (auto simp: distinct_map dest: inj_onD)
    moreover have "\<exists>t. find_task db' i = Some t \<and> t_description t = Some (d_input d @ [newline, newline] @ ''Clarifications:'' @ [newline] @
           join [newline] (answered_clarifications d))" if "\<not> truthy (sp_description (d_spec d))" "answered_clarifications d \<noteq> []"
      using t(1,4) that by (simp add: resolved_fields_def composed_description_def Let_def)
    ultimately show ?thesis
      using t a(2) unfolding c Inr r c0 by (auto simp: draft_view_def)
  qed
qed


definition sample_question :: question where
  "sample_question = \<lparr>q_id = ''due'', q_text = ''When?'', q_kind = ''free_text'', q_choices = None\<rparr>"

definition sample_ask :: classifier where
  "sample_ask h input = \<lparr>l_title = ''Write report'', l_success = True, l_category = ''immediate'', l_execute_at = JNull,
     l_repeat_interval = JStr ''null'', l_repeat_until = JNull, l_description = None, l_profile = JNull, l_cause = None,
     l_questions = (if h = [] then Some [sample_question] else None)\<rparr>"

definition sample_draft :: draft where
  "sample_draft = start 0 sample_ask 1 '' write the report '' ''ann'' ''web''"

definition uuid_one :: string where "uuid_one = ''00000000-0000-0000-0000-000000000001''"

definition with_draft :: intake where
  "with_draft = no_intake\<lparr>in_drafts := [sample_draft], in_seen := [sample_draft]\<rparr>"

lemma with_draft_reachable: "(intake_step R)\<^sup>*\<^sup>* no_intake with_draft"
proof -
  have c: "get_draft 1 uuid_one ''ann'' [sample_draft] = Inr sample_draft" "valid_input '' write the report ''" by code_simp+
  have "intake_step R no_intake (no_intake\<lparr>in_drafts := in_drafts no_intake @ [start 0 sample_ask 1 '' write the report '' ''ann'' ''web'']\<rparr>)"
    by (rule intake_step.starts[OF _ c(2)]) (simp add: used_ids_def no_intake_def)
  then have "intake_step R no_intake (no_intake\<lparr>in_drafts := [sample_draft]\<rparr>)"
    by (simp add: no_intake_def sample_draft_def)
  moreover have "intake_step R (no_intake\<lparr>in_drafts := [sample_draft]\<rparr>) with_draft"
    using intake_step.loads[of 1 uuid_one "''ann''" "no_intake\<lparr>in_drafts := [sample_draft]\<rparr>" sample_draft R] c(1)
    by (simp add: with_draft_def no_intake_def)
  ultimately show ?thesis by (meson rtranclp.rtrancl_into_rtrancl rtranclp.rtrancl_refl)
qed

definition confirmed_intake :: intake where
  "confirmed_intake = (case confirm_act 2 ''ann'' [''web''] sample_draft [sample_draft] empty_db of
     Inr (i, ds, db) \<Rightarrow> with_draft\<lparr>in_drafts := ds, in_made := [(1, i)], in_board := db\<rparr>)"

theorem one_task_per_draft_witness:
  "in_made confirmed_intake = [(1, 1)] \<and> distinct (map fst (in_made confirmed_intake)) \<and>
   map t_title (tasks (in_board confirmed_intake)) = [''Write report'']"
proof -
  have v: "in_made confirmed_intake = [(1, 1)]" "map t_title (tasks (in_board confirmed_intake)) = [''Write report'']"
    "(case confirm_act 2 ''ann'' [''web''] sample_draft [sample_draft] empty_db of Inr _ \<Rightarrow> True | Inl _ \<Rightarrow> False)"
    "d_owner sample_draft = ''ann''" "d_id sample_draft = 1"
    by code_simp+
  then obtain i ds db where r: "confirm_act 2 (d_owner sample_draft) [''web''] sample_draft [sample_draft] empty_db = Inr (i, ds, db)"
    by (auto split: sum.splits)
  have "intake_step 2 with_draft (with_draft\<lparr>in_drafts := ds, in_made := (d_id sample_draft, i) # in_made with_draft, in_board := db\<rparr>)"
    by (rule intake_step.confirms[where now = 2 and extra = "[''web'']"]) (use r in \<open>simp_all add: with_draft_def no_intake_def\<close>)
  then have "intake_step 2 with_draft confirmed_intake"
    using r v(4,5) by (simp add: confirmed_intake_def with_draft_def no_intake_def)
  with with_draft_reachable[of 2] have "(intake_step 2)\<^sup>*\<^sup>* no_intake confirmed_intake" by (rule rtranclp.rtrancl_into_rtrancl)
  from one_task_per_draft[OF this] v show ?thesis by simp
qed

theorem clarification_is_bounded_witness:
  "d_status sample_draft = Drafting \<and>
   (case answer_act 5 1 sample_ask [(''due'', '' friday '')] sample_draft [sample_draft] of
      Inl _ \<Rightarrow> False
    | Inr (d, _) \<Rightarrow> d_status d = Ready \<and> answered_clarifications d = [''When? -> friday''])"
proof -
  have v: "d_status sample_draft = Drafting" "d_round sample_draft = 0" "answered_clarifications sample_draft = []"
    "answer_content [(''due'', '' friday '')] sample_draft = ''When? -> friday''" by code_simp+
  have d: "sample_draft \<in> set (in_drafts with_draft)" "in_drafts with_draft = [sample_draft]" by (simp_all add: with_draft_def)
  show ?thesis
    using clarification_is_bounded[OF with_draft_reachable[of 1] _ d(1), where now = 5 and ask = sample_ask and responses = "[(''due'', '' friday '')]"] v
    unfolding d(2) by (auto split: sum.splits)
qed

definition answered_draft :: draft where
  "answered_draft = (case answer_act 5 2 sample_ask [(''due'', '' friday '')] sample_draft [sample_draft] of Inr (d, _) \<Rightarrow> d)"

theorem confirm_runs_the_preview_witness:
  "case confirm 6 uuid_one ''ann'' [''web''] [answered_draft] empty_db of
     Inl _ \<Rightarrow> False
   | Inr (i, _, db) \<Rightarrow> tag_set db i = {''web''} \<and>
       map_option t_description (find_task db i) = Some (Some (''write the report'' @ [newline, newline] @ ''Clarifications:'' @
         [newline] @ ''When? -> friday''))"
proof -
  have c: "get_draft 6 uuid_one ''ann'' [answered_draft] = Inr answered_draft" "\<not> truthy (sp_description (d_spec answered_draft))"
    "answered_clarifications answered_draft = [''When? -> friday'']" "d_input answered_draft = ''write the report''"
    "(case confirm 6 uuid_one ''ann'' [''web''] [answered_draft] empty_db of Inl _ \<Rightarrow> False | Inr _ \<Rightarrow> True)"
    by code_simp+
  then obtain i ds db where r: "confirm 6 uuid_one ''ann'' [''web''] [answered_draft] empty_db = Inr (i, ds, db)"
    by (auto split: sum.splits)
  show ?thesis
    using confirm_runs_the_preview[OF c(1) _ board_inv_empty, where extra = "[''web'']" and n = 0] c(2-4) unfolding r by auto
qed

text \<open>Drafts are private: to anybody but its owner a draft answers like one that does not exist,
  whatever id is asked for, it is in no listing of theirs, and none of their requests changes it.\<close>

theorem drafts_are_private:
  assumes "distinct (map d_id ds)" "d \<in> set ds" "d_owner d \<noteq> owner"
  shows "get_draft now draft_id owner ds = get_draft now draft_id owner (filter (\<lambda>c. d_id c \<noteq> d_id d) ds) \<and>
    d \<notin> set (list_active now owner ds) \<and>
    (case answer now R ask draft_id owner responses ds of Inl _ \<Rightarrow> True | Inr (_, ds') \<Rightarrow> d \<in> set ds') \<and>
    (case confirm now draft_id owner extra ds db of Inl _ \<Rightarrow> True | Inr (_, ds', _) \<Rightarrow> d \<in> set ds') \<and>
    (case cancel now draft_id owner ds of Inl _ \<Rightarrow> True | Inr (_, ds') \<Rightarrow> d \<in> set ds')"
proof -
  have gone: "find_draft (filter (\<lambda>c. d_id c \<noteq> d_id d) ds) i = (if i = d_id d then None else find_draft ds i)" for i
    unfolding find_draft_def by (induction ds) auto
  have f: "find_draft ds (d_id d) = Some d" by (rule find_draft_in[OF assms(1,2)])
  then have "get_draft now draft_id owner ds = get_draft now draft_id owner (filter (\<lambda>c. d_id c \<noteq> d_id d) ds)"
    using assms(3) by (auto simp: get_draft_def gone split: option.splits)
  moreover have own: "d_id c \<noteq> d_id d" if "get_draft now draft_id owner ds = Inr c" for c
    using get_draft_Inr[OF that] assms by (auto simp: distinct_map dest: inj_onD)
  have keep: "d \<in> set (set_draft x ds)" if "get_draft now draft_id owner ds = Inr c" "find_draft ds (d_id c) = Some c'" "d_id x = d_id c'" for c c' x
    using own[OF that(1)] find_draft_Some[OF that(2)] that(3) assms(2) by (intro set_draft_other) auto
  have "case answer now R ask draft_id owner responses ds of Inl _ \<Rightarrow> True | Inr (_, ds') \<Rightarrow> d \<in> set ds'"
    by (auto simp: answer_def bind_res_eq_Inr intro!: keep elim!: answer_act_Inr split: sum.splits)
  moreover have "case confirm now draft_id owner extra ds db of Inl _ \<Rightarrow> True | Inr (_, ds', _) \<Rightarrow> d \<in> set ds'"
    by (auto simp: confirm_def bind_res_eq_Inr intro!: keep elim!: confirm_act_Inr split: sum.splits)
  moreover have "case cancel now draft_id owner ds of Inl _ \<Rightarrow> True | Inr (_, ds') \<Rightarrow> d \<in> set ds'"
    by (auto simp: cancel_def bind_res_eq_Inr intro!: keep elim!: cancel_act_Inr split: sum.splits)
  ultimately show ?thesis using assms(3) by (simp add: list_active_def)
qed

theorem drafts_are_private_witness:
  "get_draft 1 uuid_one ''bob'' [sample_draft] = Inl (DraftNotFound uuid_one) \<and> sample_draft \<notin> set (list_active 1 ''bob'' [sample_draft])"
proof -
  have "d_owner sample_draft \<noteq> ''bob''" "get_draft 1 uuid_one ''bob'' [] = Inl (DraftNotFound uuid_one)" by code_simp+
  then show ?thesis
    using drafts_are_private[where ds = "[sample_draft]" and d = sample_draft and owner = "''bob''" and now = 1 and draft_id = uuid_one] by simp
qed

text \<open>\<open>cancel\<close> reads the status and then writes without a condition: a request that loaded the draft
  before it was confirmed reports it as cancelled, over the task that runs.\<close>

lemma cancel_overwrites_confirmed:
  assumes "confirm_act now owner extra snap ds db = Inr (i, ds', db')" "active (d_status snap)"
  shows "\<exists>d ds''. cancel_act snap ds' = Inr (d, ds'') \<and>
    map_option (\<lambda>c. (d_status c, d_resolved_task_id c)) (find_draft ds'' (d_id snap)) = Some (Abandoned, Some i)"
proof -
  from assms(1) obtain c where c: "find_draft ds (d_id snap) = Some c"
    "ds' = set_draft (c\<lparr>d_status := Confirmed, d_resolved_task_id := Some i\<rparr>) ds" by (elim confirm_act_Inr)
  note f = find_draft_Some[OF c(1)]
  have "find_draft ds' (d_id snap) = Some (c\<lparr>d_status := Confirmed, d_resolved_task_id := Some i\<rparr>)"
    unfolding c(2) using c(1) f by (intro find_set_draft) simp_all
  then show ?thesis
    using assms(2) f by (simp add: cancel_act_def find_set_draft)
qed

text \<open>\<open>confirm\<close> runs the preview it loaded: an answer accepted meanwhile is not in the task.\<close>

lemma stale_confirm_loses_answer:
  "case answer_act 5 2 sample_ask [(''due'', ''friday'')] sample_draft [sample_draft] of
     Inl _ \<Rightarrow> False
   | Inr (d, ds) \<Rightarrow> answered_clarifications d = [''When? -> friday''] \<and>
       (case confirm_act 6 ''ann'' [] sample_draft ds empty_db of
          Inl _ \<Rightarrow> False | Inr (_, _, db) \<Rightarrow> map t_description (tasks db) = [Some ''write the report''])"
  by code_simp

end
